(* ===== verification/Prelude.thy ===== *)
theory Prelude
  imports Main "HOL-Library.Word" "HOL-Library.Multiset"
begin

text \<open>
  Shared vocabulary of the development: the machine integer types of the Rust
  sources, the casts between them, and the named collections of rewrite rules the
  component theories add to.

  Rust type                    model
    u32, u64                   32 word, 64 word (arithmetic wraps)
    usize                      nat (a length or an index; never close to 2^64)
    i32, i64                   int (the casts below write the wrap-around out)
    f64                        F64.f64
    Instant, Duration          nat, in nanoseconds
    Option, Result             option, sum with the error on the left
\<close>

named_theorems quota_simps \<open>rewrite rules for the quota maps\<close>
named_theorems json_simps \<open>rewrite rules for JSON lookups\<close>
named_theorems f64_simps \<open>rewrite rules for rounded arithmetic\<close>
named_theorems f64_intros \<open>monotonicity of rounded arithmetic\<close>

type_synonym u32 = "32 word"
type_synonym u64 = "64 word"

text \<open>\<open>x as u32\<close> for a signed \<open>x\<close>: two's complement truncation.\<close>

definition u32_of_int :: "int \<Rightarrow> u32" where
  "u32_of_int i = word_of_int i"

text \<open>\<open>x as i32\<close> for an unsigned \<open>x\<close> of at least 32 bits.\<close>

definition i32_of_nat :: "nat \<Rightarrow> int" where
  "i32_of_nat n = sint (of_nat n :: u32)"

text \<open>\<open>saturating_sub\<close> on \<open>u32\<close>.\<close>

definition sat_sub_u32 :: "u32 \<Rightarrow> u32 \<Rightarrow> u32" where
  "sat_sub_u32 a b = (if a < b then 0 else a - b)"

lemma unat_sat_sub_u32 [simp]: "unat (sat_sub_u32 a b) = unat a - unat b"
  by (auto simp: sat_sub_u32_def word_less_nat_alt unat_sub word_le_nat_alt)

lemma u32_succ_le: "(x::u32) < y \<Longrightarrow> x + 1 \<le> y"
  by (rule inc_le)

lemma u32_unat_succ: "(x::u32) < y \<Longrightarrow> unat (x + 1) = Suc (unat x)"
  by unat_arith

lemma u32_unat_pred: "(x::u32) \<noteq> 0 \<Longrightarrow> unat (x - 1) = unat x - 1"
  by (metis unat_minus_one)

text \<open>Options.\<close>

lemma map_option_case: "map_option f x = (case x of None \<Rightarrow> None | Some y \<Rightarrow> Some (f y))"
  by (cases x) simp_all

definition unwrap_or :: "'a option \<Rightarrow> 'a \<Rightarrow> 'a" where
  "unwrap_or x d = (case x of None \<Rightarrow> d | Some y \<Rightarrow> y)"

definition or_else :: "'a option \<Rightarrow> 'a option \<Rightarrow> 'a option" where
  "or_else x y = (case x of None \<Rightarrow> y | Some z \<Rightarrow> Some z)"

lemma unwrap_or_simps [simp]: "unwrap_or None d = d" "unwrap_or (Some y) d = y"
  by (simp_all add: unwrap_or_def)

lemma or_else_simps [simp]: "or_else None y = y" "or_else (Some z) y = Some z"
  by (simp_all add: or_else_def)

lemma or_else_None_iff [simp]: "or_else x y = None \<longleftrightarrow> x = None \<and> y = None"
  by (cases x) simp_all

text \<open>Code that can panic: slicing a string inside a character, for one.\<close>

datatype 'a run = Returns 'a | Panics

definition run_map :: "('a \<Rightarrow> 'b) \<Rightarrow> 'a run \<Rightarrow> 'b run" where
  "run_map f r = (case r of Returns x \<Rightarrow> Returns (f x) | Panics \<Rightarrow> Panics)"

text \<open>\<open>i32\<close> results: two's complement wrap-around of release builds.\<close>

definition i32_wrap :: "int \<Rightarrow> int" where
  "i32_wrap i = sint (word_of_int i :: u32)"

lemma i32_wrap_id [simp]: "- (2 ^ 31) \<le> i \<Longrightarrow> i < 2 ^ 31 \<Longrightarrow> i32_wrap i = i"
  by (simp add: i32_wrap_def sint_sbintrunc' signed_take_bit_int_eq_self)

text \<open>\<open>std::cmp::Ordering\<close>, and the stable sort by a comparison.\<close>

datatype ordering = Less | Equal | Greater

definition cmp_of :: "'a::linorder \<Rightarrow> 'a \<Rightarrow> ordering" where
  "cmp_of x y = (if x < y then Less else if x = y then Equal else Greater)"

definition then_with :: "ordering \<Rightarrow> ordering \<Rightarrow> ordering" where
  "then_with a b = (if a = Equal then b else a)"

fun insert_by :: "('a \<Rightarrow> 'a \<Rightarrow> ordering) \<Rightarrow> 'a \<Rightarrow> 'a list \<Rightarrow> 'a list" where
  "insert_by cmp x [] = [x]"
| "insert_by cmp x (y # ys) = (if cmp x y = Greater then y # insert_by cmp x ys else x # y # ys)"

definition sort_by :: "('a \<Rightarrow> 'a \<Rightarrow> ordering) \<Rightarrow> 'a list \<Rightarrow> 'a list" where
  "sort_by cmp xs = foldr (insert_by cmp) xs []"

lemma set_insert_by [simp]: "set (insert_by cmp x ys) = insert x (set ys)"
  by (induction ys) auto

lemma set_sort_by [simp]: "set (sort_by cmp xs) = set xs"
  by (induction xs) (auto simp: sort_by_def)

lemma length_insert_by [simp]: "length (insert_by cmp x ys) = Suc (length ys)"
  by (induction ys) auto

lemma length_sort_by [simp]: "length (sort_by cmp xs) = length xs"
  by (induction xs) (auto simp: sort_by_def)

lemma mset_sort_by: "mset (sort_by cmp xs) = mset xs"
proof (induction xs)
  case (Cons x xs)
  have "mset (insert_by cmp x ys) = add_mset x (mset ys)" for ys by (induction ys) auto
  with Cons show ?case by (simp add: sort_by_def)
qed (simp add: sort_by_def)

text \<open>A comparison that decides a key first sorts by that key.\<close>

lemma sorted_insert_by:
  assumes "\<And>a b. cmp a b = Greater \<Longrightarrow> key b \<le> (key a :: 'k::linorder)" "\<And>a b. cmp a b \<noteq> Greater \<Longrightarrow> key a \<le> key b"
    and "sorted (map key ys)"
  shows "sorted (map key (insert_by cmp x ys))"
  using assms(3)
proof (induction ys)
  case (Cons y ys)
  then show ?case using assms(1) [of x y] assms(2) [of x y] by (auto intro: order_trans)
qed simp

lemma sorted_sort_by:
  assumes "\<And>a b. cmp a b = Greater \<Longrightarrow> key b \<le> (key a :: 'k::linorder)" "\<And>a b. cmp a b \<noteq> Greater \<Longrightarrow> key a \<le> key b"
  shows "sorted (map key (sort_by cmp xs))"
proof (induction xs)
  case (Cons x xs)
  then show ?case using sorted_insert_by [of cmp key "sort_by cmp xs" x] assms by (simp add: sort_by_def)
qed (simp add: sort_by_def)

text \<open>Lists.\<close>

lemma filter_dropWhile_sorted:
  assumes "sorted q" and anti: "\<And>x y. x \<le> y \<Longrightarrow> P y \<Longrightarrow> P x"
  shows "dropWhile P q = filter (\<lambda>x. \<not> P x) q"
  using assms(1)
proof (induction q)
  case Nil
  show ?case by simp
next
  case (Cons x q)
  show ?case
  proof (cases "P x")
    case True
    with Cons show ?thesis by simp
  next
    case False
    with Cons.prems anti have "\<forall>y \<in> set q. \<not> P y" by auto
    with False show ?thesis by (simp add: filter_id_conv)
  qed
qed

lemma find_append: "find P (xs @ ys) = (case find P xs of None \<Rightarrow> find P ys | Some x \<Rightarrow> Some x)"
  by (induction xs) simp_all

text \<open>The \<open>?\<close> operator over a state that survives the early return.\<close>

definition try_then ::
    "'st \<times> ('e + 'a) \<Rightarrow> ('a \<Rightarrow> 'st \<Rightarrow> 'st \<times> ('e + 'b)) \<Rightarrow> 'st \<times> ('e + 'b)" where
  "try_then m f = (case m of (s, Inl e) \<Rightarrow> (s, Inl e) | (s, Inr x) \<Rightarrow> f x s)"

definition map_err :: "('e \<Rightarrow> 'd) \<Rightarrow> 'e + 'a \<Rightarrow> 'd + 'a" where
  "map_err g r = (case r of Inl e \<Rightarrow> Inl (g e) | Inr x \<Rightarrow> Inr x)"

lemma try_then_simps [simp]:
  "try_then (s, Inl e) f = (s, Inl e)" "try_then (s, Inr x) f = f x s"
  by (simp_all add: try_then_def)

lemma try_then_Inr:
  "try_then m f = (s', Inr y) \<longleftrightarrow> (\<exists>s x. m = (s, Inr x) \<and> f x s = (s', Inr y))"
  by (cases m; cases "snd m") (auto simp: try_then_def)

lemma map_err_simps [simp]: "map_err g (Inl e) = Inl (g e)" "map_err g (Inr x) = Inr x"
  by (simp_all add: map_err_def)

lemma map_err_Inr [simp]: "map_err g r = Inr x \<longleftrightarrow> r = Inr x"
  by (cases r) simp_all

lemma try_then_Inl:
  "try_then m f = (s', Inl e) \<longleftrightarrow> m = (s', Inl e) \<or> (\<exists>s x. m = (s, Inr x) \<and> f x s = (s', Inl e))"
  by (cases m; cases "snd m") (auto simp: try_then_def)

lemma find_append_new:
  "\<not> list_ex P xs \<Longrightarrow> P y \<Longrightarrow> find P (xs @ [y]) = Some y"
  by (induction xs) auto

text \<open>\<open>Iterator::find_map\<close>.\<close>

fun find_map :: "('a \<Rightarrow> 'b option) \<Rightarrow> 'a list \<Rightarrow> 'b option" where
  "find_map f [] = None"
| "find_map f (x # xs) = (case f x of None \<Rightarrow> find_map f xs | Some y \<Rightarrow> Some y)"

end
