(* ===== verification/Window.thy ===== *)
theory Window
  imports Prelude
begin

text \<open>
  Sliding time windows over a queue of admission times: the interface the request
  limiter (Quota) and the key-claim limiter (Free_Claim) share. A provider supplies
  its window length and its pruning loop; the law is that pruning a sorted queue keeps
  exactly the entries younger than the window. The client lemma bounds the number of
  admissions in every window of a whole run.
\<close>

definition in_window :: "nat \<Rightarrow> nat list \<Rightarrow> nat \<Rightarrow> nat" where
  "in_window w log t = length (filter (\<lambda>s. s \<le> t \<and> t < s + w) log)"

definition live :: "nat \<Rightarrow> nat list \<Rightarrow> nat \<Rightarrow> nat list" where
  "live w log now = filter (\<lambda>s. now < s + w) log"

lemma in_window_snoc: "in_window w (log @ [s]) t = in_window w log t + (if s \<le> t \<and> t < s + w then 1 else 0)"
  by (simp add: in_window_def)

lemma length_filter_le_imp:
  "(\<And>x. x \<in> set xs \<Longrightarrow> P x \<Longrightarrow> Q x) \<Longrightarrow> length (filter P xs) \<le> length (filter Q xs)"
  by (induction xs) auto

text \<open>Admitting at \<open>now\<close> when fewer than \<open>L\<close> entries are live keeps every window at \<open>L\<close>.\<close>

lemma in_window_admit:
  assumes bound: "\<And>t. in_window w log t \<le> L" and past: "\<forall>s \<in> set log. s \<le> now"
    and room: "length (live w log now) < L"
  shows "in_window w (log @ [now]) t \<le> L"
proof (cases "now \<le> t \<and> t < now + w")
  case True
  have "in_window w log t \<le> length (live w log now)"
    unfolding in_window_def live_def
    by (rule length_filter_le_imp) (use True past in auto)
  with True room show ?thesis by (simp add: in_window_snoc)
next
  case False
  then show ?thesis using bound [of t] unfolding in_window_snoc by (simp only: if_False)
qed

lemma live_live:
  assumes "now \<le> later"
  shows "live w (live w log now) later = live w log later"
  using assms unfolding live_def by (induction log) auto

lemma live_snoc: "0 < w \<Longrightarrow> live w (log @ [now]) now = live w log now @ [now]"
  by (simp add: live_def)

lemma sorted_live: "sorted log \<Longrightarrow> sorted (live w log now)"
  unfolding live_def by (metis sorted_wrt_filter)

lemma set_live: "set (live w log now) \<subseteq> set log"
  by (auto simp: live_def)

locale sliding_window =
  fixes window :: nat
    and prune :: "nat list \<Rightarrow> nat \<Rightarrow> nat list"
  assumes window_pos: "0 < window"
    and prune_live: "sorted q \<Longrightarrow> \<forall>s \<in> set q. s \<le> now \<Longrightarrow> prune q now = live window q now"
begin

text \<open>
  The queue \<open>q\<close> kept by a limiter against the log of all its admissions: it holds the
  entries that were still live when it was last pruned.
\<close>

definition tracks :: "nat list \<Rightarrow> nat list \<Rightarrow> nat \<Rightarrow> bool" where
  "tracks q log now \<longleftrightarrow> sorted log \<and> (\<forall>s \<in> set log. s \<le> now) \<and>
     (\<exists>t0 \<le> now. q = live window log t0 \<or> q = log)"

lemma tracks_Nil: "tracks [] [] now"
  unfolding tracks_def by (intro conjI exI [of _ now]) simp_all

lemma tracks_later:
  assumes "tracks q log now" and le: "now \<le> later"
  shows "tracks q log later"
proof -
  from assms(1) obtain t0 where t0: "t0 \<le> now" and q: "q = live window log t0 \<or> q = log"
    and s: "sorted log" and past: "\<forall>s \<in> set log. s \<le> now"
    unfolding tracks_def by blast
  have "t0 \<le> later" using t0 le by (rule order_trans)
  moreover have "\<forall>s \<in> set log. s \<le> later" using past le order_trans by blast
  ultimately show ?thesis using s q unfolding tracks_def by blast
qed

lemma prune_tracks:
  assumes "tracks q log now"
  shows "prune q now = live window log now"
proof -
  from assms obtain t0 where t0: "t0 \<le> now" and q: "q = live window log t0 \<or> q = log"
    and s: "sorted log" and le: "\<forall>s \<in> set log. s \<le> now"
    unfolding tracks_def by blast
  have "sorted q" using q s sorted_live by blast
  moreover have "\<forall>s \<in> set q. s \<le> now" using q le set_live by blast
  ultimately have "prune q now = live window q now" by (rule prune_live)
  also have "\<dots> = live window log now" using q live_live [OF t0] by (elim disjE) simp_all
  finally show ?thesis .
qed

lemma tracks_prune: "tracks q log now \<Longrightarrow> tracks (prune q now) log now"
  using prune_tracks unfolding tracks_def by blast

lemma tracks_push:
  assumes "tracks q log now"
  shows "tracks (prune q now @ [now]) (log @ [now]) now"
proof -
  have "prune q now @ [now] = live window (log @ [now]) now"
    using prune_tracks [OF assms] window_pos by (simp add: live_snoc)
  moreover have "sorted (log @ [now])" "\<forall>s \<in> set (log @ [now]). s \<le> now"
    using assms by (simp_all add: tracks_def sorted_append)
  ultimately show ?thesis unfolding tracks_def by blast
qed

lemma admit_keeps_bound:
  assumes "tracks q log now" and "\<And>t. in_window window log t \<le> L" and "length (prune q now) < L"
  shows "in_window window (log @ [now]) t \<le> L"
proof (rule in_window_admit)
  show "\<forall>s \<in> set log. s \<le> now" using assms(1) by (simp add: tracks_def)
  show "length (live window log now) < L" using assms(3) prune_tracks [OF assms(1)] by simp
qed (rule assms(2))

text \<open>A limiter over many queues: one admission, and a run of them with the admitted ones as its result.\<close>

definition admit :: "('k \<rightharpoonup> nat list) \<Rightarrow> 'k \<Rightarrow> nat \<Rightarrow> nat \<Rightarrow> ('k \<rightharpoonup> nat list) \<times> bool" where
  "admit m k L now = (let q = prune (unwrap_or (m k) []) now in
     if L \<le> length q then (m(k \<mapsto> q), False) else (m(k \<mapsto> q @ [now]), True))"

lemma admit_step:
  assumes "admit m k L now = (m', ok)"
    and tracks: "tracks (unwrap_or (m j) []) hist t0" and le: "t0 \<le> now"
    and bound: "\<And>t. in_window window hist t \<le> L"
  defines "hist' \<equiv> hist @ (if ok \<and> k = j then [now] else [])"
  shows "tracks (unwrap_or (m' j) []) hist' now" "in_window window hist' t \<le> L"
proof -
  have tr0: "tracks (unwrap_or (m j) []) hist now" using tracks le by (rule tracks_later)
  show "tracks (unwrap_or (m' j) []) hist' now"
    using assms(1) tr0 tracks_push [OF tr0] tracks_prune [OF tr0]
    by (auto simp: admit_def Let_def hist'_def split: if_splits)
  show "in_window window hist' t \<le> L"
  proof (cases "ok \<and> k = j")
    case True
    then have "length (prune (unwrap_or (m j) []) now) < L"
      using assms(1) by (auto simp: admit_def Let_def split: if_splits)
    with admit_keeps_bound [OF tr0 bound] True show ?thesis by (simp add: hist'_def)
  next
    case False
    then show ?thesis unfolding hist'_def if_not_P [OF False] using bound by simp
  qed
qed

primrec admit_run :: "('k \<rightharpoonup> nat list) \<Rightarrow> nat \<Rightarrow> (nat \<times> 'k) list \<Rightarrow> (nat \<times> 'k) list" where
  "admit_run m L [] = []"
| "admit_run m L (a # as) = (case admit m (snd a) L (fst a) of (m', ok) \<Rightarrow>
     (if ok then [a] else []) @ admit_run m' L as)"

lemma admit_run_tracked:
  assumes "tracks (unwrap_or (m j) []) hist t0" "\<And>t. in_window window hist t \<le> L" "sorted (t0 # map fst as)"
  shows "in_window window (hist @ map fst (filter (\<lambda>a. snd a = j) (admit_run m L as))) t \<le> L"
  using assms
proof (induction as arbitrary: m hist t0)
  case (Cons a as)
  obtain m' ok where adm: "admit m (snd a) L (fst a) = (m', ok)" by fastforce
  have le: "t0 \<le> fst a" and srt: "sorted (fst a # map fst as)" using Cons.prems(3) by simp_all
  note inv = admit_step [OF adm Cons.prems(1) le Cons.prems(2)]
  have run: "map fst (filter (\<lambda>a. snd a = j) (admit_run m L (a # as))) =
      (if ok \<and> snd a = j then [fst a] else []) @ map fst (filter (\<lambda>a. snd a = j) (admit_run m' L as))"
    using adm by simp
  show ?case unfolding run append_assoc [symmetric] by (rule Cons.IH [OF _ _ srt]) (use inv in simp_all)
qed simp

lemma admit_run_bound:
  assumes "m j = None" "sorted (map fst as)"
  shows "in_window window (map fst (filter (\<lambda>a. snd a = j) (admit_run m L as))) t \<le> L"
  using admit_run_tracked [of m j "[]" 0 L as t] assms tracks_Nil by (simp add: in_window_def)

end

end
