(* ===== verification/Quota.thy ===== *)
theory Quota
  imports Window
begin

text \<open>
  quota/mod.rs: the in-memory limiter of requests per minute and of concurrent
  requests, per API key and per project. The four DashMaps are maps from ids to states;
  the clock reading the code takes at the start of try_acquire is an argument. Each
  operation takes the limiter and returns the new one, so the pruning a rejected
  request leaves behind is visible. The counters exported to the metrics crate are
  left out. Sequential runs are modelled here, interleavings in Quota_Interleaving.
\<close>

section \<open>State\<close>

definition ns_per_sec :: nat where "ns_per_sec = 1000000000"
definition RPM_WINDOW :: nat where "RPM_WINDOW = 60 * ns_per_sec"
definition RPM_IDLE_TTL :: nat where "RPM_IDLE_TTL = 600 * ns_per_sec"

record rpm_state =
  events :: "nat list"
  last_active :: nat

type_synonym rpm_map = "string \<rightharpoonup> rpm_state"
type_synonym counter_map = "string \<rightharpoonup> u32"

definition rpm_state_new :: "nat \<Rightarrow> rpm_state" where
  "rpm_state_new now = \<lparr>events = [], last_active = now\<rparr>"

record quota_limits =
  rpm_limit :: "u32 option"
  concurrency_limit :: "u32 option"

datatype quota_scope = ProjectScope | ApiKeyScope

datatype quota_reject =
    Rpm quota_scope u32 nat
  | Concurrency quota_scope u32

definition scope_name :: "quota_scope \<Rightarrow> string" where
  "scope_name s = (case s of ProjectScope \<Rightarrow> ''project'' | ApiKeyScope \<Rightarrow> ''api_key'')"

definition retry_after_secs :: "quota_reject \<Rightarrow> nat option" where
  "retry_after_secs r = (case r of Rpm _ _ secs \<Rightarrow> Some secs | Concurrency _ _ \<Rightarrow> Some 1)"

record quota_limiter =
  key_rpm :: rpm_map
  project_rpm :: rpm_map
  key_concurrency :: counter_map
  project_concurrency :: counter_map

definition quota_limiter_new :: quota_limiter where
  "quota_limiter_new = \<lparr>key_rpm = Map.empty, project_rpm = Map.empty,
     key_concurrency = Map.empty, project_concurrency = Map.empty\<rparr>"

section \<open>Operations\<close>

definition prune_window :: "nat list \<Rightarrow> nat \<Rightarrow> nat list" where
  "prune_window q now = dropWhile (\<lambda>t. RPM_WINDOW \<le> now - t) q"

definition evict_if_empty :: "rpm_map \<Rightarrow> string \<Rightarrow> nat \<Rightarrow> rpm_map" where
  "evict_if_empty m i now = (case m i of
     None \<Rightarrow> m
   | Some st \<Rightarrow>
       let ev = prune_window (events st) now in
       if ev = [] then m(i := None) else m(i \<mapsto> st\<lparr>events := ev\<rparr>))"

definition would_exceed_rpm :: "rpm_map \<Rightarrow> string \<Rightarrow> u32 \<Rightarrow> nat \<Rightarrow> rpm_map \<times> nat option" where
  "would_exceed_rpm m i limit now =
     (let st = unwrap_or (m i) (rpm_state_new now);
          ev = prune_window (events st) now;
          evict = (ev = [] \<and> RPM_IDLE_TTL \<le> now - last_active st);
          m1 = m(i \<mapsto> \<lparr>events = ev, last_active = now\<rparr>);
          retry = (if limit \<le> of_nat (length ev)
            then Some (case ev of [] \<Rightarrow> 1
                 | oldest # _ \<Rightarrow> max 1 ((RPM_WINDOW - (now - oldest)) div ns_per_sec))
            else None)
      in (if evict then evict_if_empty m1 i now else m1, retry))"

definition record_rpm :: "rpm_map \<Rightarrow> string \<Rightarrow> nat \<Rightarrow> rpm_map" where
  "record_rpm m i now =
     (let st = unwrap_or (m i) (rpm_state_new now)
      in m(i \<mapsto> \<lparr>events = prune_window (events st) now @ [now], last_active = now\<rparr>))"

text \<open>
  The compare-and-exchange loops retry until they succeed against the value they
  read, so each operation is one atomic read-modify-write.
\<close>

definition try_inc_concurrency :: "counter_map \<Rightarrow> string \<Rightarrow> u32 \<Rightarrow> counter_map \<times> bool" where
  "try_inc_concurrency m i limit =
     (let cur = unwrap_or (m i) 0
      in if limit \<le> cur then (m(i \<mapsto> cur), False) else (m(i \<mapsto> cur + 1), True))"

definition dec_concurrency :: "counter_map \<Rightarrow> string \<Rightarrow> counter_map" where
  "dec_concurrency m i = (case m i of
     None \<Rightarrow> m
   | Some cur \<Rightarrow> if cur = 0 then m else m(i \<mapsto> cur - 1))"

text \<open>The four stages of try_acquire, in order; each may reject.\<close>

definition check_project_rpm ::
    "quota_limiter \<Rightarrow> string \<Rightarrow> quota_limits \<Rightarrow> nat \<Rightarrow> quota_limiter \<times> quota_reject option" where
  "check_project_rpm l project_id project_limits now = (case rpm_limit project_limits of
     None \<Rightarrow> (l, None)
   | Some limit \<Rightarrow> (case would_exceed_rpm (project_rpm l) project_id limit now of (m, retry) \<Rightarrow>
       (l\<lparr>project_rpm := m\<rparr>, map_option (Rpm ProjectScope limit) retry)))"

definition check_key_rpm ::
    "quota_limiter \<Rightarrow> string \<Rightarrow> quota_limits \<Rightarrow> nat \<Rightarrow> quota_limiter \<times> quota_reject option" where
  "check_key_rpm l key_id key_limits now = (case rpm_limit key_limits of
     None \<Rightarrow> (l, None)
   | Some limit \<Rightarrow> (case would_exceed_rpm (key_rpm l) key_id limit now of (m, retry) \<Rightarrow>
       (l\<lparr>key_rpm := m\<rparr>, map_option (Rpm ApiKeyScope limit) retry)))"

definition reserve_project ::
    "quota_limiter \<Rightarrow> string \<Rightarrow> quota_limits \<Rightarrow> quota_limiter \<times> quota_reject option" where
  "reserve_project l project_id project_limits = (case concurrency_limit project_limits of
     None \<Rightarrow> (l, None)
   | Some limit \<Rightarrow> (case try_inc_concurrency (project_concurrency l) project_id limit of (m, ok) \<Rightarrow>
       (l\<lparr>project_concurrency := m\<rparr>, if ok then None else Some (Concurrency ProjectScope limit))))"

definition reserve_key ::
    "quota_limiter \<Rightarrow> string \<Rightarrow> string \<Rightarrow> quota_limits \<Rightarrow> quota_limits
      \<Rightarrow> quota_limiter \<times> quota_reject option" where
  "reserve_key l key_id project_id key_limits project_limits = (case concurrency_limit key_limits of
     None \<Rightarrow> (l, None)
   | Some limit \<Rightarrow> (case try_inc_concurrency (key_concurrency l) key_id limit of (m, ok) \<Rightarrow>
       let l1 = l\<lparr>key_concurrency := m\<rparr> in
       if ok then (l1, None)
       else (if concurrency_limit project_limits \<noteq> None
             then l1\<lparr>project_concurrency := dec_concurrency (project_concurrency l1) project_id\<rparr>
             else l1,
             Some (Concurrency ApiKeyScope limit))))"

definition commit_rpm ::
    "quota_limiter \<Rightarrow> string \<Rightarrow> string \<Rightarrow> quota_limits \<Rightarrow> quota_limits \<Rightarrow> nat \<Rightarrow> quota_limiter" where
  "commit_rpm l key_id project_id key_limits project_limits now =
     (let l1 = (if rpm_limit project_limits \<noteq> None
                then l\<lparr>project_rpm := record_rpm (project_rpm l) project_id now\<rparr> else l)
      in if rpm_limit key_limits \<noteq> None
         then l1\<lparr>key_rpm := record_rpm (key_rpm l1) key_id now\<rparr> else l1)"

definition try_acquire ::
    "quota_limiter \<Rightarrow> string \<Rightarrow> string \<Rightarrow> quota_limits \<Rightarrow> quota_limits \<Rightarrow> nat
      \<Rightarrow> quota_limiter \<times> (quota_reject + unit)" where
  "try_acquire l key_id project_id key_limits project_limits now =
     (case check_project_rpm l project_id project_limits now of
       (l1, Some r) \<Rightarrow> (l1, Inl r)
     | (l1, None) \<Rightarrow>
       (case check_key_rpm l1 key_id key_limits now of
         (l2, Some r) \<Rightarrow> (l2, Inl r)
       | (l2, None) \<Rightarrow>
         (case reserve_project l2 project_id project_limits of
           (l3, Some r) \<Rightarrow> (l3, Inl r)
         | (l3, None) \<Rightarrow>
           (case reserve_key l3 key_id project_id key_limits project_limits of
             (l4, Some r) \<Rightarrow> (l4, Inl r)
           | (l4, None) \<Rightarrow> (commit_rpm l4 key_id project_id key_limits project_limits now, Inr ())))))"

definition release :: "quota_limiter \<Rightarrow> string \<Rightarrow> string option \<Rightarrow> quota_limiter" where
  "release l key_id project_id =
     (let l1 = l\<lparr>key_concurrency := dec_concurrency (key_concurrency l) key_id\<rparr>
      in case project_id of
           None \<Rightarrow> l1
         | Some p \<Rightarrow> l1\<lparr>project_concurrency := dec_concurrency (project_concurrency l1) p\<rparr>)"

record quota_permit =
  permit_key_id :: string
  permit_project_id :: string
  released :: bool

definition quota_permit_new :: "string \<Rightarrow> string \<Rightarrow> quota_permit" where
  "quota_permit_new key_id project_id =
     \<lparr>permit_key_id = key_id, permit_project_id = project_id, released = False\<rparr>"

definition permit_disarm :: "quota_permit \<Rightarrow> quota_permit" where
  "permit_disarm p = p\<lparr>released := True\<rparr>"

definition permit_drop :: "quota_limiter \<Rightarrow> quota_permit \<Rightarrow> quota_limiter" where
  "permit_drop l p =
     (if released p then l else release l (permit_key_id p) (Some (permit_project_id p)))"

section \<open>Slots: what a limiter holds per id\<close>

definition slots :: "counter_map \<Rightarrow> string \<Rightarrow> u32" where
  "slots m i = unwrap_or (m i) 0"

definition rpm_events :: "rpm_map \<Rightarrow> string \<Rightarrow> nat list" where
  "rpm_events m i = (case m i of None \<Rightarrow> [] | Some st \<Rightarrow> events st)"

lemma slots_upd [quota_simps]: "slots (m(i \<mapsto> v)) j = (if j = i then v else slots m j)"
  by (simp add: slots_def)

lemma inc_slots:
  "try_inc_concurrency m i limit = (m', ok) \<Longrightarrow>
     slots m' j = (if j = i \<and> slots m i < limit then slots m i + 1 else slots m j)"
  by (auto simp: try_inc_concurrency_def slots_def Let_def not_le split: if_splits)

lemma inc_ok: "try_inc_concurrency m i limit = (m', ok) \<Longrightarrow> ok \<longleftrightarrow> slots m i < limit"
  by (auto simp: try_inc_concurrency_def slots_def Let_def not_le split: if_splits)

lemma dec_slots [quota_simps]:
  "slots (dec_concurrency m i) j = (if j = i \<and> slots m i \<noteq> 0 then slots m i - 1 else slots m j)"
  by (auto simp: dec_concurrency_def slots_def split: option.splits)

lemma rpm_events_upd [quota_simps]:
  "rpm_events (m(i \<mapsto> st)) j = (if j = i then events st else rpm_events m j)"
  "rpm_events (m(i := None)) j = (if j = i then [] else rpm_events m j)"
  by (simp_all add: rpm_events_def)

lemma prune_window_Nil [simp]: "prune_window [] now = []"
  by (simp add: prune_window_def)

lemma prune_window_idem: "prune_window (prune_window q now) now = prune_window q now"
  by (simp add: prune_window_def)

lemma events_unwrap: "events (unwrap_or (m i) (rpm_state_new now)) = rpm_events m i"
  by (simp add: rpm_events_def unwrap_or_def rpm_state_new_def split: option.splits)

lemma evict_events [quota_simps]:
  "rpm_events (evict_if_empty m i now) j =
     (if j = i then prune_window (rpm_events m i) now else rpm_events m j)"
  by (auto simp: evict_if_empty_def Let_def quota_simps rpm_events_def split: option.splits)

lemma would_exceed_events:
  assumes "would_exceed_rpm m i limit now = (m', retry)"
  shows "rpm_events m' j = (if j = i then prune_window (rpm_events m i) now else rpm_events m j)"
    and "retry = None \<longleftrightarrow> of_nat (length (prune_window (rpm_events m i) now)) < limit"
  using assms
  by (auto simp: would_exceed_rpm_def Let_def quota_simps events_unwrap prune_window_idem
      not_le split: if_splits)

lemma record_events [quota_simps]:
  "rpm_events (record_rpm m i now) j =
     (if j = i then prune_window (rpm_events m i) now @ [now] else rpm_events m j)"
  by (simp add: record_rpm_def Let_def quota_simps events_unwrap)

text \<open>The seconds a client is told to wait lie between one and the window length.\<close>

lemma would_exceed_retry:
  assumes "would_exceed_rpm m i limit now = (m', Some secs)"
  shows "1 \<le> secs \<and> secs \<le> 60"
proof -
  have "(RPM_WINDOW - d) div ns_per_sec \<le> 60" for d
    using div_le_mono [of "RPM_WINDOW - d" RPM_WINDOW ns_per_sec]
    by (simp add: RPM_WINDOW_def ns_per_sec_def)
  with assms show ?thesis
    by (auto simp: would_exceed_rpm_def Let_def split: if_splits list.splits)
qed

section \<open>Frames of the four stages\<close>

lemma check_project_frame:
  assumes "check_project_rpm l p lim now = (l', r)"
  shows "key_concurrency l' = key_concurrency l" "project_concurrency l' = project_concurrency l"
    "key_rpm l' = key_rpm l"
  using assms by (auto simp: check_project_rpm_def split: option.splits prod.splits)

lemma check_key_frame:
  assumes "check_key_rpm l k lim now = (l', r)"
  shows "key_concurrency l' = key_concurrency l" "project_concurrency l' = project_concurrency l"
    "project_rpm l' = project_rpm l"
  using assms by (auto simp: check_key_rpm_def split: option.splits prod.splits)

lemma reserve_project_frame:
  assumes "reserve_project l p lim = (l', r)"
  shows "key_concurrency l' = key_concurrency l" "key_rpm l' = key_rpm l" "project_rpm l' = project_rpm l"
  using assms by (auto simp: reserve_project_def split: option.splits prod.splits)

lemma reserve_key_frame:
  assumes "reserve_key l k p klim plim = (l', r)"
  shows "key_rpm l' = key_rpm l" "project_rpm l' = project_rpm l"
  using assms by (auto simp: reserve_key_def Let_def split: option.splits prod.splits if_splits)

lemma commit_frame:
  "key_concurrency (commit_rpm l k p klim plim now) = key_concurrency l"
  "project_concurrency (commit_rpm l k p klim plim now) = project_concurrency l"
  by (auto simp: commit_rpm_def Let_def)

lemma reserve_project_slots:
  assumes "reserve_project l p lim = (l', r)"
  shows "slots (project_concurrency l') q =
      (case concurrency_limit lim of
         Some n \<Rightarrow> if q = p \<and> r = None then slots (project_concurrency l) p + 1
                   else slots (project_concurrency l) q
       | None \<Rightarrow> slots (project_concurrency l) q)"
    and "r = None \<Longrightarrow> concurrency_limit lim = Some n \<Longrightarrow> slots (project_concurrency l) p < n"
  using assms
  by (auto simp: reserve_project_def inc_slots dest: inc_ok split: option.splits prod.splits if_splits)

lemma reserve_key_slots:
  assumes "reserve_key l k p klim plim = (l', r)"
  shows "slots (key_concurrency l') j =
      (case concurrency_limit klim of
         Some n \<Rightarrow> if j = k \<and> r = None then slots (key_concurrency l) k + 1
                   else slots (key_concurrency l) j
       | None \<Rightarrow> slots (key_concurrency l) j)"
    and "r = None \<Longrightarrow> concurrency_limit klim = Some n \<Longrightarrow> slots (key_concurrency l) k < n"
    and "slots (project_concurrency l') q =
      (if r \<noteq> None \<and> concurrency_limit plim \<noteq> None
       then slots (dec_concurrency (project_concurrency l) p) q
       else slots (project_concurrency l) q)"
  using assms
  by (auto simp: reserve_key_def inc_slots Let_def dest: inc_ok
      split: option.splits prod.splits if_splits)

section \<open>The whole acquisition\<close>

lemma try_acquire_slots_rejected:
  assumes "try_acquire l k p klim plim now = (l', Inl r)"
  shows "slots (key_concurrency l') j = slots (key_concurrency l) j"
    and "slots (project_concurrency l') q = slots (project_concurrency l) q"
proof -
  obtain l1 r1 where c1: "check_project_rpm l p plim now = (l1, r1)" by fastforce
  obtain l2 r2 where c2: "check_key_rpm l1 k klim now = (l2, r2)" by fastforce
  obtain l3 r3 where c3: "reserve_project l2 p plim = (l3, r3)" by fastforce
  obtain l4 r4 where c4: "reserve_key l3 k p klim plim = (l4, r4)" by fastforce
  note frames = check_project_frame [OF c1] check_key_frame [OF c2] reserve_project_frame [OF c3]
  have undo: "slots (dec_concurrency (project_concurrency l3) p) q = slots (project_concurrency l2) q"
    if "r3 = None" "concurrency_limit plim \<noteq> None"
  proof -
    from that obtain n where n: "concurrency_limit plim = Some n" by blast
    have "slots (project_concurrency l2) p + 1 \<noteq> 0"
      using u32_unat_succ [OF reserve_project_slots(2) [OF c3 that(1) n]] by auto
    then show ?thesis using reserve_project_slots(1) [OF c3] that(1) n by (simp add: quota_simps)
  qed
  show "slots (key_concurrency l') j = slots (key_concurrency l) j"
    "slots (project_concurrency l') q = slots (project_concurrency l) q"
    using assms c1 c2 c3 c4 frames undo reserve_key_slots(1,3) [OF c4] reserve_project_slots(1) [OF c3]
    by (auto simp: try_acquire_def split: option.splits)
qed

lemma try_acquire_slots_admitted:
  assumes "try_acquire l k p klim plim now = (l', Inr u)"
  shows "slots (key_concurrency l') j = slots (key_concurrency l) j +
           (if j = k \<and> concurrency_limit klim \<noteq> None then 1 else 0)"
    and "slots (project_concurrency l') q = slots (project_concurrency l) q +
           (if q = p \<and> concurrency_limit plim \<noteq> None then 1 else 0)"
    and "concurrency_limit klim = Some n \<Longrightarrow> slots (key_concurrency l) k < n"
    and "concurrency_limit plim = Some n \<Longrightarrow> slots (project_concurrency l) p < n"
proof -
  obtain l1 r1 where c1: "check_project_rpm l p plim now = (l1, r1)" by fastforce
  obtain l2 r2 where c2: "check_key_rpm l1 k klim now = (l2, r2)" by fastforce
  obtain l3 r3 where c3: "reserve_project l2 p plim = (l3, r3)" by fastforce
  obtain l4 r4 where c4: "reserve_key l3 k p klim plim = (l4, r4)" by fastforce
  have r: "r1 = None" "r2 = None" "r3 = None" "r4 = None"
    and l': "l' = commit_rpm l4 k p klim plim now"
    using assms c1 c2 c3 c4 by (auto simp: try_acquire_def split: option.splits)
  note frames = check_project_frame [OF c1] check_key_frame [OF c2] reserve_project_frame [OF c3]
  show "slots (key_concurrency l') j = slots (key_concurrency l) j +
           (if j = k \<and> concurrency_limit klim \<noteq> None then 1 else 0)"
    "slots (project_concurrency l') q = slots (project_concurrency l) q +
           (if q = p \<and> concurrency_limit plim \<noteq> None then 1 else 0)"
    using reserve_key_slots(1,3) [OF c4] reserve_project_slots(1) [OF c3] frames r
    by (auto simp: l' commit_frame split: option.splits)
  show "concurrency_limit klim = Some n \<Longrightarrow> slots (key_concurrency l) k < n"
    using reserve_key_slots(2) [OF c4 r(4)] frames by simp
  show "concurrency_limit plim = Some n \<Longrightarrow> slots (project_concurrency l) p < n"
    using reserve_project_slots(2) [OF c3 r(3)] frames by simp
qed

lemma release_slots [quota_simps]:
  "slots (key_concurrency (release l k po)) j = slots (dec_concurrency (key_concurrency l) k) j"
  "slots (project_concurrency (release l k (Some p))) q =
     slots (dec_concurrency (project_concurrency l) p) q"
  "project_concurrency (release l k None) = project_concurrency l"
  by (simp_all add: release_def Let_def split: option.splits)

lemma permit_drop_armed: "permit_drop l (quota_permit_new k p) = release l k (Some p)"
  by (simp add: permit_drop_def quota_permit_new_def)

section \<open>Admission times over a run\<close>

interpretation rpm_win: sliding_window RPM_WINDOW prune_window
proof
  show "0 < RPM_WINDOW" by (simp add: RPM_WINDOW_def ns_per_sec_def)
next
  fix q :: "nat list" and now :: nat
  assume "sorted q" "\<forall>s \<in> set q. s \<le> now"
  then have "dropWhile (\<lambda>t. RPM_WINDOW \<le> now - t) q = filter (\<lambda>t. \<not> RPM_WINDOW \<le> now - t) q"
    by (intro filter_dropWhile_sorted) auto
  also have "\<dots> = live RPM_WINDOW q now"
    unfolding live_def using \<open>\<forall>s \<in> set q. s \<le> now\<close> by (intro filter_cong) auto
  finally show "prune_window q now = live RPM_WINDOW q now" by (simp add: prune_window_def)
qed

datatype quota_op =
    Acquire nat string string quota_limits quota_limits
  | Release string "string option"

fun quota_step :: "quota_limiter \<Rightarrow> quota_op \<Rightarrow> quota_limiter \<times> (nat \<times> string \<times> string) list" where
  "quota_step l (Acquire now k p klim plim) =
     (case try_acquire l k p klim plim now of
        (l', Inl _) \<Rightarrow> (l', []) | (l', Inr _) \<Rightarrow> (l', [(now, k, p)]))"
| "quota_step l (Release k po) = (release l k po, [])"

fun quota_run :: "quota_limiter \<Rightarrow> quota_op list \<Rightarrow> quota_limiter \<times> (nat \<times> string \<times> string) list" where
  "quota_run l [] = (l, [])"
| "quota_run l (op # ops) =
     (case quota_step l op of (l1, adm) \<Rightarrow>
       (case quota_run l1 ops of (l2, adms) \<Rightarrow> (l2, adm @ adms)))"

fun acquire_times :: "quota_op list \<Rightarrow> nat list" where
  "acquire_times [] = []"
| "acquire_times (Acquire now _ _ _ _ # ops) = now # acquire_times ops"
| "acquire_times (Release _ _ # ops) = acquire_times ops"

definition key_times :: "string \<Rightarrow> (nat \<times> string \<times> string) list \<Rightarrow> nat list" where
  "key_times k adm = map fst (filter (\<lambda>(_, k', _). k' = k) adm)"

definition project_times :: "string \<Rightarrow> (nat \<times> string \<times> string) list \<Rightarrow> nat list" where
  "project_times p adm = map fst (filter (\<lambda>(_, _, p'). p' = p) adm)"

text \<open>What an operation may do to one queue \<open>q\<close> limited by \<open>L\<close>.\<close>

definition queue_step :: "u32 \<Rightarrow> nat list \<Rightarrow> nat list \<Rightarrow> nat \<Rightarrow> bool \<Rightarrow> bool" where
  "queue_step L q q' now admitted \<longleftrightarrow>
     (if admitted
      then q' = prune_window q now @ [now] \<and> of_nat (length (prune_window q now)) < L
      else q' = q \<or> q' = prune_window q now)"

lemma rpm_limiter_frames:
  "rpm_events (key_rpm (release l k po)) j = rpm_events (key_rpm l) j"
  "rpm_events (project_rpm (release l k po)) j = rpm_events (project_rpm l) j"
  by (simp_all add: release_def Let_def split: option.splits)

lemma key_queue_step:
  assumes "try_acquire l k p klim plim now = (l', res)"
    and "k = j \<Longrightarrow> rpm_limit klim = Some L"
  shows "queue_step L (rpm_events (key_rpm l) j) (rpm_events (key_rpm l') j) now
           (k = j \<and> (\<exists>u. res = Inr u))"
proof -
  obtain l1 r1 where c1: "check_project_rpm l p plim now = (l1, r1)" by fastforce
  obtain l2 r2 where c2: "check_key_rpm l1 k klim now = (l2, r2)" by fastforce
  obtain l3 r3 where c3: "reserve_project l2 p plim = (l3, r3)" by fastforce
  obtain l4 r4 where c4: "reserve_key l3 k p klim plim = (l4, r4)" by fastforce
  note frames = check_project_frame(3) [OF c1] reserve_project_frame(2) [OF c3]
    reserve_key_frame(1) [OF c4]
  show ?thesis
    using assms c1 c2 c3 c4 frames
    by (auto simp: try_acquire_def queue_step_def check_key_rpm_def commit_rpm_def Let_def
        would_exceed_events quota_simps prune_window_idem split: option.splits prod.splits)
qed

lemma project_queue_step:
  assumes "try_acquire l k p klim plim now = (l', res)"
    and "p = j \<Longrightarrow> rpm_limit plim = Some L"
  shows "queue_step L (rpm_events (project_rpm l) j) (rpm_events (project_rpm l') j) now
           (p = j \<and> (\<exists>u. res = Inr u))"
proof -
  obtain l1 r1 where c1: "check_project_rpm l p plim now = (l1, r1)" by fastforce
  obtain l2 r2 where c2: "check_key_rpm l1 k klim now = (l2, r2)" by fastforce
  obtain l3 r3 where c3: "reserve_project l2 p plim = (l3, r3)" by fastforce
  obtain l4 r4 where c4: "reserve_key l3 k p klim plim = (l4, r4)" by fastforce
  note frames = check_key_frame(3) [OF c2] reserve_project_frame(3) [OF c3]
    reserve_key_frame(2) [OF c4]
  show ?thesis
    using assms c1 c2 c3 c4 frames
    by (auto simp: try_acquire_def queue_step_def check_project_rpm_def commit_rpm_def Let_def
        would_exceed_events quota_simps prune_window_idem split: option.splits prod.splits)
qed

lemma queue_step_bound:
  assumes tr: "rpm_win.tracks q log t0" and le: "t0 \<le> now"
    and bound: "\<And>t. in_window RPM_WINDOW log t \<le> unat L"
    and st: "queue_step L q q' now adm"
  defines "log' \<equiv> log @ (if adm then [now] else [])"
  shows "rpm_win.tracks q' log' now" and "in_window RPM_WINDOW log' t \<le> unat L"
proof -
  have tr': "rpm_win.tracks q log now" using tr le by (rule rpm_win.tracks_later)
  have len: "length (prune_window q now) \<le> unat L"
  proof -
    have "length (prune_window q now) = in_window RPM_WINDOW log now"
      unfolding rpm_win.prune_tracks [OF tr'] live_def in_window_def
      using tr' by (auto simp: rpm_win.tracks_def intro!: arg_cong [where f = length] filter_cong)
    then show ?thesis using bound by simp
  qed
  show "rpm_win.tracks q' log' now"
    using st rpm_win.tracks_push [OF tr'] rpm_win.tracks_prune [OF tr'] tr'
    by (auto simp: queue_step_def log'_def split: if_splits)
  show "in_window RPM_WINDOW log' t \<le> unat L"
  proof (cases adm)
    case True
    then have "(of_nat (length (prune_window q now)) :: u32) < L" using st by (simp add: queue_step_def)
    then have "length (prune_window q now) \<noteq> unat L" by auto
    then have "length (prune_window q now) < unat L" using len by simp
    then show ?thesis unfolding log'_def using True rpm_win.admit_keeps_bound [OF tr' bound] by simp
  next
    case False
    then show ?thesis using bound by (simp add: log'_def)
  qed
qed

lemma quota_run_key_bound:
  assumes "rpm_win.tracks (rpm_events (key_rpm l) j) log t0"
    and "\<And>t. in_window RPM_WINDOW log t \<le> unat L"
    and "sorted (t0 # acquire_times ops)"
    and "\<And>now k p klim plim. Acquire now k p klim plim \<in> set ops \<Longrightarrow> k = j \<Longrightarrow> rpm_limit klim = Some L"
  shows "in_window RPM_WINDOW (log @ key_times j (snd (quota_run l ops))) t \<le> unat L"
  using assms
proof (induction ops arbitrary: l log t0)
  case Nil
  then show ?case by (simp add: key_times_def)
next
  case (Cons op ops)
  show ?case
  proof (cases op)
    case (Acquire now k p klim plim)
    obtain l' res where ta: "try_acquire l k p klim plim now = (l', res)" by fastforce
    have le: "t0 \<le> now" and srt: "sorted (now # acquire_times ops)"
      using Cons.prems(3) by (simp_all add: Acquire)
    let ?adm = "k = j \<and> (\<exists>u. res = Inr u)"
    have qs: "queue_step L (rpm_events (key_rpm l) j) (rpm_events (key_rpm l') j) now ?adm"
      using key_queue_step [OF ta] Cons.prems(4) Acquire by (metis list.set_intros(1))
    note inv = queue_step_bound [OF Cons.prems(1) le Cons.prems(2) qs]
    have run: "key_times j (snd (quota_run l (op # ops))) =
        (if ?adm then [now] else []) @ key_times j (snd (quota_run l' ops))"
      using ta by (auto simp: Acquire key_times_def split: prod.splits sum.splits)
    show ?thesis unfolding run append_assoc [symmetric]
      by (rule Cons.IH [OF inv srt]) (rule Cons.prems(4) [OF list.set_intros(2)])
  next
    case (Release k po)
    have srt: "sorted (t0 # acquire_times ops)" using Cons.prems(3) by (simp add: Release)
    have run: "key_times j (snd (quota_run l (op # ops))) = key_times j (snd (quota_run (release l k po) ops))"
      by (simp add: Release split: prod.splits)
    show ?thesis unfolding run
    proof (rule Cons.IH [OF _ Cons.prems(2) srt])
      show "rpm_win.tracks (rpm_events (key_rpm (release l k po)) j) log t0"
        using Cons.prems(1) by (simp only: rpm_limiter_frames)
    qed (rule Cons.prems(4) [OF list.set_intros(2)])
  qed
qed

lemma quota_run_project_bound:
  assumes "rpm_win.tracks (rpm_events (project_rpm l) j) log t0"
    and "\<And>t. in_window RPM_WINDOW log t \<le> unat L"
    and "sorted (t0 # acquire_times ops)"
    and "\<And>now k p klim plim. Acquire now k p klim plim \<in> set ops \<Longrightarrow> p = j \<Longrightarrow> rpm_limit plim = Some L"
  shows "in_window RPM_WINDOW (log @ project_times j (snd (quota_run l ops))) t \<le> unat L"
  using assms
proof (induction ops arbitrary: l log t0)
  case Nil
  then show ?case by (simp add: project_times_def)
next
  case (Cons op ops)
  show ?case
  proof (cases op)
    case (Acquire now k p klim plim)
    obtain l' res where ta: "try_acquire l k p klim plim now = (l', res)" by fastforce
    have le: "t0 \<le> now" and srt: "sorted (now # acquire_times ops)"
      using Cons.prems(3) by (simp_all add: Acquire)
    let ?adm = "p = j \<and> (\<exists>u. res = Inr u)"
    have qs: "queue_step L (rpm_events (project_rpm l) j) (rpm_events (project_rpm l') j) now ?adm"
      using project_queue_step [OF ta] Cons.prems(4) Acquire by (metis list.set_intros(1))
    note inv = queue_step_bound [OF Cons.prems(1) le Cons.prems(2) qs]
    have run: "project_times j (snd (quota_run l (op # ops))) =
        (if ?adm then [now] else []) @ project_times j (snd (quota_run l' ops))"
      using ta by (auto simp: Acquire project_times_def split: prod.splits sum.splits)
    show ?thesis unfolding run append_assoc [symmetric]
      by (rule Cons.IH [OF inv srt]) (rule Cons.prems(4) [OF list.set_intros(2)])
  next
    case (Release k po)
    have srt: "sorted (t0 # acquire_times ops)" using Cons.prems(3) by (simp add: Release)
    have run: "project_times j (snd (quota_run l (op # ops))) =
        project_times j (snd (quota_run (release l k po) ops))"
      by (simp add: Release split: prod.splits)
    show ?thesis unfolding run
    proof (rule Cons.IH [OF _ Cons.prems(2) srt])
      show "rpm_win.tracks (rpm_events (project_rpm (release l k po)) j) log t0"
        using Cons.prems(1) by (simp only: rpm_limiter_frames)
    qed (rule Cons.prems(4) [OF list.set_intros(2)])
  qed
qed

section \<open>Properties\<close>

text \<open>
  C5. Over any sequential run of acquisitions and releases with a clock that never goes
  back, a key whose requests all carry the limit \<open>L\<close> and a project whose requests all carry
  the limit \<open>M\<close> never have more than \<open>L\<close> and \<open>M\<close> admissions in any 60 second window.
\<close>

theorem rpm_limit_holds_in_every_window:
  assumes "sorted (acquire_times ops)"
    and "\<And>now k p klim plim. Acquire now k p klim plim \<in> set ops \<Longrightarrow> k = j \<Longrightarrow> rpm_limit klim = Some L"
    and "\<And>now k p klim plim. Acquire now k p klim plim \<in> set ops \<Longrightarrow> p = pj \<Longrightarrow> rpm_limit plim = Some M"
  shows "in_window RPM_WINDOW (key_times j (snd (quota_run quota_limiter_new ops))) t \<le> unat L \<and>
         in_window RPM_WINDOW (project_times pj (snd (quota_run quota_limiter_new ops))) t \<le> unat M"
proof -
  have ev: "rpm_events (key_rpm quota_limiter_new) j = []"
    "rpm_events (project_rpm quota_limiter_new) pj = []"
    by (simp_all add: quota_limiter_new_def rpm_events_def)
  have srt: "sorted (0 # acquire_times ops)" using assms(1) by simp
  have none: "in_window RPM_WINDOW [] t \<le> n" for t n by (simp add: in_window_def)
  have "in_window RPM_WINDOW ([] @ key_times j (snd (quota_run quota_limiter_new ops))) t \<le> unat L"
    by (rule quota_run_key_bound [OF _ none srt assms(2)]) (simp_all only: ev rpm_win.tracks_Nil)
  moreover
  have "in_window RPM_WINDOW ([] @ project_times pj (snd (quota_run quota_limiter_new ops))) t \<le> unat M"
    by (rule quota_run_project_bound [OF _ none srt assms(3)]) (simp_all only: ev rpm_win.tracks_Nil)
  ultimately show ?thesis by simp
qed

definition example_limits :: "u32 \<Rightarrow> u32 \<Rightarrow> quota_limits" where
  "example_limits r c = \<lparr>rpm_limit = Some r, concurrency_limit = Some c\<rparr>"

definition example_run :: "quota_op list" where
  "example_run =
     [Acquire 5 ''k'' ''p'' (example_limits 1 9) (example_limits 2 9),
      Release ''k'' (Some ''p''),
      Acquire 7 ''k'' ''p'' (example_limits 1 9) (example_limits 2 9)]"

theorem rpm_limit_holds_in_every_window_witness:
  "in_window RPM_WINDOW (key_times ''k'' (snd (quota_run quota_limiter_new example_run))) 8
     \<le> unat (1 :: u32)"
proof -
  have srt: "sorted (acquire_times example_run)" by (simp add: example_run_def)
  have k: "rpm_limit klim = Some 1" if "Acquire now k p klim plim \<in> set example_run" "k = ''k''"
    for now k p klim plim using that by (auto simp: example_run_def example_limits_def)
  have p: "rpm_limit plim = Some 2" if "Acquire now k p klim plim \<in> set example_run" "p = ''p''"
    for now k p klim plim using that by (auto simp: example_run_def example_limits_def)
  show ?thesis by (rule conjunct1 [OF rpm_limit_holds_in_every_window [OF srt k p]])
qed

text \<open>
  C7. A rejected acquisition holds no concurrency slot: whichever stage refused it, the
  slot count of every key and every project is what it was, the project reservation of a
  request refused at the key included.
\<close>

theorem rejected_request_holds_no_slot:
  assumes "try_acquire l k p klim plim now = (l', Inl r)"
  shows "slots (key_concurrency l') = slots (key_concurrency l) \<and>
         slots (project_concurrency l') = slots (project_concurrency l)"
  using try_acquire_slots_rejected [OF assms] by auto

theorem rejected_request_holds_no_slot_witness:
  "slots (project_concurrency (fst (try_acquire quota_limiter_new ''k'' ''p''
     (example_limits 5 0) (example_limits 5 3) 1))) = slots (project_concurrency quota_limiter_new)"
proof -
  have "try_acquire quota_limiter_new ''k'' ''p'' (example_limits 5 0) (example_limits 5 3) 1 =
    (fst (try_acquire quota_limiter_new ''k'' ''p'' (example_limits 5 0) (example_limits 5 3) 1),
     Inl (Concurrency ApiKeyScope 0))"
    by (simp add: try_acquire_def check_project_rpm_def check_key_rpm_def reserve_project_def
        reserve_key_def example_limits_def quota_limiter_new_def would_exceed_rpm_def
        try_inc_concurrency_def rpm_state_new_def RPM_IDLE_TTL_def ns_per_sec_def Let_def)
  from rejected_request_holds_no_slot [OF this] show ?thesis by simp
qed

text \<open>
  An admitted request takes exactly one slot in each scope that has a concurrency
  limit, from a count below that limit, so the counts stay at or below the limits.
\<close>

theorem admitted_request_takes_one_slot:
  assumes "try_acquire l k p klim plim now = (l', Inr ())"
  shows "unat (slots (key_concurrency l') j) = unat (slots (key_concurrency l) j) +
           (if j = k \<and> concurrency_limit klim \<noteq> None then 1 else 0) \<and>
         unat (slots (project_concurrency l') q) = unat (slots (project_concurrency l) q) +
           (if q = p \<and> concurrency_limit plim \<noteq> None then 1 else 0) \<and>
         (\<forall>n. concurrency_limit klim = Some n \<longrightarrow> slots (key_concurrency l') k \<le> n) \<and>
         (\<forall>m. concurrency_limit plim = Some m \<longrightarrow> slots (project_concurrency l') p \<le> m)"
  using try_acquire_slots_admitted [OF assms]
  by (auto simp: u32_unat_succ u32_succ_le)

theorem admitted_request_takes_one_slot_witness:
  "slots (key_concurrency (fst (try_acquire quota_limiter_new ''k'' ''p''
     (example_limits 5 2) (example_limits 5 3) 1))) ''k'' \<le> 2"
proof -
  have "try_acquire quota_limiter_new ''k'' ''p'' (example_limits 5 2) (example_limits 5 3) 1 =
    (fst (try_acquire quota_limiter_new ''k'' ''p'' (example_limits 5 2) (example_limits 5 3) 1), Inr ())"
    by (simp add: try_acquire_def check_project_rpm_def check_key_rpm_def reserve_project_def
        reserve_key_def example_limits_def quota_limiter_new_def would_exceed_rpm_def
        try_inc_concurrency_def rpm_state_new_def RPM_IDLE_TTL_def ns_per_sec_def Let_def)
  from admitted_request_takes_one_slot [OF this] show ?thesis
    by (simp add: example_limits_def)
qed

text \<open>Giving a slot back after taking it, whoever gives it back.\<close>

lemma acquire_then_release:
  assumes "try_acquire l k p klim plim now = (l', Inr ())"
    and "concurrency_limit klim \<noteq> None" and "concurrency_limit plim \<noteq> None"
  shows "slots (key_concurrency (release l' k (Some p))) = slots (key_concurrency l) \<and>
         slots (project_concurrency (release l' k (Some p))) = slots (project_concurrency l)"
proof -
  obtain n m where nm: "concurrency_limit klim = Some n" "concurrency_limit plim = Some m"
    using assms(2,3) by blast
  have ne: "slots (key_concurrency l) k + 1 \<noteq> 0" "slots (project_concurrency l) p + 1 \<noteq> 0"
    using u32_unat_succ [OF try_acquire_slots_admitted(3) [OF assms(1) nm(1)]]
      u32_unat_succ [OF try_acquire_slots_admitted(4) [OF assms(1) nm(2)]] by auto
  then show ?thesis
    using try_acquire_slots_admitted(1,2) [OF assms(1)] assms(2,3)
    by (auto simp: fun_eq_iff quota_simps)
qed

text \<open>
  Dropping the permit of an admitted request whose key and project both carry a
  concurrency limit gives back exactly what the admission took.
\<close>

theorem dropping_the_permit_restores_slots:
  assumes "try_acquire l k p klim plim now = (l', Inr ())"
    and "concurrency_limit klim \<noteq> None" and "concurrency_limit plim \<noteq> None"
  shows "slots (key_concurrency (permit_drop l' (quota_permit_new k p))) = slots (key_concurrency l) \<and>
         slots (project_concurrency (permit_drop l' (quota_permit_new k p))) =
           slots (project_concurrency l)"
  unfolding permit_drop_armed by (rule acquire_then_release [OF assms])

theorem dropping_the_permit_restores_slots_witness:
  "slots (key_concurrency (permit_drop (fst (try_acquire quota_limiter_new ''k'' ''p''
     (example_limits 5 2) (example_limits 5 3) 1)) (quota_permit_new ''k'' ''p''))) =
   slots (key_concurrency quota_limiter_new)"
proof -
  have "try_acquire quota_limiter_new ''k'' ''p'' (example_limits 5 2) (example_limits 5 3) 1 =
    (fst (try_acquire quota_limiter_new ''k'' ''p'' (example_limits 5 2) (example_limits 5 3) 1), Inr ())"
    by (simp add: try_acquire_def check_project_rpm_def check_key_rpm_def reserve_project_def
        reserve_key_def example_limits_def quota_limiter_new_def would_exceed_rpm_def
        try_inc_concurrency_def rpm_state_new_def RPM_IDLE_TTL_def ns_per_sec_def Let_def)
  from dropping_the_permit_restores_slots [OF this] show ?thesis
    by (simp add: example_limits_def)
qed

text \<open>
  A request without concurrency limits takes no slot, but dropping its permit still
  gives one back: if the id has a counter from an earlier limit, the count falls below the
  number of limited requests in flight.
\<close>

theorem unlimited_request_releases_a_slot_it_never_took:
  assumes "try_acquire l k p klim plim now = (l', Inr ())"
    and "concurrency_limit klim = None" and "slots (key_concurrency l) k \<noteq> 0"
  shows "slots (key_concurrency l') k = slots (key_concurrency l) k \<and>
         unat (slots (key_concurrency (permit_drop l' (quota_permit_new k p))) k) + 1 =
           unat (slots (key_concurrency l) k)"
proof -
  have same: "slots (key_concurrency l') k = slots (key_concurrency l) k"
    using try_acquire_slots_admitted(1) [OF assms(1)] assms(2) by simp
  have "0 < unat (slots (key_concurrency l) k)" using assms(3) by (simp add: unat_gt_0)
  then show ?thesis using same assms(3)
    by (simp add: permit_drop_armed quota_simps u32_unat_pred)
qed

definition one_in_flight :: quota_limiter where
  "one_in_flight = quota_limiter_new\<lparr>key_concurrency := [''k'' \<mapsto> 1]\<rparr>"

theorem unlimited_request_releases_a_slot_it_never_took_witness:
  "unat (slots (key_concurrency (permit_drop
     (fst (try_acquire one_in_flight ''k'' ''p'' \<lparr>rpm_limit = None, concurrency_limit = None\<rparr>
        \<lparr>rpm_limit = None, concurrency_limit = None\<rparr> 1))
     (quota_permit_new ''k'' ''p''))) ''k'') + 1 = 1"
proof -
  have "try_acquire one_in_flight ''k'' ''p'' \<lparr>rpm_limit = None, concurrency_limit = None\<rparr>
        \<lparr>rpm_limit = None, concurrency_limit = None\<rparr> 1 =
    (fst (try_acquire one_in_flight ''k'' ''p'' \<lparr>rpm_limit = None, concurrency_limit = None\<rparr>
        \<lparr>rpm_limit = None, concurrency_limit = None\<rparr> 1), Inr ())"
    by (simp add: try_acquire_def check_project_rpm_def check_key_rpm_def reserve_project_def
        reserve_key_def)
  from unlimited_request_releases_a_slot_it_never_took [OF this] show ?thesis
    by (simp add: one_in_flight_def slots_def)
qed

section \<open>Retry-After\<close>

lemma live_shrinks:
  assumes "sorted q" "q = o1 # qs" "o1 + RPM_WINDOW \<le> later" "\<forall>s \<in> set q. s \<le> later"
  shows "length (prune_window q later) < length q"
proof -
  have "prune_window q later = prune_window qs later"
    using assms(2,3) by (simp add: prune_window_def)
  then show ?thesis using assms(2) by (simp add: prune_window_def le_imp_less_Suc length_dropWhile_le)
qed

text \<open>
  C40. A client refused on a full window and told to wait \<open>secs\<close> seconds (between 1 and
  60) finds room again if it returns one second after that time or later and the window took no
  other request meanwhile.
\<close>

theorem retry_after_reopens_the_window:
  assumes "would_exceed_rpm m i limit now = (m', Some secs)"
    and "0 < limit" and "sorted (rpm_events m i)" and "\<forall>s \<in> set (rpm_events m i). s \<le> now"
    and "length (prune_window (rpm_events m i) now) \<le> unat limit"
    and "now + (secs + 1) * ns_per_sec \<le> later"
  shows "1 \<le> secs \<and> secs \<le> 60 \<and> snd (would_exceed_rpm m' i limit later) = None"
proof -
  define q where "q = prune_window (rpm_events m i) now"
  have ev: "rpm_events m' i = q" using would_exceed_events(1) [OF assms(1)] by (simp add: q_def)
  have q_sub: "q = live RPM_WINDOW (rpm_events m i) now"
    unfolding q_def by (rule rpm_win.prune_live [OF assms(3,4)])
  have full: "limit \<le> of_nat (length q)"
    using would_exceed_events(2) [OF assms(1)] by (simp add: q_def not_less)
  have "q \<noteq> []" using full assms(2) by auto
  then obtain o1 qs where q: "q = o1 # qs" by (cases q) auto
  have secs: "secs = max 1 ((RPM_WINDOW - (now - o1)) div ns_per_sec)"
    using assms(1) q by (auto simp: would_exceed_rpm_def Let_def events_unwrap q_def split: if_splits)
  have q_le: "\<forall>s \<in> set q. s \<le> now" using q_sub assms(4) set_live by blast
  have "RPM_WINDOW - (now - o1) < (secs + 1) * ns_per_sec"
  proof -
    have "(RPM_WINDOW - (now - o1)) div ns_per_sec < secs + 1" using secs by simp
    then show ?thesis by (simp add: div_less_iff_less_mult ns_per_sec_def)
  qed
  then have o1: "o1 + RPM_WINDOW \<le> later" using assms(6) q_le q by auto
  have later: "now \<le> later" using assms(6) by simp
  have "sorted q" using q_sub assms(3) sorted_live by simp
  then have "length (prune_window q later) < length q"
    using q o1 q_le later by (intro live_shrinks) (auto intro: order_trans)
  also have "\<dots> \<le> unat limit" using assms(5) by (simp add: q_def)
  finally have lt: "length (prune_window q later) < unat limit" .
  then have "(of_nat (length (prune_window q later)) :: u32) < limit"
    using unsigned_less [of limit, where ?'a = nat]
    by (simp add: word_less_nat_alt unat_of_nat)
  then show ?thesis
    using would_exceed_events(2) [of m' i limit later] would_exceed_retry [OF assms(1)]
    by (simp add: ev prod_eq_iff)
qed

definition full_window :: rpm_map where
  "full_window = [''k'' \<mapsto> \<lparr>events = [0], last_active = 0\<rparr>]"

lemma full_window_exceeds:
  "would_exceed_rpm full_window ''k'' 1 500000000 =
     ([''k'' \<mapsto> \<lparr>events = [0], last_active = 500000000\<rparr>], Some 59)"
  by (simp add: would_exceed_rpm_def full_window_def prune_window_def RPM_WINDOW_def
      ns_per_sec_def RPM_IDLE_TTL_def Let_def)

theorem retry_after_reopens_the_window_witness:
  "snd (would_exceed_rpm (fst (would_exceed_rpm full_window ''k'' 1 500000000)) ''k'' 1 60500000000) = None"
  using retry_after_reopens_the_window [OF full_window_exceeds, of 60500000000]
  by (simp add: full_window_exceeds) (simp add: full_window_def rpm_events_def prune_window_def
      RPM_WINDOW_def ns_per_sec_def)

text \<open>
  The advertised wait is rounded down, so it can be too short: half a second into a
  window of one request the client is told 59 seconds and is refused again after exactly that
  time.
\<close>

theorem retry_after_rounds_down:
  "snd (would_exceed_rpm full_window ''k'' 1 500000000) = Some 59 \<and>
   snd (would_exceed_rpm (fst (would_exceed_rpm full_window ''k'' 1 500000000)) ''k'' 1
     (500000000 + 59 * ns_per_sec)) \<noteq> None"
  by (simp add: full_window_exceeds)
    (simp add: would_exceed_rpm_def prune_window_def RPM_WINDOW_def ns_per_sec_def
      RPM_IDLE_TTL_def Let_def)

end

