(* ===== verification/Quota_Interleaving.thy ===== *)
theory Quota_Interleaving
  imports Quota
begin

text \<open>
  Requests that share one limiter, interleaved. QuotaLimiter takes shared references
  and locks each map entry by itself, so other requests may run between any two map
  accesses of try_acquire and release. A request is a thread with a phase per access; one
  step of the system lets one thread do its next access, or lets the clock advance. The
  clock is read once, when the thread starts.
\<close>

section \<open>Threads\<close>

datatype phase =
    Idle | ProjectRpm | KeyRpm | ProjectSlot | KeySlot | Rollback
  | CommitProject | CommitKey | InFlight | ReleaseProject | Done

record request_thread =
  th_key :: string
  th_project :: string
  th_key_limits :: quota_limits
  th_project_limits :: quota_limits
  th_now :: nat
  th_phase :: phase

definition thread_step :: "nat \<Rightarrow> quota_limiter \<Rightarrow> request_thread \<Rightarrow> quota_limiter \<times> request_thread" where
  "thread_step clock l t = (case th_phase t of
     Idle \<Rightarrow> (l, t\<lparr>th_now := clock, th_phase := ProjectRpm\<rparr>)
   | ProjectRpm \<Rightarrow> (case check_project_rpm l (th_project t) (th_project_limits t) (th_now t) of
        (l', r) \<Rightarrow> (l', t\<lparr>th_phase := if r = None then KeyRpm else Done\<rparr>))
   | KeyRpm \<Rightarrow> (case check_key_rpm l (th_key t) (th_key_limits t) (th_now t) of
        (l', r) \<Rightarrow> (l', t\<lparr>th_phase := if r = None then ProjectSlot else Done\<rparr>))
   | ProjectSlot \<Rightarrow> (case concurrency_limit (th_project_limits t) of
        None \<Rightarrow> (l, t\<lparr>th_phase := KeySlot\<rparr>)
      | Some n \<Rightarrow> (case try_inc_concurrency (project_concurrency l) (th_project t) n of
          (m, ok) \<Rightarrow> (l\<lparr>project_concurrency := m\<rparr>, t\<lparr>th_phase := if ok then KeySlot else Done\<rparr>)))
   | KeySlot \<Rightarrow> (case concurrency_limit (th_key_limits t) of
        None \<Rightarrow> (l, t\<lparr>th_phase := CommitProject\<rparr>)
      | Some n \<Rightarrow> (case try_inc_concurrency (key_concurrency l) (th_key t) n of
          (m, ok) \<Rightarrow> (l\<lparr>key_concurrency := m\<rparr>,
             t\<lparr>th_phase := if ok then CommitProject
                 else if concurrency_limit (th_project_limits t) \<noteq> None then Rollback else Done\<rparr>)))
   | Rollback \<Rightarrow> (l\<lparr>project_concurrency := dec_concurrency (project_concurrency l) (th_project t)\<rparr>,
        t\<lparr>th_phase := Done\<rparr>)
   | CommitProject \<Rightarrow> ((if rpm_limit (th_project_limits t) \<noteq> None
          then l\<lparr>project_rpm := record_rpm (project_rpm l) (th_project t) (th_now t)\<rparr> else l),
        t\<lparr>th_phase := CommitKey\<rparr>)
   | CommitKey \<Rightarrow> ((if rpm_limit (th_key_limits t) \<noteq> None
          then l\<lparr>key_rpm := record_rpm (key_rpm l) (th_key t) (th_now t)\<rparr> else l),
        t\<lparr>th_phase := InFlight\<rparr>)
   | InFlight \<Rightarrow> (l\<lparr>key_concurrency := dec_concurrency (key_concurrency l) (th_key t)\<rparr>,
        t\<lparr>th_phase := ReleaseProject\<rparr>)
   | ReleaseProject \<Rightarrow> (l\<lparr>project_concurrency := dec_concurrency (project_concurrency l) (th_project t)\<rparr>,
        t\<lparr>th_phase := Done\<rparr>)
   | Done \<Rightarrow> (l, t))"

record quota_sys =
  clock :: nat
  limiter :: quota_limiter
  threads :: "request_thread list"

inductive quota_sys_step :: "quota_sys \<Rightarrow> quota_sys \<Rightarrow> bool" where
  access: "i < length (threads s) \<Longrightarrow> thread_step (clock s) (limiter s) (threads s ! i) = (l, t) \<Longrightarrow>
     quota_sys_step s (s\<lparr>limiter := l, threads := (threads s)[i := t]\<rparr>)"
| tick: "clock s \<le> c \<Longrightarrow> quota_sys_step s (s\<lparr>clock := c\<rparr>)"

inductive_cases quota_sys_stepE: "quota_sys_step s s'"

inductive quota_reach :: "quota_sys \<Rightarrow> quota_sys \<Rightarrow> bool" for s0 where
  refl: "quota_reach s0 s0"
| step: "quota_reach s0 s \<Longrightarrow> quota_sys_step s s' \<Longrightarrow> quota_reach s0 s'"

definition quota_start :: "request_thread list \<Rightarrow> quota_sys" where
  "quota_start ts = \<lparr>clock = 0, limiter = quota_limiter_new, threads = ts\<rparr>"

text \<open>A schedule: the indices of the threads that move, one access each.\<close>

fun run_schedule :: "nat list \<Rightarrow> quota_sys \<Rightarrow> quota_sys" where
  "run_schedule [] s = s"
| "run_schedule (i # is) s = (if i < length (threads s)
     then (case thread_step (clock s) (limiter s) (threads s ! i) of
       (l, t) \<Rightarrow> run_schedule is (s\<lparr>limiter := l, threads := (threads s)[i := t]\<rparr>))
     else run_schedule is s)"

lemma quota_reach_trans: "quota_reach b c \<Longrightarrow> quota_reach a b \<Longrightarrow> quota_reach a c"
  by (induction rule: quota_reach.induct) (auto intro: quota_reach.step)

lemma run_schedule_reach: "quota_reach s (run_schedule is s)"
proof (induction "is" arbitrary: s)
  case Nil
  show ?case by (simp add: quota_reach.refl)
next
  case (Cons i "is")
  show ?case
  proof (cases "i < length (threads s)")
    case True
    obtain l t where st: "thread_step (clock s) (limiter s) (threads s ! i) = (l, t)" by fastforce
    have "quota_reach s (s\<lparr>limiter := l, threads := (threads s)[i := t]\<rparr>)"
      by (rule quota_reach.step [OF quota_reach.refl quota_sys_step.access [OF True st]])
    with Cons [of "s\<lparr>limiter := l, threads := (threads s)[i := t]\<rparr>"] True st show ?thesis
      by (auto intro: quota_reach_trans)
  qed (use Cons in simp)
qed

section \<open>Slots are counted exactly\<close>

text \<open>The phases in which a thread holds its project slot and its key slot.\<close>

definition holds_project :: "string \<Rightarrow> request_thread \<Rightarrow> bool" where
  "holds_project p t \<longleftrightarrow> th_project t = p \<and>
     th_phase t \<in> {KeySlot, Rollback, CommitProject, CommitKey, InFlight, ReleaseProject}"

definition holds_key :: "string \<Rightarrow> request_thread \<Rightarrow> bool" where
  "holds_key k t \<longleftrightarrow> th_key t = k \<and> th_phase t \<in> {CommitProject, CommitKey, InFlight}"

text \<open>Every request carries the concurrency limits \<open>KL\<close> of its key and \<open>PL\<close> of its project.\<close>

definition limits_are :: "(string \<Rightarrow> u32) \<Rightarrow> (string \<Rightarrow> u32) \<Rightarrow> request_thread list \<Rightarrow> bool" where
  "limits_are KL PL ts \<longleftrightarrow> (\<forall>t \<in> set ts.
     concurrency_limit (th_key_limits t) = Some (KL (th_key t)) \<and>
     concurrency_limit (th_project_limits t) = Some (PL (th_project t)))"

definition count :: "('a \<Rightarrow> bool) \<Rightarrow> 'a list \<Rightarrow> nat" where
  "count P xs = length (filter P xs)"

definition slot_inv :: "(string \<Rightarrow> u32) \<Rightarrow> (string \<Rightarrow> u32) \<Rightarrow> quota_sys \<Rightarrow> bool" where
  "slot_inv KL PL s \<longleftrightarrow> limits_are KL PL (threads s) \<and>
     (\<forall>k. unat (slots (key_concurrency (limiter s)) k) = count (holds_key k) (threads s) \<and>
          slots (key_concurrency (limiter s)) k \<le> KL k) \<and>
     (\<forall>p. unat (slots (project_concurrency (limiter s)) p) = count (holds_project p) (threads s) \<and>
          slots (project_concurrency (limiter s)) p \<le> PL p)"

lemma count_update:
  assumes "i < length xs"
  shows "count P (xs[i := x]) + (if P (xs ! i) then 1 else 0) = count P xs + (if P x then 1 else 0)"
proof -
  have "xs = take i xs @ xs ! i # drop (Suc i) xs" using assms by (rule id_take_nth_drop)
  moreover have "xs[i := x] = take i xs @ x # drop (Suc i) xs" using assms by (rule upd_conv_take_nth_drop)
  ultimately have "count P xs = count P (take i xs @ xs ! i # drop (Suc i) xs)"
    and "count P (xs[i := x]) = count P (take i xs @ x # drop (Suc i) xs)" by metis+
  then show ?thesis by (simp add: count_def)
qed

lemma count_pos: "i < length xs \<Longrightarrow> P (xs ! i) \<Longrightarrow> 0 < count P xs"
  by (auto simp: count_def filter_empty_conv)

text \<open>One access of one thread against the two counters.\<close>

definition slot_delta :: "counter_map \<Rightarrow> counter_map \<Rightarrow> string \<Rightarrow> u32 \<Rightarrow> bool \<Rightarrow> bool \<Rightarrow> bool" where
  "slot_delta m m' i n held held' \<longleftrightarrow> (\<forall>j. j \<noteq> i \<longrightarrow> slots m' j = slots m j) \<and>
     (if held = held' then slots m' i = slots m i
      else if held' then slots m i < n \<and> slots m' i = slots m i + 1
      else slots m' i = (if slots m i \<noteq> 0 then slots m i - 1 else 0))"

lemma inc_proj [quota_simps]:
  "slots (fst (try_inc_concurrency m i n)) j =
     (if j = i \<and> slots m i < n then slots m i + 1 else slots m j)"
  "snd (try_inc_concurrency m i n) \<longleftrightarrow> slots m i < n"
  using inc_slots [of m i n] inc_ok [of m i n] by (simp_all add: prod_eq_iff)

lemma check_proj [quota_simps]:
  "key_concurrency (fst (check_project_rpm l p lim now)) = key_concurrency l"
  "project_concurrency (fst (check_project_rpm l p lim now)) = project_concurrency l"
  "key_concurrency (fst (check_key_rpm l p lim now)) = key_concurrency l"
  "project_concurrency (fst (check_key_rpm l p lim now)) = project_concurrency l"
  using check_project_frame(1,2) [of l p lim now] check_key_frame(1,2) [of l p lim now]
  by (metis prod.collapse)+

lemmas thread_step_slot_simps =
  thread_step_def slot_delta_def holds_key_def holds_project_def quota_simps case_prod_beta

lemma thread_step_ids:
  assumes "thread_step c l t = (l', t')"
  shows "th_key t' = th_key t \<and> th_project t' = th_project t \<and>
    th_key_limits t' = th_key_limits t \<and> th_project_limits t' = th_project_limits t"
  using assms
  by (cases "th_phase t"; cases "concurrency_limit (th_key_limits t)";
      cases "concurrency_limit (th_project_limits t)")
    (auto simp: thread_step_def case_prod_beta)

lemma thread_step_key_slots:
  assumes "thread_step c l t = (l', t')" "concurrency_limit (th_key_limits t) = Some n"
  shows "slot_delta (key_concurrency l) (key_concurrency l') (th_key t) n
           (holds_key (th_key t) t) (holds_key (th_key t) t')"
  using assms
  by (cases "th_phase t"; cases "concurrency_limit (th_project_limits t)";
      auto simp: thread_step_slot_simps split: if_splits)

lemma thread_step_project_slots:
  assumes "thread_step c l t = (l', t')" "concurrency_limit (th_project_limits t) = Some n"
  shows "slot_delta (project_concurrency l) (project_concurrency l') (th_project t) n
           (holds_project (th_project t) t) (holds_project (th_project t) t')"
  using assms
  by (cases "th_phase t"; cases "concurrency_limit (th_key_limits t)";
      auto simp: thread_step_slot_simps split: if_splits)

text \<open>
  One counter: if it equals the number of holders and is at most its limit before an
  access, it does after it.
\<close>

lemma slot_count_step:
  fixes ts :: "request_thread list"
  assumes i: "i < length ts"
    and delta: "slot_delta m m' (f (ts ! i)) n (P (ts ! i)) (P t')"
    and other: "\<And>j t. j \<noteq> f t \<Longrightarrow> \<not> H j t" and mine: "\<And>t. P t = H (f t) t"
    and f: "f t' = f (ts ! i)" and n: "n = L (f (ts ! i))"
    and inv: "\<And>j. unat (slots m j) = count (H j) ts \<and> slots m j \<le> L j"
  shows "unat (slots m' j) = count (H j) (ts[i := t']) \<and> slots m' j \<le> L j"
proof (cases "j = f (ts ! i)")
  case False
  then have "slots m' j = slots m j" "\<not> H j (ts ! i)" "\<not> H j t'"
    using delta other f by (auto simp: slot_delta_def)
  then show ?thesis using inv [of j] count_update [OF i, of "H j" t'] by simp
next
  case True
  have held: "H j (ts ! i) = P (ts ! i)" "H j t' = P t'" using mine True f by simp_all
  note upd = count_update [OF i, of "H j" t', unfolded held]
  consider "P (ts ! i) = P t'" | "\<not> P (ts ! i)" "P t'" | "P (ts ! i)" "\<not> P t'" by blast
  then show ?thesis
  proof cases
    case 1
    then have "slots m' j = slots m j" using delta True by (simp add: slot_delta_def)
    then show ?thesis using inv [of j] upd 1 by simp
  next
    case 2
    then have "slots m j < L j" "slots m' j = slots m j + 1"
      using delta True n by (simp_all add: slot_delta_def)
    then show ?thesis using inv [of j] upd 2 by (simp add: u32_unat_succ u32_succ_le)
  next
    case 3
    have "0 < count (H j) ts" using count_pos [OF i, of "H j"] held 3 by simp
    then have "0 < unat (slots m j)" using inv [of j] by simp
    then have nz: "slots m j \<noteq> 0" by (metis unat_0 less_irrefl)
    then have s: "slots m' j = slots m j - 1" using delta True 3 by (simp add: slot_delta_def)
    have "unat (slots m' j) = unat (slots m j) - 1" using s nz by (simp add: u32_unat_pred)
    moreover have "slots m' j \<le> slots m j" using s nz by (simp add: word_le_nat_alt u32_unat_pred)
    ultimately show ?thesis using inv [of j] upd 3 by auto
  qed
qed

lemma slot_inv_access:
  assumes inv: "slot_inv KL PL s" and i: "i < length (threads s)"
    and st: "thread_step c (limiter s) (threads s ! i) = (l, t)"
  shows "slot_inv KL PL (s\<lparr>limiter := l, threads := (threads s)[i := t]\<rparr>)"
proof -
  let ?t = "threads s ! i"
  note ids = thread_step_ids [OF st]
  have lim: "concurrency_limit (th_key_limits ?t) = Some (KL (th_key ?t))"
    "concurrency_limit (th_project_limits ?t) = Some (PL (th_project ?t))"
    using inv i by (simp_all add: slot_inv_def limits_are_def)
  have k: "unat (slots (key_concurrency l) j) = count (holds_key j) ((threads s)[i := t]) \<and>
      slots (key_concurrency l) j \<le> KL j" for j
    by (rule slot_count_step [where f = th_key and H = holds_key and L = KL
          and P = "\<lambda>t. holds_key (th_key t) t", OF i])
      (use inv ids thread_step_key_slots [OF st lim(1)] in
        \<open>auto simp: slot_inv_def holds_key_def\<close>)
  have p: "unat (slots (project_concurrency l) j) = count (holds_project j) ((threads s)[i := t]) \<and>
      slots (project_concurrency l) j \<le> PL j" for j
    by (rule slot_count_step [where f = th_project and H = holds_project and L = PL
          and P = "\<lambda>t. holds_project (th_project t) t", OF i])
      (use inv ids thread_step_project_slots [OF st lim(2)] in
        \<open>auto simp: slot_inv_def holds_project_def\<close>)
  have "limits_are KL PL ((threads s)[i := t])"
    using inv lim ids set_update_subset_insert [of "threads s" i t]
    by (fastforce simp: slot_inv_def limits_are_def)
  with k p show ?thesis by (simp add: slot_inv_def)
qed

lemma slot_inv_step:
  assumes "slot_inv KL PL s" "quota_sys_step s s'" shows "slot_inv KL PL s'"
  using assms(2)
proof (rule quota_sys_stepE)
  fix i l t
  assume "s' = s\<lparr>limiter := l, threads := (threads s)[i := t]\<rparr>" "i < length (threads s)"
    "thread_step (clock s) (limiter s) (threads s ! i) = (l, t)"
  then show ?thesis using slot_inv_access [OF assms(1)] by simp
next
  fix c
  assume "s' = s\<lparr>clock := c\<rparr>"
  then show ?thesis using assms(1) by (simp add: slot_inv_def)
qed

lemma slot_inv_start:
  assumes "limits_are KL PL ts" "\<forall>t \<in> set ts. th_phase t = Idle"
  shows "slot_inv KL PL (quota_start ts)"
  using assms
  by (auto simp: slot_inv_def quota_start_def quota_limiter_new_def slots_def unwrap_or_def count_def
      holds_key_def holds_project_def filter_empty_conv)

lemma slot_inv_reach:
  assumes "quota_reach s0 s" "slot_inv KL PL s0" shows "slot_inv KL PL s"
  using assms by (induction rule: quota_reach.induct) (auto intro: slot_inv_step)

definition racer :: "nat \<Rightarrow> u32 \<Rightarrow> request_thread" where
  "racer rpm conc = \<lparr>th_key = ''k'', th_project = ''p'',
     th_key_limits = \<lparr>rpm_limit = Some (of_nat rpm), concurrency_limit = Some conc\<rparr>,
     th_project_limits = \<lparr>rpm_limit = None, concurrency_limit = Some conc\<rparr>,
     th_now = 0, th_phase = Idle\<rparr>"

lemmas race_simps =
  racer_def quota_start_def quota_limiter_new_def thread_step_def check_project_rpm_def check_key_rpm_def
  would_exceed_rpm_def record_rpm_def evict_if_empty_def rpm_state_new_def prune_window_def
  RPM_WINDOW_def RPM_IDLE_TTL_def ns_per_sec_def try_inc_concurrency_def dec_concurrency_def
  rpm_events_def Let_def



text \<open>
  The requests-per-minute limit is not atomic: the check and the recording of an
  admission are separate map accesses, so two requests under a limit of one that both
  check before either records are both admitted in the same instant.
\<close>

theorem rpm_limit_can_be_raced:
  "let s = run_schedule [0, 1, 0, 1, 0, 1, 0, 1, 0, 1, 0, 1, 0, 1] (quota_start [racer 1 5, racer 1 5])
   in map th_phase (threads s) = [InFlight, InFlight] \<and>
      length (rpm_events (key_rpm (limiter s)) ''k'') = 2"
  by (simp add: race_simps word_le_nat_alt)

end
