(* ===== verification/Rust_Text.thy ===== *)
theory Rust_Text
  imports Prelude "HOL-Library.Char_ord" "HOL-Library.Sublist"
begin

text \<open>
  Rust's str and String as UTF-8 byte strings: a HOL string is a list of bytes, so
  length is str::len, and the scalar values of str::chars are the byte groups that
  utf8_chars cuts out. The string functions of the standard library the sources call
  are written out below: contains, trim, split, lines, ASCII case mapping, parsing and
  printing of integers in a radix.
\<close>

section \<open>Scalar values\<close>

definition byte :: "char \<Rightarrow> nat" where
  "byte c = of_char c"

definition is_cont :: "char \<Rightarrow> bool" where
  "is_cont c \<longleftrightarrow> 128 \<le> byte c \<and> byte c < 192"

function utf8_chars :: "string \<Rightarrow> string list" where
  "utf8_chars [] = []"
| "utf8_chars (c # cs) = (c # takeWhile is_cont cs) # utf8_chars (dropWhile is_cont cs)"
  by pat_completeness auto
termination
  by (relation "measure length") (auto simp: le_imp_less_Suc length_dropWhile_le)

fun codepoint :: "string \<Rightarrow> nat" where
  "codepoint [] = 0"
| "codepoint [a] = byte a"
| "codepoint [a, b] = (byte a mod 32) * 64 + byte b mod 64"
| "codepoint [a, b, c] = (byte a mod 16) * 4096 + (byte b mod 64) * 64 + byte c mod 64"
| "codepoint (a # b # c # d # _) =
     (byte a mod 8) * 262144 + (byte b mod 64) * 4096 + (byte c mod 64) * 64 + byte d mod 64"

definition is_whitespace :: "string \<Rightarrow> bool" where
  "is_whitespace ch = (let p = codepoint ch in
     (9 \<le> p \<and> p \<le> 13) \<or> p = 32 \<or> p = 133 \<or> p = 160 \<or> p = 5760 \<or>
     (8192 \<le> p \<and> p \<le> 8202) \<or> p = 8232 \<or> p = 8233 \<or> p = 8239 \<or> p = 8287 \<or> p = 12288)"

definition is_control :: "string \<Rightarrow> bool" where
  "is_control ch = (let p = codepoint ch in p < 32 \<or> (127 \<le> p \<and> p < 160))"

definition is_ascii_digit :: "char \<Rightarrow> bool" where
  "is_ascii_digit c \<longleftrightarrow> 48 \<le> byte c \<and> byte c \<le> 57"

definition is_ascii_upper :: "char \<Rightarrow> bool" where
  "is_ascii_upper c \<longleftrightarrow> 65 \<le> byte c \<and> byte c \<le> 90"

definition is_ascii_lower :: "char \<Rightarrow> bool" where
  "is_ascii_lower c \<longleftrightarrow> 97 \<le> byte c \<and> byte c \<le> 122"

definition is_ascii_alphanumeric :: "char \<Rightarrow> bool" where
  "is_ascii_alphanumeric c \<longleftrightarrow> is_ascii_digit c \<or> is_ascii_upper c \<or> is_ascii_lower c"

definition to_ascii_lowercase :: "string \<Rightarrow> string" where
  "to_ascii_lowercase = map (\<lambda>c. if is_ascii_upper c then char_of (byte c + 32) else c)"

definition to_ascii_uppercase :: "string \<Rightarrow> string" where
  "to_ascii_uppercase = map (\<lambda>c. if is_ascii_lower c then char_of (byte c - 32) else c)"

section \<open>Searching, trimming, splitting\<close>

definition starts_with :: "string \<Rightarrow> string \<Rightarrow> bool" where
  "starts_with s p \<longleftrightarrow> take (length p) s = p"

definition ends_with :: "string \<Rightarrow> string \<Rightarrow> bool" where
  "ends_with s p \<longleftrightarrow> starts_with (rev s) (rev p)"

fun contains :: "string \<Rightarrow> string \<Rightarrow> bool" where
  "contains [] p \<longleftrightarrow> p = []"
| "contains (c # cs) p \<longleftrightarrow> starts_with (c # cs) p \<or> contains cs p"

definition contains_any :: "string \<Rightarrow> string list \<Rightarrow> bool" where
  "contains_any s ps \<longleftrightarrow> list_ex (contains s) ps"

text \<open>\<open>find\<close>: the byte offset of the first occurrence.\<close>

fun find_from :: "nat \<Rightarrow> string \<Rightarrow> string \<Rightarrow> nat option" where
  "find_from i [] p = (if p = [] then Some i else None)"
| "find_from i (c # cs) p = (if starts_with (c # cs) p then Some i else find_from (Suc i) cs p)"

definition find_str :: "string \<Rightarrow> string \<Rightarrow> nat option" where
  "find_str s p = find_from 0 s p"

definition trim_chars :: "string list \<Rightarrow> string list" where
  "trim_chars cs = rev (dropWhile is_whitespace (rev (dropWhile is_whitespace cs)))"

definition trim :: "string \<Rightarrow> string" where
  "trim s = concat (trim_chars (utf8_chars s))"

fun trim_start_matches :: "nat \<Rightarrow> string \<Rightarrow> string \<Rightarrow> string" where
  "trim_start_matches 0 s p = s"
| "trim_start_matches (Suc n) s p =
     (if p \<noteq> [] \<and> starts_with s p then trim_start_matches n (drop (length p) s) p else s)"

text \<open>Removing every leading \<open>0x\<close>: the length of the string bounds the rounds.\<close>

definition trim_start_0x :: "string \<Rightarrow> string" where
  "trim_start_0x s = trim_start_matches (length s) s ''0x''"

definition trim_end_char :: "char \<Rightarrow> string \<Rightarrow> string" where
  "trim_end_char c s = rev (dropWhile (\<lambda>d. d = c) (rev s))"

fun split_on :: "char \<Rightarrow> string \<Rightarrow> string list" where
  "split_on c [] = [[]]"
| "split_on c (x # xs) = (if x = c then [] # split_on c xs
     else (case split_on c xs of [] \<Rightarrow> [[x]] | w # ws \<Rightarrow> (x # w) # ws))"

text \<open>\<open>lines\<close>: split at newlines, a final empty piece dropped, a trailing CR removed.\<close>

definition lines :: "string \<Rightarrow> string list" where
  "lines s = (let ps = split_on (CHR 10) s;
                  qs = (if last ps = [] then butlast ps else ps)
     in map (\<lambda>l. if ends_with l [CHR 13] then butlast l else l) qs)"

text \<open>\<open>split_whitespace\<close>: the maximal runs of non-whitespace characters.\<close>

function words_of :: "string list \<Rightarrow> string list" where
  "words_of [] = []"
| "words_of (c # cs) = (if is_whitespace c then words_of cs
     else concat (c # takeWhile (\<lambda>x. \<not> is_whitespace x) cs)
          # words_of (dropWhile (\<lambda>x. \<not> is_whitespace x) cs))"
  by pat_completeness auto
termination
  by (relation "measure length") (auto simp: le_imp_less_Suc length_dropWhile_le)

definition split_whitespace :: "string \<Rightarrow> string list" where
  "split_whitespace s = words_of (utf8_chars s)"

fun join :: "string \<Rightarrow> string list \<Rightarrow> string" where
  "join sep [] = []"
| "join sep [x] = x"
| "join sep (x # xs) = x @ sep @ join sep xs"

section \<open>Integers as text\<close>

definition digit_char :: "nat \<Rightarrow> char" where
  "digit_char d = (if d < 10 then char_of (48 + d) else char_of (87 + d))"

function show_nat :: "nat \<Rightarrow> string" where
  "show_nat n = (if n < 10 then [digit_char n] else show_nat (n div 10) @ [digit_char (n mod 10)])"
  by pat_completeness auto
termination
  by (relation "measure id") auto

declare show_nat.simps [simp del]

definition show_int :: "int \<Rightarrow> string" where
  "show_int i = (if i < 0 then ''-'' @ show_nat (nat (- i)) else show_nat (nat i))"

text \<open>\<open>char::to_digit(radix)\<close>: digits, then letters of either case.\<close>

definition digit_value :: "nat \<Rightarrow> char \<Rightarrow> nat option" where
  "digit_value radix c =
     (let v = (if is_ascii_digit c then Some (byte c - 48)
               else if is_ascii_lower c then Some (byte c - 87)
               else if is_ascii_upper c then Some (byte c - 55) else None)
      in case v of None \<Rightarrow> None | Some d \<Rightarrow> if d < radix then Some d else None)"

fun digits_value :: "nat \<Rightarrow> nat \<Rightarrow> string \<Rightarrow> nat option" where
  "digits_value radix acc [] = Some acc"
| "digits_value radix acc (c # cs) = (case digit_value radix c of
     None \<Rightarrow> None | Some d \<Rightarrow> digits_value radix (acc * radix + d) cs)"

text \<open>
  \<open>from_str_radix\<close> of an unsigned type with maximum \<open>mx\<close>: an optional plus sign, at
  least one digit, and no overflow.
\<close>

definition parse_unsigned :: "nat \<Rightarrow> nat \<Rightarrow> string \<Rightarrow> nat option" where
  "parse_unsigned radix mx s =
     (let ds = (case s of c # cs \<Rightarrow> if c = CHR 43 then cs else s | [] \<Rightarrow> []) in
      if ds = [] then None
      else case digits_value radix 0 ds of
        None \<Rightarrow> None | Some n \<Rightarrow> if n \<le> mx then Some n else None)"

definition parse_i64 :: "string \<Rightarrow> int option" where
  "parse_i64 s = (case s of
     [] \<Rightarrow> None
   | c # cs \<Rightarrow> if c = CHR 45
       then if cs = [] then None
            else case digits_value 10 0 cs of None \<Rightarrow> None
              | Some n \<Rightarrow> if n \<le> 2 ^ 63 then Some (- int n) else None
       else map_option int (parse_unsigned 10 (2 ^ 63 - 1) s))"

text \<open>\<open>{:016x}\<close> of a 64-bit value.\<close>

fun hex_digits :: "nat \<Rightarrow> nat \<Rightarrow> string" where
  "hex_digits 0 n = []"
| "hex_digits (Suc k) n = hex_digits k (n div 16) @ [digit_char (n mod 16)]"

definition hex16 :: "u64 \<Rightarrow> string" where
  "hex16 h = hex_digits 16 (unat h)"

section \<open>Lemmas\<close>

definition ascii :: "string \<Rightarrow> bool" where
  "ascii s \<longleftrightarrow> list_all (\<lambda>c. byte c < 128) s"

lemma utf8_chars_ascii: "ascii s \<Longrightarrow> utf8_chars s = map (\<lambda>c. [c]) s"
proof (induction s)
  case (Cons c cs)
  have "takeWhile is_cont cs = []" "dropWhile is_cont cs = cs"
    using Cons.prems by (cases cs; simp add: ascii_def is_cont_def)+
  then show ?case using Cons by (simp add: ascii_def)
qed (simp add: ascii_def)

lemma concat_utf8_chars [simp]: "concat (utf8_chars s) = s"
  by (induction s rule: utf8_chars.induct) simp_all

lemma utf8_chars_Nil_iff [simp]: "utf8_chars s = [] \<longleftrightarrow> s = []"
  by (cases s) simp_all

lemma trim_ascii:
  assumes "ascii s" "list_all (\<lambda>c. \<not> is_whitespace [c]) s"
  shows "trim s = s"
proof -
  have dw: "dropWhile is_whitespace (map (\<lambda>c. [c]) t) = map (\<lambda>c. [c]) t"
    if "list_all (\<lambda>c. \<not> is_whitespace [c]) t" for t
    using that by (cases t) simp_all
  have r: "list_all (\<lambda>c. \<not> is_whitespace [c]) (rev s)" using assms(2) by simp
  have "concat (map (\<lambda>c. [c]) t) = t" for t :: string by (induction t) simp_all
  then show ?thesis
    unfolding trim_def trim_chars_def utf8_chars_ascii [OF assms(1)] dw [OF assms(2)] rev_map dw [OF r]
    by simp
qed

text \<open>Cutting a string at its characters and gluing them again.\<close>

definition chunks :: "string list \<Rightarrow> bool" where
  "chunks cs \<longleftrightarrow> (\<forall>x \<in> set cs. x \<noteq> [] \<and> list_all is_cont (tl x)) \<and> (\<forall>x \<in> set (tl cs). \<not> is_cont (hd x))"

lemma chunks_utf8: "chunks (utf8_chars s)"
proof (induction s rule: utf8_chars.induct)
  case (2 c cs)
  have "\<not> is_cont (hd x)" if "x \<in> set (utf8_chars (dropWhile is_cont cs))" for x
  proof (cases "dropWhile is_cont cs")
    case (Cons d ds)
    then have "\<not> is_cont d" by (metis dropWhile_eq_Cons_conv)
    with Cons 2 that show ?thesis by (auto simp: chunks_def)
  next
    case Nil
    with that show ?thesis unfolding Nil by simp
  qed
  moreover have "list_all is_cont (takeWhile is_cont cs)"
    by (auto simp: list_all_iff dest: set_takeWhileD)
  ultimately show ?case using 2 by (auto simp: chunks_def)
qed (simp add: chunks_def)

lemma cut_cont:
  assumes "list_all is_cont t" "u = [] \<or> \<not> is_cont (hd u)"
  shows "takeWhile is_cont (t @ u) = t" "dropWhile is_cont (t @ u) = u"
  using assms by (induction t) (cases u; simp)+

lemma chunks_Cons:
  "chunks (x # cs) \<Longrightarrow> x \<noteq> [] \<and> list_all is_cont (tl x) \<and> chunks cs \<and>
     (concat cs = [] \<or> \<not> is_cont (hd (concat cs)))"
  by (cases cs) (auto simp: chunks_def)

lemma utf8_chars_concat: "chunks cs \<Longrightarrow> utf8_chars (concat cs) = cs"
proof (induction cs)
  case (Cons x rest)
  from chunks_Cons [OF Cons.prems] obtain c t where x: "x = c # t" "list_all is_cont t" "chunks rest"
    "concat rest = [] \<or> \<not> is_cont (hd (concat rest))"
    by (cases x) simp_all
  from Cons.IH [OF x(3)] show ?case by (simp add: x(1) cut_cont [OF x(2,4)])
qed simp

lemma chunks_suffix: "chunks (xs @ ys) \<Longrightarrow> chunks ys"
  by (cases xs; cases ys) (auto simp: chunks_def)

lemma chunks_prefix: "chunks (xs @ ys) \<Longrightarrow> chunks xs"
  by (cases xs) (auto simp: chunks_def)

lemma chunks_snoc: "chunks cs \<Longrightarrow> \<not> is_cont c \<Longrightarrow> chunks (cs @ [[c]])"
  by (cases cs) (auto simp: chunks_def)

lemma utf8_chars_snoc: "\<not> is_cont c \<Longrightarrow> utf8_chars (s @ [c]) = utf8_chars s @ [[c]]"
  using utf8_chars_concat [OF chunks_snoc [OF chunks_utf8, of c s]] by simp

lemma utf8_chars_append_replicate:
  "\<not> is_cont c \<Longrightarrow> utf8_chars (s @ replicate n c) = utf8_chars s @ replicate n [c]"
proof (induction n)
  case (Suc n)
  have "utf8_chars (s @ replicate (Suc n) c) = utf8_chars ((s @ replicate n c) @ [c])"
    by (simp add: replicate_append_same)
  also have "\<dots> = (utf8_chars s @ replicate n [c]) @ [[c]]"
    unfolding utf8_chars_snoc [OF Suc.prems] Suc.IH [OF Suc.prems] ..
  finally show ?case by (simp add: replicate_append_same)
qed simp

lemma trim_chars_sublist: "\<exists>as bs. cs = as @ trim_chars cs @ bs"
proof -
  have "cs = takeWhile is_whitespace cs @ dropWhile is_whitespace cs" by simp
  moreover have "ds = rev (dropWhile is_whitespace (rev ds)) @ rev (takeWhile is_whitespace (rev ds))" for ds
    by (metis rev_append rev_rev_ident takeWhile_dropWhile_id)
  ultimately show ?thesis unfolding trim_chars_def by metis
qed

lemma utf8_chars_trim: "utf8_chars (trim s) = trim_chars (utf8_chars s)"
  using trim_chars_sublist [of "utf8_chars s"] chunks_utf8 [of s] chunks_suffix chunks_prefix
  unfolding trim_def by (metis utf8_chars_concat)

lemma trim_chars_hd:
  assumes "trim_chars cs \<noteq> []" shows "\<not> is_whitespace (hd (trim_chars cs))"
proof -
  let ?d = "dropWhile is_whitespace cs"
  have "?d \<noteq> []"
  proof
    assume "?d = []"
    then have "trim_chars cs = []" unfolding trim_chars_def \<open>?d = []\<close> by simp
    with assms show False ..
  qed
  then have h: "\<not> is_whitespace (hd ?d)" by (rule hd_dropWhile)
  have "rev ?d = takeWhile is_whitespace (rev ?d) @ dropWhile is_whitespace (rev ?d)" by simp
  then have "?d = trim_chars cs @ rev (takeWhile is_whitespace (rev ?d))"
    unfolding trim_chars_def by (metis rev_append rev_rev_ident)
  with assms h show ?thesis by (metis hd_append2)
qed

lemma trim_id:
  assumes "utf8_chars s \<noteq> []" "\<not> is_whitespace (hd (utf8_chars s))" "\<not> is_whitespace (last (utf8_chars s))"
  shows "trim s = s"
proof -
  have "dropWhile is_whitespace (utf8_chars s) = utf8_chars s"
    using assms(1,2) by (cases "utf8_chars s") simp_all
  moreover have "dropWhile is_whitespace (rev (utf8_chars s)) = rev (utf8_chars s)"
    using assms(1,3) by (cases "utf8_chars s" rule: rev_cases) simp_all
  ultimately show ?thesis by (simp add: trim_def trim_chars_def)
qed

lemma trim_end_char_split: "\<exists>n. s = trim_end_char c s @ replicate n c"
proof -
  have "rev s = takeWhile (\<lambda>d. d = c) (rev s) @ dropWhile (\<lambda>d. d = c) (rev s)" by simp
  then have "s = trim_end_char c s @ rev (takeWhile (\<lambda>d. d = c) (rev s))"
    unfolding trim_end_char_def by (metis rev_append rev_rev_ident)
  moreover have "takeWhile (\<lambda>d. d = c) xs = replicate (length (takeWhile (\<lambda>d. d = c) xs)) c" for xs
    by (induction xs) simp_all
  ultimately show ?thesis by (metis rev_replicate)
qed

lemma trim_end_char_last: "trim_end_char c s = s \<Longrightarrow> s \<noteq> [] \<Longrightarrow> last s \<noteq> c"
proof (cases s rule: rev_cases)
  case (snoc xs d)
  assume eq: "trim_end_char c s = s"
  have "length (dropWhile (\<lambda>d. d = c) (rev xs)) \<le> length xs" by (metis length_dropWhile_le length_rev)
  moreover have "d = c \<Longrightarrow> length (dropWhile (\<lambda>d. d = c) (rev xs)) = Suc (length xs)"
    using arg_cong [OF eq, of length] by (simp add: snoc trim_end_char_def)
  ultimately show ?thesis using snoc by force
qed simp

lemma trim_end_char_idem [simp]: "trim_end_char c (trim_end_char c s) = trim_end_char c s"
  by (simp add: trim_end_char_def)

lemma trim_end_char_snoc [simp]: "trim_end_char c (s @ [c]) = trim_end_char c s"
  by (simp add: trim_end_char_def)

lemma starts_with_iff: "starts_with s p \<longleftrightarrow> (\<exists>t. s = p @ t)"
  by (metis append_eq_conv_conj append_take_drop_id starts_with_def)

lemma contains_iff: "contains s p \<longleftrightarrow> (\<exists>a b. s = a @ p @ b)"
proof (induction s)
  case Nil
  show ?case by simp
next
  case (Cons c cs)
  have "(\<exists>a b. c # cs = a @ p @ b) \<longleftrightarrow> (\<exists>b. c # cs = p @ b) \<or> (\<exists>a b. cs = a @ p @ b)"
    by (metis append_Cons append_Nil list.exhaust list.inject)
  with Cons show ?case by (simp add: starts_with_iff)
qed

lemma contains_mono: "contains s p \<Longrightarrow> contains (a @ s @ b) p"
  by (metis append.assoc contains_iff)

lemma length_hex_digits [simp]: "length (hex_digits k n) = k"
  by (induction k arbitrary: n) simp_all

lemma byte_char_of: "n < 256 \<Longrightarrow> byte (char_of n) = n"
  by (simp add: byte_def)

lemma digit_value_digit_char:
  assumes "d < 16"
  shows "digit_value 16 (digit_char d) = Some d"
  using assms
  by (auto simp: digit_value_def digit_char_def byte_char_of is_ascii_digit_def is_ascii_lower_def)

lemma digits_value_append:
  "digits_value r acc (xs @ ys) =
     (case digits_value r acc xs of None \<Rightarrow> None | Some a \<Rightarrow> digits_value r a ys)"
  by (induction xs arbitrary: acc) (auto split: option.splits)

lemma digits_value_hex_digits:
  "digits_value 16 acc (hex_digits k n) = Some (acc * 16 ^ k + n mod 16 ^ k)"
proof (induction k arbitrary: n)
  case 0
  show ?case by simp
next
  case (Suc k)
  have "n mod 16 ^ Suc k = (n div 16) mod 16 ^ k * 16 + n mod 16"
    using mod_mult2_eq [of n 16 "16 ^ k"] by simp
  with Suc show ?case
    by (simp add: digits_value_append digit_value_digit_char algebra_simps)
qed

lemma digit_char_not_plus: "d < 16 \<Longrightarrow> digit_char d \<noteq> CHR 43"
proof
  assume "d < 16" "digit_char d = CHR 43"
  then have "byte (digit_char d) = 43" by (simp add: byte_def)
  with \<open>d < 16\<close> show False by (auto simp: digit_char_def byte_char_of split: if_splits)
qed

lemma set_hex_digits: "set (hex_digits k n) \<subseteq> digit_char ` {..<16}"
  by (induction k arbitrary: n) auto

text \<open>Printing a 64-bit value and reading it back.\<close>

lemma parse_hex16: "parse_unsigned 16 (2 ^ 64 - 1) (hex16 h) = Some (unat h)"
proof -
  have lt: "unat h < 2 ^ 64" using unsigned_less [of h, where ?'a = nat] by simp
  have "(16::nat) ^ 16 = 2 ^ 64" by simp
  then have v: "digits_value 16 0 (hex16 h) = Some (unat h)"
    using digits_value_hex_digits [of 0 16 "unat h"] lt by (simp only: hex16_def) simp
  have "length (hex16 h) \<noteq> 0" unfolding hex16_def length_hex_digits by simp
  then obtain c cs where cs: "hex16 h = c # cs" by (cases "hex16 h") simp_all
  have "set (hex16 h) \<subseteq> digit_char ` {..<16}" unfolding hex16_def by (rule set_hex_digits)
  then have "c \<noteq> CHR 43" using digit_char_not_plus unfolding cs by auto
  then have "(case hex16 h of c # cs \<Rightarrow> if c = CHR 43 then cs else hex16 h | [] \<Rightarrow> []) = hex16 h"
    unfolding cs by simp
  then show ?thesis using v lt cs by (simp only: parse_unsigned_def Let_def) simp
qed

text \<open>Decimal texts: digits only, and read back to the number.\<close>

lemma digit_value_10: "d < 10 \<Longrightarrow> digit_value 10 (digit_char d) = Some d"
  by (auto simp: digit_value_def digit_char_def byte_char_of is_ascii_digit_def)

lemma digits_value_show_nat: "digits_value 10 0 (show_nat n) = Some n"
proof (induction n rule: show_nat.induct)
  case (1 n)
  show ?case
  proof (cases "n < 10")
    case True
    then show ?thesis by (subst show_nat.simps) (simp add: digit_value_10)
  next
    case False
    then show ?thesis using 1 by (subst show_nat.simps) (simp add: digits_value_append digit_value_10)
  qed
qed

lemma show_nat_inj [simp]: "show_nat m = show_nat n \<longleftrightarrow> m = n"
  by (metis digits_value_show_nat option.inject)

lemma set_show_nat: "set (show_nat n) \<subseteq> digit_char ` {..<10}"
proof (induction n rule: show_nat.induct)
  case (1 n)
  show ?case
  proof (cases "n < 10")
    case True
    then show ?thesis by (subst show_nat.simps) auto
  next
    case False
    then show ?thesis using 1 by (subst show_nat.simps) auto
  qed
qed

lemma show_nat_digits:
  assumes "c \<in> set (show_nat n)" shows "48 \<le> byte c \<and> byte c < 58"
proof -
  obtain d where "d < 10" "c = digit_char d" using assms set_show_nat by blast
  then show ?thesis by (simp add: digit_char_def byte_char_of)
qed

lemma show_nat_not_Nil [simp]: "show_nat n \<noteq> []"
  by (subst show_nat.simps) simp

lemma show_nat_head: "c \<in> set (show_nat n) \<Longrightarrow> c \<noteq> CHR 43 \<and> c \<noteq> CHR 45"
  using show_nat_digits [of c n] by (auto simp: byte_def)

lemma parse_unsigned_show_nat [simp]: "n \<le> mx \<Longrightarrow> parse_unsigned 10 mx (show_nat n) = Some n"
proof -
  assume "n \<le> mx"
  obtain c cs where s: "show_nat n = c # cs" by (meson show_nat_not_Nil list.exhaust)
  then have "c \<noteq> CHR 43" using show_nat_head [of c n] by simp
  with \<open>n \<le> mx\<close> show ?thesis
    using digits_value_show_nat [of n] by (simp add: parse_unsigned_def s)
qed

lemma parse_i64_show_int:
  assumes "- (2 ^ 63) \<le> i" "i < 2 ^ 63"
  shows "parse_i64 (show_int i) = Some i"
proof (cases "i < 0")
  case True
  then have "nat (- i) \<le> 2 ^ 63" using assms(1) by simp
  then show ?thesis
    using True by (simp add: parse_i64_def show_int_def digits_value_show_nat)
next
  case False
  obtain c cs where s: "show_nat (nat i) = c # cs" by (meson show_nat_not_Nil list.exhaust)
  then have "c \<noteq> CHR 45" using show_nat_head [of c "nat i"] by simp
  moreover have "parse_unsigned 10 (2 ^ 63 - 1) (show_nat (nat i)) = Some (nat i)"
    using False assms(2) by (intro parse_unsigned_show_nat) simp
  ultimately show ?thesis using False by (simp add: parse_i64_def show_int_def s)
qed

end
