(* ===== verification/F64.thy ===== *)
theory F64
  imports Complex_Main Prelude "HOL-Library.Log_Nat"
begin

text \<open>
  Rust's f64 as a rational number with the rounding of IEEE 754 binary64 written out:
  every arithmetic operation computes the exact rational result and rounds it to the
  nearest representable value, ties to even (rnd). Subnormals are covered by the
  exponent floor of ulp_exp. Values beyond the largest finite double, infinities and
  NaN are not modelled: the code's guards keep its divisions away from zero divisors,
  and where it folds with NaN as a start value the model uses an option. The two
  zeros are one value.

  The locale rounding states what the scoring and budget proofs need from a rounding
  function; the last section interprets it on rnd.
\<close>

type_synonym f64 = rat

section \<open>Definitions\<close>

definition round_even :: "rat \<Rightarrow> int" where
  "round_even y = (let f = \<lfloor>y\<rfloor>; d = y - of_int f in
     if d < 1 / 2 then f else if 1 / 2 < d then f + 1 else if even f then f else f + 1)"

definition fexp :: "rat \<Rightarrow> int" where
  "fexp x = (if 1 \<le> x then bitlen \<lfloor>x\<rfloor> - 1 else - bitlen (\<lceil>1 / x\<rceil> - 1))"

definition ulp_exp :: "rat \<Rightarrow> int" where
  "ulp_exp x = max (fexp \<bar>x\<bar>) (-1022) - 52"

definition rnd :: "rat \<Rightarrow> f64" where
  "rnd x = (if x = 0 then 0
     else let u = 2 powi (ulp_exp x) in of_int (round_even (x / u)) * u)"

definition fadd :: "f64 \<Rightarrow> f64 \<Rightarrow> f64" where "fadd x y = rnd (x + y)"
definition fsub :: "f64 \<Rightarrow> f64 \<Rightarrow> f64" where "fsub x y = rnd (x - y)"
definition fmul :: "f64 \<Rightarrow> f64 \<Rightarrow> f64" where "fmul x y = rnd (x * y)"
definition fdiv :: "f64 \<Rightarrow> f64 \<Rightarrow> f64" where "fdiv x y = rnd (x / y)"

text \<open>\<open>x.clamp(lo, hi)\<close> and \<open>x.round()\<close> (half away from zero) of the standard library.\<close>

definition fclamp :: "f64 \<Rightarrow> f64 \<Rightarrow> f64 \<Rightarrow> f64" where
  "fclamp x lo hi = (if x < lo then lo else if hi < x then hi else x)"

definition fround :: "f64 \<Rightarrow> f64" where
  "fround x = (if 0 \<le> x then of_int \<lfloor>x + 1 / 2\<rfloor> else - of_int \<lfloor>- x + 1 / 2\<rfloor>)"

text \<open>\<open>f64::MAX\<close>, and the casts from and to unsigned integers (truncating, saturating).\<close>

definition f64_max :: f64 where
  "f64_max = (2 ^ 53 - 1) * 2 ^ 971"

definition f64_of_nat :: "nat \<Rightarrow> f64" where
  "f64_of_nat n = rnd (of_nat n)"

definition u32_of_f64 :: "f64 \<Rightarrow> u32" where
  "u32_of_f64 x = (if x < 0 then 0 else if 2 ^ 32 - 1 \<le> x then - 1 else word_of_int \<lfloor>x\<rfloor>)"

definition nat_of_f64 :: "f64 \<Rightarrow> nat" where
  "nat_of_f64 x = (if x < 0 then 0 else nat \<lfloor>x\<rfloor>)"

section \<open>Rounding to an integer\<close>

lemma round_even_of_int [simp]: "round_even (of_int n) = n"
  by (simp add: round_even_def)

lemma round_even_bounds: "of_int (round_even y) \<le> y + 1 / 2" "y - 1 / 2 \<le> of_int (round_even y)"
  by (simp_all add: round_even_def Let_def; linarith)+

lemma round_even_mono:
  assumes "x \<le> y"
  shows "round_even x \<le> round_even y"
proof (rule ccontr)
  assume "\<not> round_even x \<le> round_even y"
  then have gt: "round_even y < round_even x" by simp
  have "\<lfloor>x\<rfloor> \<le> \<lfloor>y\<rfloor>" using assms by (rule floor_mono)
  moreover have "round_even x \<le> \<lfloor>x\<rfloor> + 1" "\<lfloor>y\<rfloor> \<le> round_even y"
    by (simp_all add: round_even_def Let_def)
  ultimately have eq: "\<lfloor>x\<rfloor> = \<lfloor>y\<rfloor>" "round_even x = \<lfloor>x\<rfloor> + 1" "round_even y = \<lfloor>y\<rfloor>"
    using gt by linarith+
  then show False using assms
    by (auto simp: round_even_def Let_def split: if_splits)
qed

lemma round_even_minus: "round_even (- y) = - round_even y"
proof (cases "y = of_int \<lfloor>y\<rfloor>")
  case True
  then show ?thesis by (metis of_int_minus round_even_of_int)
next
  case False
  then have "\<lfloor>- y\<rfloor> = - \<lfloor>y\<rfloor> - 1" by linarith
  then show ?thesis
    by (auto simp: round_even_def Let_def)
qed

section \<open>The exponent\<close>

lemma fexp_bounds:
  assumes "0 < x"
  shows "2 powi (fexp x) \<le> x" and "x < 2 powi (fexp x + 1)"
proof -
  have "2 powi (fexp x) \<le> x \<and> x < 2 powi (fexp x + 1)"
  proof (cases "1 \<le> x")
    case True
    then have pos: "1 \<le> \<lfloor>x\<rfloor>" by simp
    then have b: "2 ^ nat (bitlen \<lfloor>x\<rfloor> - 1) \<le> \<lfloor>x\<rfloor>" "\<lfloor>x\<rfloor> < 2 ^ nat (bitlen \<lfloor>x\<rfloor>)"
      using bitlen_bounds [of "\<lfloor>x\<rfloor>"] by auto
    have bl: "0 < bitlen \<lfloor>x\<rfloor>"
      using pos bitlen_nonneg [of "\<lfloor>x\<rfloor>"] bitlen_eq_zero_iff [of "\<lfloor>x\<rfloor>"] by linarith
    have e: "fexp x = bitlen \<lfloor>x\<rfloor> - 1" using True by (simp add: fexp_def)
    have p1: "(2::rat) powi (fexp x) = of_int (2 ^ nat (bitlen \<lfloor>x\<rfloor> - 1))"
      using bl by (simp add: e power_int_def)
    have p2: "(2::rat) powi (fexp x + 1) = of_int (2 ^ nat (bitlen \<lfloor>x\<rfloor>))"
      using bl by (simp add: e power_int_def)
    have "of_int (2 ^ nat (bitlen \<lfloor>x\<rfloor> - 1)) \<le> x" using b(1) by linarith
    moreover have "x < of_int (2 ^ nat (bitlen \<lfloor>x\<rfloor>))"
      using b(2) by (simp only: less_floor_iff floor_less_iff)
    ultimately show ?thesis by (simp only: p1 p2)
  next
    case False
    define y where "y = 1 / x"
    define n where "n = \<lceil>y\<rceil> - 1"
    have y: "1 < y" using False assms by (simp add: y_def)
    then have n: "1 \<le> n" by (simp add: n_def less_ceiling_iff)
    then have b: "2 ^ nat (bitlen n - 1) \<le> n" "n < 2 ^ nat (bitlen n)"
      using bitlen_bounds [of n] by auto
    have bl: "0 < bitlen n"
      using n bitlen_nonneg [of n] bitlen_eq_zero_iff [of n] by linarith
    have e: "fexp x = - bitlen n" using False by (simp add: fexp_def n_def y_def)
    have nb: "of_int n < y" "y \<le> of_int n + 1" unfolding n_def by linarith+
    have "of_int n + 1 \<le> (of_int (2 ^ nat (bitlen n)) :: rat)" using b(2) by linarith
    with nb have le: "y \<le> 2 ^ nat (bitlen n)" by simp
    have "(2::rat) ^ nat (bitlen n - 1) \<le> of_int n"
      using b(1) by (metis of_int_le_iff of_int_numeral of_int_power)
    with nb(1) have lt: "2 ^ nat (bitlen n - 1) < y" by linarith
    have p1: "(2::rat) powi (fexp x) = 1 / 2 ^ nat (bitlen n)"
      using bl by (simp add: e power_int_def field_simps power_one_over)
    have p2: "(2::rat) powi (fexp x + 1) = 1 / 2 ^ nat (bitlen n - 1)"
    proof (cases "bitlen n = 1")
      case True then show ?thesis by (simp add: e)
    next
      case False
      with bl show ?thesis by (simp add: e power_int_def field_simps power_one_over)
    qed
    have x: "x = 1 / y" using assms by (simp add: y_def)
    have "1 / 2 ^ nat (bitlen n) \<le> 1 / y" using le y by (simp add: frac_le)
    moreover have "1 / y < 1 / 2 ^ nat (bitlen n - 1)"
      using lt y by (simp add: frac_less2)
    ultimately have "1 / 2 ^ nat (bitlen n) \<le> x \<and> x < 1 / 2 ^ nat (bitlen n - 1)"
      unfolding x by blast
    then show ?thesis by (simp only: p1 p2)
  qed
  then show "2 powi (fexp x) \<le> x" and "x < 2 powi (fexp x + 1)" by auto
qed

lemma powi2_le_iff: "(2::rat) powi a \<le> 2 powi b \<longleftrightarrow> a \<le> b"
  by (metis linorder_not_le one_less_numeral_iff power_int_increasing power_int_strict_increasing
      semiring_norm(76) order_less_imp_le)

lemma powi2_less_iff: "(2::rat) powi a < 2 powi b \<longleftrightarrow> a < b"
  by (metis linorder_not_le powi2_le_iff)

lemma fexp_unique: "0 < x \<Longrightarrow> 2 powi k \<le> x \<Longrightarrow> x < 2 powi (k + 1) \<Longrightarrow> fexp x = k"
  using fexp_bounds [of x] powi2_less_iff [of "fexp x" "k + 1"] powi2_less_iff [of k "fexp x + 1"]
  by linarith

lemma fexp_mono: "0 < x \<Longrightarrow> x \<le> y \<Longrightarrow> fexp x \<le> fexp y"
proof -
  assume a: "0 < x" "x \<le> y"
  then have "2 powi (fexp x) < (2::rat) powi (fexp y + 1)"
    using fexp_bounds [of x] fexp_bounds [of y] by linarith
  then show ?thesis by (simp add: powi2_less_iff)
qed

section \<open>Rounding to a double\<close>

lemma rnd_0 [simp]: "rnd 0 = 0"
  by (simp add: rnd_def)

lemma rnd_minus: "rnd (- x) = - rnd x"
  by (simp add: rnd_def ulp_exp_def round_even_minus Let_def minus_divide_left [symmetric]
      del: minus_divide_left)

lemma rnd_alt: "x \<noteq> 0 \<Longrightarrow> rnd x = of_int (round_even (x / 2 powi ulp_exp x)) * 2 powi ulp_exp x"
  by (simp add: rnd_def Let_def)

lemma of_int_powi_nat: "0 \<le> k \<Longrightarrow> (2::rat) powi k = of_int (2 ^ nat k)"
  by (simp add: power_int_def)

text \<open>A multiple of a power of two with at most 53 significant bits is representable.\<close>

lemma rnd_representable:
  assumes m: "\<bar>m\<bar> \<le> 2 ^ 53" and e: "- 1074 \<le> e"
  shows "rnd (of_int m * 2 powi e) = of_int m * 2 powi e"
proof (cases "m = 0")
  case True
  then show ?thesis by simp
next
  case False
  define x :: rat where "x = of_int m * 2 powi e"
  have x0: "x \<noteq> 0" "0 < \<bar>x\<bar>" using False by (simp_all add: x_def)
  define k where "k = ulp_exp x"
  have abs: "\<bar>x\<bar> = of_int \<bar>m\<bar> * 2 powi e" by (simp add: x_def abs_mult)
  have "\<exists>i. x / 2 powi k = of_int i"
  proof (cases "k \<le> e")
    case True
    have "x / 2 powi k = of_int m * 2 powi (e - k)"
      by (simp add: x_def power_int_diff)
    also have "\<dots> = of_int (m * 2 ^ nat (e - k))" using True by (simp add: of_int_powi_nat)
    finally show ?thesis by blast
  next
    case False
    then have k: "k = fexp \<bar>x\<bar> - 52" using e by (simp add: k_def ulp_exp_def max_def split: if_splits)
    have "2 powi (k + 52) \<le> \<bar>x\<bar>" using fexp_bounds(1) [OF x0(2)] by (simp add: k)
    also have "\<bar>x\<bar> \<le> 2 ^ 53 * 2 powi e"
    proof -
      have "(of_int \<bar>m\<bar> :: rat) \<le> of_int (2 ^ 53)" using m by (simp only: of_int_le_iff)
      then show ?thesis unfolding abs by (intro mult_right_mono) simp_all
    qed
    also have "\<dots> = 2 powi (e + 53)" by (simp add: power_int_add)
    finally have "k + 52 \<le> e + 53" by (simp only: powi2_le_iff)
    with False have ke: "k = e + 1" by simp
    have "2 powi (e + 53) \<le> of_int \<bar>m\<bar> * (2::rat) powi e"
      using \<open>2 powi (k + 52) \<le> \<bar>x\<bar>\<close> by (simp add: ke abs add.commute)
    then have "(2::rat) ^ 53 * 2 powi e \<le> of_int \<bar>m\<bar> * 2 powi e" by (simp add: power_int_add)
    then have "(2::rat) ^ 53 \<le> of_int \<bar>m\<bar>" by (simp add: mult_le_cancel_right)
    then have "\<bar>m\<bar> = 2 ^ 53" using m by (metis of_int_le_iff of_int_numeral of_int_power order_antisym)
    then have "m = 2 ^ 53 \<or> m = - (2 ^ 53)" by linarith
    then have m2: "m = (m div 2) * 2" by auto
    have "x / 2 powi k = of_int m * inverse 2"
      by (simp add: x_def ke power_int_add field_simps)
    also have "\<dots> = of_int (m div 2)" by (subst m2) simp
    finally show ?thesis by blast
  qed
  then have "rnd x = x" using x0(1) by (auto simp: rnd_alt k_def [symmetric] nonzero_divide_eq_eq)
  then show ?thesis by (simp add: x_def)
qed

lemma rnd_of_int: "\<bar>n\<bar> \<le> 2 ^ 53 \<Longrightarrow> rnd (of_int n) = of_int n"
  using rnd_representable [of n 0] by simp

text \<open>What rnd returns is of that form, so rounding twice changes nothing.\<close>

lemma rnd_form: "\<exists>m e. rnd x = of_int m * 2 powi e \<and> \<bar>m\<bar> \<le> 2 ^ 53 \<and> - 1074 \<le> e"
proof (cases "x = 0")
  case True
  then show ?thesis by (intro exI [of _ 0]) simp
next
  case False
  define k where "k = ulp_exp x"
  have x0: "0 < \<bar>x\<bar>" using False by simp
  have "fexp \<bar>x\<bar> \<le> k + 52" by (simp add: k_def ulp_exp_def)
  then have "\<bar>x\<bar> < 2 powi (k + 53)"
    using fexp_bounds(2) [OF x0] powi2_le_iff [of "fexp \<bar>x\<bar> + 1" "k + 53"] by linarith
  then have "\<bar>x / 2 powi k\<bar> < 2 ^ 53" by (simp add: power_int_add field_simps)
  then have "x / 2 powi k \<le> of_int (2 ^ 53)" "of_int (- (2 ^ 53)) \<le> x / 2 powi k"
    by (simp_all only: abs_less_iff) simp_all
  then have "round_even (x / 2 powi k) \<le> 2 ^ 53" "- (2 ^ 53) \<le> round_even (x / 2 powi k)"
    using round_even_mono round_even_of_int by metis+
  then have "\<bar>round_even (x / 2 powi k)\<bar> \<le> 2 ^ 53" by simp
  moreover have "- 1074 \<le> k" by (simp add: k_def ulp_exp_def)
  ultimately show ?thesis using rnd_alt [OF False] k_def by blast
qed

lemma rnd_idem [simp]: "rnd (rnd x) = rnd x"
  using rnd_form [of x] rnd_representable by auto

lemma rnd_le_upper:
  assumes "0 < x" "x \<le> of_int i * 2 powi ulp_exp x"
  shows "rnd x \<le> of_int i * 2 powi ulp_exp x"
proof -
  have "x / 2 powi ulp_exp x \<le> of_int i" using assms(2) by (simp add: divide_le_eq)
  then have "round_even (x / 2 powi ulp_exp x) \<le> i" using round_even_mono round_even_of_int by metis
  then show ?thesis using assms(1) by (simp add: rnd_alt mult_right_mono)
qed

lemma rnd_ge_lower:
  assumes "0 < x" "of_int i * 2 powi ulp_exp x \<le> x"
  shows "of_int i * 2 powi ulp_exp x \<le> rnd x"
proof -
  have "of_int i \<le> x / 2 powi ulp_exp x" using assms(2) by (simp add: le_divide_eq)
  then have "i \<le> round_even (x / 2 powi ulp_exp x)" using round_even_mono round_even_of_int by metis
  then show ?thesis using assms(1) by (simp add: rnd_alt mult_right_mono)
qed

lemma rnd_nonneg: "0 \<le> x \<Longrightarrow> 0 \<le> rnd x"
  using rnd_ge_lower [of x 0] by (cases "x = 0") auto

lemma rnd_mono_pos:
  assumes "0 < x" "x \<le> y"
  shows "rnd x \<le> rnd y"
proof (cases "ulp_exp x = ulp_exp y")
  case True
  have "x / 2 powi ulp_exp y \<le> y / 2 powi ulp_exp y" using assms by (simp add: divide_right_mono)
  then have "round_even (x / 2 powi ulp_exp y) \<le> round_even (y / 2 powi ulp_exp y)"
    by (rule round_even_mono)
  then show ?thesis using assms True by (simp add: rnd_alt mult_right_mono)
next
  case False
  have y: "0 < y" using assms by simp
  have le: "fexp x \<le> fexp y" using assms by (rule fexp_mono)
  with False have lt: "fexp x < fexp y" and ey: "- 1022 < fexp y"
    using assms y by (auto simp: ulp_exp_def max_def split: if_splits)
  have ux: "ulp_exp x \<le> fexp y" and uy: "ulp_exp y = fexp y - 52"
    using lt ey assms y by (auto simp: ulp_exp_def)
  have "x < 2 powi (fexp x + 1)" using assms by (simp add: fexp_bounds)
  also have "\<dots> \<le> 2 powi (fexp y)" using lt by (simp only: powi2_le_iff)
  also have split: "\<dots> = of_int (2 ^ nat (fexp y - ulp_exp x)) * 2 powi ulp_exp x"
    using ux of_int_powi_nat [of "fexp y - ulp_exp x", symmetric]
    by (simp only: diff_ge_0_iff_ge) (simp add: power_int_diff)
  finally have "rnd x \<le> of_int (2 ^ nat (fexp y - ulp_exp x)) * 2 powi ulp_exp x"
    by (intro rnd_le_upper assms) simp
  also have "\<dots> = 2 powi (fexp y)" by (rule split [symmetric])
  also have "\<dots> = of_int (2 ^ 52) * 2 powi ulp_exp y" by (simp add: uy power_int_diff)
  also have "\<dots> \<le> rnd y"
  proof (rule rnd_ge_lower [OF y])
    show "of_int (2 ^ 52) * 2 powi ulp_exp y \<le> y"
      using fexp_bounds(1) [OF y] by (simp add: uy power_int_diff)
  qed
  finally show ?thesis .
qed

lemma rnd_mono: "x \<le> y \<Longrightarrow> rnd x \<le> rnd y"
proof -
  assume le: "x \<le> y"
  consider "0 < x" | "x \<le> 0" "0 \<le> y" | "y < 0" by linarith
  then show ?thesis
  proof cases
    case 1
    then show ?thesis using le by (rule rnd_mono_pos)
  next
    case 2
    then show ?thesis using rnd_nonneg [of y] rnd_nonneg [of "- x"] by (simp add: rnd_minus)
  next
    case 3
    then have "rnd (- y) \<le> rnd (- x)" using le by (intro rnd_mono_pos) simp_all
    then show ?thesis by (simp add: rnd_minus)
  qed
qed

section \<open>Evaluating on constants\<close>

text \<open>
  The double nearest to a rational below 2^53: scale it by 2^s into [2^52, 2^53) and
  read off the nearest integer. The constants of the sources are evaluated with it.
\<close>

lemma rnd_eval:
  assumes lo: "2 ^ 52 \<le> x * 2 ^ s" and hi: "x * 2 ^ s < 2 ^ 53" and s: "s \<le> 1074"
    and near: "\<bar>x * 2 ^ s - of_int n\<bar> < 1 / 2"
  shows "rnd x = of_int n / 2 ^ s"
proof -
  have "0 < x * 2 ^ s" using lo by (rule less_le_trans [rotated]) simp
  then have x: "0 < x" by (simp add: zero_less_mult_iff)
  define k where "k = 52 - int s"
  have p: "(2::rat) powi k = 2 ^ 52 / 2 ^ s" "(2::rat) powi (k + 1) = 2 ^ 53 / 2 ^ s"
    by (simp_all add: k_def power_int_diff power_int_add)
  have "fexp x = k"
  proof (rule fexp_unique [OF x])
    show "2 powi k \<le> x" using lo by (simp only: p) (simp add: field_simps)
    show "x < 2 powi (k + 1)" using hi by (simp only: p) (simp add: field_simps)
  qed
  then have u: "ulp_exp x = - int s" using s x by (simp add: ulp_exp_def k_def)
  have "x / 2 powi (- int s) = x * 2 ^ s" by (simp add: power_int_minus divide_inverse)
  moreover have "round_even (x * 2 ^ s) = n"
    using near round_even_bounds [of "x * 2 ^ s"] by linarith
  ultimately show ?thesis using x
    by (simp add: rnd_alt u power_int_minus divide_inverse)
qed

section \<open>What the proofs use of rounding\<close>

locale rounding =
  fixes rd :: "rat \<Rightarrow> rat"
  assumes mono: "x \<le> y \<Longrightarrow> rd x \<le> rd y"
    and exact: "\<bar>n\<bar> \<le> 2 ^ 53 \<Longrightarrow> rd (of_int n) = of_int n"
    and idem: "rd (rd x) = rd x"
begin

lemma zero: "rd 0 = 0"
  using exact [of 0] by simp

lemma one: "rd 1 = 1"
  using exact [of 1] by simp

lemma numeral: "(numeral w :: int) \<le> 2 ^ 53 \<Longrightarrow> rd (numeral w) = numeral w"
  using exact [of "numeral w"] by simp

lemma nonneg: "0 \<le> x \<Longrightarrow> 0 \<le> rd x"
  using mono [of 0 x] by (simp add: zero)

lemma nonpos: "x \<le> 0 \<Longrightarrow> rd x \<le> 0"
  using mono [of x 0] by (simp add: zero)

lemma le_int: "x \<le> of_int n \<Longrightarrow> \<bar>n\<bar> \<le> 2 ^ 53 \<Longrightarrow> rd x \<le> of_int n"
  using mono [of x "of_int n"] by (simp add: exact)

lemma ge_int: "of_int n \<le> x \<Longrightarrow> \<bar>n\<bar> \<le> 2 ^ 53 \<Longrightarrow> of_int n \<le> rd x"
  using mono [of "of_int n" x] by (simp add: exact)

lemma le_fixed: "x \<le> y \<Longrightarrow> rd y = y \<Longrightarrow> rd x \<le> y"
  using mono [of x y] by simp

lemma ge_fixed: "y \<le> x \<Longrightarrow> rd y = y \<Longrightarrow> y \<le> rd x"
  using mono [of y x] by simp

lemma add_mono_rd: "a \<le> c \<Longrightarrow> b \<le> d \<Longrightarrow> rd (a + b) \<le> rd (c + d)"
  by (intro mono add_mono)

lemma add_grows: "0 \<le> b \<Longrightarrow> rd a = a \<Longrightarrow> a \<le> rd (a + b)"
  by (rule ge_fixed) simp_all

lemma mult_mono_rd: "a \<le> b \<Longrightarrow> 0 \<le> c \<Longrightarrow> rd (a * c) \<le> rd (b * c)"
  by (intro mono mult_right_mono)

end

interpretation f64: rounding rnd
  by unfold_locales (auto intro: rnd_mono rnd_of_int)

lemmas [f64_simps] = f64.zero f64.one f64.numeral

lemma fadd_mono: "a \<le> c \<Longrightarrow> b \<le> d \<Longrightarrow> fadd a b \<le> fadd c d"
  unfolding fadd_def by (rule f64.add_mono_rd)

lemma fadd_rnd [simp]: "rnd (fadd a b) = fadd a b"
  by (simp add: fadd_def)

lemma fmul_rnd [simp]: "rnd (fmul a b) = fmul a b"
  by (simp add: fmul_def)

lemma fsub_rnd [simp]: "rnd (fsub a b) = fsub a b"
  by (simp add: fsub_def)

lemma fdiv_rnd [simp]: "rnd (fdiv a b) = fdiv a b"
  by (simp add: fdiv_def)

lemma fadd_nonneg: "0 \<le> a \<Longrightarrow> 0 \<le> b \<Longrightarrow> 0 \<le> fadd a b"
  by (simp add: fadd_def rnd_nonneg)

lemma fmul_nonneg: "0 \<le> a \<Longrightarrow> 0 \<le> b \<Longrightarrow> 0 \<le> fmul a b"
  by (simp add: fmul_def rnd_nonneg)

lemma fdiv_nonneg: "0 \<le> a \<Longrightarrow> 0 \<le> b \<Longrightarrow> 0 \<le> fdiv a b"
  by (simp add: fdiv_def rnd_nonneg)

lemma fmul_mono: "a \<le> b \<Longrightarrow> 0 \<le> c \<Longrightarrow> fmul a c \<le> fmul b c"
  unfolding fmul_def by (rule f64.mult_mono_rd)

lemma fmul_mono2: "a \<le> b \<Longrightarrow> c \<le> d \<Longrightarrow> 0 \<le> a \<Longrightarrow> 0 \<le> c \<Longrightarrow> fmul a c \<le> fmul b d"
  unfolding fmul_def by (intro f64.mono mult_mono) auto

lemma fdiv_mono: "a \<le> b \<Longrightarrow> 0 \<le> c \<Longrightarrow> fdiv a c \<le> fdiv b c"
  unfolding fdiv_def by (intro f64.mono divide_right_mono)

lemma fdiv_antimono: "0 \<le> a \<Longrightarrow> 0 < c \<Longrightarrow> c \<le> d \<Longrightarrow> fdiv a d \<le> fdiv a c"
  unfolding fdiv_def by (intro f64.mono) (simp add: frac_le)

lemmas [f64_intros] = fadd_mono fadd_nonneg fmul_nonneg fdiv_nonneg fmul_mono fdiv_mono fdiv_antimono

lemma fclamp_bounds: "lo \<le> hi \<Longrightarrow> lo \<le> fclamp x lo hi \<and> fclamp x lo hi \<le> hi"
  by (auto simp: fclamp_def)

lemma fclamp_mono: "x \<le> y \<Longrightarrow> lo \<le> hi \<Longrightarrow> fclamp x lo hi \<le> fclamp y lo hi"
  by (auto simp: fclamp_def)

lemma fclamp_id: "lo \<le> x \<Longrightarrow> x \<le> hi \<Longrightarrow> fclamp x lo hi = x"
  by (auto simp: fclamp_def)

lemma f64_of_nat_exact: "n \<le> 2 ^ 53 \<Longrightarrow> f64_of_nat n = of_nat n"
  using rnd_of_int [of "int n"] by (simp add: f64_of_nat_def)

lemma f64_of_nat_mono: "m \<le> n \<Longrightarrow> f64_of_nat m \<le> f64_of_nat n"
  by (simp add: f64_of_nat_def rnd_mono)

lemma f64_of_nat_nonneg [simp]: "0 \<le> f64_of_nat n"
  by (simp add: f64_of_nat_def rnd_nonneg)

end
