(* ===== verification/Json.thy ===== *)
theory Json
  imports Rust_Text F64
begin

text \<open>
  serde_json::Value as a datatype with the accessors the sources use. An object is an
  association list; get reads the first binding of a key and set overwrites it in
  place, so the entries keep their order. Printing (serde_json::to_string) is code of
  the serde_json crate and stays a parameter of the definitions that need it.
\<close>

datatype number = IntN int | FloatN f64

datatype json =
    Null
  | Bool bool
  | Number number
  | String string
  | Array "json list"
  | Object "(string \<times> json) list"

fun as_str :: "json \<Rightarrow> string option" where
  "as_str (String s) = Some s"
| "as_str _ = None"

fun as_array :: "json \<Rightarrow> json list option" where
  "as_array (Array xs) = Some xs"
| "as_array _ = None"

fun as_object :: "json \<Rightarrow> (string \<times> json) list option" where
  "as_object (Object ps) = Some ps"
| "as_object _ = None"

fun as_u64 :: "json \<Rightarrow> nat option" where
  "as_u64 (Number (IntN i)) = (if 0 \<le> i \<and> i < 2 ^ 64 then Some (nat i) else None)"
| "as_u64 _ = None"

fun as_i64 :: "json \<Rightarrow> int option" where
  "as_i64 (Number (IntN i)) = (if - (2 ^ 63) \<le> i \<and> i < 2 ^ 63 then Some i else None)"
| "as_i64 _ = None"

text \<open>\<open>v.get(key)\<close>: only objects have keys.\<close>

definition jget :: "string \<Rightarrow> json \<Rightarrow> json option" where
  "jget k v = (case v of Object ps \<Rightarrow> map_of ps k | _ \<Rightarrow> None)"

fun alist_set :: "'k \<Rightarrow> 'v \<Rightarrow> ('k \<times> 'v) list \<Rightarrow> ('k \<times> 'v) list" where
  "alist_set k v [] = [(k, v)]"
| "alist_set k v ((k', v') # ps) = (if k' = k then (k, v) # ps else (k', v') # alist_set k v ps)"

text \<open>\<open>v[key] = x\<close> on an object; the sources only assign to keys they have just read.\<close>

definition jset :: "string \<Rightarrow> json \<Rightarrow> json \<Rightarrow> json" where
  "jset k x v = (case v of Object ps \<Rightarrow> Object (alist_set k x ps) | _ \<Rightarrow> v)"

definition jremove :: "string \<Rightarrow> json \<Rightarrow> json" where
  "jremove k v = (case v of Object ps \<Rightarrow> Object (filter (\<lambda>(k', _). k' \<noteq> k) ps) | _ \<Rightarrow> v)"

text \<open>\<open>v.get(key).and_then(as_str)\<close>.\<close>

definition jget_str :: "string \<Rightarrow> json \<Rightarrow> string option" where
  "jget_str k v = Option.bind (jget k v) as_str"

lemma map_of_alist_set: "map_of (alist_set k v ps) = (map_of ps)(k \<mapsto> v)"
  by (induction ps) auto

lemma keys_alist_set: "map fst (alist_set k v ps) =
    (if k \<in> fst ` set ps then map fst ps else map fst ps @ [k])"
proof (induction ps)
  case (Cons p ps)
  then show ?case by (cases p) simp
qed simp

lemma jget_simps [json_simps, simp]:
  "jget k (Object ps) = map_of ps k"
  "jget k Null = None" "jget k (Bool b) = None" "jget k (Number n) = None"
  "jget k (String s) = None" "jget k (Array xs) = None"
  by (simp_all add: jget_def)

lemma jget_SomeD: "jget k v = Some x \<Longrightarrow> \<exists>ps. v = Object ps \<and> map_of ps k = Some x"
  by (cases v) simp_all

lemma jget_jset [json_simps]:
  "jget k v = Some y \<Longrightarrow> jget k' (jset k x v) = (if k' = k then Some x else jget k' v)"
  by (auto simp: jset_def map_of_alist_set dest!: jget_SomeD)

lemma jget_str_jset [json_simps]:
  "jget k v = Some y \<Longrightarrow> jget_str k' (jset k x v) = (if k' = k then as_str x else jget_str k' v)"
  by (simp add: jget_str_def jget_jset)

lemma jset_keys:
  assumes "jget k v = Some y"
  shows "map fst (the (as_object (jset k x v))) = map fst (the (as_object v))"
proof -
  obtain ps where ps: "v = Object ps" "map_of ps k = Some y" using jget_SomeD [OF assms] by blast
  then have "k \<in> fst ` set ps" by (metis map_of_SomeD fst_conv image_eqI)
  with ps show ?thesis by (simp add: jset_def keys_alist_set)
qed

lemma jget_jremove [json_simps]: "jget k' (jremove k v) = (if k' = k then None else jget k' v)"
proof (cases v)
  case (Object ps)
  have "map_of (filter (\<lambda>(k', _). k' \<noteq> k) ps) k' = (if k' = k then None else map_of ps k')"
    by (induction ps) auto
  then show ?thesis using Object by (simp add: jremove_def)
qed (simp_all add: jremove_def)

end
