(* ===== verification/Tokens.thy ===== *)
theory Tokens
  imports Json
begin

text \<open>
  policy/tokens.rs: token estimates, the text a request's difficulty is judged on, the
  heuristic difficulty, complexity signals and the prompt preview. A body is a JSON
  value; keywords in Chinese are their UTF-8 bytes. The JSON printer of the tools array
  is a parameter that may fail.
\<close>

section \<open>Estimating tokens\<close>

definition is_wide :: "string \<Rightarrow> bool" where
  "is_wide ch = (let p = codepoint ch in
     (0x4E00 \<le> p \<and> p \<le> 0x9FFF) \<or> (0x3400 \<le> p \<and> p \<le> 0x4DBF) \<or> (0x3040 \<le> p \<and> p \<le> 0x30FF) \<or>
     (0xAC00 \<le> p \<and> p \<le> 0xD7AF) \<or> (0xFF00 \<le> p \<and> p \<le> 0xFFEF))"

definition fceil :: "f64 \<Rightarrow> f64" where
  "fceil x = of_int \<lceil>x\<rceil>"

definition estimate_tokens_from_text :: "string \<Rightarrow> u32" where
  "estimate_tokens_from_text text =
     (let cs = utf8_chars text;
          wide = length (filter is_wide cs);
          narrow = length (filter (\<lambda>c. \<not> is_wide c \<and> \<not> is_whitespace c) cs);
          tokens = fadd (fmul (f64_of_nat wide) 1) (fdiv (f64_of_nat narrow) 4)
      in u32_of_f64 (max (fceil tokens) 1))"

section \<open>Reading the conversation\<close>

definition role_of :: "json \<Rightarrow> string option" where
  "role_of m = jget_str ''role'' m"

definition is_user :: "json \<Rightarrow> bool" where
  "is_user m \<longleftrightarrow> role_of m = Some ''user''"

definition messages_of :: "json \<Rightarrow> json list option" where
  "messages_of body = Option.bind (jget ''messages'' body) as_array"

definition content_to_text :: "json \<Rightarrow> string" where
  "content_to_text content = (case content of
     String s \<Rightarrow> s
   | Array blocks \<Rightarrow> join '' '' (List.map_filter (\<lambda>b. or_else (jget_str ''text'' b) (as_str b)) blocks)
   | v \<Rightarrow> unwrap_or (as_str v) [])"

definition content_of :: "json \<Rightarrow> string" where
  "content_of m = (case jget ''content'' m of Some c \<Rightarrow> content_to_text c | None \<Rightarrow> [])"

text \<open>The offset of the last user message from the end, if any, is positive.\<close>

definition continues_after_last_user :: "json list \<Rightarrow> bool" where
  "continues_after_last_user msgs \<longleftrightarrow>
     list_ex is_user msgs \<and> takeWhile (\<lambda>m. \<not> is_user m) (rev msgs) \<noteq> []"

definition extract_openai_prompt_text :: "(json \<Rightarrow> string option) \<Rightarrow> json \<Rightarrow> string" where
  "extract_openai_prompt_text to_string body =
     (let parts = (case messages_of body of
            None \<Rightarrow> []
          | Some msgs \<Rightarrow> List.map_filter (\<lambda>m. map_option content_to_text (jget ''content'' m)) msgs);
          tools = (case Option.bind (jget ''tools'' body) to_string of None \<Rightarrow> [] | Some s \<Rightarrow> [s])
      in join [CHR 10] (parts @ tools))"

definition find_user_content :: "json list \<Rightarrow> string" where
  "find_user_content msgs = (case find is_user msgs of Some m \<Rightarrow> content_of m | None \<Rightarrow> [])"

definition task_focus :: "(json \<Rightarrow> string option) \<Rightarrow> json \<Rightarrow> string \<times> string \<times> bool" where
  "task_focus to_string body = (case messages_of body of
     None \<Rightarrow> (let text = extract_openai_prompt_text to_string body
              in (text, to_ascii_lowercase text, False))
   | Some msgs \<Rightarrow>
       let mid_loop = continues_after_last_user msgs;
           text = (if mid_loop then find_user_content msgs else find_user_content (rev msgs))
       in (text, to_ascii_lowercase text, mid_loop))"

section \<open>Keywords\<close>

definition has_code_marker :: "string \<Rightarrow> bool" where
  "has_code_marker text \<longleftrightarrow> contains_any text
     [
      ''```'', ''def '', ''fn '', ''class '', ''SELECT '', ''CREATE TABLE'']"

definition has_strong_reasoning_keyword :: "string \<Rightarrow> string \<Rightarrow> bool" where
  "has_strong_reasoning_keyword lower text \<longleftrightarrow>
     contains_any lower [
      ''step by step'', ''step-by-step'', ''root cause'', ''deadlock'', ''benchmark'',
      ''architecture'', ''architect '', ''distributed'', ''consensus'', ''paxos'', ''raft'',
      ''lock-free'', ''lockless'', ''spmc'', ''concurrency'', ''memory barrier'', ''spanner'',
      ''kernel'', ''algorithm'', ''proof'', ''prove'', ''np-complete'', ''formal'', ''theorem'',
      ''derivation'', ''derive'', ''parser'', ''compiler'', ''simd'', ''quantum'',
      ''cryptographic'', ''trade-off'', ''tradeoff'']
     \<or> contains_any text [
      [CHR 0xE9, CHR 0x80, CHR 0x90, CHR 0xE6, CHR 0xAD, CHR 0xA5],
      [CHR 0xE6, CHR 0x8E, CHR 0xA8, CHR 0xE5, CHR 0xAF, CHR 0xBC],
      [CHR 0xE8, CHR 0xAF, CHR 0x81, CHR 0xE6, CHR 0x98, CHR 0x8E],
      [CHR 0xE6, CHR 0xA0, CHR 0xB9, CHR 0xE5, CHR 0x9B, CHR 0xA0],
      [CHR 0xE6, CHR 0xAD, CHR 0xBB, CHR 0xE9, CHR 0x94, CHR 0x81],
      [CHR 0xE6, CHR 0x9E, CHR 0xB6, CHR 0xE6, CHR 0x9E, CHR 0x84],
      [CHR 0xE7, CHR 0xAE, CHR 0x97, CHR 0xE6, CHR 0xB3, CHR 0x95],
      [CHR 0xE5, CHR 0x88, CHR 0x86, CHR 0xE5, CHR 0xB8, CHR 0x83, CHR 0xE5, CHR 0xBC, CHR 0x8F],
      [CHR 0xE5, CHR 0x85, CHR 0xB1, CHR 0xE8, CHR 0xAF, CHR 0x86],
      [CHR 0xE6, CHR 0x97, CHR 0xA0, CHR 0xE9, CHR 0x94, CHR 0x81],
      [CHR 0xE5, CHR 0xB9, CHR 0xB6, CHR 0xE5, CHR 0x8F, CHR 0x91],
      [CHR 0xE5, CHR 0x86, CHR 0x85, CHR 0xE6, CHR 0xA0, CHR 0xB8],
      [CHR 0xE7, CHR 0xBC, CHR 0x96, CHR 0xE8, CHR 0xAF, CHR 0x91, CHR 0xE5, CHR 0x99, CHR 0xA8],
      [CHR 0xE5, CHR 0xAE, CHR 0x9A, CHR 0xE7, CHR 0x90, CHR 0x86]]"

definition has_task_keyword :: "string \<Rightarrow> string \<Rightarrow> bool" where
  "has_task_keyword lower text \<longleftrightarrow>
     contains_any lower [
      ''implement'', ''design'', ''compare'', ''optimize'', ''refactor'', ''migration'',
      ''debugging'']
     \<or> contains_any text [
      [CHR 0xE8, CHR 0xAE, CHR 0xBE, CHR 0xE8, CHR 0xAE, CHR 0xA1],
      [CHR 0xE4, CHR 0xBC, CHR 0x98, CHR 0xE5, CHR 0x8C, CHR 0x96],
      [CHR 0xE9, CHR 0x87, CHR 0x8D, CHR 0xE6, CHR 0x9E, CHR 0x84],
      [CHR 0xE5, CHR 0xAF, CHR 0xB9, CHR 0xE6, CHR 0xAF, CHR 0x94]]"

definition is_correction :: "string \<Rightarrow> bool" where
  "is_correction text \<longleftrightarrow>
     contains_any (to_ascii_lowercase text) [
      ''wrong'', ''error'', ''failed'', ''still failing'']
     \<or> contains_any text [
      [CHR 0xE4, CHR 0xB8, CHR 0x8D, CHR 0xE5, CHR 0xAF, CHR 0xB9],
      [CHR 0xE8, CHR 0xBF, CHR 0x98, CHR 0xE6, CHR 0x98, CHR 0xAF, CHR 0xE6, CHR 0x8A, CHR 0xA5, CHR 0xE9, CHR 0x94, CHR 0x99],
      [CHR 0xE7, CHR 0x90, CHR 0x86, CHR 0xE8, CHR 0xA7, CHR 0xA3, CHR 0xE9, CHR 0x94, CHR 0x99, CHR 0xE4, CHR 0xBA, CHR 0x86],
      [CHR 0xE9, CHR 0x81, CHR 0x97, CHR 0xE6, CHR 0xBC, CHR 0x8F]]"

section \<open>Difficulty\<close>

definition nonempty_array :: "json option \<Rightarrow> bool" where
  "nonempty_array v \<longleftrightarrow> (case v of Some (Array (_ # _)) \<Rightarrow> True | _ \<Rightarrow> False)"

definition request_has_tools :: "json \<Rightarrow> bool" where
  "request_has_tools body \<longleftrightarrow> nonempty_array (jget ''tools'' body) \<or> nonempty_array (jget ''functions'' body)"

text \<open>\<open>d += x\<close> under a condition.\<close>

definition bump :: "bool \<Rightarrow> rat \<Rightarrow> f64 \<Rightarrow> f64" where
  "bump c x d = (if c then fadd d (rnd x) else d)"

definition last_user_corrects :: "json list \<Rightarrow> bool" where
  "last_user_corrects msgs \<longleftrightarrow> msgs \<noteq> [] \<and> is_user (last msgs) \<and> is_correction (content_of (last msgs))"

definition heuristic_difficulty :: "(json \<Rightarrow> string option) \<Rightarrow> json \<Rightarrow> f64" where
  "heuristic_difficulty to_string body =
     (let text = extract_openai_prompt_text to_string body;
          (task_text, task_lower, mid_loop) = task_focus to_string body;
          tokens = f64_of_nat (unat (estimate_tokens_from_text text));
          strong = has_strong_reasoning_keyword task_lower task_text;
          msgs = messages_of body;
          d0 = fadd (rnd (15 / 100)) (min (fdiv tokens 24000) (rnd (20 / 100)));
          d1 = bump (60000 < tokens) (5 / 100) d0;
          d2 = bump (request_has_tools body) (8 / 100) d1;
          d3 = bump (has_code_marker task_text) (12 / 100) d2;
          d4 = bump (12000 < tokens) (5 / 100) d3;
          d5 = (if strong then bump True (50 / 100) d4
                else bump (has_task_keyword task_lower task_text) (25 / 100) d4);
          d6 = bump (case msgs of Some ms \<Rightarrow> \<not> mid_loop \<and> 8 \<le> length ms | None \<Rightarrow> False) (5 / 100) d5;
          d7 = bump (case msgs of Some ms \<Rightarrow> \<not> mid_loop \<and> last_user_corrects ms | None \<Rightarrow> False) (30 / 100) d6
      in fclamp d7 0 1)"

definition expected_output_tokens :: "json \<Rightarrow> u32 \<Rightarrow> u32" where
  "expected_output_tokens body dflt =
     max 1 (case Option.bind (or_else (jget ''max_tokens'' body) (jget ''max_output_tokens'' body)) as_u64 of
              Some v \<Rightarrow> min (max (of_nat v) 1) 128000
            | None \<Rightarrow> dflt)"

section \<open>Signals and preview\<close>

definition extract_complexity_signals :: "(json \<Rightarrow> string option) \<Rightarrow> json \<Rightarrow> string list" where
  "extract_complexity_signals to_string body =
     (let text = extract_openai_prompt_text to_string body;
          (task_text, task_lower, mid_loop) = task_focus to_string body;
          tokens = estimate_tokens_from_text text;
          tag = (\<lambda>c s. if c then [s] else []);
          signals =
            tag (request_has_tools body) ''Tools / Functions'' @
            tag mid_loop ''Agent loop'' @
            tag (has_code_marker text) ''Code & Schema'' @
            tag (6000 < tokens) ''Long context'' @
            (if has_strong_reasoning_keyword task_lower task_text then [''Complex reasoning'']
             else tag (has_task_keyword task_lower task_text) ''System design'') @
            (case messages_of body of
               None \<Rightarrow> []
             | Some msgs \<Rightarrow>
                 tag (6 \<le> length msgs) ''Deep multi-turn'' @
                 (case find is_user (rev msgs) of
                    None \<Rightarrow> []
                  | Some m \<Rightarrow> tag (is_correction (content_of m)) ''Correction feedback''))
      in if signals = [] then [''General query''] else signals)"

definition tool_message_chars :: "json \<Rightarrow> nat" where
  "tool_message_chars body = (case messages_of body of
     None \<Rightarrow> 0
   | Some msgs \<Rightarrow> sum_list (map (\<lambda>m. length (content_of m)) (filter (\<lambda>m. role_of m = Some ''tool'') msgs)))"

definition flat_line :: "string \<Rightarrow> string" where
  "flat_line s = map (\<lambda>c. if c \<in> {CHR 13, CHR 10, CHR 9} then CHR 32 else c) (trim s)"

definition take_chars :: "nat \<Rightarrow> string \<Rightarrow> string" where
  "take_chars n s = concat (take n (utf8_chars s))"

definition extract_user_prompt_preview :: "(json \<Rightarrow> string option) \<Rightarrow> json \<Rightarrow> string" where
  "extract_user_prompt_preview to_string body =
     (let last_content = Option.bind (messages_of body) (\<lambda>msgs.
            Option.bind (find is_user (rev msgs)) (\<lambda>m.
              map_option (\<lambda>c. (msgs, c)) (jget ''content'' m)))
      in case last_content of
           Some (msgs, c) \<Rightarrow>
             (let preview = take_chars 250 (join '' '' (split_whitespace (flat_line (content_to_text c))))
              in if continues_after_last_user msgs then [CHR 0xE2, CHR 0x9F, CHR 0xB3] @ '' '' @ preview else preview)
         | None \<Rightarrow> take_chars 250 (flat_line (extract_openai_prompt_text to_string body)))"

section \<open>Lemmas\<close>

lemma bump_mono: "d \<le> e \<Longrightarrow> 0 \<le> x \<Longrightarrow> d \<le> fadd e (rnd x) \<Longrightarrow> bump c x d \<le> fadd e (rnd x)"
  by (simp add: bump_def fadd_mono)

lemma bump_False [simp]: "bump False x d = d"
  by (simp add: bump_def)

text \<open>Bounds by multiples of 1/512, which add without rounding.\<close>

lemma rnd_512: "0 \<le> n \<Longrightarrow> n \<le> 1024 \<Longrightarrow> rnd (of_int n / 512) = of_int n / 512"
  using rnd_representable [of n "-9"] by (simp add: power_int_def power_one_over)

lemma bump_512:
  assumes "d \<le> of_int n / 512" "x \<le> of_int k / 512" "0 \<le> k" "0 \<le> n" "n + k \<le> 1024"
  shows "bump c x d \<le> of_int (n + k) / 512"
proof -
  have "rnd x \<le> of_int k / 512" using rnd_mono [OF assms(2)] rnd_512 [of k] assms by simp
  then have "fadd d (rnd x) \<le> fadd (of_int n / 512) (of_int k / 512)" using assms(1) by (rule fadd_mono [rotated])
  also have "\<dots> = of_int (n + k) / 512"
    using rnd_512 [of "n + k"] assms by (simp add: fadd_def add_divide_distrib)
  finally have "fadd d (rnd x) \<le> of_int (n + k) / 512" .
  moreover have "d \<le> of_int (n + k) / 512" using assms(1,3) by (simp add: field_simps)
  ultimately show ?thesis by (simp add: bump_def)
qed

lemma continues_append:
  "list_ex is_user msgs \<Longrightarrow> \<not> is_user t \<Longrightarrow> continues_after_last_user (msgs @ [t])"
  by (simp add: continues_after_last_user_def)

section \<open>Properties\<close>

text \<open>
  Context alone never makes a task hard: however many tokens an agent has
  accumulated and whatever its tool results say, a request whose user text has no code
  marker and no reasoning or task keyword stays below the hard threshold 0.55, as long
  as the agent is mid-loop or the conversation is short and the user is not correcting it.
\<close>

theorem context_alone_is_not_hard:
  assumes "task_focus to_string body = (tt, low, mid)"
    and "\<not> has_code_marker tt" "\<not> has_strong_reasoning_keyword low tt" "\<not> has_task_keyword low tt"
    and "mid \<or> (\<forall>ms. messages_of body = Some ms \<longrightarrow> length ms < 8 \<and> \<not> last_user_corrects ms)"
  shows "0 \<le> heuristic_difficulty to_string body \<and> heuristic_difficulty to_string body < rnd (55 / 100)"
proof -
  let ?t = "f64_of_nat (unat (estimate_tokens_from_text (extract_openai_prompt_text to_string body)))"
  let ?d0 = "fadd (rnd (15 / 100)) (min (fdiv ?t 24000) (rnd (20 / 100)))"
  let ?d1 = "bump (60000 < ?t) (5 / 100) ?d0"
  let ?d2 = "bump (request_has_tools body) (8 / 100) ?d1"
  let ?d4 = "bump (12000 < ?t) (5 / 100) ?d2"
  have none: "(case messages_of body of Some ms \<Rightarrow> \<not> mid \<and> 8 \<le> length ms | None \<Rightarrow> False) = False"
    "(case messages_of body of Some ms \<Rightarrow> \<not> mid \<and> last_user_corrects ms | None \<Rightarrow> False) = False"
    using assms(5) by (auto split: option.splits)
  have val: "heuristic_difficulty to_string body = fclamp ?d4 0 1"
    using assms(1-4) by (simp add: heuristic_difficulty_def Let_def none)
  have lit: "rnd (15 / 100) \<le> of_int 77 / 512" "rnd (20 / 100) \<le> of_int 103 / 512"
    using rnd_mono [of "15 / 100" "of_int 77 / 512"] rnd_512 [of 77]
      rnd_mono [of "20 / 100" "of_int 103 / 512"] rnd_512 [of 103] by simp_all
  have "?d0 \<le> fadd (of_int 77 / 512) (of_int 103 / 512)"
    by (rule fadd_mono [OF lit(1) min.coboundedI2 [OF lit(2)]])
  then have "?d0 \<le> of_int 180 / 512" using rnd_512 [of 180] by (simp add: fadd_def)
  then have "?d1 \<le> of_int (180 + 26) / 512" by (rule bump_512) simp_all
  then have "?d2 \<le> of_int (180 + 26 + 41) / 512" by (rule bump_512) simp_all
  then have "?d4 \<le> of_int (180 + 26 + 41 + 26) / 512" by (rule bump_512) simp_all
  then have le: "?d4 \<le> 273 / 512" by simp
  have "(273 / 512 :: rat) < 280 / 512" by simp
  also have "\<dots> \<le> rnd (55 / 100)" using rnd_mono [of "of_int 280 / 512" "55 / 100"] rnd_512 [of 280] by simp
  finally have "fclamp ?d4 0 1 < rnd (55 / 100)"
    using le rnd_mono [of 0 "55 / 100"] by (auto simp: fclamp_def)
  then show ?thesis using fclamp_bounds [of 0 1 ?d4] by (simp add: val)
qed

definition agent_body :: json where
  "agent_body = Object [(''messages'', Array
     [Object [(''role'', String ''user''), (''content'', String ''list files'')],
      Object [(''role'', String ''tool''), (''content'', String ''fn main: deadlock error'')]])]"

lemma agent_body_focus: "task_focus (\<lambda>_. None) agent_body = (''list files'', ''list files'', True)"
  by (simp add: task_focus_def messages_of_def agent_body_def continues_after_last_user_def is_user_def
      role_of_def jget_str_def find_user_content_def content_of_def content_to_text_def Let_def
      to_ascii_lowercase_def is_ascii_upper_def byte_def)

theorem context_alone_is_not_hard_witness:
  "heuristic_difficulty (\<lambda>_. None) agent_body < rnd (55 / 100)"
proof -
  have k: "\<not> has_code_marker ''list files''" "\<not> has_strong_reasoning_keyword ''list files'' ''list files''"
    "\<not> has_task_keyword ''list files'' ''list files''"
    by code_simp+
  show ?thesis using context_alone_is_not_hard [OF agent_body_focus k] by simp
qed

text \<open>
  Inside an agent loop the judged text does not drift: once a conversation has a
  user message and continues after it, appending further assistant or tool messages
  leaves the focus text and the mid-loop flag as they are.
\<close>

theorem focus_ignores_appended_tool_turns:
  assumes "messages_of body = Some msgs" "messages_of body' = Some (msgs @ ts)"
    and "continues_after_last_user msgs" "\<forall>t \<in> set ts. \<not> is_user t"
  shows "task_focus to_string body' = task_focus to_string body"
proof -
  have ex: "list_ex is_user msgs" using assms(3) by (simp add: continues_after_last_user_def)
  have "find is_user msgs \<noteq> None" using ex by (auto simp: find_None_iff list_ex_iff)
  then have f: "find_user_content (msgs @ ts) = find_user_content msgs"
    by (auto simp: find_user_content_def find_append)
  have "takeWhile (\<lambda>m. \<not> is_user m) (rev (msgs @ ts)) \<noteq> []"
  proof (cases "ts = []")
    case True
    then show ?thesis using assms(3) by (simp add: continues_after_last_user_def)
  next
    case False
    then have n: "\<not> is_user (last ts)" and e: "rev (msgs @ ts) = last ts # rev (msgs @ butlast ts)"
      using assms(4) by (auto simp: last_in_set rev_eq_Cons_iff)
    show ?thesis unfolding e using n by simp
  qed
  then have "continues_after_last_user (msgs @ ts)" using ex by (simp add: continues_after_last_user_def)
  with assms(1-3) f show ?thesis by (simp add: task_focus_def Let_def)
qed

theorem focus_ignores_appended_tool_turns_witness:
  "task_focus (\<lambda>_. None) (Object [(''messages'', Array
     [Object [(''role'', String ''user''), (''content'', String ''list files'')],
      Object [(''role'', String ''tool''), (''content'', String ''fn main: deadlock error'')],
      Object [(''role'', String ''assistant'')]])]) = task_focus (\<lambda>_. None) agent_body"
  by (rule focus_ignores_appended_tool_turns [where ts = "[Object [(''role'', String ''assistant'')]]"
        and msgs = "[Object [(''role'', String ''user''), (''content'', String ''list files'')],
           Object [(''role'', String ''tool''), (''content'', String ''fn main: deadlock error'')]]"])
    (simp_all add: messages_of_def agent_body_def continues_after_last_user_def is_user_def role_of_def jget_str_def)

text \<open>
  Output budgets are sane: the expected output is at least one token and at most
  128000, or the default when that is larger, whatever the body asks for.
\<close>

theorem expected_output_bounds:
  "1 \<le> expected_output_tokens body dflt \<and> expected_output_tokens body dflt \<le> max dflt 128000"
proof -
  have one: "(1 :: u32) \<le> 128000" by (simp add: word_le_nat_alt)
  have "min (max v 1) 128000 \<le> max dflt (128000 :: u32)" for v by (simp add: le_max_iff_disj)
  moreover have "1 \<le> max dflt (128000 :: u32)" using one by (simp add: le_max_iff_disj)
  ultimately show ?thesis
    by (auto simp: expected_output_tokens_def split: option.split)
qed

end
