(* ===== verification/Http.thy ===== *)
theory Http
  imports Json
begin

text \<open>
  The request as the handlers see it: header lookup by lower-case name and the JSON
  body. A header value is text, or bytes that \<open>HeaderValue::to_str\<close> refuses (anything
  but visible ASCII).
\<close>

datatype header_value = Text string | Opaque

type_synonym headers = "string \<rightharpoonup> header_value"

fun to_str :: "header_value \<Rightarrow> string option" where
  "to_str (Text s) = Some s"
| "to_str Opaque = None"

text \<open>\<open>headers.get(name).and_then(|h| h.to_str().ok())\<close>.\<close>

definition header_str :: "headers \<Rightarrow> string \<Rightarrow> string option" where
  "header_str h name = Option.bind (h name) to_str"

definition is_visible :: "char \<Rightarrow> bool" where
  "is_visible c \<longleftrightarrow> (32 \<le> byte c \<and> byte c < 127) \<or> byte c = 9"

text \<open>Every text header is visible ASCII: the law of \<open>to_str\<close>.\<close>

definition headers_ok :: "headers \<Rightarrow> bool" where
  "headers_ok h \<longleftrightarrow> (\<forall>name s. h name = Some (Text s) \<longrightarrow> list_all is_visible s)"

text \<open>\<open>payload.get("_smartgate_context").and_then(|c| c.get(key))\<close>.\<close>

definition context_field :: "string \<Rightarrow> json \<Rightarrow> json option" where
  "context_field key payload = Option.bind (jget ''_smartgate_context'' payload) (jget key)"

text \<open>Slicing a str panics off a character boundary.\<close>

definition is_char_boundary :: "string \<Rightarrow> nat \<Rightarrow> bool" where
  "is_char_boundary s i \<longleftrightarrow> i = 0 \<or> i = length s \<or> (i < length s \<and> \<not> is_cont (s ! i))"

definition slice_from :: "string \<Rightarrow> nat \<Rightarrow> string run" where
  "slice_from s i = (if is_char_boundary s i then Returns (drop i s) else Panics)"

definition slice_to :: "string \<Rightarrow> nat \<Rightarrow> string run" where
  "slice_to s i = (if is_char_boundary s i then Returns (take i s) else Panics)"

lemma ascii_boundary: "ascii s \<Longrightarrow> i \<le> length s \<Longrightarrow> is_char_boundary s i"
proof -
  assume a: "ascii s" "i \<le> length s"
  have "\<not> is_cont (s ! i)" if "i < length s"
  proof -
    have "byte (s ! i) < 128" using a(1) that by (simp add: ascii_def list_all_length)
    then show ?thesis by (simp add: is_cont_def)
  qed
  then show "is_char_boundary s i" using a(2) by (auto simp: is_char_boundary_def)
qed

lemma ascii_visible: "list_all is_visible s \<Longrightarrow> ascii s"
  by (auto simp: ascii_def is_visible_def list_all_iff)

lemma slice_from_ascii: "ascii s \<Longrightarrow> i \<le> length s \<Longrightarrow> slice_from s i = Returns (drop i s)"
  by (simp add: slice_from_def ascii_boundary)

end
