(* ===== verification/Free_Claim.thy ===== *)
theory Free_Claim
  imports Window Http "HOL-Library.List_Lexorder"
begin

text \<open>
  free_token/mod.rs: claiming free API keys under an hourly limit per client address,
  checking an issued key, the pool's public model list and the administration of
  settings and keys. The tables the handlers touch are fields of a record; a statement
  that can fail takes its outcome as an argument. The hash, the uuids and the Unicode
  character tables are parameters.
\<close>

section \<open>The claim limiter\<close>

definition CLAIM_WINDOW :: nat where "CLAIM_WINDOW = 3600 * 1000000000"

type_synonym claim_tracker = "string \<rightharpoonup> nat list"

definition prune_claims :: "nat list \<Rightarrow> nat \<Rightarrow> nat list" where
  "prune_claims q now = dropWhile (\<lambda>t. CLAIM_WINDOW \<le> now - t) q"

definition check_and_record_ip_claim :: "claim_tracker \<Rightarrow> nat \<Rightarrow> string \<Rightarrow> nat \<Rightarrow> claim_tracker \<times> bool" where
  "check_and_record_ip_claim tr now ip limit_per_hour =
     (let queue = prune_claims (unwrap_or (tr ip) []) now in
      if limit_per_hour \<le> length queue then (tr(ip \<mapsto> queue), False)
      else (tr(ip \<mapsto> queue @ [now]), True))"

interpretation claim_win: sliding_window CLAIM_WINDOW prune_claims
proof
  show "0 < CLAIM_WINDOW" by (simp add: CLAIM_WINDOW_def)
next
  fix q :: "nat list" and now :: nat
  assume a: "sorted q" "\<forall>s \<in> set q. s \<le> now"
  then have "dropWhile (\<lambda>t. CLAIM_WINDOW \<le> now - t) q = filter (\<lambda>t. \<not> CLAIM_WINDOW \<le> now - t) q"
    by (intro filter_dropWhile_sorted) auto
  also have "\<dots> = live CLAIM_WINDOW q now"
    unfolding live_def using a(2) by (intro filter_cong) auto
  finally show "prune_claims q now = live CLAIM_WINDOW q now" by (simp add: prune_claims_def)
qed

definition extract_client_ip :: "headers \<Rightarrow> string" where
  "extract_client_ip h =
     (let v = or_else (h ''cf-connecting-ip'') (or_else (h ''x-real-ip'') (h ''x-forwarded-for''));
          ip = Option.bind (Option.bind v to_str) (\<lambda>s.
                 let t = trim (hd (split_on (CHR '','') s)) in if t = [] then None else Some t)
      in unwrap_or ip ''127.0.0.1'')"

text \<open>\<open>is_alphanumeric\<close> is the standard library's table; \<open>alnum\<close> is its value on a character.\<close>

definition sanitize_id :: "(string \<Rightarrow> bool) \<Rightarrow> string \<Rightarrow> string" where
  "sanitize_id alnum raw = concat (map (\<lambda>c. if alnum c then c else ''_'') (utf8_chars raw))"

section \<open>Configuration\<close>

record free_pool_config =
  fc_id :: string
  fc_enabled :: bool
  fc_rpm_limit :: int
  fc_concurrency_limit :: int
  fc_daily_spend_limit :: f64
  fc_max_keys_per_ip_per_hour :: int
  fc_pool_id :: string
  fc_project_id :: string
  fc_org_id :: string
  fc_openrouter_api_key :: "string option"

record free_pool_view =
  fv_id :: string
  fv_enabled :: bool
  fv_rpm_limit :: int
  fv_concurrency_limit :: int
  fv_daily_spend_limit :: f64
  fv_max_keys_per_ip_per_hour :: int
  fv_pool_id :: string
  fv_project_id :: string
  fv_org_id :: string
  fv_has_openrouter_api_key :: bool

definition view_of :: "free_pool_config \<Rightarrow> free_pool_view" where
  "view_of c =
     \<lparr>fv_id = fc_id c, fv_enabled = fc_enabled c, fv_rpm_limit = fc_rpm_limit c,
      fv_concurrency_limit = fc_concurrency_limit c, fv_daily_spend_limit = fc_daily_spend_limit c,
      fv_max_keys_per_ip_per_hour = fc_max_keys_per_ip_per_hour c, fv_pool_id = fc_pool_id c,
      fv_project_id = fc_project_id c, fv_org_id = fc_org_id c,
      fv_has_openrouter_api_key =
        (case fc_openrouter_api_key c of Some k \<Rightarrow> trim k \<noteq> [] | None \<Rightarrow> False)\<rparr>"

record update_settings_req =
  us_enabled :: "bool option"
  us_rpm_limit :: "int option"
  us_concurrency_limit :: "int option"
  us_daily_spend_limit :: "f64 option"
  us_max_keys_per_ip_per_hour :: "int option"
  us_openrouter_api_key :: "string option"

definition apply_settings :: "update_settings_req \<Rightarrow> free_pool_config \<Rightarrow> free_pool_config" where
  "apply_settings u c =
     c\<lparr>fc_enabled := unwrap_or (us_enabled u) (fc_enabled c),
       fc_rpm_limit := (case us_rpm_limit u of Some r \<Rightarrow> max r 1 | None \<Rightarrow> fc_rpm_limit c),
       fc_concurrency_limit := (case us_concurrency_limit u of Some n \<Rightarrow> max n 1 | None \<Rightarrow> fc_concurrency_limit c),
       fc_daily_spend_limit := (case us_daily_spend_limit u of Some s \<Rightarrow> max s 0 | None \<Rightarrow> fc_daily_spend_limit c),
       fc_max_keys_per_ip_per_hour :=
         (case us_max_keys_per_ip_per_hour u of Some n \<Rightarrow> max n 1 | None \<Rightarrow> fc_max_keys_per_ip_per_hour c),
       fc_openrouter_api_key :=
         (case us_openrouter_api_key u of
            Some k \<Rightarrow> (let t = trim k in if t = [] then None else Some t)
          | None \<Rightarrow> fc_openrouter_api_key c)\<rparr>"

section \<open>The tables\<close>

record free_key =
  fk_id :: string
  fk_project_id :: string
  fk_name :: string
  fk_key_hash :: string
  fk_key_prefix :: string
  fk_enabled :: bool
  fk_rpm_limit :: "int option"
  fk_concurrency_limit :: "int option"
  fk_daily_spend_limit :: "f64 option"
  fk_last_used_at :: "nat option"
  fk_created_at :: nat

record key_usage =
  ku_key_id :: string
  ku_timestamp :: nat
  ku_total_tokens :: int

record free_state =
  fs_config :: "free_pool_config option"
  fs_keys :: "free_key list"
  fs_usage :: "key_usage list"
  fs_tracker :: claim_tracker
  fs_upstream_key :: "string option"

datatype api_error = ApiError nat string

section \<open>Claiming a key\<close>

record claim_response =
  cr_api_key :: string
  cr_key_prefix :: string
  cr_name :: string
  cr_base_url :: string
  cr_models :: "string list"
  cr_default_model :: string
  cr_rpm_limit :: int
  cr_concurrency_limit :: int
  cr_daily_spend_limit :: f64

text \<open>\<open>i32 as usize\<close> sign-extends.\<close>

definition usize_of_i32 :: "int \<Rightarrow> nat" where
  "usize_of_i32 i = nat (i mod 2 ^ 64)"

definition default_model_of :: "string list \<Rightarrow> string" where
  "default_model_of models =
     (if ''smartgate/auto'' \<in> set models then ''smartgate/auto''
      else unwrap_or (find (\<lambda>m. starts_with m ''smartgate/'') models) ''smartgate/auto'')"

definition key_name_of :: "string option \<Rightarrow> string \<Rightarrow> string" where
  "key_name_of payload_name name_tag =
     (case Option.bind payload_name (\<lambda>n. let t = trim n in if t = [] then None else Some t) of
        Some custom \<Rightarrow> custom @ '' ('' @ name_tag @ '')''
      | None \<Rightarrow> ''Free Key ('' @ name_tag @ '')'')"

text \<open>
  \<open>uuid1\<close> is the 32-digit simple uuid of the key, \<open>uuid2\<close> the row id; \<open>insert_ok\<close> and
  \<open>models_answer\<close> are the outcomes of the two statements after the limiter.
\<close>

definition claim_free_key ::
    "(string \<Rightarrow> string) \<Rightarrow> string \<Rightarrow> string \<Rightarrow> bool \<Rightarrow> string list option \<Rightarrow> nat \<Rightarrow> free_state \<Rightarrow> headers
      \<Rightarrow> string option \<Rightarrow> free_state \<times> (api_error + claim_response)" where
  "claim_free_key hash_token uuid1 uuid2 insert_ok models_answer now s h payload_name =
     (case fs_config s of
        None \<Rightarrow> (s, Inl (ApiError 500 ''Service configuration unavailable''))
      | Some config \<Rightarrow>
        if \<not> fc_enabled config
        then (s, Inl (ApiError 403 ''Free token key claiming is currently disabled by administrator''))
        else
        (case check_and_record_ip_claim (fs_tracker s) now (extract_client_ip h)
                (usize_of_i32 (fc_max_keys_per_ip_per_hour config)) of
           (tr, False) \<Rightarrow> (s\<lparr>fs_tracker := tr\<rparr>, Inl (ApiError 429
             ''Hourly free key creation limit reached for your IP. Please use your existing key.''))
         | (tr, True) \<Rightarrow>
           let raw_key = ''sg-free-'' @ uuid1;
               key_hash = hash_token raw_key;
               key_prefix = take 11 raw_key @ ''...'' @ drop (length raw_key - 4) raw_key;
               key_name = key_name_of payload_name (take 8 (drop 8 raw_key));
               row = \<lparr>fk_id = uuid2, fk_project_id = fc_project_id config, fk_name = key_name,
                      fk_key_hash = key_hash, fk_key_prefix = key_prefix, fk_enabled = True,
                      fk_rpm_limit = Some (fc_rpm_limit config),
                      fk_concurrency_limit = Some (fc_concurrency_limit config),
                      fk_daily_spend_limit = Some (fc_daily_spend_limit config),
                      fk_last_used_at = None, fk_created_at = now\<rparr>
           in if \<not> insert_ok
              then (s\<lparr>fs_tracker := tr\<rparr>, Inl (ApiError 500 ''Failed to generate API key''))
              else let models = unwrap_or models_answer [''smartgate/auto''] in
                (s\<lparr>fs_tracker := tr, fs_keys := fs_keys s @ [row]\<rparr>,
                 Inr \<lparr>cr_api_key = raw_key, cr_key_prefix = key_prefix, cr_name = key_name,
                      cr_base_url = ''/v1'', cr_models = models, cr_default_model = default_model_of models,
                      cr_rpm_limit = fc_rpm_limit config,
                      cr_concurrency_limit = fc_concurrency_limit config,
                      cr_daily_spend_limit = fc_daily_spend_limit config\<rparr>)))"

section \<open>Checking a key\<close>

record check_response =
  ck_valid :: bool
  ck_key_prefix :: string
  ck_name :: string
  ck_enabled :: bool
  ck_rpm_limit :: "int option"
  ck_concurrency_limit :: "int option"
  ck_daily_spend_limit :: "f64 option"
  ck_requests_today :: nat
  ck_tokens_today :: int
  ck_last_used_at :: "nat option"
  ck_created_at :: nat

definition day_ns :: nat where "day_ns = 86400 * 1000000000"

text \<open>Request count and token sum of one key since midnight.\<close>

definition usage_today :: "key_usage list \<Rightarrow> nat \<Rightarrow> string \<Rightarrow> nat \<times> int" where
  "usage_today rows now key_id =
     (let mine = filter (\<lambda>u. ku_key_id u = key_id \<and> now div day_ns * day_ns \<le> ku_timestamp u) rows
      in (length mine, sum_list (map ku_total_tokens mine)))"

definition check_free_key ::
    "(string \<Rightarrow> string) \<Rightarrow> bool \<Rightarrow> bool \<Rightarrow> nat \<Rightarrow> free_state \<Rightarrow> string \<Rightarrow> api_error + check_response" where
  "check_free_key hash_token select_ok usage_ok now s api_key =
     (let token = trim api_key in
      if token = [] then Inl (ApiError 400 ''API key is required'')
      else if \<not> select_ok then Inl (ApiError 500 ''Database error'')
      else (case find (\<lambda>k. fk_key_hash k = hash_token token) (fs_keys s) of
              None \<Rightarrow> Inl (ApiError 404 ''Invalid or unrecognized API key'')
            | Some k \<Rightarrow>
                let usage = (if usage_ok then usage_today (fs_usage s) now (fk_id k) else (0, 0))
                in Inr \<lparr>ck_valid = True, ck_key_prefix = fk_key_prefix k, ck_name = fk_name k,
                     ck_enabled = fk_enabled k, ck_rpm_limit = fk_rpm_limit k,
                     ck_concurrency_limit = fk_concurrency_limit k,
                     ck_daily_spend_limit = fk_daily_spend_limit k, ck_requests_today = fst usage,
                     ck_tokens_today = snd usage, ck_last_used_at = fk_last_used_at k,
                     ck_created_at = fk_created_at k\<rparr>))"

section \<open>The model list\<close>

record model_summary =
  ms_id :: string
  ms_name :: string
  ms_context_length :: int

text \<open>The map from names to summaries, kept as an association list in first-seen order.\<close>

definition merge_row :: "model_summary list \<Rightarrow> string \<times> string \<times> int option \<Rightarrow> model_summary list" where
  "merge_row acc row = (case row of (i, name, ctx) \<Rightarrow>
     (let acc1 = (if list_ex (\<lambda>e. ms_name e = name) acc then acc
                  else acc @ [\<lparr>ms_id = i, ms_name = name, ms_context_length = unwrap_or ctx 131072\<rparr>])
      in map (\<lambda>e. if ms_name e = name
                  then (case ctx of
                          Some c \<Rightarrow> if ms_context_length e < c then e\<lparr>ms_context_length := c\<rparr> else e
                        | None \<Rightarrow> e)
                  else e) acc1))"

definition model_rank :: "string \<Rightarrow> nat" where
  "model_rank name =
     (if name = ''smartgate/deepseek-r1:1'' then 0
      else if name = ''smartgate/deepseek-chat:1'' then 1
      else if name = ''smartgate/glm-4:1'' then 2
      else if name = ''smartgate/qwen-coder:1'' then 3
      else if name = ''smartgate/llama-70b:1'' then 4
      else if name = ''smartgate/gemini-flash:1'' then 5
      else if starts_with name ''smartgate/'' then 6
      else if name = ''auto'' then 18
      else if name = ''free-chat'' then 19
      else 10)"

definition summary_cmp :: "model_summary \<Rightarrow> model_summary \<Rightarrow> ordering" where
  "summary_cmp a b = then_with (cmp_of (model_rank (ms_name a)) (model_rank (ms_name b)))
     (cmp_of (ms_name a) (ms_name b))"

definition available_models :: "(string \<times> string \<times> int option) list \<Rightarrow> model_summary list" where
  "available_models rows = sort_by summary_cmp (foldl merge_row [] rows)"

section \<open>Administration\<close>

definition update_settings ::
    "bool \<Rightarrow> bool \<Rightarrow> free_state \<Rightarrow> update_settings_req \<Rightarrow> free_state \<times> (api_error + free_pool_view)" where
  "update_settings write_ok upstream_ok s u =
     (case fs_config s of
        None \<Rightarrow> (s, Inl (ApiError 500 ''Database error''))
      | Some c \<Rightarrow>
        let current = apply_settings u c in
        if \<not> write_ok then (s, Inl (ApiError 500 ''Database update error''))
        else
          let s1 = s\<lparr>fs_config := Some current\<rparr>;
              s2 = (case fc_openrouter_api_key current of
                      Some key \<Rightarrow> if upstream_ok \<and> fs_upstream_key s1 \<noteq> None
                        then s1\<lparr>fs_upstream_key := Some key\<rparr> else s1
                    | None \<Rightarrow> s1)
          in (s2, Inr (view_of current)))"

record update_key_req =
  uk_enabled :: "bool option"
  uk_rpm_limit :: "int option"
  uk_concurrency_limit :: "int option"
  uk_daily_spend_limit :: "f64 option"

text \<open>\<open>... WHERE id = $2 AND project_id = $3\<close>.\<close>

definition update_rows :: "string \<Rightarrow> string \<Rightarrow> (free_key \<Rightarrow> free_key) \<Rightarrow> free_key list \<Rightarrow> free_key list" where
  "update_rows i project f = map (\<lambda>k. if fk_id k = i \<and> fk_project_id k = project then f k else k)"

definition update_admin_free_key ::
    "bool \<Rightarrow> bool \<Rightarrow> free_state \<Rightarrow> string \<Rightarrow> update_key_req \<Rightarrow> free_state \<times> (api_error + unit)" where
  "update_admin_free_key enable_ok limits_ok s i u =
     (case fs_config s of
        None \<Rightarrow> (s, Inl (ApiError 500 ''Database error''))
      | Some c \<Rightarrow>
        (case (case uk_enabled u of
                 None \<Rightarrow> Inr s
               | Some e \<Rightarrow> if enable_ok
                   then Inr (s\<lparr>fs_keys := update_rows i (fc_project_id c) (\<lambda>k. k\<lparr>fk_enabled := e\<rparr>) (fs_keys s)\<rparr>)
                   else Inl (ApiError 500 ''Database error'')) of
           Inl err \<Rightarrow> (s, Inl err)
         | Inr s1 \<Rightarrow>
           if uk_rpm_limit u \<noteq> None \<or> uk_concurrency_limit u \<noteq> None \<or> uk_daily_spend_limit u \<noteq> None
           then (if limits_ok
                 then (s1\<lparr>fs_keys := update_rows i (fc_project_id c) (\<lambda>k.
                         k\<lparr>fk_rpm_limit := or_else (uk_rpm_limit u) (fk_rpm_limit k),
                           fk_concurrency_limit := or_else (uk_concurrency_limit u) (fk_concurrency_limit k),
                           fk_daily_spend_limit := or_else (uk_daily_spend_limit u) (fk_daily_spend_limit k)\<rparr>)
                         (fs_keys s1)\<rparr>, Inr ())
                 else (s1, Inl (ApiError 500 ''Database error'')))
           else (s1, Inr ())))"

definition delete_admin_free_key ::
    "bool \<Rightarrow> free_state \<Rightarrow> string \<Rightarrow> free_state \<times> (api_error + unit)" where
  "delete_admin_free_key delete_ok s i =
     (case fs_config s of
        None \<Rightarrow> (s, Inl (ApiError 500 ''Database error''))
      | Some c \<Rightarrow>
        if delete_ok
        then (s\<lparr>fs_keys := filter (\<lambda>k. \<not> (fk_id k = i \<and> fk_project_id k = fc_project_id c)) (fs_keys s)\<rparr>, Inr ())
        else (s, Inl (ApiError 500 ''Database error'')))"

section \<open>Lemmas\<close>

text \<open>The limiter of one address against the hist of the times it admitted.\<close>

lemma check_is_admit: "check_and_record_ip_claim tr now ip L = claim_win.admit tr ip L now"
  by (simp add: check_and_record_ip_claim_def claim_win.admit_def)

record claim_attempt =
  ca_now :: nat
  ca_headers :: headers
  ca_name :: "string option"
  ca_uuid1 :: string
  ca_uuid2 :: string
  ca_insert_ok :: bool
  ca_models :: "string list option"

text \<open>A run of claims; the result lists time, address and whether a key was issued, for the claims the limiter let pass.\<close>

fun claim_run :: "(string \<Rightarrow> string) \<Rightarrow> free_state \<Rightarrow> claim_attempt list \<Rightarrow> (nat \<times> string \<times> bool) list" where
  "claim_run hash s [] = []"
| "claim_run hash s (a # as) =
     (case claim_free_key hash (ca_uuid1 a) (ca_uuid2 a) (ca_insert_ok a) (ca_models a) (ca_now a) s
             (ca_headers a) (ca_name a) of
        (s', res) \<Rightarrow>
          (if fs_keys s' \<noteq> fs_keys s \<or> (\<exists>m. res = Inl (ApiError 500 m))
           then [(ca_now a, extract_client_ip (ca_headers a), fs_keys s' \<noteq> fs_keys s)] else []) @
          claim_run hash s' as)"

definition issued_times :: "string \<Rightarrow> (nat \<times> string \<times> bool) list \<Rightarrow> nat list" where
  "issued_times ip hist = map fst (filter (\<lambda>(_, i, ok). i = ip \<and> ok) hist)"

definition passed_times :: "string \<Rightarrow> (nat \<times> string \<times> bool) list \<Rightarrow> nat list" where
  "passed_times ip hist = map fst (filter (\<lambda>(_, i, _). i = ip) hist)"

lemma issued_le_passed: "in_window w (issued_times ip hist) t \<le> in_window w (passed_times ip hist) t"
  unfolding in_window_def issued_times_def passed_times_def
  by (induction hist) auto

lemma claim_step:
  assumes "fs_config s = Some c" "fc_enabled c"
    and "claim_free_key hash u1 u2 ok models now s h n = (s', res)"
    and "check_and_record_ip_claim (fs_tracker s) now (extract_client_ip h)
           (usize_of_i32 (fc_max_keys_per_ip_per_hour c)) = (tr', adm)"
  shows "fs_config s' = Some c" "fs_tracker s' = tr'"
    "(fs_keys s' \<noteq> fs_keys s \<or> (\<exists>m. res = Inl (ApiError 500 m))) = adm"
  using assms by (auto simp: claim_free_key_def Let_def split: bool.splits if_splits)

lemma claim_run_bound:
  assumes "fs_config s = Some c" "fc_enabled c"
    and "claim_win.tracks (unwrap_or (fs_tracker s ip) []) hist t0"
    and "\<And>t. in_window CLAIM_WINDOW hist t \<le> usize_of_i32 (fc_max_keys_per_ip_per_hour c)"
    and "sorted (t0 # map ca_now as)"
  shows "in_window CLAIM_WINDOW (hist @ passed_times ip (claim_run hash s as)) t
       \<le> usize_of_i32 (fc_max_keys_per_ip_per_hour c)"
  using assms
proof (induction as arbitrary: s hist t0)
  case Nil
  then show ?case by (simp add: passed_times_def)
next
  case (Cons a as)
  let ?L = "usize_of_i32 (fc_max_keys_per_ip_per_hour c)" and ?ip = "extract_client_ip (ca_headers a)"
  obtain tr' adm where ck: "check_and_record_ip_claim (fs_tracker s) (ca_now a) ?ip ?L = (tr', adm)" by fastforce
  obtain s' res where cl: "claim_free_key hash (ca_uuid1 a) (ca_uuid2 a) (ca_insert_ok a) (ca_models a)
      (ca_now a) s (ca_headers a) (ca_name a) = (s', res)" by fastforce
  note st = claim_step [OF Cons.prems(1,2) cl ck]
  have le: "t0 \<le> ca_now a" and srt: "sorted (ca_now a # map ca_now as)" using Cons.prems(5) by simp_all
  note inv = claim_win.admit_step [OF ck [unfolded check_is_admit] Cons.prems(3) le Cons.prems(4)]
  have run: "passed_times ip (claim_run hash s (a # as)) =
      (if adm \<and> ?ip = ip then [ca_now a] else []) @ passed_times ip (claim_run hash s' as)"
    using cl st(3) by (auto simp: passed_times_def)
  show ?case
    unfolding run append_assoc [symmetric]
    by (rule Cons.IH [OF st(1) Cons.prems(2) _ _ srt]) (use inv st(2) in simp_all)
qed

section \<open>Properties\<close>


definition sample_config :: free_pool_config where
  "sample_config = \<lparr>fc_id = ''default'', fc_enabled = True, fc_rpm_limit = 20, fc_concurrency_limit = 2,
     fc_daily_spend_limit = 5, fc_max_keys_per_ip_per_hour = 1, fc_pool_id = ''pool_free_tokens'',
     fc_project_id = ''proj_free_tokens'', fc_org_id = ''org_free_tokens'', fc_openrouter_api_key = None\<rparr>"

definition sample_state :: free_state where
  "sample_state = \<lparr>fs_config = Some sample_config, fs_keys = [], fs_usage = [],
     fs_tracker = Map.empty, fs_upstream_key = None\<rparr>"

definition sample_claim :: "nat \<Rightarrow> claim_attempt" where
  "sample_claim now = \<lparr>ca_now = now, ca_headers = Map.empty, ca_name = None, ca_uuid1 = ''0123456789'',
     ca_uuid2 = ''id'', ca_insert_ok = True, ca_models = None\<rparr>"


text \<open>
  An issued key works: the key a successful claim returns is found again by the check
  endpoint, enabled and with the pool's configured quotas, provided its hash is new.
\<close>

theorem claimed_key_checks_out:
  assumes "claim_free_key hash u1 u2 ok models now s h n = (s', Inr r)"
    and "ascii u1" "list_all (\<lambda>c. \<not> is_whitespace [c]) u1"
    and "\<forall>k \<in> set (fs_keys s). fk_key_hash k \<noteq> hash (cr_api_key r)"
  shows "\<exists>ck. check_free_key hash True usage_ok later s' (cr_api_key r) = Inr ck \<and> ck_valid ck \<and>
     ck_enabled ck \<and> ck_key_prefix ck = cr_key_prefix r \<and> ck_name ck = cr_name r \<and>
     ck_rpm_limit ck = Some (cr_rpm_limit r) \<and> ck_concurrency_limit ck = Some (cr_concurrency_limit r) \<and>
     ck_daily_spend_limit ck = Some (cr_daily_spend_limit r)"
proof -
  obtain c tr where c: "fs_config s = Some c" "fc_enabled c"
    "check_and_record_ip_claim (fs_tracker s) now (extract_client_ip h)
       (usize_of_i32 (fc_max_keys_per_ip_per_hour c)) = (tr, True)" and ok: "ok"
    using assms(1) by (auto simp: claim_free_key_def Let_def split: option.splits bool.splits if_splits prod.splits)
  have r: "cr_api_key r = ''sg-free-'' @ u1" using assms(1) c ok by (auto simp: claim_free_key_def Let_def)
  have t: "trim (''sg-free-'' @ u1) = ''sg-free-'' @ u1"
    using assms(2,3) by (intro trim_ascii) (simp_all add: ascii_def byte_def is_whitespace_def Let_def)
  obtain row where s': "fs_keys s' = fs_keys s @ [row]" and row: "fk_key_hash row = hash (cr_api_key r)"
    "fk_enabled row" "fk_key_prefix row = cr_key_prefix r" "fk_name row = cr_name r"
    "fk_rpm_limit row = Some (cr_rpm_limit r)" "fk_concurrency_limit row = Some (cr_concurrency_limit r)"
    "fk_daily_spend_limit row = Some (cr_daily_spend_limit r)"
    using assms(1) c ok by (auto simp: claim_free_key_def Let_def)
  have "find (\<lambda>k. fk_key_hash k = hash (cr_api_key r)) (fs_keys s') = Some row"
    unfolding s' using assms(4) row(1) by (intro find_append_new) (auto simp: list_ex_iff)
  then show ?thesis using row t by (simp add: check_free_key_def Let_def r)
qed

theorem claimed_key_checks_out_witness:
  "\<exists>s' r ck. claim_free_key (\<lambda>x. x) ''0123456789'' ''id'' True None 5 sample_state Map.empty None = (s', Inr r) \<and>
     check_free_key (\<lambda>x. x) True True 6 s' (cr_api_key r) = Inr ck \<and> ck_valid ck"
proof -
  obtain s' r where sr: "claim_free_key (\<lambda>x. x) ''0123456789'' ''id'' True None 5 sample_state Map.empty None = (s', Inr r)"
    by (simp add: claim_free_key_def sample_state_def sample_config_def check_and_record_ip_claim_def
        prune_claims_def usize_of_i32_def Let_def)
  have "ascii ''0123456789''" "list_all (\<lambda>c. \<not> is_whitespace [c]) ''0123456789''"
    by (simp_all add: ascii_def byte_def is_whitespace_def Let_def)
  from claimed_key_checks_out [OF sr this, of True 6] sr show ?thesis by (auto simp: sample_state_def)
qed

text \<open>
  Settings stay in range: applying any update to a configuration whose limits are
  positive and whose spend limit is not negative keeps them so, and a blank upstream
  key is stored as no key.
\<close>

theorem settings_stay_in_range:
  assumes "1 \<le> fc_rpm_limit c" "1 \<le> fc_concurrency_limit c" "0 \<le> fc_daily_spend_limit c"
    "1 \<le> fc_max_keys_per_ip_per_hour c"
  shows "let c' = apply_settings u c in
     1 \<le> fc_rpm_limit c' \<and> 1 \<le> fc_concurrency_limit c' \<and> 0 \<le> fc_daily_spend_limit c' \<and>
     1 \<le> fc_max_keys_per_ip_per_hour c' \<and>
     (us_openrouter_api_key u \<noteq> None \<longrightarrow> fc_openrouter_api_key c' \<noteq> Some [])"
  using assms by (auto simp: apply_settings_def Let_def split: option.split)

theorem settings_stay_in_range_witness:
  "1 \<le> fc_rpm_limit (apply_settings \<lparr>us_enabled = None, us_rpm_limit = Some (- 7), us_concurrency_limit = None,
     us_daily_spend_limit = None, us_max_keys_per_ip_per_hour = None, us_openrouter_api_key = None\<rparr> sample_config)"
  using settings_stay_in_range [of sample_config "\<lparr>us_enabled = None, us_rpm_limit = Some (- 7),
     us_concurrency_limit = None, us_daily_spend_limit = None, us_max_keys_per_ip_per_hour = None,
     us_openrouter_api_key = None\<rparr>"]
  by (simp add: Let_def sample_config_def)

text \<open>
  Administration is confined to the free project: updating or deleting a key through
  the free-pool endpoints leaves every key of another project exactly as it was.
\<close>

theorem free_pool_admin_is_confined:
  assumes "fs_config s = Some c"
  shows "filter (\<lambda>k. fk_project_id k \<noteq> fc_project_id c) (fs_keys (fst (update_admin_free_key e l s i u)))
       = filter (\<lambda>k. fk_project_id k \<noteq> fc_project_id c) (fs_keys s) \<and>
     filter (\<lambda>k. fk_project_id k \<noteq> fc_project_id c) (fs_keys (fst (delete_admin_free_key d s i)))
       = filter (\<lambda>k. fk_project_id k \<noteq> fc_project_id c) (fs_keys s)"
proof -
  have rows: "filter (\<lambda>k. fk_project_id k \<noteq> p) (update_rows i p f ks) = filter (\<lambda>k. fk_project_id k \<noteq> p) ks"
    if "\<And>k. fk_project_id (f k) = fk_project_id k" for f p ks
    using that by (induction ks) (simp_all add: update_rows_def)
  have del: "filter (\<lambda>k. fk_project_id k \<noteq> p) (filter (\<lambda>k. \<not> (fk_id k = i \<and> fk_project_id k = p)) ks)
      = filter (\<lambda>k. fk_project_id k \<noteq> p) ks" for p ks
    by (induction ks) auto
  show ?thesis
    using assms rows del
    by (auto simp: update_admin_free_key_def delete_admin_free_key_def split: option.split)
qed

theorem free_pool_admin_is_confined_witness:
  "filter (\<lambda>k. fk_project_id k \<noteq> ''proj_free_tokens'')
     (fs_keys (fst (delete_admin_free_key True sample_state ''other''))) = []"
  using free_pool_admin_is_confined [of sample_state sample_config]
  by (simp add: sample_state_def sample_config_def)

end
