(* ===== verification/Models.thy ===== *)
theory Models
  imports F64
begin

text \<open>
  The rows of models/mod.rs the control plane reads from PostgreSQL, one record per
  struct with its columns in order. A 32-bit column is an \<open>int\<close> (the database keeps it in
  range), a timestamp is in nanoseconds, a nullable column is an option. The runtime
  metric of an endpoint is in Metrics, the usage row in Usage.
\<close>

record org_row =
  og_id :: string
  og_name :: string
  og_description :: "string option"
  og_created_at :: nat
  og_updated_at :: nat

record project_row =
  pj_id :: string
  pj_org_id :: string
  pj_name :: string
  pj_description :: "string option"
  pj_rpm_limit :: "int option"
  pj_concurrency_limit :: "int option"
  pj_daily_spend_limit :: "f64 option"
  pj_created_at :: nat
  pj_updated_at :: nat

record api_key_row =
  ak_id :: string
  ak_project_id :: string
  ak_name :: string
  ak_key_hash :: string
  ak_key_prefix :: string
  ak_enabled :: bool
  ak_metadata :: "string option"
  ak_rpm_limit :: "int option"
  ak_concurrency_limit :: "int option"
  ak_daily_spend_limit :: "f64 option"
  ak_last_used_at :: "nat option"
  ak_created_at :: nat
  ak_updated_at :: nat

record provider_account =
  pa_id :: string
  pa_name :: string
  pa_provider_type :: string
  pa_protocol :: string
  pa_base_url :: string
  pa_api_key :: string
  pa_status :: string
  pa_metadata :: "string option"
  pa_created_at :: nat
  pa_updated_at :: nat

record endpoint_row =
  er_id :: string
  er_account_id :: string
  er_name :: string
  er_upstream_model_id :: string
  er_enabled :: bool
  er_priority :: int
  er_weight :: int
  er_health_status :: string
  er_cooldown_until :: "nat option"
  er_input_price_per_1m :: "f64 option"
  er_output_price_per_1m :: "f64 option"
  er_capability_score :: f64
  er_supports_tools :: "int option"
  er_context_length :: "int option"
  er_metadata :: "string option"
  er_created_at :: nat
  er_updated_at :: nat

record model_pool =
  mp_id :: string
  mp_name :: string
  mp_strategy :: string
  mp_enabled :: bool
  mp_tool_trim_enabled :: int
  mp_tool_trim_dry_run :: int
  mp_max_tool_chars :: int
  mp_session_affinity_enabled :: int
  mp_session_affinity_ttl_secs :: int
  mp_judge_enabled :: int
  mp_judge_endpoint_id :: "string option"
  mp_shadow_enabled :: int
  mp_shadow_virtual_model_id :: "string option"
  mp_shadow_sample_rate :: f64
  mp_created_at :: nat
  mp_updated_at :: nat

record virtual_model =
  vm_id :: string
  vm_pool_id :: string
  vm_name :: string
  vm_enabled :: bool
  vm_created_at :: nat
  vm_updated_at :: nat

text \<open>
  The table \<open>model_pool_endpoints\<close> (pool, endpoint, priority, weight) and the two grant
  tables are lists of tuples; a table is a list of rows, in insertion order.
\<close>

record catalog =
  ct_orgs :: "org_row list"
  ct_projects :: "project_row list"
  ct_api_keys :: "api_key_row list"
  ct_accounts :: "provider_account list"
  ct_endpoints :: "endpoint_row list"
  ct_pool_endpoints :: "(string \<times> string \<times> int \<times> int) list"
  ct_model_pools :: "model_pool list"
  ct_virtual_models :: "virtual_model list"
  ct_project_grants :: "(string \<times> string) list"   \<comment> \<open>project, Virtual Model\<close>
  ct_key_grants :: "(string \<times> string) list"       \<comment> \<open>API key, Virtual Model\<close>

definition empty_catalog :: catalog where
  "empty_catalog = \<lparr>ct_orgs = [], ct_projects = [], ct_api_keys = [], ct_accounts = [], ct_endpoints = [],
     ct_pool_endpoints = [], ct_model_pools = [], ct_virtual_models = [], ct_project_grants = [],
     ct_key_grants = []\<rparr>"

end
