(* ===== verification/Auth.thy ===== *)
theory Auth
  imports Http Models "HOL-Library.List_Lexorder"
begin

text \<open>
  auth/mod.rs over the rows of Models: bearer authentication of an API
  key and the choice of the Virtual Model a request may use. The tables are lists of
  rows; ORDER BY ... LIMIT 1 is the head of the stably sorted answer, where the text
  order of the database is a parameter. The token hash is a parameter, and a statement
  that can fail takes its outcome as an argument.
\<close>

section \<open>Authentication\<close>

record auth_context =
  au_project :: project_row
  au_api_key :: api_key_row

text \<open>
  The outcome of the two statements is \<open>key_ok\<close> and \<open>project_ok\<close>; slicing after the
  seven bytes of the scheme is on a character boundary.
\<close>

definition authenticate ::
    "(string \<Rightarrow> string) \<Rightarrow> bool \<Rightarrow> bool \<Rightarrow> catalog \<Rightarrow> headers \<Rightarrow> (nat \<times> string) + auth_context" where
  "authenticate hash_token key_ok project_ok db h = (case header_str h ''authorization'' of
     None \<Rightarrow> Inl (401, ''Missing Authorization header'')
   | Some auth_header \<Rightarrow>
     if \<not> starts_with auth_header ''Bearer '' then Inl (401, ''Invalid Authorization header format'')
     else if \<not> key_ok then Inl (500, ''Database error'')
     else (case find (\<lambda>k. ak_key_hash k = hash_token (drop 7 auth_header) \<and> ak_enabled k) (ct_api_keys db) of
        None \<Rightarrow> Inl (401, ''Invalid or disabled API key'')
      | Some k \<Rightarrow>
        if \<not> project_ok then Inl (500, ''Failed to resolve project'')
        else (case find (\<lambda>p. pj_id p = ak_project_id k) (ct_projects db) of
           None \<Rightarrow> Inl (500, ''Failed to resolve project'')
         | Some p \<Rightarrow> Inr \<lparr>au_project = p, au_api_key = k\<rparr>)))"

section \<open>The Virtual Model of a request\<close>

text \<open>The joins and conditions both queries share, on the rows \<open>keep\<close> selects.\<close>

definition key_allows :: "catalog \<Rightarrow> string \<Rightarrow> string \<Rightarrow> bool" where
  "key_allows db api_key_id vm \<longleftrightarrow>
     list_ex (\<lambda>(k, v). k = api_key_id \<and> v = vm) (ct_key_grants db) \<or>
     \<not> list_ex (\<lambda>(k, v). k = api_key_id) (ct_key_grants db)"

definition granted_models ::
    "catalog \<Rightarrow> (virtual_model \<Rightarrow> model_pool \<Rightarrow> bool) \<Rightarrow> string \<Rightarrow> string \<Rightarrow> virtual_model list" where
  "granted_models db keep project_id api_key_id =
     concat (map (\<lambda>vm. concat (map (\<lambda>mp. concat (map (\<lambda>(p, v).
        if mp_id mp = vm_pool_id vm \<and> v = vm_id vm \<and> p = project_id \<and> keep vm mp \<and> vm_enabled vm \<and>
           key_allows db api_key_id (vm_id vm) then [vm] else [])
        (ct_project_grants db))) (ct_model_pools db))) (ct_virtual_models db))"

definition match_rank :: "string \<Rightarrow> virtual_model \<Rightarrow> nat" where
  "match_rank requested vm = (if vm_id vm = requested then 0 else if vm_name vm = requested then 1 else 2)"

definition exact_cmp ::
    "(string \<Rightarrow> string \<Rightarrow> ordering) \<Rightarrow> string \<Rightarrow> virtual_model \<Rightarrow> virtual_model \<Rightarrow> ordering" where
  "exact_cmp collate requested a b =
     then_with (cmp_of (match_rank requested a) (match_rank requested b)) (collate (vm_id a) (vm_id b))"

definition fallback_rank :: "virtual_model \<Rightarrow> nat" where
  "fallback_rank vm = (if vm_name vm = ''smartgate/auto'' then 0 else if vm_name vm = ''auto'' then 1 else 2)"

definition first_of :: "('a \<Rightarrow> 'a \<Rightarrow> ordering) \<Rightarrow> 'a list \<Rightarrow> 'a option" where
  "first_of cmp xs = (case sort_by cmp xs of [] \<Rightarrow> None | x # _ \<Rightarrow> Some x)"

definition exact_models :: "catalog \<Rightarrow> string \<Rightarrow> string \<Rightarrow> string \<Rightarrow> virtual_model list" where
  "exact_models db requested project_id api_key_id =
     granted_models db (\<lambda>vm mp. vm_id vm = requested \<or> vm_name vm = requested \<or> mp_name mp = requested)
       project_id api_key_id"

definition fallback_models :: "catalog \<Rightarrow> string \<Rightarrow> string \<Rightarrow> virtual_model list" where
  "fallback_models db project_id api_key_id =
     granted_models db (\<lambda>vm mp. vm_name vm \<in> {''smartgate/auto'', ''auto'', ''free-chat''}) project_id api_key_id"

definition resolve_authorized_virtual_model ::
    "(string \<Rightarrow> string \<Rightarrow> ordering) \<Rightarrow> bool \<Rightarrow> bool \<Rightarrow> catalog \<Rightarrow> string \<Rightarrow> string \<Rightarrow> string
       \<Rightarrow> unit + virtual_model option" where
  "resolve_authorized_virtual_model collate exact_ok fallback_ok db requested project_id api_key_id =
     (if \<not> exact_ok then Inl ()
      else case first_of (exact_cmp collate requested) (exact_models db requested project_id api_key_id) of
        Some vm \<Rightarrow> Inr (Some vm)
      | None \<Rightarrow> if \<not> fallback_ok then Inl ()
          else Inr (first_of (\<lambda>a b. cmp_of (fallback_rank a) (fallback_rank b))
                      (fallback_models db project_id api_key_id)))"

section \<open>Lemmas\<close>

lemma first_of_mem: "first_of cmp xs = Some x \<Longrightarrow> x \<in> set xs"
  by (metis first_of_def list.case_eq_if list.set_sel(1) option.distinct(1) option.inject set_sort_by)

lemma first_of_None [simp]: "first_of cmp xs = None \<longleftrightarrow> xs = []"
proof -
  have "sort_by cmp xs = [] \<longleftrightarrow> xs = []" by (metis length_0_conv length_sort_by)
  then show ?thesis by (auto simp: first_of_def split: list.splits)
qed

lemma granted_models_iff:
  "vm \<in> set (granted_models db keep p k) \<longleftrightarrow>
     vm \<in> set (ct_virtual_models db) \<and> vm_enabled vm \<and> (p, vm_id vm) \<in> set (ct_project_grants db) \<and>
     key_allows db k (vm_id vm) \<and>
     (\<exists>mp \<in> set (ct_model_pools db). mp_id mp = vm_pool_id vm \<and> keep vm mp)"
  by (auto simp: granted_models_def split: if_splits)

text \<open>The head of an insertion sort is minimal in a rank the comparison decides first.\<close>

lemma insert_by_head:
  assumes "\<And>a b. rank a < (rank b :: nat) \<Longrightarrow> cmp a b = Less" "\<And>a b. rank b < rank a \<Longrightarrow> cmp a b = Greater"
    and "ys \<noteq> [] \<Longrightarrow> \<forall>y \<in> set ys. rank (hd ys) \<le> rank y"
  shows "\<forall>y \<in> set (insert_by cmp x ys). rank (hd (insert_by cmp x ys)) \<le> rank y"
proof (cases ys)
  case Nil
  then show ?thesis by simp
next
  case (Cons z zs)
  show ?thesis
  proof (cases "cmp x z = Greater")
    case True
    then have "rank z \<le> rank x" using assms(1) [of x z] by (metis not_less ordering.distinct(3))
    with True Cons assms(3) show ?thesis by auto
  next
    case False
    then have "rank x \<le> rank z" using assms(2) [of z x] by (meson not_less)
    with False Cons assms(3) show ?thesis by (auto intro: le_trans)
  qed
qed

lemma first_of_least:
  assumes "\<And>a b. rank a < (rank b :: nat) \<Longrightarrow> cmp a b = Less" "\<And>a b. rank b < rank a \<Longrightarrow> cmp a b = Greater"
    and "first_of cmp xs = Some x" "y \<in> set xs"
  shows "rank x \<le> rank y"
proof -
  have "sort_by cmp xs \<noteq> [] \<longrightarrow> (\<forall>y \<in> set (sort_by cmp xs). rank (hd (sort_by cmp xs)) \<le> rank y)" for xs
  proof (induction xs)
    case (Cons a xs)
    then show ?case using insert_by_head [of rank cmp "sort_by cmp xs" a] assms(1,2) by (simp add: sort_by_def)
  qed (simp add: sort_by_def)
  from this [of xs] show ?thesis using assms(3,4) by (auto simp: first_of_def split: list.splits)
qed

lemma match_rank_exact:
  "cmp_of (match_rank q a) (match_rank q b) = Less \<Longrightarrow> exact_cmp c q a b = Less"
  "cmp_of (match_rank q a) (match_rank q b) = Greater \<Longrightarrow> exact_cmp c q a b = Greater"
  by (simp_all add: exact_cmp_def then_with_def)

lemma cmp_of_less [simp]: "cmp_of a b = Less \<longleftrightarrow> a < b" "cmp_of a b = Greater \<longleftrightarrow> b < a"
  by (auto simp: cmp_of_def)

section \<open>Properties\<close>

text \<open>
  Nobody reaches a model that is not granted: whatever name is requested, the model
  that is resolved is enabled, belongs to an existing pool, is granted to the caller's
  project, and is granted to the API key if the key carries any grant of its own; it was
  asked for by id, name or pool name, or it is one of the three fallback models and
  no model the caller may use answers to the requested name.
\<close>

theorem resolved_model_is_granted:
  assumes "resolve_authorized_virtual_model collate a b db requested p k = Inr (Some vm)"
  shows "vm \<in> set (ct_virtual_models db) \<and> vm_enabled vm \<and> (p, vm_id vm) \<in> set (ct_project_grants db) \<and>
     ((\<exists>v. (k, v) \<in> set (ct_key_grants db)) \<longrightarrow> (k, vm_id vm) \<in> set (ct_key_grants db)) \<and>
     (\<exists>mp \<in> set (ct_model_pools db). mp_id mp = vm_pool_id vm \<and>
        (requested \<in> {vm_id vm, vm_name vm, mp_name mp} \<or>
         vm_name vm \<in> {''smartgate/auto'', ''auto'', ''free-chat''} \<and>
         exact_models db requested p k = []))"
proof -
  have kg: "key_allows db k v \<Longrightarrow> (\<exists>v. (k, v) \<in> set (ct_key_grants db)) \<Longrightarrow> (k, v) \<in> set (ct_key_grants db)" for v
    by (auto simp: key_allows_def list_ex_iff)
  consider (exact) "vm \<in> set (exact_models db requested p k)"
    | (fallback) "vm \<in> set (fallback_models db p k)" "exact_models db requested p k = []"
    using assms
    by (auto simp: resolve_authorized_virtual_model_def dest: first_of_mem split: if_splits option.splits)
  then show ?thesis
  proof cases
    case exact
    then show ?thesis using kg unfolding exact_models_def granted_models_iff by blast
  next
    case fallback
    then show ?thesis using kg unfolding fallback_models_def granted_models_iff by blast
  qed
qed

definition demo_pool :: model_pool where
  "demo_pool = \<lparr>mp_id = ''mp'', mp_name = ''pool'', mp_strategy = ''cost_aware'', mp_enabled = True,
     mp_tool_trim_enabled = 1, mp_tool_trim_dry_run = 0, mp_max_tool_chars = 1000,
     mp_session_affinity_enabled = 1, mp_session_affinity_ttl_secs = 60, mp_judge_enabled = 0,
     mp_judge_endpoint_id = None, mp_shadow_enabled = 0, mp_shadow_virtual_model_id = None,
     mp_shadow_sample_rate = 0, mp_created_at = 0, mp_updated_at = 0\<rparr>"

definition demo_model :: "string \<Rightarrow> string \<Rightarrow> virtual_model" where
  "demo_model i n = \<lparr>vm_id = i, vm_pool_id = ''mp'', vm_name = n, vm_enabled = True, vm_created_at = 0,
     vm_updated_at = 0\<rparr>"

definition demo_catalog :: catalog where
  "demo_catalog = empty_catalog
     \<lparr>ct_projects := [\<lparr>pj_id = ''p'', pj_org_id = ''o'', pj_name = ''P'', pj_description = None,
        pj_rpm_limit = None, pj_concurrency_limit = None, pj_daily_spend_limit = None, pj_created_at = 0,
        pj_updated_at = 0\<rparr>],
      ct_api_keys := [\<lparr>ak_id = ''k'', ak_project_id = ''p'', ak_name = ''K'', ak_key_hash = ''h'',
        ak_key_prefix = ''x'', ak_enabled = True, ak_metadata = None, ak_rpm_limit = None,
        ak_concurrency_limit = None, ak_daily_spend_limit = None, ak_last_used_at = None, ak_created_at = 0,
        ak_updated_at = 0\<rparr>],
      ct_virtual_models := [demo_model ''v1'' ''auto'', demo_model ''v2'' ''v1''],
      ct_model_pools := [demo_pool],
      ct_project_grants := [(''p'', ''v1''), (''p'', ''v2'')]\<rparr>"

lemmas demo_catalog_simps = demo_catalog_def demo_pool_def demo_model_def empty_catalog_def

definition byte_order :: "string \<Rightarrow> string \<Rightarrow> ordering" where
  "byte_order a b = cmp_of (map byte a) (map byte b)"

lemma demo_resolve:
  "resolve_authorized_virtual_model byte_order True True demo_catalog ''v1'' ''p'' ''k'' =
     Inr (Some (demo_model ''v1'' ''auto''))"
  by (simp add: resolve_authorized_virtual_model_def exact_models_def granted_models_def demo_catalog_simps
      key_allows_def first_of_def sort_by_def exact_cmp_def match_rank_def then_with_def cmp_of_def)

theorem resolved_model_is_granted_witness: "(''p'', ''v1'') \<in> set (ct_project_grants demo_catalog)"
  using resolved_model_is_granted [OF demo_resolve] by (simp add: demo_model_def)

text \<open>
  A request gets the model it names: if the caller may use a model with the
  requested id, that very id is resolved even when other usable models carry it as their
  name; otherwise a model with the requested name wins over a pool name.
\<close>

theorem requested_model_wins_over_aliases:
  assumes "resolve_authorized_virtual_model collate True b db requested p k = Inr (Some vm)"
    and "vm' \<in> set (exact_models db requested p k)"
  shows "(vm_id vm' = requested \<longrightarrow> vm_id vm = requested) \<and>
     (vm_name vm' = requested \<longrightarrow> vm_id vm = requested \<or> vm_name vm = requested)"
proof -
  have "first_of (exact_cmp collate requested) (exact_models db requested p k) = Some vm"
    using assms by (auto simp: resolve_authorized_virtual_model_def split: option.splits)
  then have "match_rank requested vm \<le> match_rank requested vm'"
    by (rule first_of_least [rotated 2]) (simp_all add: match_rank_exact assms(2))
  then show ?thesis by (auto simp: match_rank_def split: if_splits)
qed

theorem requested_model_wins_over_aliases_witness:
  "vm_id (the (projr (resolve_authorized_virtual_model byte_order True True demo_catalog ''v1'' ''p'' ''k''))) = ''v1''"
proof -
  have "demo_model ''v1'' ''auto''
      \<in> set (exact_models demo_catalog ''v1'' ''p'' ''k'')"
    by (simp add: exact_models_def granted_models_def demo_catalog_simps key_allows_def)
  from requested_model_wins_over_aliases [OF demo_resolve this] show ?thesis
    unfolding demo_resolve by (simp add: demo_model_def)
qed

text \<open>
  Authentication binds a request to one enabled key: it succeeds only with a bearer
  header whose token hashes to an enabled key, and the context carries that key and the
  project the key belongs to; a database failure never authenticates.
\<close>

lemma authenticated_key_is_enabled:
  assumes "authenticate hash_token key_ok project_ok db h = Inr au"
  shows "(\<exists>token. header_str h ''authorization'' = Some (''Bearer '' @ token) \<and>
        ak_key_hash (au_api_key au) = hash_token token) \<and>
     au_api_key au \<in> set (ct_api_keys db) \<and> ak_enabled (au_api_key au) \<and>
     au_project au \<in> set (ct_projects db) \<and> pj_id (au_project au) = ak_project_id (au_api_key au) \<and>
     key_ok \<and> project_ok"
proof -
  from assms obtain hd k p where h: "header_str h ''authorization'' = Some hd" "starts_with hd ''Bearer ''"
    and k: "find (\<lambda>k. ak_key_hash k = hash_token (drop 7 hd) \<and> ak_enabled k) (ct_api_keys db) = Some k"
    and p: "find (\<lambda>p. pj_id p = ak_project_id k) (ct_projects db) = Some p"
    and au: "au = \<lparr>au_project = p, au_api_key = k\<rparr>" and ok: "key_ok" "project_ok"
    by (auto simp: authenticate_def split: option.splits if_splits)
  from h(2) obtain token where t: "hd = ''Bearer '' @ token" by (auto simp: starts_with_iff)
  then have "drop 7 hd = token" by simp
  with h k p au ok t show ?thesis by (auto simp: find_Some_iff)
qed

lemma resolved_model_granted:
  assumes "resolve_authorized_virtual_model collate a b db requested p k = Inr (Some vm)"
  shows "vm \<in> set (ct_virtual_models db) \<and> vm_enabled vm \<and> (p, vm_id vm) \<in> set (ct_project_grants db) \<and>
     key_allows db k (vm_id vm)"
  using assms
  by (auto simp: resolve_authorized_virtual_model_def exact_models_def fallback_models_def granted_models_iff
      dest!: first_of_mem split: if_splits option.splits)

end
