(* ===== verification/Pricing.thy ===== *)
theory Pricing
  imports F64 Rust_Text
begin

text \<open>
  pricing/mod.rs: unit prices and costs, the endpoint profile, the capability prior
  derived from a model name, its resolution over one pool, and the model DNA. A decimal
  literal of the source is \<open>rnd\<close> of the decimal number, the double it denotes.
\<close>

section \<open>Prices\<close>

record unit_price =
  input_per_1m :: "f64 option"
  output_per_1m :: "f64 option"
  cache_read_per_1m :: "f64 option"

definition unit_price_default :: unit_price where
  "unit_price_default = \<lparr>input_per_1m = None, output_per_1m = None, cache_read_per_1m = None\<rparr>"

definition known :: "f64 \<Rightarrow> f64 \<Rightarrow> unit_price" where
  "known i out = \<lparr>input_per_1m = Some i, output_per_1m = Some out, cache_read_per_1m = None\<rparr>"

definition is_priced :: "unit_price \<Rightarrow> bool" where
  "is_priced p \<longleftrightarrow> input_per_1m p \<noteq> None \<or> output_per_1m p \<noteq> None"

definition input_price :: "unit_price \<Rightarrow> f64" where
  "input_price p = unwrap_or (input_per_1m p) 0"

definition output_price :: "unit_price \<Rightarrow> f64" where
  "output_price p = unwrap_or (output_per_1m p) 0"

text \<open>\<open>tokens as f64 / 1_000_000.0\<close>.\<close>

definition per_million :: "u32 \<Rightarrow> f64" where
  "per_million n = fdiv (f64_of_nat (unat n)) 1000000"

definition estimate_cost :: "unit_price \<Rightarrow> u32 \<Rightarrow> u32 \<Rightarrow> f64" where
  "estimate_cost p i out =
     fadd (fmul (per_million i) (input_price p)) (fmul (per_million out) (output_price p))"

definition calculate_cost :: "unit_price \<Rightarrow> u32 \<Rightarrow> u32 \<Rightarrow> u32 option \<Rightarrow> f64" where
  "calculate_cost p prompt_tokens completion_tokens cache_hit_tokens =
     (let hits = min (unwrap_or cache_hit_tokens 0) prompt_tokens;
          misses = sat_sub_u32 prompt_tokens hits;
          ip = input_price p;
          cache_price = unwrap_or (cache_read_per_1m p) (if 0 < ip then fmul ip (rnd (1 / 10)) else 0)
      in fadd (fadd (fmul (per_million misses) ip) (fmul (per_million hits) cache_price))
              (fmul (per_million completion_tokens) (output_price p)))"

section \<open>Endpoint profiles\<close>

datatype billing_tier = PayAsYouGo | SubscriptionRolling | FreeTier

record quota_window_status =
  utilization :: f64
  reset_in_secs :: "nat option"

record endpoint_profile =
  price :: unit_price
  capability_score :: f64
  family_capability_score :: f64
  supports_tools :: "bool option"
  context_length :: "int option"
  billing_tier :: billing_tier
  quota_status :: "quota_window_status option"

definition endpoint_profile_default :: endpoint_profile where
  "endpoint_profile_default =
     \<lparr>price = unit_price_default, capability_score = rnd (5 / 10),
      family_capability_score = rnd (5 / 10), supports_tools = None, context_length = None,
      billing_tier = PayAsYouGo, quota_status = None\<rparr>"

section \<open>Capability\<close>

definition default_capability_score :: "string \<Rightarrow> bool option \<Rightarrow> f64" where
  "default_capability_score model_id supports_reasoning =
     (let lower = to_ascii_lowercase model_id in
      if contains_any lower [''r1'', ''reasoner'', ''o1'', ''o3'', ''claude-3-5-sonnet'',
           ''claude-3-7-sonnet'', ''opus'', ''gpt-4.5'']
      then rnd (96 / 100)
      else if contains_any lower [''pro'', ''gpt-4o'', ''max'', ''70b'', ''72b'', ''405b'',
           ''deepseek-chat'', ''deepseek-v3'', ''deepseek-coder'']
      then rnd (92 / 100)
      else if supports_reasoning = Some True then rnd (85 / 100)
      else if contains_any lower [''flash'', ''mini'', ''nano'', ''lite'', ''8b'', ''7b'', ''3b'',
           ''1.5b'', ''0.5b'']
      then rnd (65 / 100)
      else rnd (70 / 100))"

definition CAPABILITY_SPREAD_MIN :: f64 where
  "CAPABILITY_SPREAD_MIN = rnd (5 / 100)"

definition effective_capability_score :: "string \<Rightarrow> f64 \<Rightarrow> f64" where
  "effective_capability_score model_id configured =
     (if configured \<le> 0 \<or> \<bar>fsub configured (rnd (50 / 100))\<bar> < rnd (1 / 100000)
         \<or> \<bar>fsub configured (rnd (70 / 100))\<bar> < rnd (1 / 100000)
      then default_capability_score model_id None
      else fclamp configured 0 1)"

text \<open>Some pair \<open>left < right\<close> of the pool has close scores although the families differ.\<close>

definition close_pair :: "f64 \<times> f64 \<Rightarrow> f64 \<times> f64 \<Rightarrow> bool" where
  "close_pair a b \<longleftrightarrow> \<bar>fsub (fst a) (fst b)\<bar> < CAPABILITY_SPREAD_MIN
                  \<and> CAPABILITY_SPREAD_MIN \<le> \<bar>fsub (snd a) (snd b)\<bar>"

fun ambiguous_scores :: "(f64 \<times> f64) list \<Rightarrow> bool" where
  "ambiguous_scores [] \<longleftrightarrow> False"
| "ambiguous_scores (a # rest) \<longleftrightarrow> list_ex (close_pair a) rest \<or> ambiguous_scores rest"

definition resolve_pool_capabilities :: "(string \<times> f64) list \<Rightarrow> f64 list" where
  "resolve_pool_capabilities members =
     (let configured = map snd members in
      if length members < 2 then configured
      else let defaults = map (\<lambda>(model, _). default_capability_score model None) members in
           if ambiguous_scores (zip configured defaults) then defaults else configured)"

section \<open>Model DNA\<close>

record model_dna =
  code_logic :: u32
  reasoning_math :: u32
  agent_tools :: u32
  multilingual_nlp :: u32
  context_retention :: u32
  strengths :: "string list"

definition derive_model_dna :: "string \<Rightarrow> f64 \<Rightarrow> bool option \<Rightarrow> model_dna" where
  "derive_model_dna model_id cap tools =
     (let lower = to_ascii_lowercase model_id;
          is_pro = rnd (88 / 100) \<le> cap \<or> contains_any lower [''pro'', ''max'', ''r1'', ''reasoner'',
            ''gpt-4'', ''sonnet'', ''opus''];
          is_deepseek = contains lower ''deepseek'';
          is_qwen = contains_any lower [''qwen'', ''bailian'', ''tongyi''];
          is_claude = contains lower ''claude'';
          is_openai = contains_any lower [''gpt'', ''o1'', ''o3'']
      in if is_pro then
           (if is_deepseek then
              \<lparr>code_logic = 97, reasoning_math = 98, agent_tools = 93, multilingual_nlp = 92,
               context_retention = 94,
               strengths = [''Top-Tier Code Synthesis'', ''Complex Mathematical Proofs'',
                 ''Deep Multi-Step Reasoning'']\<rparr>
            else if is_qwen then
              \<lparr>code_logic = 93, reasoning_math = 94, agent_tools = 96, multilingual_nlp = 98,
               context_retention = 96,
               strengths = [''Dominant Multilingual & Chinese'', ''Robust Agent Orchestration'',
                 ''Long Document Comprehension'']\<rparr>
            else if is_claude \<or> is_openai then
              \<lparr>code_logic = 96, reasoning_math = 95, agent_tools = 98, multilingual_nlp = 96,
               context_retention = 97,
               strengths = [''Premier Tool Calling Reliability'', ''Complex Instruction Following'',
                 ''General Intelligence SOTA'']\<rparr>
            else let base = u32_of_f64 (fround (fmul cap 100)) in
              \<lparr>code_logic = min base 95, reasoning_math = min base 95,
               agent_tools = (if unwrap_or tools True then min base 94 else 60),
               multilingual_nlp = min base 94, context_retention = min base 94,
               strengths = [''High-End Reasoning'', ''Broad Domain Knowledge'']\<rparr>)
         else
           (if is_deepseek then
              \<lparr>code_logic = 84, reasoning_math = 80, agent_tools = 85, multilingual_nlp = 86,
               context_retention = 82,
               strengths = [''Ultra-Low Latency Response'', ''Cost-Optimal Code Assistance'',
                 ''High-Throughput Streaming'']\<rparr>
            else if is_qwen then
              \<lparr>code_logic = 82, reasoning_math = 78, agent_tools = 90, multilingual_nlp = 92,
               context_retention = 88,
               strengths = [''Instant Schema Extraction'', ''Superior Cost/Quality NLP'',
                 ''Fast Agent Function Calling'']\<rparr>
            else let base = max 60 (min 85 (u32_of_f64 (fround (fmul cap 100)))) in
              \<lparr>code_logic = base, reasoning_math = sat_sub_u32 base 4,
               agent_tools = (if unwrap_or tools True then base + 2 else 55),
               multilingual_nlp = base + 3, context_retention = base,
               strengths = [''Fast Lightweight Response'', ''Cost-Effective Execution'']\<rparr>))"

section \<open>Lemmas\<close>

lemma per_million_nonneg [simp]: "0 \<le> per_million n"
  by (simp add: per_million_def fdiv_nonneg)

lemma per_million_mono: "m \<le> n \<Longrightarrow> per_million m \<le> per_million n"
  by (simp add: per_million_def fdiv_mono f64_of_nat_mono word_le_nat_alt)

lemma per_million_0 [simp]: "per_million 0 = 0"
  by (simp add: per_million_def f64_of_nat_def fdiv_def)

definition prices_nonneg :: "unit_price \<Rightarrow> bool" where
  "prices_nonneg p \<longleftrightarrow> 0 \<le> input_price p \<and> 0 \<le> output_price p \<and>
     0 \<le> unwrap_or (cache_read_per_1m p) 0"

lemma estimate_cost_nonneg: "prices_nonneg p \<Longrightarrow> 0 \<le> estimate_cost p i out"
  by (simp add: estimate_cost_def prices_nonneg_def fadd_nonneg fmul_nonneg)

lemma estimate_cost_mono:
  assumes "prices_nonneg p" "i \<le> i'" "out \<le> out'"
  shows "estimate_cost p i out \<le> estimate_cost p i' out'"
  using assms by (simp add: estimate_cost_def prices_nonneg_def fadd_mono fmul_mono per_million_mono)

lemma default_capability_bounds:
  "rnd (65 / 100) \<le> default_capability_score m r \<and> default_capability_score m r \<le> rnd (96 / 100)"
  by (simp add: default_capability_score_def Let_def rnd_mono)

lemma lit_unit: "0 \<le> x \<Longrightarrow> x \<le> 1 \<Longrightarrow> 0 \<le> rnd x \<and> rnd x \<le> 1"
  using rnd_mono [of 0 x] rnd_mono [of x 1] by (simp add: f64_simps)

lemma default_capability_unit: "0 \<le> default_capability_score m r \<and> default_capability_score m r \<le> 1"
  using default_capability_bounds [of m r] lit_unit [of "65 / 100"] lit_unit [of "96 / 100"] by auto

lemma effective_capability_unit: "0 \<le> effective_capability_score m c \<and> effective_capability_score m c \<le> 1"
  using default_capability_unit fclamp_bounds [of 0 1 c] by (simp add: effective_capability_score_def)

lemma fsub_commute_abs: "\<bar>fsub a b\<bar> = \<bar>fsub b a\<bar>"
proof -
  have "fsub a b = - fsub b a" using rnd_minus [of "b - a"] by (simp add: fsub_def)
  then show ?thesis by simp
qed

lemma close_pair_sym: "close_pair a b = close_pair b a"
  by (simp add: close_pair_def fsub_commute_abs)

lemma not_ambiguousD:
  "\<not> ambiguous_scores xs \<Longrightarrow> i < length xs \<Longrightarrow> j < length xs \<Longrightarrow> i \<noteq> j \<Longrightarrow> \<not> close_pair (xs ! i) (xs ! j)"
proof (induction xs arbitrary: i j)
  case Nil
  then show ?case by simp
next
  case (Cons a xs)
  then have far: "\<not> close_pair a (xs ! k)" if "k < length xs" for k
    using that by (simp add: list_ex_iff)
  show ?case
    using Cons far close_pair_sym by (cases i; cases j) auto
qed

section \<open>Properties\<close>

text \<open>
  Without cache hits the settled cost is the estimate: calculate_cost of a response
  that reports no hits equals estimate_cost of the same token counts, bit for bit.
\<close>

theorem cost_without_hits_is_the_estimate:
  "calculate_cost p prompt completion None = estimate_cost p prompt completion"
proof -
  have "fadd (fmul a b) 0 = fmul a b" for a b by (simp add: fadd_def)
  then show ?thesis
    by (simp add: calculate_cost_def estimate_cost_def Let_def sat_sub_u32_def fmul_def [of 0])
qed

text \<open>
  The settled cost is never negative and never falls when more completion tokens
  are billed, whatever the cache reported.
\<close>

theorem settled_cost_monotone:
  assumes "prices_nonneg p" "completion \<le> completion'"
  shows "0 \<le> calculate_cost p prompt completion hits \<and>
     calculate_cost p prompt completion hits \<le> calculate_cost p prompt completion' hits"
proof -
  have "0 \<le> unwrap_or (cache_read_per_1m p) (if 0 < input_price p then fmul (input_price p) (rnd (1 / 10)) else 0)"
    using assms(1) by (cases "cache_read_per_1m p") (auto simp: prices_nonneg_def fmul_nonneg rnd_nonneg)
  with assms show ?thesis
    by (simp add: calculate_cost_def Let_def prices_nonneg_def fadd_nonneg fmul_nonneg fadd_mono
        fmul_mono per_million_mono)
qed

theorem settled_cost_monotone_witness:
  "calculate_cost (known 2 8) 1000 10 (Some 400) \<le> calculate_cost (known 2 8) 1000 20 (Some 400)"
  by (rule conjunct2 [OF settled_cost_monotone])
    (simp_all add: prices_nonneg_def known_def input_price_def output_price_def)

text \<open>
  Resolution keeps one score per member, and the resolved scores of a pool separate
  every two members whose model families clearly differ: if their family scores lie at
  least CAPABILITY_SPREAD_MIN apart, so do the scores the pool is ranked on.
\<close>

theorem resolved_scores_separate_families:
  assumes "i < length members" "j < length members" "i \<noteq> j"
    and "CAPABILITY_SPREAD_MIN \<le> \<bar>fsub (default_capability_score (fst (members ! i)) None)
                                     (default_capability_score (fst (members ! j)) None)\<bar>"
  shows "length (resolve_pool_capabilities members) = length members \<and>
     CAPABILITY_SPREAD_MIN \<le> \<bar>fsub (resolve_pool_capabilities members ! i)
                                  (resolve_pool_capabilities members ! j)\<bar>"
proof -
  let ?d = "map (\<lambda>(model, _). default_capability_score model None) members"
  let ?z = "zip (map snd members) ?d"
  have two: "\<not> length members < 2" using assms(1-3) by auto
  show ?thesis
  proof (cases "ambiguous_scores ?z")
    case True
    then show ?thesis using assms two by (simp add: resolve_pool_capabilities_def Let_def case_prod_beta)
  next
    case False
    then have "\<not> close_pair (?z ! i) (?z ! j)" using assms by (intro not_ambiguousD) simp_all
    with False two assms show ?thesis
      by (simp add: resolve_pool_capabilities_def Let_def close_pair_def case_prod_beta not_less)
  qed
qed

lemma flash_score: "default_capability_score ''deepseek-v4-flash'' None = rnd (65 / 100)"
  by code_simp

lemma pro_score: "default_capability_score ''deepseek-v4-pro'' None = rnd (92 / 100)"
  by code_simp

lemma flash_pro_gap:
  "CAPABILITY_SPREAD_MIN \<le>
     \<bar>fsub (default_capability_score ''deepseek-v4-flash'' None) (default_capability_score ''deepseek-v4-pro'' None)\<bar>"
proof -
  have "fsub (rnd (65 / 100)) (rnd (92 / 100)) \<le> fsub (rnd (7 / 10)) (rnd (9 / 10))"
    unfolding fsub_def by (intro rnd_mono diff_mono) (simp_all add: rnd_mono)
  also have "\<dots> \<le> fsub (3 / 4) (7 / 8)"
    unfolding fsub_def
    by (rule rnd_mono) (simp add: rnd_eval [where s = 53 and n = 6305039478318694]
        rnd_eval [where s = 53 and n = 8106479329266893])
  finally have "fsub (rnd (65 / 100)) (rnd (92 / 100)) \<le> - (1 / 8)"
    using rnd_minus [of "1 / 8"] by (simp add: fsub_def rnd_eval [where s = 55 and n = 4503599627370496])
  moreover have "CAPABILITY_SPREAD_MIN \<le> rnd (1 / 8)" by (simp add: CAPABILITY_SPREAD_MIN_def rnd_mono)
  ultimately show ?thesis by (simp add: flash_score pro_score rnd_eval [where s = 55 and n = 4503599627370496])
qed

theorem resolved_scores_separate_families_witness:
  "let r = resolve_pool_capabilities [(''deepseek-v4-flash'', 4 / 5), (''deepseek-v4-pro'', 4 / 5)]
   in length r = 2 \<and> CAPABILITY_SPREAD_MIN \<le> \<bar>fsub (r ! 0) (r ! 1)\<bar>"
  using resolved_scores_separate_families
    [of 0 "[(''deepseek-v4-flash'', 4 / 5), (''deepseek-v4-pro'', 4 / 5)]" 1] flash_pro_gap
  by (simp add: Let_def)

text \<open>
  Every score the router sees lies in the unit interval and every DNA dimension in
  the percent range, for any configured value and any model name.
\<close>

theorem capability_and_dna_in_range:
  "0 \<le> effective_capability_score m c \<and> effective_capability_score m c \<le> 1 \<and>
   (\<forall>f \<in> {code_logic, reasoning_math, agent_tools, multilingual_nlp, context_retention}.
      f (derive_model_dna m c tools) \<le> 98)"
proof -
  have wide: "(min b k :: u32) \<le> 98" if "k \<le> 98" for b k
    using that by (meson min.coboundedI2)
  obtain b :: u32 where b: "b = max 60 (min 85 (u32_of_f64 (fround (fmul c 100))))" by blast
  then have b85: "b \<le> 85" by simp
  then have "b + 2 \<le> 98" "b + 3 \<le> 98" "b \<le> 98" "sat_sub_u32 b 4 \<le> 98"
    by (auto simp: word_le_nat_alt unat_word_ariths)
  then have "\<forall>f \<in> {code_logic, reasoning_math, agent_tools, multilingual_nlp, context_retention}.
      f (derive_model_dna m c tools) \<le> 98"
    using wide by (simp add: derive_model_dna_def Let_def b [symmetric])
  then show ?thesis using effective_capability_unit by blast
qed

theorem capability_and_dna_in_range_witness:
  "code_logic (derive_model_dna ''qwen-max'' 3 None) \<le> 98 \<and> effective_capability_score ''qwen-max'' 3 \<le> 1"
  using capability_and_dna_in_range [of "''qwen-max''" 3 None] by simp

end
