(* ===== verification/Strategy.thy ===== *)
theory Strategy
  imports Pricing
begin

text \<open>
  routing/strategy.rs: strategy names, expected and marginal cost, the capability an
  endpoint needs for a difficulty, and the score an endpoint gets under a strategy.
  Metrics and prices are finite doubles here; infinities and NaN do not occur.
\<close>

definition COST_RANK_INPUT_TOKENS :: u32 where "COST_RANK_INPUT_TOKENS = 1000"
definition COST_RANK_OUTPUT_TOKENS :: u32 where "COST_RANK_OUTPUT_TOKENS = 512"
definition UNPRICED_SCORE :: f64 where "UNPRICED_SCORE = rnd (1 / 10 ^ 12)"
definition AGENTIC_CACHE_FRACTION :: f64 where "AGENTIC_CACHE_FRACTION = rnd (7 / 10)"
definition CAPABILITY_TIER_SCALE :: f64 where "CAPABILITY_TIER_SCALE = 1000000000"
definition CAPABILITY_RANK_SCALE :: f64 where "CAPABILITY_RANK_SCALE = 1000000"
definition FAMILY_RANK_SCALE :: f64 where "FAMILY_RANK_SCALE = 1000"
definition COST_TERM_MAX :: f64 where "COST_TERM_MAX = 999"
definition HARD_TASK_DIFFICULTY :: f64 where "HARD_TASK_DIFFICULTY = rnd (55 / 100)"
definition CAPABILITY_TOP_TOLERANCE :: f64 where "CAPABILITY_TOP_TOLERANCE = rnd (4 / 100)"

section \<open>Strategy names\<close>

definition canonicalize :: "string \<Rightarrow> string" where
  "canonicalize name =
     (if name \<in> {''latency'', ''latency_based'', ''stream_aware''} then ''load_aware''
      else if name \<in> {''lowest_price'', ''balanced_cost''} then ''cost_aware''
      else if name \<in> {''smart'', ''capability''} then ''capability_aware''
      else if name = ''least_conn'' then ''least_connections''
      else name)"

definition uses_score_order :: "string \<Rightarrow> bool" where
  "uses_score_order strategy \<longleftrightarrow> canonicalize strategy \<in>
     {''priority'', ''least_connections'', ''load_aware'', ''latency_based'', ''cost_aware'',
      ''capability_aware'', ''score_ordered''}"

section \<open>Costs\<close>

record pool_endpoint_member =
  member_endpoint_id :: string
  member_priority :: int
  member_weight :: int

record score_input =
  si_member :: pool_endpoint_member
  si_profile :: endpoint_profile
  si_active :: int
  si_success_latency_ms :: f64
  si_all_latency_ms :: f64
  si_error_rate :: f64
  si_input_tokens :: u32
  si_output_tokens :: u32
  si_difficulty :: f64
  si_max_pool_capability :: f64
  si_agentic :: bool

definition expected_cost :: "endpoint_profile \<Rightarrow> u32 \<Rightarrow> u32 \<Rightarrow> f64 \<Rightarrow> f64" where
  "expected_cost pr i out error_rate =
     (let err = fclamp error_rate 0 (rnd (95 / 100)) in
      if is_priced (price pr) then fmul (estimate_cost (price pr) i out) (fadd 1 err)
      else fdiv f64_max 8)"

definition expected_agentic_cost :: "endpoint_profile \<Rightarrow> u32 \<Rightarrow> u32 \<Rightarrow> f64 \<Rightarrow> f64" where
  "expected_agentic_cost pr i out error_rate =
     (let err = fclamp error_rate 0 (rnd (95 / 100)) in
      if \<not> is_priced (price pr) then fdiv f64_max 8
      else
        let cached = u32_of_f64 (fmul (f64_of_nat (unat i)) AGENTIC_CACHE_FRACTION);
            fresh = sat_sub_u32 i cached;
            ip = input_price (price pr);
            cache_price = unwrap_or (cache_read_per_1m (price pr)) (fmul ip (rnd (1 / 10)))
        in fmul (fadd (fadd (fmul (per_million fresh) ip) (fmul (per_million cached) cache_price))
                      (fmul (per_million out) (output_price (price pr))))
                (fadd 1 err))"

text \<open>The urgency discount of a window close to its reset and the watermark penalty.\<close>

definition urgency_mult :: "quota_window_status \<Rightarrow> f64" where
  "urgency_mult q =
     (if fclamp (utilization q) 0 1 < rnd (50 / 100)
      then (case reset_in_secs q of
              None \<Rightarrow> 1
            | Some rem \<Rightarrow> if rem \<le> 3600 then fclamp (fdiv (f64_of_nat rem) 3600) (rnd (2 / 10)) 1 else 1)
      else 1)"

definition watermark_mult :: "f64 \<Rightarrow> f64" where
  "watermark_mult u =
     (if rnd (80 / 100) \<le> u
      then let excess = fdiv (fsub u (rnd (80 / 100))) (rnd (15 / 100))
           in fadd 1 (fmul (fmul 10 excess) excess)
      else 1)"

definition effective_marginal_cost :: "endpoint_profile \<Rightarrow> u32 \<Rightarrow> u32 \<Rightarrow> f64 \<Rightarrow> bool \<Rightarrow> f64" where
  "effective_marginal_cost pr i out error_rate agentic =
     (let base_cost = (if agentic then expected_agentic_cost pr i out error_rate
                       else expected_cost pr i out error_rate)
      in case billing_tier pr of
           FreeTier \<Rightarrow> fmul (rnd (1 / 1000000)) (fadd 1 (fclamp error_rate 0 (rnd (95 / 100))))
         | SubscriptionRolling \<Rightarrow>
             (let (util, urgency) = (case quota_status pr of
                    Some q \<Rightarrow> (fclamp (utilization q) 0 1, urgency_mult q)
                  | None \<Rightarrow> (0, 1))
              in max (fmul (fmul (fmul base_cost (rnd (1 / 100))) (watermark_mult util)) urgency)
                     (rnd (1 / 10 ^ 9)))
         | PayAsYouGo \<Rightarrow> base_cost)"

section \<open>Capability\<close>

definition required_capability :: "f64 \<Rightarrow> f64" where
  "required_capability difficulty =
     fadd (rnd (35 / 100)) (fmul (rnd (55 / 100)) (fclamp difficulty 0 1))"

definition capability_qualified :: "f64 \<Rightarrow> f64 \<Rightarrow> f64 \<Rightarrow> bool" where
  "capability_qualified cap difficulty max_pool =
     (if HARD_TASK_DIFFICULTY \<le> difficulty then fsub max_pool CAPABILITY_TOP_TOLERANCE \<le> cap
      else required_capability difficulty \<le> cap)"

section \<open>Scores\<close>

text \<open>The parts of score, in the order of its match arms.\<close>

definition marginal :: "score_input \<Rightarrow> f64" where
  "marginal x = effective_marginal_cost (si_profile x) (si_input_tokens x) (si_output_tokens x)
     (fclamp (si_error_rate x) 0 (rnd (95 / 100))) (si_agentic x)"

definition billable :: "score_input \<Rightarrow> bool" where
  "billable x \<longleftrightarrow> is_priced (price (si_profile x)) \<or> billing_tier (si_profile x) = FreeTier"

definition load_aware_score :: "score_input \<Rightarrow> f64" where
  "load_aware_score x =
     (let err = fclamp (si_error_rate x) 0 (rnd (95 / 100));
          latency = (if 0 < si_success_latency_ms x then si_success_latency_ms x
                     else if 0 < si_all_latency_ms x then si_all_latency_ms x else 0);
          lat_score = (if 0 < latency then fdiv 1000 latency else 1);
          load_penalty = fdiv 1 (fadd 1 (of_int (si_active x)))
      in fmul (fmul lat_score load_penalty)
              (max (fsub 1 (fmul (rnd (5 / 10)) err)) (rnd (1 / 10))))"

definition cost_aware_score :: "score_input \<Rightarrow> f64" where
  "cost_aware_score x =
     (if \<not> billable x then UNPRICED_SCORE
      else fdiv 1 (fadd (marginal x) (rnd (1 / 10 ^ 12))))"

definition capability_tier :: "score_input \<Rightarrow> f64" where
  "capability_tier x =
     (let cap = capability_score (si_profile x) in
      if capability_qualified cap (si_difficulty x) (si_max_pool_capability x) then 2
      else if fsub (required_capability (si_difficulty x)) (rnd (10 / 100)) \<le> cap then 1
      else 0)"

definition percent_rank :: "f64 \<Rightarrow> f64" where
  "percent_rank c = fround (fmul (fclamp c 0 1) 100)"

definition normalized_cost :: "score_input \<Rightarrow> f64" where
  "normalized_cost x =
     (if billable x then fclamp (fdiv 1 (fadd (marginal x) (rnd (1 / 10 ^ 6)))) 0 COST_TERM_MAX
      else UNPRICED_SCORE)"

definition hard_score :: "score_input \<Rightarrow> f64" where
  "hard_score x =
     fadd (fadd (fadd (fmul (capability_tier x) CAPABILITY_TIER_SCALE)
                      (fmul (percent_rank (capability_score (si_profile x))) CAPABILITY_RANK_SCALE))
                (fmul (percent_rank (family_capability_score (si_profile x))) FAMILY_RANK_SCALE))
          (normalized_cost x)"

definition easy_score :: "score_input \<Rightarrow> f64" where
  "easy_score x =
     (let cost_score = (if billable x
            then min (fdiv 1 (fadd (marginal x) (rnd (1 / 10 ^ 12)))) (fsub CAPABILITY_TIER_SCALE 1000000)
            else UNPRICED_SCORE);
          tiebreaker = fmul (fclamp (capability_score (si_profile x)) 0 1) 10
      in fadd (fadd (fmul (capability_tier x) CAPABILITY_TIER_SCALE) cost_score) tiebreaker)"

definition score :: "string \<Rightarrow> score_input \<Rightarrow> f64 option" where
  "score strategy0 x =
     (let strategy = canonicalize strategy0 in
      if strategy = ''priority''
      then Some (fadd (fmul (of_int (member_priority (si_member x))) 1000)
                      (of_int (member_weight (si_member x))))
      else if strategy = ''least_connections'' then Some (fdiv 1 (fadd 1 (of_int (si_active x))))
      else if strategy = ''load_aware'' \<or> strategy = ''latency_based'' then Some (load_aware_score x)
      else if strategy = ''cost_aware'' then Some (cost_aware_score x)
      else if strategy = ''capability_aware''
      then Some (if HARD_TASK_DIFFICULTY \<le> si_difficulty x then hard_score x else easy_score x)
      else None)"

section \<open>Lemmas\<close>

lemma canonicalize_idem: "canonicalize (canonicalize s) = canonicalize s"
  by (simp add: canonicalize_def)

lemma rnd_lit_le: "x \<le> y \<Longrightarrow> rnd y = y \<Longrightarrow> rnd x \<le> y"
  using rnd_mono [of x y] by simp

lemma rnd_lit_ge: "y \<le> x \<Longrightarrow> rnd y = y \<Longrightarrow> y \<le> rnd x"
  using rnd_mono [of y x] by simp

lemma err_bounds: "0 \<le> fclamp e 0 (rnd (95 / 100)) \<and> fclamp e 0 (rnd (95 / 100)) \<le> 1"
  using fclamp_bounds [of 0 "rnd (95 / 100)" e] lit_unit [of "95 / 100"] by auto

lemma one_plus_err: "1 \<le> fadd 1 (fclamp e 0 (rnd (95 / 100)))"
  using err_bounds [of e] by (simp add: fadd_def rnd_lit_ge f64_simps)

lemma f64_max_nonneg: "0 \<le> fdiv f64_max 8"
  by (simp add: fdiv_nonneg f64_max_def)

lemma expected_cost_nonneg:
  assumes "prices_nonneg (price pr)" shows "0 \<le> expected_cost pr i out e"
  using estimate_cost_nonneg [OF assms, of i out] one_plus_err [of e] f64_max_nonneg
  by (simp add: expected_cost_def Let_def fmul_nonneg)

lemma expected_agentic_cost_nonneg:
  assumes "prices_nonneg (price pr)" shows "0 \<le> expected_agentic_cost pr i out e"
proof -
  have "0 \<le> unwrap_or (cache_read_per_1m (price pr)) (fmul (input_price (price pr)) (rnd (1 / 10)))"
    using assms by (cases "cache_read_per_1m (price pr)")
      (auto simp: prices_nonneg_def fmul_nonneg rnd_nonneg)
  then show ?thesis
    using assms one_plus_err [of e] f64_max_nonneg
    by (simp add: expected_agentic_cost_def Let_def prices_nonneg_def fmul_nonneg fadd_nonneg)
qed

lemma marginal_cost_nonneg:
  assumes "prices_nonneg (price pr)" shows "0 \<le> effective_marginal_cost pr i out e ag"
proof -
  have "0 \<le> max x (rnd (1 / 10 ^ 9))" for x
    using rnd_nonneg [of "1 / 10 ^ 9"] by (simp add: le_max_iff_disj)
  then show ?thesis
    using expected_cost_nonneg [OF assms, of i out e] expected_agentic_cost_nonneg [OF assms, of i out e]
      one_plus_err [of e]
    by (cases "billing_tier pr")
      (auto simp: effective_marginal_cost_def Let_def fmul_nonneg rnd_nonneg split: option.split)
qed

subsection \<open>Hard tasks: integer ranks\<close>

lemma fround_int: "\<exists>k. fround x = of_int k"
  by (auto simp: fround_def intro: exI [of _ "- \<lfloor>- x + 1 / 2\<rfloor>"])

lemma percent_rank_int: "\<exists>k. percent_rank c = of_int k \<and> 0 \<le> k \<and> k \<le> 100"
proof -
  let ?x = "fmul (fclamp c 0 1) 100"
  have "0 \<le> ?x" using fclamp_bounds [of 0 1 c] by (simp add: fmul_nonneg)
  moreover have "?x \<le> 100"
    using fclamp_bounds [of 0 1 c] by (auto simp: fmul_def intro!: rnd_lit_le simp: f64_simps)
  ultimately have "percent_rank c = of_int \<lfloor>?x + 1 / 2\<rfloor>" "0 \<le> \<lfloor>?x + 1 / 2\<rfloor>" "\<lfloor>?x + 1 / 2\<rfloor> \<le> 100"
    by (simp_all add: percent_rank_def fround_def floor_le_iff)
  then show ?thesis by blast
qed

lemma capability_tier_int: "\<exists>k. capability_tier x = of_int k \<and> 0 \<le> k \<and> k \<le> 2"
  unfolding capability_tier_def Let_def
  by (auto intro: exI [of _ 0] exI [of _ 1] exI [of _ 2])

lemma normalized_cost_bounds: "0 \<le> normalized_cost x \<and> normalized_cost x \<le> 999"
  using fclamp_bounds [of 0 999 "fdiv 1 (fadd (marginal x) (rnd (1 / 10 ^ 6)))"] lit_unit [of "1 / 10 ^ 12"]
  by (simp add: normalized_cost_def COST_TERM_MAX_def UNPRICED_SCORE_def)

text \<open>The key a hard task is ranked by; the cost term only moves the score above it by 999.\<close>

definition hard_key :: "score_input \<Rightarrow> f64" where
  "hard_key x = capability_tier x * 1000000000
     + percent_rank (capability_score (si_profile x)) * 1000000
     + percent_rank (family_capability_score (si_profile x)) * 1000"

lemma hard_key_int:
  obtains t c f where "capability_tier x = of_int t" "0 \<le> t" "t \<le> 2"
    "percent_rank (capability_score (si_profile x)) = of_int c" "0 \<le> c" "c \<le> 100"
    "percent_rank (family_capability_score (si_profile x)) = of_int f" "0 \<le> f" "f \<le> 100"
    "hard_key x = of_int (t * 1000000000 + c * 1000000 + f * 1000)"
  using capability_tier_int [of x] percent_rank_int [of "capability_score (si_profile x)"]
    percent_rank_int [of "family_capability_score (si_profile x)"]
  by (auto simp: hard_key_def)

lemma hard_score_key:
  "hard_score x = rnd (hard_key x + normalized_cost x)"
proof (rule hard_key_int [of x])
  fix t c f
  assume t: "capability_tier x = of_int t" "0 \<le> t" "t \<le> 2"
    and c: "percent_rank (capability_score (si_profile x)) = of_int c" "0 \<le> c" "c \<le> 100"
    and f: "percent_rank (family_capability_score (si_profile x)) = of_int f" "0 \<le> f" "f \<le> 100"
    and key: "hard_key x = of_int (t * 1000000000 + c * 1000000 + f * 1000)"
  have a: "fmul (of_int t) 1000000000 = of_int (t * 1000000000)"
    using rnd_of_int [of "t * 1000000000"] t by (simp add: fmul_def)
  have b: "fmul (of_int c) 1000000 = of_int (c * 1000000)"
    using rnd_of_int [of "c * 1000000"] c by (simp add: fmul_def)
  have d: "fmul (of_int f) 1000 = of_int (f * 1000)"
    using rnd_of_int [of "f * 1000"] f by (simp add: fmul_def)
  have "fadd (of_int (t * 1000000000)) (of_int (c * 1000000)) = of_int (t * 1000000000 + c * 1000000)"
    using rnd_of_int [of "t * 1000000000 + c * 1000000"] t c by (simp add: fadd_def)
  moreover have "fadd (of_int (t * 1000000000 + c * 1000000)) (of_int (f * 1000)) = hard_key x"
    using rnd_of_int [of "t * 1000000000 + c * 1000000 + f * 1000"] t c f key by (simp add: fadd_def)
  ultimately show ?thesis
    by (simp add: hard_score_def CAPABILITY_TIER_SCALE_def CAPABILITY_RANK_SCALE_def
        FAMILY_RANK_SCALE_def t(1) c(1) f(1) a b d fadd_def [of "hard_key x"])
qed

lemma hard_score_gap:
  assumes "hard_key x + 1000 \<le> hard_key y"
  shows "hard_score x < hard_score y"
proof (rule hard_key_int [of y])
  fix t c f
  assume r: "0 \<le> t" "t \<le> 2" "0 \<le> c" "c \<le> 100" "0 \<le> f" "f \<le> 100"
    and key: "hard_key y = of_int (t * 1000000000 + c * 1000000 + f * 1000)"
  let ?n = "t * 1000000000 + c * 1000000 + f * 1000"
  have big: "\<bar>?n\<bar> \<le> 2 ^ 53" "\<bar>?n - 1\<bar> \<le> 2 ^ 53" using r by auto
  have "hard_key x + normalized_cost x \<le> of_int (?n - 1)"
    using assms normalized_cost_bounds [of x] key by simp
  then have "hard_score x \<le> of_int (?n - 1)"
    using rnd_lit_le rnd_of_int [OF big(2)] by (metis hard_score_key)
  moreover have "of_int ?n \<le> hard_key y + normalized_cost y"
    using normalized_cost_bounds [of y] key by simp
  then have "of_int ?n \<le> hard_score y"
    using rnd_lit_ge rnd_of_int [OF big(1)] by (metis hard_score_key)
  ultimately show ?thesis by simp
qed

text \<open>Lexicographic order of tier, configured rank and family rank.\<close>

definition outranks :: "score_input \<Rightarrow> score_input \<Rightarrow> bool" where
  "outranks y x \<longleftrightarrow>
     (let c = (\<lambda>z. percent_rank (capability_score (si_profile z)));
          f = (\<lambda>z. percent_rank (family_capability_score (si_profile z)))
      in capability_tier x < capability_tier y
         \<or> capability_tier x = capability_tier y \<and> (c x < c y \<or> c x = c y \<and> f x < f y))"

lemma lex_gap:
  fixes t c f t' c' f' :: int
  assumes "t < t' \<or> t = t' \<and> (c < c' \<or> c = c' \<and> f < f')"
    and "0 \<le> c'" "c \<le> 100" "0 \<le> f'" "f \<le> 100"
  shows "t * 1000000000 + c * 1000000 + f * 1000 + 1000 \<le> t' * 1000000000 + c' * 1000000 + f' * 1000"
  using assms by (elim disjE conjE) linarith+

lemma outranks_key:
  assumes "outranks y x" shows "hard_key x + 1000 \<le> hard_key y"
proof (rule hard_key_int [of x], rule hard_key_int [of y])
  fix t c f t' c' f'
  assume "capability_tier x = of_int t" "0 \<le> t" "t \<le> 2"
    "percent_rank (capability_score (si_profile x)) = of_int c" "0 \<le> c" "c \<le> 100"
    "percent_rank (family_capability_score (si_profile x)) = of_int f" "0 \<le> f" "f \<le> 100"
    "hard_key x = of_int (t * 1000000000 + c * 1000000 + f * 1000)"
    "capability_tier y = of_int t'" "0 \<le> t'" "t' \<le> 2"
    "percent_rank (capability_score (si_profile y)) = of_int c'" "0 \<le> c'" "c' \<le> 100"
    "percent_rank (family_capability_score (si_profile y)) = of_int f'" "0 \<le> f'" "f' \<le> 100"
    "hard_key y = of_int (t' * 1000000000 + c' * 1000000 + f' * 1000)"
  note z = this
  then have "t < t' \<or> t = t' \<and> (c < c' \<or> c = c' \<and> f < f')"
    using assms by (simp add: outranks_def Let_def)
  then have "t * 1000000000 + c * 1000000 + f * 1000 + 1000 \<le> t' * 1000000000 + c' * 1000000 + f' * 1000"
    using lex_gap [of t t' c c' f f'] z by blast
  then have "(of_int (t * 1000000000 + c * 1000000 + f * 1000 + 1000) :: rat)
      \<le> of_int (t' * 1000000000 + c' * 1000000 + f' * 1000)" by (simp only: of_int_le_iff)
  then show ?thesis using z by simp
qed

subsection \<open>Costs as scores\<close>

lemma tiny_pos: "0 < rnd (1 / 10 ^ 12)"
  by (simp add: rnd_eval [where s = 92 and n = 4951760157141521])

lemma inverse_score_antimono:
  assumes "0 \<le> c" "c \<le> d"
  shows "fdiv 1 (fadd d (rnd (1 / 10 ^ 12))) \<le> fdiv 1 (fadd c (rnd (1 / 10 ^ 12)))"
proof (rule fdiv_antimono)
  have "rnd (1 / 10 ^ 12) \<le> fadd c (rnd (1 / 10 ^ 12))"
    unfolding fadd_def by (rule rnd_lit_ge) (simp_all add: assms)
  then show "0 < fadd c (rnd (1 / 10 ^ 12))" using tiny_pos by linarith
qed (simp_all add: fadd_mono assms)

lemma watermark_ge_1: "1 \<le> watermark_mult u"
proof -
  have "0 \<le> fmul (fmul 10 (fdiv (fsub u (rnd (80 / 100))) (rnd (15 / 100))))
      (fdiv (fsub u (rnd (80 / 100))) (rnd (15 / 100)))"
    if "rnd (80 / 100) \<le> u"
    using that by (intro fmul_nonneg fdiv_nonneg) (simp_all add: fsub_def rnd_nonneg)
  then show ?thesis by (simp add: watermark_mult_def Let_def fadd_def rnd_lit_ge f64_simps)
qed

lemma watermark_mono:
  assumes "u \<le> v" shows "watermark_mult u \<le> watermark_mult v"
proof (cases "rnd (80 / 100) \<le> u")
  case True
  let ?e = "\<lambda>u. fdiv (fsub u (rnd (80 / 100))) (rnd (15 / 100))"
  have le: "?e u \<le> ?e v" using assms by (intro fdiv_mono) (simp_all add: fsub_def rnd_mono rnd_nonneg)
  have nn: "0 \<le> ?e u" using True by (intro fdiv_nonneg) (simp_all add: fsub_def rnd_nonneg)
  have "fmul (fmul 10 (?e u)) (?e u) \<le> fmul (fmul 10 (?e v)) (?e v)"
    using le nn by (intro fmul_mono2) (simp_all add: fmul_nonneg)
  then show ?thesis using True assms by (simp add: watermark_mult_def Let_def fadd_mono)
next
  case False
  then show ?thesis using watermark_ge_1 [of v] by (simp add: watermark_mult_def)
qed

lemma urgency_bounds: "0 \<le> urgency_mult q \<and> urgency_mult q \<le> 1"
proof -
  have "0 \<le> rnd (2 / 10)" "rnd (2 / 10) \<le> 1" using lit_unit [of "2 / 10"] by simp_all
  then have "0 \<le> fclamp x (rnd (2 / 10)) 1 \<and> fclamp x (rnd (2 / 10)) 1 \<le> 1" for x
    using fclamp_bounds [of "rnd (2 / 10)" 1 x] by linarith
  then show ?thesis by (simp add: urgency_mult_def split: option.split)
qed

lemma urgency_mono:
  assumes "utilization q \<le> v" shows "urgency_mult q \<le> urgency_mult (q\<lparr>utilization := v\<rparr>)"
proof (cases "fclamp v 0 1 < rnd (50 / 100)")
  case True
  then have "fclamp (utilization q) 0 1 < rnd (50 / 100)" using fclamp_mono [OF assms, of 0 1] by simp
  with True show ?thesis by (simp add: urgency_mult_def)
next
  case False
  then show ?thesis using urgency_bounds [of q] by (simp add: urgency_mult_def)
qed

section \<open>Properties\<close>

text \<open>
  On a hard task the capability_aware score orders endpoints lexicographically: by
  qualification tier, then by configured capability in percent, then by family capability
  in percent. No price, however low, lifts an endpoint over one that outranks it.
\<close>

theorem hard_task_ranks_by_capability:
  assumes "canonicalize s = ''capability_aware''" "outranks y x"
    and "HARD_TASK_DIFFICULTY \<le> si_difficulty x" "HARD_TASK_DIFFICULTY \<le> si_difficulty y"
  shows "\<exists>a b. score s x = Some a \<and> score s y = Some b \<and> a < b"
  using assms hard_score_gap [OF outranks_key [OF assms(2)]] by (simp add: score_def Let_def)

definition sample_input :: "f64 \<Rightarrow> f64 \<Rightarrow> f64 \<Rightarrow> score_input" where
  "sample_input cap price_in difficulty =
     \<lparr>si_member = \<lparr>member_endpoint_id = ''ep'', member_priority = 0, member_weight = 0\<rparr>,
      si_profile = endpoint_profile_default\<lparr>price := known price_in 0, capability_score := cap\<rparr>,
      si_active = 0, si_success_latency_ms = 0, si_all_latency_ms = 0, si_error_rate = 0,
      si_input_tokens = 250000, si_output_tokens = 0, si_difficulty = difficulty,
      si_max_pool_capability = 1, si_agentic = False\<rparr>"

lemma rnd_half: "rnd (1 / 2) = 1 / 2" "rnd (50 / 100) = 1 / 2"
  by (simp_all add: rnd_eval [where s = 53 and n = 4503599627370496])

lemma percent_rank_vals: "percent_rank 1 = 100" "percent_rank (1 / 2) = 50"
  by (simp_all add: percent_rank_def fclamp_def fmul_def fround_def f64_simps floor_eq_iff)

theorem hard_task_ranks_by_capability_witness:
  "\<exists>a b. score ''smart'' (sample_input (1 / 2) 0 1) = Some a \<and>
         score ''smart'' (sample_input 1 50 1) = Some b \<and> a < b"
proof (rule hard_task_ranks_by_capability)
  have le: "HARD_TASK_DIFFICULTY \<le> 1" using lit_unit [of "55 / 100"] by (simp add: HARD_TASK_DIFFICULTY_def)
  then show "HARD_TASK_DIFFICULTY \<le> si_difficulty (sample_input (1 / 2) 0 1)"
    "HARD_TASK_DIFFICULTY \<le> si_difficulty (sample_input 1 50 1)"
    by (simp_all add: sample_input_def)
  have "fsub 1 CAPABILITY_TOP_TOLERANCE \<le> 1"
    unfolding fsub_def by (rule rnd_lit_le) (simp_all add: CAPABILITY_TOP_TOLERANCE_def rnd_nonneg f64_simps)
  then have "capability_tier (sample_input 1 50 1) = 2"
    using le by (simp add: capability_tier_def sample_input_def capability_qualified_def)
  moreover have "capability_tier z \<le> 2" for z by (simp add: capability_tier_def Let_def)
  ultimately show "outranks (sample_input 1 50 1) (sample_input (1 / 2) 0 1)"
    by (auto simp: outranks_def Let_def sample_input_def percent_rank_vals endpoint_profile_default_def
        order_less_le)
qed (simp add: canonicalize_def)

text \<open>
  Under cost_aware a cheaper endpoint never scores lower: among billable endpoints
  the score falls with the expected marginal cost, and an endpoint without a known price
  never beats a billable one whose expected cost stays below ten billion dollars.
\<close>

theorem cost_aware_prefers_cheaper:
  assumes "canonicalize s = ''cost_aware''" "billable x" "0 \<le> marginal x" "marginal x \<le> 10000000000"
  shows "(billable y \<and> marginal x \<le> marginal y \<longrightarrow>
            (\<exists>a b. score s x = Some a \<and> score s y = Some b \<and> b \<le> a)) \<and>
         (\<not> billable y \<longrightarrow> (\<exists>a b. score s x = Some a \<and> score s y = Some b \<and> b < a))"
proof -
  have "rnd (1 / 10 ^ 12) < rnd (1 / 10 ^ 11)"
    by (simp add: rnd_eval [where s = 92 and n = 4951760157141521] rnd_eval [where s = 89 and n = 6189700196426901])
  also have "\<dots> \<le> fdiv 1 (fadd (marginal x) (rnd (1 / 10 ^ 12)))"
  proof -
    have "fadd (marginal x) (rnd (1 / 10 ^ 12)) \<le> fadd 10000000000 1"
      using assms(4) lit_unit [of "1 / 10 ^ 12"] by (intro fadd_mono) simp_all
    also have "\<dots> \<le> 10 ^ 11" by (simp add: fadd_def f64_simps)
    finally have "fadd (marginal x) (rnd (1 / 10 ^ 12)) \<le> 10 ^ 11" .
    moreover have "0 < fadd (marginal x) (rnd (1 / 10 ^ 12))"
      using rnd_lit_ge [of "rnd (1 / 10 ^ 12)" "marginal x + rnd (1 / 10 ^ 12)"] assms(3) tiny_pos
      by (simp add: fadd_def)
    ultimately have "fdiv 1 (10 ^ 11) \<le> fdiv 1 (fadd (marginal x) (rnd (1 / 10 ^ 12)))"
      by (intro fdiv_antimono) simp_all
    then show ?thesis by (simp add: fdiv_def)
  qed
  finally show ?thesis
    using assms(1,2) inverse_score_antimono [OF assms(3), of "marginal y"]
    by (simp add: score_def Let_def cost_aware_score_def UNPRICED_SCORE_def)
qed

lemma sample_marginal: "marginal (sample_input cap p d) = rnd (rnd (1 / 4 * p))"
proof -
  have "fclamp 0 0 (rnd (95 / 100)) = 0" using lit_unit [of "95 / 100"] by (simp add: fclamp_def)
  then show ?thesis
    by (simp add: marginal_def sample_input_def effective_marginal_cost_def expected_cost_def Let_def
        endpoint_profile_default_def known_def is_priced_def estimate_cost_def per_million_def
        input_price_def output_price_def fadd_def fmul_def fdiv_def f64_of_nat_def f64_simps
        rnd_eval [where s = 54 and n = 4503599627370496])
qed

theorem cost_aware_prefers_cheaper_witness:
  "\<exists>a b. score ''lowest_price'' (sample_input 1 0 0) = Some a \<and>
         score ''lowest_price'' (sample_input 1 4 0) = Some b \<and> b \<le> a"
proof -
  have b: "billable (sample_input 1 p 0)" for p
    by (simp add: billable_def sample_input_def known_def is_priced_def)
  have m: "marginal (sample_input 1 0 0) = 0" "marginal (sample_input 1 4 0) = 1"
    by (simp_all add: sample_marginal f64_simps)
  show ?thesis
    using cost_aware_prefers_cheaper [of "''lowest_price''" "sample_input 1 0 0" "sample_input 1 4 0"] b m
    by (simp add: canonicalize_def)
qed

text \<open>
  The marginal cost of a prepaid endpoint never falls when more of its window is
  used: the urgency discount vanishes and the watermark penalty grows with the
  utilization, all else equal.
\<close>

theorem prepaid_cost_grows_with_utilization:
  assumes "billing_tier pr = SubscriptionRolling" "quota_status pr = Some q" "prices_nonneg (price pr)"
    and "utilization q \<le> v"
  shows "effective_marginal_cost pr i out e ag
       \<le> effective_marginal_cost (pr\<lparr>quota_status := Some (q\<lparr>utilization := v\<rparr>)\<rparr>) i out e ag"
proof -
  let ?b = "if ag then expected_agentic_cost pr i out e else expected_cost pr i out e"
  have nn: "0 \<le> ?b"
    using expected_cost_nonneg [OF assms(3)] expected_agentic_cost_nonneg [OF assms(3)] by simp
  have same: "expected_cost (pr\<lparr>quota_status := x\<rparr>) i out e = expected_cost pr i out e"
    "expected_agentic_cost (pr\<lparr>quota_status := x\<rparr>) i out e = expected_agentic_cost pr i out e" for x
    by (simp_all add: expected_cost_def expected_agentic_cost_def)
  have "fmul (fmul (fmul ?b (rnd (1 / 100))) (watermark_mult (fclamp (utilization q) 0 1))) (urgency_mult q)
      \<le> fmul (fmul (fmul ?b (rnd (1 / 100))) (watermark_mult (fclamp v 0 1)))
             (urgency_mult (q\<lparr>utilization := v\<rparr>))"
    using nn urgency_mono [OF assms(4)] urgency_bounds [of q] watermark_ge_1 [of "fclamp (utilization q) 0 1"]
      watermark_mono [OF fclamp_mono [OF assms(4), of 0 1]]
    by (intro fmul_mono2) (auto intro!: fmul_nonneg rnd_nonneg)
  then show ?thesis
    using assms(1,2) by (auto simp: effective_marginal_cost_def Let_def same le_max_iff_disj max_def)
qed

theorem prepaid_cost_grows_with_utilization_witness:
  "let pr = endpoint_profile_default\<lparr>billing_tier := SubscriptionRolling, price := known 2 8\<rparr>;
       q = \<lparr>utilization = 1 / 4, reset_in_secs = Some 600\<rparr>
   in effective_marginal_cost (pr\<lparr>quota_status := Some q\<rparr>) 1000 512 0 False
    \<le> effective_marginal_cost (pr\<lparr>quota_status := Some (q\<lparr>utilization := 1\<rparr>)\<rparr>) 1000 512 0 False"
  using prepaid_cost_grows_with_utilization
    [of "endpoint_profile_default\<lparr>billing_tier := SubscriptionRolling, price := known 2 8,
           quota_status := Some \<lparr>utilization = 1 / 4, reset_in_secs = Some 600\<rparr>\<rparr>"
        "\<lparr>utilization = 1 / 4, reset_in_secs = Some 600\<rparr>" 1 1000 512 0 False]
  by (simp add: prices_nonneg_def known_def input_price_def output_price_def endpoint_profile_default_def)

text \<open>
  Strategy names: resolving an alias twice is resolving it once, and the strategies
  that get no feedback score are exactly those that do not use score order, with one
  exception: "score_ordered" is declared to use score order and never gets a score.
\<close>

theorem score_defined_iff:
  "canonicalize (canonicalize s) = canonicalize s \<and>
   ((score s x = None) = (\<not> uses_score_order s \<or> s = ''score_ordered''))"
proof -
  have "s = ''score_ordered'' \<longleftrightarrow> canonicalize s = ''score_ordered''" by (simp add: canonicalize_def)
  then show ?thesis by (auto simp: canonicalize_idem score_def Let_def uses_score_order_def)
qed

text \<open>
  On easy tasks the capability term is not only a tie-breaker: with 250000 input
  tokens the score prefers an endpoint at two dollars per million over an equally
  qualified one at one dollar, because ten points of capability outweigh the inverse of
  a cost above ten cents.
\<close>

theorem easy_task_can_prefer_dearer:
  "\<exists>a b. score ''capability'' (sample_input 1 2 0) = Some a \<and>
         score ''capability'' (sample_input (1 / 2) 1 0) = Some b \<and>
         marginal (sample_input (1 / 2) 1 0) < marginal (sample_input 1 2 0) \<and>
         capability_tier (sample_input 1 2 0) = capability_tier (sample_input (1 / 2) 1 0) \<and> b < a"
proof -
  have easy: "\<not> HARD_TASK_DIFFICULTY \<le> 0"
    by (simp add: HARD_TASK_DIFFICULTY_def rnd_eval [where s = 53 and n = 4953959590107546])
  have "required_capability 0 \<le> 1 / 2"
    using rnd_mono [of "35 / 100" "1 / 2"]
    by (simp add: required_capability_def fclamp_def fmul_def fadd_def rnd_half)
  then have tier: "capability_tier (sample_input c p 0) = 2" if "1 / 2 \<le> c" for c p
    using that easy by (simp add: capability_tier_def capability_qualified_def sample_input_def)
  have m: "marginal (sample_input c 2 0) = 1 / 2" "marginal (sample_input c 1 0) = 1 / 4" for c
    by (simp_all add: sample_marginal rnd_half rnd_eval [where s = 54 and n = 4503599627370496])
  have bill: "billable (sample_input c p 0)" for c p
    by (simp add: billable_def sample_input_def known_def is_priced_def)
  have top: "fsub CAPABILITY_TIER_SCALE 1000000 = 999000000"
    by (simp add: fsub_def CAPABILITY_TIER_SCALE_def f64_simps)
  have lo: "1 \<le> fdiv 1 (fadd (1 / 2) (rnd (1 / 10 ^ 12)))"
  proof -
    have "fadd (1 / 2) (rnd (1 / 10 ^ 12)) \<le> fadd (1 / 2) (1 / 2)"
      using rnd_mono [of "1 / 10 ^ 12" "1 / 2"] by (intro fadd_mono) (simp_all add: rnd_half)
    then have "fadd (1 / 2) (rnd (1 / 10 ^ 12)) \<le> 1" by (simp add: fadd_def f64_simps)
    moreover have "0 < fadd (1 / 2) (rnd (1 / 10 ^ 12))"
      using rnd_lit_ge [of "rnd (1 / 10 ^ 12)" "1 / 2 + rnd (1 / 10 ^ 12)"] tiny_pos by (simp add: fadd_def)
    ultimately show ?thesis using fdiv_antimono [of 1 "fadd (1 / 2) (rnd (1 / 10 ^ 12))" 1]
      by (simp add: fdiv_def f64_simps)
  qed
  have hi: "fdiv 1 (fadd (1 / 4) (rnd (1 / 10 ^ 12))) \<le> 4"
  proof -
    have "1 / 4 \<le> fadd (1 / 4) (rnd (1 / 10 ^ 12))"
      unfolding fadd_def using tiny_pos
      by (intro rnd_lit_ge) (simp_all add: rnd_eval [where s = 54 and n = 4503599627370496])
    then show ?thesis
      using fdiv_antimono [of 1 "1 / 4" "fadd (1 / 4) (rnd (1 / 10 ^ 12))"] by (simp add: fdiv_def f64_simps)
  qed
  have a: "2000000011 \<le> easy_score (sample_input 1 2 0)"
  proof -
    have "fadd (fadd (fmul 2 1000000000) 1) 10 \<le> easy_score (sample_input 1 2 0)"
      using lo by (simp add: easy_score_def Let_def bill m tier top CAPABILITY_TIER_SCALE_def)
        (auto intro!: fadd_mono simp: sample_input_def fclamp_def fmul_def f64_simps top [unfolded CAPABILITY_TIER_SCALE_def])
    then show ?thesis by (simp add: fadd_def fmul_def f64_simps)
  qed
  have b: "easy_score (sample_input (1 / 2) 1 0) \<le> 2000000009"
  proof -
    have "easy_score (sample_input (1 / 2) 1 0) \<le> fadd (fadd (fmul 2 1000000000) 4) 5"
      using hi by (simp add: easy_score_def Let_def bill m tier top CAPABILITY_TIER_SCALE_def)
        (auto intro!: fadd_mono simp: sample_input_def fclamp_def fmul_def f64_simps min_def)
    then show ?thesis by (simp add: fadd_def fmul_def f64_simps)
  qed
  show ?thesis
    using a b easy by (simp add: score_def canonicalize_def m tier)
      (simp add: sample_input_def)
qed

end
