(* ===== verification/Metrics.thy ===== *)
theory Metrics
  imports F64
begin

text \<open>
  The runtime metrics of an endpoint (models/mod.rs) and the attempt hooks that update
  them (usage/mod.rs): moving averages, failure streaks, the health state with its
  cooldown, and the cache hit ratio. Counters are i32 and wrap; times are in
  nanoseconds. The endpoints table is a map from ids to the two health columns.
\<close>

definition FAILURE_THRESHOLD :: int where "FAILURE_THRESHOLD = 3"
definition COOLDOWN_SECS :: nat where "COOLDOWN_SECS = 30"
definition CACHE_MIN_SAMPLES :: int where "CACHE_MIN_SAMPLES = 8"

record endpoint_metric =
  em_endpoint_id :: string
  active_requests :: int
  ema_latency_ms :: f64
  ema_success_latency_ms :: f64
  total_requests :: int
  total_errors :: int
  consecutive_failures :: int
  cache_hit_ratio_ema :: f64
  cache_samples :: int
  health_status :: string
  cooldown_until :: "nat option"
  last_error_at :: "nat option"
  em_updated_at :: nat

definition endpoint_metric_new :: "string \<Rightarrow> nat \<Rightarrow> endpoint_metric" where
  "endpoint_metric_new ep now =
     \<lparr>em_endpoint_id = ep, active_requests = 0, ema_latency_ms = 0, ema_success_latency_ms = 0,
      total_requests = 0, total_errors = 0, consecutive_failures = 0, cache_hit_ratio_ema = 0,
      cache_samples = 0, health_status = ''healthy'', cooldown_until = None, last_error_at = None,
      em_updated_at = now\<rparr>"

definition record_cache_observation :: "endpoint_metric \<Rightarrow> int \<Rightarrow> int \<Rightarrow> endpoint_metric" where
  "record_cache_observation m prompt_tokens hit_tokens =
     (if prompt_tokens \<le> 0 then m
      else let hits = max 0 (min hit_tokens prompt_tokens);
               ratio = fclamp (fdiv (rnd (of_int hits)) (rnd (of_int prompt_tokens))) 0 1
           in m\<lparr>cache_hit_ratio_ema :=
                  (if cache_samples m = 0 then ratio
                   else fadd (fmul (cache_hit_ratio_ema m) (3 / 4)) (fmul ratio (1 / 4))),
                cache_samples := i32_wrap (cache_samples m + 1)\<rparr>)"

definition ALPHA :: f64 where "ALPHA = rnd (1 / 10)"

definition ema :: "f64 \<Rightarrow> f64 \<Rightarrow> f64" where
  "ema old x = (if old = 0 then x else fadd (fmul (fsub 1 ALPHA) old) (fmul ALPHA x))"

definition record_attempt :: "endpoint_metric \<Rightarrow> nat \<Rightarrow> bool \<Rightarrow> f64 \<Rightarrow> endpoint_metric \<times> bool" where
  "record_attempt m now success latency_ms =
     (let m1 = (if 0 < active_requests m then m\<lparr>active_requests := active_requests m - 1\<rparr> else m);
          m2 = m1\<lparr>ema_latency_ms := ema (ema_latency_ms m1) latency_ms, em_updated_at := now\<rparr>
      in if success then
           (let m3 = m2\<lparr>ema_success_latency_ms := ema (ema_success_latency_ms m2) latency_ms,
                       consecutive_failures := 0\<rparr>
            in if health_status m3 \<noteq> ''healthy''
               then (m3\<lparr>health_status := ''healthy'', cooldown_until := None\<rparr>, True)
               else (m3, False))
         else
           (let m3 = m2\<lparr>total_errors := i32_wrap (total_errors m2 + 1),
                       consecutive_failures := i32_wrap (consecutive_failures m2 + 1),
                       last_error_at := Some now\<rparr>
            in if FAILURE_THRESHOLD \<le> consecutive_failures m3
               then (m3\<lparr>health_status := ''unavailable'',
                       cooldown_until := Some (now + COOLDOWN_SECS * 1000000000)\<rparr>, True)
               else if health_status m3 = ''healthy''
               then (m3\<lparr>health_status := ''degraded''\<rparr>, True)
               else (m3, False)))"

section \<open>The attempt hooks\<close>

type_synonym metric_map = "string \<rightharpoonup> endpoint_metric"
type_synonym health_table = "string \<rightharpoonup> string \<times> nat option"

definition metric_entry :: "metric_map \<Rightarrow> string \<Rightarrow> nat \<Rightarrow> endpoint_metric" where
  "metric_entry ms ep now = unwrap_or (ms ep) (endpoint_metric_new ep now)"

definition on_attempt_started :: "metric_map \<Rightarrow> nat \<Rightarrow> string \<Rightarrow> nat \<Rightarrow> metric_map" where
  "on_attempt_started ms now ep active =
     (let m = metric_entry ms ep now
      in ms(ep \<mapsto> m\<lparr>active_requests := i32_of_nat active,
                    total_requests := i32_wrap (total_requests m + 1), em_updated_at := now\<rparr>))"

text \<open>\<open>UPDATE endpoints ... WHERE id = $3\<close>: only an existing row changes.\<close>

definition update_health :: "health_table \<Rightarrow> string \<Rightarrow> string \<Rightarrow> nat option \<Rightarrow> health_table" where
  "update_health tbl ep status cooldown = (case tbl ep of
     None \<Rightarrow> tbl | Some _ \<Rightarrow> tbl(ep \<mapsto> (status, cooldown)))"

text \<open>\<open>db_ok\<close> says whether the update reaches the database; a failure is ignored.\<close>

definition on_attempt_finished ::
    "bool \<Rightarrow> metric_map \<Rightarrow> health_table \<Rightarrow> nat \<Rightarrow> string \<Rightarrow> bool \<Rightarrow> nat \<Rightarrow> metric_map \<times> health_table" where
  "on_attempt_finished db_ok ms tbl now ep success latency =
     (case record_attempt (metric_entry ms ep now) now success (f64_of_nat latency) of (m, changed) \<Rightarrow>
        (ms(ep \<mapsto> m),
         if changed \<and> db_ok then update_health tbl ep (health_status m) (cooldown_until m) else tbl))"

section \<open>The health state as a state machine\<close>

datatype health = Healthy | Degraded nat | Unavailable nat

text \<open>
  The contract: a success restores health; failures count; the third failure in a row
  and every later one make the endpoint unavailable for the cooldown.
\<close>

fun health_next :: "health \<Rightarrow> bool \<Rightarrow> health" where
  "health_next _ True = Healthy"
| "health_next Healthy False = Degraded 1"
| "health_next (Degraded n) False = (if Suc n < 3 then Degraded (Suc n) else Unavailable (Suc n))"
| "health_next (Unavailable n) False = Unavailable (Suc n)"

fun failures :: "health \<Rightarrow> nat" where
  "failures Healthy = 0"
| "failures (Degraded n) = n"
| "failures (Unavailable n) = n"

fun health_text :: "health \<Rightarrow> string" where
  "health_text Healthy = ''healthy''"
| "health_text (Degraded _) = ''degraded''"
| "health_text (Unavailable _) = ''unavailable''"

fun health_wf :: "health \<Rightarrow> bool" where
  "health_wf Healthy \<longleftrightarrow> True"
| "health_wf (Degraded n) \<longleftrightarrow> 1 \<le> n \<and> n < 3"
| "health_wf (Unavailable n) \<longleftrightarrow> 3 \<le> n"

definition represents :: "endpoint_metric \<Rightarrow> health \<Rightarrow> bool" where
  "represents m h \<longleftrightarrow> health_wf h \<and> consecutive_failures m = int (failures h) \<and>
     health_status m = health_text h"

text \<open>A run of attempts: the clock, the outcome and the latency of each.\<close>

fun attempt_run :: "endpoint_metric \<Rightarrow> (nat \<times> bool \<times> f64) list \<Rightarrow> endpoint_metric" where
  "attempt_run m [] = m"
| "attempt_run m ((now, ok, lat) # as) = attempt_run (fst (record_attempt m now ok lat)) as"

lemma represents_step:
  assumes "represents m h" "failures h < 2 ^ 31 - 1"
  shows "represents (fst (record_attempt m now ok lat)) (health_next h ok)"
  using assms
  by (cases h; cases ok)
    (auto simp: represents_def record_attempt_def Let_def FAILURE_THRESHOLD_def)

lemma failures_next: "failures (health_next h ok) \<le> Suc (failures h)"
  by (cases h; cases ok) simp_all

lemma attempt_run_represents:
  assumes "represents m h" "failures h + length as < 2 ^ 31"
  shows "represents (attempt_run m as) (foldl (\<lambda>h a. health_next h (fst (snd a))) h as)"
  using assms
proof (induction as arbitrary: m h)
  case (Cons a as)
  obtain now ok lat where a: "a = (now, ok, lat)" by (cases a)
  have r: "represents (fst (record_attempt m now ok lat)) (health_next h ok)"
    using Cons.prems by (intro represents_step) auto
  have "failures (health_next h ok) + length as < 2 ^ 31"
    using Cons.prems(2) failures_next [of h ok] by simp
  from Cons.IH [OF r this] show ?case by (simp add: a)
qed simp

lemma cache_ratio_step:
  assumes "0 \<le> cache_hit_ratio_ema m" "cache_hit_ratio_ema m \<le> 1"
  shows "0 \<le> cache_hit_ratio_ema (record_cache_observation m p h) \<and>
    cache_hit_ratio_ema (record_cache_observation m p h) \<le> 1"
proof -
  have blend: "0 \<le> fadd (fmul e (3 / 4)) (fmul r (1 / 4)) \<and> fadd (fmul e (3 / 4)) (fmul r (1 / 4)) \<le> 1"
    if "0 \<le> e" "e \<le> 1" "0 \<le> r" "r \<le> 1" for e r :: f64
  proof -
    have "fmul e (3 / 4) \<le> 3 / 4" "fmul r (1 / 4) \<le> 1 / 4"
      using that rnd_mono [of "e * (3 / 4)" "3 / 4"] rnd_mono [of "r * (1 / 4)" "1 / 4"]
      by (simp_all add: fmul_def rnd_eval [where s = 53 and n = 6755399441055744]
          rnd_eval [where s = 54 and n = 4503599627370496])
    then have "fadd (fmul e (3 / 4)) (fmul r (1 / 4)) \<le> fadd (3 / 4) (1 / 4)" by (rule fadd_mono)
    then show ?thesis using that by (simp add: fadd_nonneg fmul_nonneg fadd_def [of "3 / 4"] f64_simps)
  qed
  show ?thesis
    using assms blend fclamp_bounds [of 0 1]
    by (auto simp: record_cache_observation_def Let_def)
qed

section \<open>Properties\<close>



text \<open>
  An endpoint is cooled down exactly by its streak: after a failed attempt that
  completes a streak of three the cooldown ends thirty seconds later, and after any
  success of an endpoint that was not healthy there is no cooldown; both changes are
  reported for persisting.
\<close>

theorem cooldown_follows_the_streak:
  assumes "record_attempt m now ok lat = (m', changed)"
    and "0 \<le> consecutive_failures m" "consecutive_failures m < 2 ^ 31 - 1"
  shows "(\<not> ok \<and> 2 \<le> consecutive_failures m \<longrightarrow>
            cooldown_until m' = Some (now + 30000000000) \<and> health_status m' = ''unavailable'' \<and> changed) \<and>
         (ok \<and> health_status m \<noteq> ''healthy'' \<longrightarrow>
            cooldown_until m' = None \<and> health_status m' = ''healthy'' \<and> changed) \<and>
         (\<not> changed \<longrightarrow> health_status m' = health_status m \<and> cooldown_until m' = cooldown_until m)"
  using assms
  by (auto simp: record_attempt_def Let_def FAILURE_THRESHOLD_def COOLDOWN_SECS_def split: if_splits)

theorem cooldown_follows_the_streak_witness:
  "cooldown_until (fst (record_attempt
     ((endpoint_metric_new ''ep'' 0)\<lparr>consecutive_failures := 2, health_status := ''degraded''\<rparr>) 7 False 5))
   = Some 30000000007"
  using cooldown_follows_the_streak
    [of "(endpoint_metric_new ''ep'' 0)\<lparr>consecutive_failures := 2, health_status := ''degraded''\<rparr>" 7 False 5]
  by (cases "record_attempt
     ((endpoint_metric_new ''ep'' 0)\<lparr>consecutive_failures := 2, health_status := ''degraded''\<rparr>) 7 False 5")
    (simp add: endpoint_metric_new_def)

text \<open>
  The cache hit ratio stays a ratio: after any sequence of observations, with token
  counts of any sign, the moving average of an endpoint lies between zero and one.
\<close>

theorem cache_ratio_stays_in_unit_interval:
  "let m = foldl (\<lambda>m (p, h). record_cache_observation m p h) (endpoint_metric_new ep t0) obs
   in 0 \<le> cache_hit_ratio_ema m \<and> cache_hit_ratio_ema m \<le> 1"
proof -
  have "0 \<le> cache_hit_ratio_ema (foldl (\<lambda>m (p, h). record_cache_observation m p h) m obs) \<and>
      cache_hit_ratio_ema (foldl (\<lambda>m (p, h). record_cache_observation m p h) m obs) \<le> 1"
    if "0 \<le> cache_hit_ratio_ema m" "cache_hit_ratio_ema m \<le> 1" for m
    using that
  proof (induction obs arbitrary: m)
    case (Cons o' obs)
    then show ?case using cache_ratio_step [OF Cons.prems] by (cases o') simp
  qed simp
  then show ?thesis by (simp add: Let_def endpoint_metric_new_def)
qed

end
