(* ===== verification/Routing.thy ===== *)
theory Routing
  imports Strategy Metrics Json
begin

text \<open>
  routing/mod.rs and policy/route_hint.rs: the feedback a pool gets for one request, that
  is a score, an exclusion flag and health data per endpoint, and the sorted trace that
  explains it. The shared maps are fields of an environment, the task-local and the
  global hint are arguments, and the salted hash of the tie break is a parameter.
\<close>

definition AFFINITY_BOOST :: f64 where "AFFINITY_BOOST = 10000"
definition CACHE_COLLAPSED_RATIO :: f64 where "CACHE_COLLAPSED_RATIO = rnd (10 / 100)"
definition CACHE_HEALTHY_RATIO :: f64 where "CACHE_HEALTHY_RATIO = rnd (50 / 100)"

section \<open>Route hints\<close>

record route_hint =
  hint_input_tokens :: u32
  hint_output_tokens :: u32
  hint_has_tools :: bool
  hint_difficulty :: f64
  hint_downshift :: bool
  hint_pool_id :: string
  hint_affinity_enabled :: bool
  hint_sticky_endpoint_id :: "string option"

text \<open>The task-local slot and the process-wide slot.\<close>

record hint_slots =
  task_hint :: "route_hint option"
  current_hint :: "route_hint option"

definition set_hint :: "hint_slots \<Rightarrow> route_hint \<Rightarrow> hint_slots" where
  "set_hint s h = s\<lparr>current_hint := Some h\<rparr>"

definition clear_hint :: "hint_slots \<Rightarrow> hint_slots" where
  "clear_hint s = s\<lparr>current_hint := None\<rparr>"

definition get_task_hint :: "hint_slots \<Rightarrow> route_hint option" where
  "get_task_hint s = task_hint s"

definition get_hint :: "hint_slots \<Rightarrow> route_hint option" where
  "get_hint s = or_else (get_task_hint s) (current_hint s)"

section \<open>The provider\<close>

record feedback_provider =
  fp_metrics :: metric_map
  fp_pools :: "string \<rightharpoonup> string"
  fp_pool_members :: "string \<rightharpoonup> pool_endpoint_member list"
  fp_profiles :: "string \<rightharpoonup> endpoint_profile"
  fp_hints :: "string \<rightharpoonup> route_hint"

record endpoint_signal =
  sig_score :: "f64 option"
  sig_excluded :: bool
  sig_cooldown_secs :: "nat option"
  sig_recent_error_rate :: "f64 option"

record candidate_trace =
  ct_endpoint_id :: string
  ct_capability :: f64
  ct_expected_cost :: f64
  ct_score :: "f64 option"
  ct_excluded :: bool
  ct_exclusion_reason :: string

text \<open>What evaluate reads off the hint, with its defaults.\<close>

record route_query =
  rq_strategy :: string
  rq_input_tok :: u32
  rq_output_tok :: u32
  rq_difficulty :: f64
  rq_has_tools :: bool
  rq_downshift :: bool
  rq_affinity :: bool
  rq_sticky :: "string option"
  rq_now :: nat

definition choose_hint ::
    "feedback_provider \<Rightarrow> hint_slots \<Rightarrow> string \<Rightarrow> route_hint option \<Rightarrow> route_hint option" where
  "choose_hint fp slots pool_id request_hint =
     or_else request_hint (or_else (get_task_hint slots) (or_else (fp_hints fp pool_id) (get_hint slots)))"

definition route_query_of :: "string \<Rightarrow> route_hint option \<Rightarrow> nat \<Rightarrow> route_query" where
  "route_query_of strategy hint now =
     \<lparr>rq_strategy = strategy,
      rq_input_tok = (case hint of Some h \<Rightarrow> hint_input_tokens h | None \<Rightarrow> COST_RANK_INPUT_TOKENS),
      rq_output_tok = (case hint of Some h \<Rightarrow> hint_output_tokens h | None \<Rightarrow> COST_RANK_OUTPUT_TOKENS),
      rq_difficulty = (case hint of Some h \<Rightarrow> hint_difficulty h | None \<Rightarrow> rnd (2 / 10)),
      rq_has_tools = (case hint of Some h \<Rightarrow> hint_has_tools h | None \<Rightarrow> False),
      rq_downshift = (case hint of Some h \<Rightarrow> hint_downshift h | None \<Rightarrow> False),
      rq_affinity = (case hint of Some h \<Rightarrow> hint_affinity_enabled h | None \<Rightarrow> False),
      rq_sticky = Option.bind hint hint_sticky_endpoint_id,
      rq_now = now\<rparr>"

definition capability_of :: "feedback_provider \<Rightarrow> f64 \<Rightarrow> string \<Rightarrow> f64" where
  "capability_of fp dflt ep = (case fp_profiles fp ep of Some p \<Rightarrow> capability_score p | None \<Rightarrow> dflt)"

definition max_pool_capability :: "feedback_provider \<Rightarrow> route_query \<Rightarrow> pool_endpoint_member list \<Rightarrow> f64" where
  "max_pool_capability fp q members =
     (if rq_strategy q = ''capability_aware''
      then foldl max 0 (map (\<lambda>m. capability_of fp (rnd (5 / 10)) (member_endpoint_id m)) members)
      else 1)"

text \<open>The ids in the protected set, for a pool with that maximal capability.\<close>

definition budget_protected :: "feedback_provider \<Rightarrow> route_query \<Rightarrow> f64 \<Rightarrow> pool_endpoint_member list \<Rightarrow> string list" where
  "budget_protected fp q max_cap members =
     (if rq_strategy q = ''capability_aware'' \<and> HARD_TASK_DIFFICULTY \<le> rq_difficulty q
      then map member_endpoint_id (filter (\<lambda>m.
             capability_qualified (capability_of fp (rnd (5 / 10)) (member_endpoint_id m))
               (rq_difficulty q) max_cap) members)
      else [])"

definition priced_costs :: "feedback_provider \<Rightarrow> route_query \<Rightarrow> pool_endpoint_member list \<Rightarrow> f64 list" where
  "priced_costs fp q members = List.map_filter (\<lambda>m. case fp_profiles fp (member_endpoint_id m) of
       None \<Rightarrow> None
     | Some p \<Rightarrow> if is_priced (price p)
         then Some (expected_cost p (rq_input_tok q) (rq_output_tok q) 0) else None) members"

definition median_cost :: "feedback_provider \<Rightarrow> route_query \<Rightarrow> pool_endpoint_member list \<Rightarrow> f64" where
  "median_cost fp q members =
     (let costs = priced_costs fp q members
      in if costs = [] then f64_max else sort costs ! (length costs div 2))"

text \<open>Health of one member: exclusion, cooldown end in seconds, and the recent error rate.\<close>

definition error_rate_of :: "endpoint_metric option \<Rightarrow> f64 option" where
  "error_rate_of metric = (case metric of
     None \<Rightarrow> None
   | Some m \<Rightarrow> if 0 < total_requests m
       then Some (fdiv (of_int (total_errors m)) (of_int (total_requests m))) else None)"

definition cooling :: "endpoint_metric option \<Rightarrow> nat \<Rightarrow> nat option" where
  "cooling metric now = (case Option.bind metric cooldown_until of
     None \<Rightarrow> None | Some until \<Rightarrow> if now < until then Some until else None)"

definition assess ::
    "feedback_provider \<Rightarrow> route_query \<Rightarrow> f64 \<Rightarrow> string list \<Rightarrow> f64 \<Rightarrow> pool_endpoint_member
      \<Rightarrow> candidate_trace \<times> endpoint_signal" where
  "assess fp q max_cap protected median member =
     (let ep = member_endpoint_id member;
          metric = fp_metrics fp ep;
          until = cooling metric (rq_now q);
          excluded_health = (until \<noteq> None);
          recent = error_rate_of metric;
          profile = unwrap_or (fp_profiles fp ep) endpoint_profile_default;
          err = unwrap_or recent 0;
          base_cost = expected_cost profile (rq_input_tok q) (rq_output_tok q) err;
          tools_out = (rq_has_tools q \<and> supports_tools profile = Some False);
          budget_out = (rq_downshift q \<and> is_priced (price profile)
             \<and> fmul median (rnd (105 / 100)) < base_cost \<and> ep \<notin> set protected);
          reason = (if budget_out then ''budget_downshift'' else if tools_out then ''tools_unsupported''
                    else if excluded_health then ''health'' else '''');
          excluded = (excluded_health \<or> tools_out \<or> budget_out);
          s0 = score (rq_strategy q)
             \<lparr>si_member = member, si_profile = profile,
              si_active = (case metric of Some m \<Rightarrow> active_requests m | None \<Rightarrow> 0),
              si_success_latency_ms = (case metric of Some m \<Rightarrow> ema_success_latency_ms m | None \<Rightarrow> 0),
              si_all_latency_ms = (case metric of Some m \<Rightarrow> ema_latency_ms m | None \<Rightarrow> 0),
              si_error_rate = err, si_input_tokens = rq_input_tok q, si_output_tokens = rq_output_tok q,
              si_difficulty = rq_difficulty q, si_max_pool_capability = max_cap,
              si_agentic = rq_affinity q\<rparr>;
          s1 = (if rq_affinity q \<and> s0 = None then Some 1 else s0)
      in (\<lparr>ct_endpoint_id = ep, ct_capability = capability_score profile, ct_expected_cost = base_cost,
           ct_score = s1, ct_excluded = excluded, ct_exclusion_reason = reason\<rparr>,
          \<lparr>sig_score = s1, sig_excluded = excluded,
           sig_cooldown_secs = map_option (\<lambda>u. u div 1000000000) until,
           sig_recent_error_rate = recent\<rparr>))"

section \<open>Session affinity\<close>

definition observed_ratio :: "feedback_provider \<Rightarrow> string \<Rightarrow> f64 option" where
  "observed_ratio fp ep = (case fp_metrics fp ep of
     None \<Rightarrow> None
   | Some m \<Rightarrow> if CACHE_MIN_SAMPLES \<le> cache_samples m then Some (cache_hit_ratio_ema m) else None)"

text \<open>The fold starts from NaN: with no other observed endpoint there is no best ratio.\<close>

definition best_other_ratio :: "feedback_provider \<Rightarrow> pool_endpoint_member list \<Rightarrow> string \<Rightarrow> f64 option" where
  "best_other_ratio fp members sticky =
     (case List.map_filter (\<lambda>m. if member_endpoint_id m \<noteq> sticky
             then observed_ratio fp (member_endpoint_id m) else None) members of
        [] \<Rightarrow> None | r # rs \<Rightarrow> Some (foldl max r rs))"

definition sticky_cache_collapsed :: "feedback_provider \<Rightarrow> pool_endpoint_member list \<Rightarrow> string \<Rightarrow> bool" where
  "sticky_cache_collapsed fp members sticky =
     (case (observed_ratio fp sticky, best_other_ratio fp members sticky) of
        (Some ratio, Some best) \<Rightarrow> ratio < CACHE_COLLAPSED_RATIO \<and> CACHE_HEALTHY_RATIO < best
      | _ \<Rightarrow> False)"

definition sticky_is_capable :: "feedback_provider \<Rightarrow> route_query \<Rightarrow> f64 \<Rightarrow> string \<Rightarrow> bool" where
  "sticky_is_capable fp q max_cap sticky =
     (if rq_strategy q = ''capability_aware''
      then capability_qualified (capability_of fp 0 sticky) (rq_difficulty q) max_cap
      else True)"

type_synonym signal_map = "string \<rightharpoonup> endpoint_signal"

definition apply_affinity ::
    "feedback_provider \<Rightarrow> route_query \<Rightarrow> f64 \<Rightarrow> pool_endpoint_member list \<Rightarrow> signal_map \<Rightarrow> signal_map" where
  "apply_affinity fp q max_cap members sigs =
     (case (rq_affinity q, rq_sticky q) of
        (True, Some sticky) \<Rightarrow>
          if sticky_is_capable fp q max_cap sticky \<and> \<not> sticky_cache_collapsed fp members sticky
          then (case sigs sticky of
                  None \<Rightarrow> sigs
                | Some s \<Rightarrow> if sig_excluded s then sigs
                    else sigs(sticky \<mapsto> s\<lparr>sig_score := Some (fadd (unwrap_or (sig_score s) 0) AFFINITY_BOOST)\<rparr>))
          else sigs
      | _ \<Rightarrow> sigs)"

section \<open>The trace order\<close>

text \<open>A missing score counts as negative infinity.\<close>

definition score_cmp :: "f64 option \<Rightarrow> f64 option \<Rightarrow> ordering" where
  "score_cmp l r = (case (l, r) of
     (Some a, Some b) \<Rightarrow> if rnd (1 / 10 ^ 6) < \<bar>fsub a b\<bar> then cmp_of b a else Equal
   | (Some _, None) \<Rightarrow> Less
   | (None, Some _) \<Rightarrow> Greater
   | (None, None) \<Rightarrow> Equal)"

definition trace_cmp ::
    "feedback_provider \<Rightarrow> (string \<Rightarrow> nat) \<Rightarrow> candidate_trace \<Rightarrow> candidate_trace \<Rightarrow> ordering" where
  "trace_cmp fp tie l r =
     (let act = (\<lambda>c. case fp_metrics fp (ct_endpoint_id c) of Some m \<Rightarrow> active_requests m | None \<Rightarrow> 0)
      in then_with (cmp_of (ct_excluded l) (ct_excluded r))
          (then_with (score_cmp (ct_score l) (ct_score r))
            (then_with (cmp_of (act l) (act r))
              (cmp_of (tie (ct_endpoint_id l)) (tie (ct_endpoint_id r))))))"

section \<open>Evaluation\<close>

definition evaluate ::
    "feedback_provider \<Rightarrow> hint_slots \<Rightarrow> nat \<Rightarrow> (string \<Rightarrow> nat) \<Rightarrow> string \<Rightarrow> route_hint option
      \<Rightarrow> signal_map \<times> candidate_trace list" where
  "evaluate fp slots now tie pool_id request_hint =
     (let strategy = canonicalize (unwrap_or (fp_pools fp pool_id) ''round_robin'') in
      case fp_pool_members fp pool_id of
        None \<Rightarrow> (Map.empty, [])
      | Some members \<Rightarrow>
          let q = route_query_of strategy (choose_hint fp slots pool_id request_hint) now;
              max_cap = max_pool_capability fp q members;
              protected = budget_protected fp q max_cap members;
              median = median_cost fp q members;
              assessed = map (assess fp q max_cap protected median) members;
              sigs = foldl (\<lambda>m (c, s). m(ct_endpoint_id c \<mapsto> s)) Map.empty assessed
          in (apply_affinity fp q max_cap members sigs,
              sort_by (trace_cmp fp tie) (map fst assessed)))"

definition feedback :: "feedback_provider \<Rightarrow> hint_slots \<Rightarrow> nat \<Rightarrow> (string \<Rightarrow> nat) \<Rightarrow> string \<Rightarrow> signal_map" where
  "feedback fp slots now tie pool_id = fst (evaluate fp slots now tie pool_id None)"

definition float_json :: "f64 option \<Rightarrow> json" where
  "float_json x = (case x of None \<Rightarrow> Null | Some v \<Rightarrow> Number (FloatN v))"

definition explain_candidate :: "feedback_provider \<Rightarrow> candidate_trace \<Rightarrow> json" where
  "explain_candidate fp c = Object
     [(''endpoint_id'', String (ct_endpoint_id c)),
      (''capability'', Number (FloatN (ct_capability c))),
      (''expected_cost'', Number (FloatN (ct_expected_cost c))),
      (''score'', float_json (ct_score c)),
      (''excluded'', Bool (ct_excluded c)),
      (''exclusion_reason'', String (ct_exclusion_reason c)),
      (''cache_hit_ratio'', float_json (case fp_metrics fp (ct_endpoint_id c) of
          None \<Rightarrow> None
        | Some m \<Rightarrow> if 0 < cache_samples m
            then Some (fdiv (fround (fmul (cache_hit_ratio_ema m) 1000)) 1000) else None))]"

definition explain ::
    "feedback_provider \<Rightarrow> hint_slots \<Rightarrow> nat \<Rightarrow> (string \<Rightarrow> nat) \<Rightarrow> string \<Rightarrow> route_hint \<Rightarrow> json list" where
  "explain fp slots now tie pool_id hint =
     map (explain_candidate fp) (snd (evaluate fp slots now tie pool_id (Some hint)))"

section \<open>Lemmas\<close>

lemma foldl_signals:
  "foldl (\<lambda>m (c, s). m(ct_endpoint_id c \<mapsto> s)) m0 xs ep = Some s \<Longrightarrow>
     m0 ep = Some s \<or> (\<exists>c. (c, s) \<in> set xs \<and> ct_endpoint_id c = ep)"
proof (induction xs arbitrary: m0)
  case (Cons x xs)
  obtain c s' where x: "x = (c, s')" by fastforce
  have "foldl (\<lambda>m (c, s). m(ct_endpoint_id c \<mapsto> s)) (m0(ct_endpoint_id c \<mapsto> s')) xs ep = Some s"
    using Cons.prems unfolding x by (simp only: foldl_Cons prod.case)
  from Cons.IH [OF this] x show ?case by (auto split: if_splits)
qed simp

lemma affinity_frame:
  assumes "apply_affinity fp q mc members sigs ep = Some s'"
  shows "\<exists>s. sigs ep = Some s \<and> sig_excluded s' = sig_excluded s \<and>
     sig_cooldown_secs s' = sig_cooldown_secs s \<and>
     (s' = s \<or> rq_affinity q \<and> rq_sticky q = Some ep \<and> \<not> sig_excluded s \<and>
        sig_score s' = Some (fadd (unwrap_or (sig_score s) 0) AFFINITY_BOOST))"
  using assms by (auto simp: apply_affinity_def split: bool.splits option.splits if_splits)

definition pool_query ::
    "feedback_provider \<Rightarrow> hint_slots \<Rightarrow> nat \<Rightarrow> string \<Rightarrow> route_hint option \<Rightarrow> route_query" where
  "pool_query fp slots now pool_id rh =
     route_query_of (canonicalize (unwrap_or (fp_pools fp pool_id) ''round_robin''))
       (choose_hint fp slots pool_id rh) now"

text \<open>Every signal of the result is the assessment of some member, up to the boost.\<close>

lemma evaluate_signal:
  assumes "fp_pool_members fp pool_id = Some members"
    and "fst (evaluate fp slots now tie pool_id rh) ep = Some s"
  defines "q \<equiv> pool_query fp slots now pool_id rh"
  shows "\<exists>member \<in> set members. member_endpoint_id member = ep \<and>
     sig_excluded s = sig_excluded (snd (assess fp q (max_pool_capability fp q members)
       (budget_protected fp q (max_pool_capability fp q members) members) (median_cost fp q members) member))"
proof -
  let ?mc = "max_pool_capability fp q members"
  let ?a = "assess fp q ?mc (budget_protected fp q ?mc members) (median_cost fp q members)"
  have ev: "fst (evaluate fp slots now tie pool_id rh) = apply_affinity fp q ?mc members
      (foldl (\<lambda>m (c, s). m(ct_endpoint_id c \<mapsto> s)) Map.empty (map ?a members))"
    using assms(1) by (simp add: evaluate_def Let_def q_def pool_query_def)
  obtain s0 where s0: "foldl (\<lambda>m (c, s). m(ct_endpoint_id c \<mapsto> s)) Map.empty (map ?a members) ep = Some s0"
    and ex: "sig_excluded s = sig_excluded s0"
    using affinity_frame [OF assms(2) [unfolded ev]] by blast
  obtain c where "(c, s0) \<in> set (map ?a members)" "ct_endpoint_id c = ep"
    using foldl_signals [OF s0] by auto
  then obtain member where m: "member \<in> set members" "?a member = (c, s0)" by auto
  have "ct_endpoint_id (fst (?a member)) = member_endpoint_id member" by (simp add: assess_def Let_def)
  with m \<open>ct_endpoint_id c = ep\<close> have "member_endpoint_id member = ep" by simp
  with m ex show ?thesis by force
qed

lemma foldl_max_attained:
  fixes xs :: "f64 list"
  assumes "x \<in> set xs" "\<And>y. y \<in> set xs \<Longrightarrow> y \<le> x" "a \<le> x"
  shows "foldl max a xs = x"
proof -
  have up: "foldl max b ys \<le> x" if "b \<le> x" "\<And>y. y \<in> set ys \<Longrightarrow> y \<le> x" for b ys
    using that by (induction ys arbitrary: b) auto
  have base: "b \<le> foldl max b ys" for b and ys :: "f64 list"
    by (induction ys arbitrary: b) (auto intro: order_trans [OF max.cobounded1])
  have lo: "y \<le> foldl max b ys" if "y \<in> set ys" for y b :: f64 and ys
    using that
  proof (induction ys arbitrary: b)
    case (Cons z ys)
    show ?case
    proof (cases "y = z")
      case True
      then show ?thesis using base [of "max b y" ys] by simp
    next
      case False
      then show ?thesis using Cons by simp
    qed
  qed simp
  show ?thesis using up [OF assms(3,2)] lo [OF assms(1)] by (simp add: antisym)
qed

lemma sort_min_le:
  fixes xs :: "f64 list"
  assumes "xs \<noteq> []" "\<And>y. y \<in> set xs \<Longrightarrow> x \<le> y"
  shows "x \<le> sort xs ! (length xs div 2)"
proof -
  have "length xs div 2 < length (sort xs)" using assms(1) by simp
  then have "sort xs ! (length xs div 2) \<in> set (sort xs)" by (rule nth_mem)
  with assms(2) show ?thesis by simp
qed

section \<open>Properties\<close>

text \<open>
  C35. On a hard task the strongest endpoint of a capability_aware pool is never dropped:
  if it is not cooling down and does not lack required tools, it is not excluded, even
  under a budget downshift and whatever it costs.
\<close>

theorem hard_task_keeps_strongest_endpoint:
  assumes pool: "fp_pool_members fp pool_id = Some members"
    and strat: "canonicalize (unwrap_or (fp_pools fp pool_id) ''round_robin'') = ''capability_aware''"
    and hard: "HARD_TASK_DIFFICULTY \<le> hint_difficulty h"
    and sig: "fst (evaluate fp slots now tie pool_id (Some h)) ep = Some s"
    and best: "\<And>m. m \<in> set members \<Longrightarrow>
       capability_of fp (rnd (5 / 10)) (member_endpoint_id m) \<le> capability_of fp (rnd (5 / 10)) ep"
    and cap: "0 \<le> capability_of fp (rnd (5 / 10)) ep"
      "rnd (capability_of fp (rnd (5 / 10)) ep) = capability_of fp (rnd (5 / 10)) ep"
    and healthy: "cooling (fp_metrics fp ep) now = None"
    and tools: "hint_has_tools h \<longrightarrow>
       supports_tools (unwrap_or (fp_profiles fp ep) endpoint_profile_default) \<noteq> Some False"
  shows "\<not> sig_excluded s"
proof -
  let ?q = "pool_query fp slots now pool_id (Some h)"
  let ?c = "capability_of fp (rnd (5 / 10))"
  obtain member where m: "member \<in> set members" "member_endpoint_id member = ep"
    and ex: "sig_excluded s = sig_excluded (snd (assess fp ?q (max_pool_capability fp ?q members)
       (budget_protected fp ?q (max_pool_capability fp ?q members) members) (median_cost fp ?q members) member))"
    using evaluate_signal [OF pool sig] by blast
  have q: "rq_strategy ?q = ''capability_aware''" "rq_difficulty ?q = hint_difficulty h"
    "rq_has_tools ?q = hint_has_tools h" "rq_now ?q = now"
    using strat by (simp_all add: pool_query_def route_query_of_def choose_hint_def)
  have "foldl max 0 (map (\<lambda>m. ?c (member_endpoint_id m)) members) = ?c ep"
    using m best cap(1) by (intro foldl_max_attained) auto
  then have mc: "max_pool_capability fp ?q members = ?c ep" by (simp add: max_pool_capability_def q(1))
  have "fsub (?c ep) CAPABILITY_TOP_TOLERANCE \<le> ?c ep"
    unfolding fsub_def by (rule rnd_lit_le [OF _ cap(2)]) (simp add: CAPABILITY_TOP_TOLERANCE_def rnd_nonneg)
  then have "ep \<in> set (budget_protected fp ?q (max_pool_capability fp ?q members) members)"
    using m hard by (force simp: budget_protected_def mc q capability_qualified_def)
  then show ?thesis using healthy tools by (auto simp: ex assess_def Let_def m(2) q)
qed

definition demo_metric :: "int \<Rightarrow> endpoint_metric" where
  "demo_metric errors = (endpoint_metric_new ''ep'' 0)\<lparr>total_requests := 10, total_errors := errors\<rparr>"

definition demo_provider :: "string \<Rightarrow> int \<Rightarrow> feedback_provider" where
  "demo_provider strategy errors =
     \<lparr>fp_metrics = [''ep'' \<mapsto> demo_metric errors], fp_pools = [''pool'' \<mapsto> strategy],
      fp_pool_members = [''pool'' \<mapsto>
        [\<lparr>member_endpoint_id = ''ep'', member_priority = 1, member_weight = 1\<rparr>]],
      fp_profiles = [''ep'' \<mapsto> endpoint_profile_default\<lparr>price := known 1 0, capability_score := 1\<rparr>],
      fp_hints = Map.empty\<rparr>"

definition demo_hint :: route_hint where
  "demo_hint = \<lparr>hint_input_tokens = 1000000, hint_output_tokens = 0, hint_has_tools = False,
     hint_difficulty = 1, hint_downshift = True, hint_pool_id = ''pool'',
     hint_affinity_enabled = False, hint_sticky_endpoint_id = None\<rparr>"

definition no_slots :: hint_slots where
  "no_slots = \<lparr>task_hint = None, current_hint = None\<rparr>"

lemma hard_le_1: "HARD_TASK_DIFFICULTY \<le> 1"
  using lit_unit [of "55 / 100"] by (simp add: HARD_TASK_DIFFICULTY_def)

theorem hard_task_keeps_strongest_endpoint_witness:
  "\<exists>s. fst (evaluate (demo_provider ''smart'' 9) no_slots 5 length ''pool'' (Some demo_hint)) ''ep'' = Some s
      \<and> \<not> sig_excluded s"
proof -
  have "\<exists>s. fst (evaluate (demo_provider ''smart'' 9) no_slots 5 length ''pool'' (Some demo_hint)) ''ep'' = Some s"
    by (simp add: evaluate_def demo_provider_def Let_def assess_def apply_affinity_def route_query_of_def
        choose_hint_def demo_hint_def)
  then obtain s where s:
    "fst (evaluate (demo_provider ''smart'' 9) no_slots 5 length ''pool'' (Some demo_hint)) ''ep'' = Some s" ..
  have "\<not> sig_excluded s"
    by (rule hard_task_keeps_strongest_endpoint [OF _ _ _ s])
      (auto simp: demo_provider_def demo_hint_def capability_of_def canonicalize_def hard_le_1 f64_simps
        cooling_def demo_metric_def endpoint_metric_new_def)
  with s show ?thesis by blast
qed

text \<open>
  The budget downshift keeps the cheapest endpoint of a pool without recent errors:
  a priced member whose expected cost is minimal among the priced members is never
  excluded for budget reasons when its recent error rate is absent or zero.
\<close>

theorem downshift_keeps_cheapest_endpoint:
  assumes m: "member \<in> set members" "fp_profiles fp (member_endpoint_id member) = Some pr" "is_priced (price pr)"
    and clean: "error_rate_of (fp_metrics fp (member_endpoint_id member)) \<in> {None, Some 0}"
    and cheapest: "\<And>c. c \<in> set (priced_costs fp q members) \<Longrightarrow>
       expected_cost pr (rq_input_tok q) (rq_output_tok q) 0 \<le> c"
    and pos: "prices_nonneg (price pr)"
  shows "ct_exclusion_reason (fst (assess fp q mc protected (median_cost fp q members) member)) \<noteq> ''budget_downshift''"
proof -
  let ?c = "expected_cost pr (rq_input_tok q) (rq_output_tok q) 0"
  have "?c \<in> set (priced_costs fp q members)"
    using m by (force simp: priced_costs_def List.map_filter_def split: option.splits)
  then have ne: "priced_costs fp q members \<noteq> []" by auto
  have le: "?c \<le> median_cost fp q members"
    using sort_min_le [OF ne cheapest] ne by (simp add: median_cost_def Let_def)
  have "1 \<le> rnd (105 / 100)" by (rule rnd_lit_ge) (simp_all add: f64_simps)
  then have "?c \<le> median_cost fp q members * rnd (105 / 100)"
    using le expected_cost_nonneg [OF pos, of "rq_input_tok q" "rq_output_tok q" 0]
      mult_mono [of ?c "median_cost fp q members" 1 "rnd (105 / 100)"] by simp
  moreover have "rnd ?c = ?c" using m(3) by (simp add: expected_cost_def Let_def)
  ultimately have "?c \<le> fmul (median_cost fp q members) (rnd (105 / 100))"
    unfolding fmul_def by (intro rnd_lit_ge)
  moreover have "unwrap_or (error_rate_of (fp_metrics fp (member_endpoint_id member))) 0 = 0"
    using clean by auto
  ultimately show ?thesis using m by (simp add: assess_def Let_def)
qed

theorem downshift_keeps_cheapest_endpoint_witness:
  "ct_exclusion_reason (fst (assess (demo_provider ''cost_aware'' 0)
      (pool_query (demo_provider ''cost_aware'' 0) no_slots 5 ''pool'' (Some demo_hint)) 1 []
      (median_cost (demo_provider ''cost_aware'' 0)
        (pool_query (demo_provider ''cost_aware'' 0) no_slots 5 ''pool'' (Some demo_hint))
        [\<lparr>member_endpoint_id = ''ep'', member_priority = 1, member_weight = 1\<rparr>])
      \<lparr>member_endpoint_id = ''ep'', member_priority = 1, member_weight = 1\<rparr>)) \<noteq> ''budget_downshift''"
  by (rule downshift_keeps_cheapest_endpoint
      [where pr = "endpoint_profile_default\<lparr>price := known 1 0, capability_score := 1\<rparr>"])
    (simp_all add: demo_provider_def known_def is_priced_def error_rate_of_def demo_metric_def
      endpoint_metric_new_def fdiv_def prices_nonneg_def input_price_def output_price_def
      endpoint_profile_default_def priced_costs_def List.map_filter_def)

text \<open>
  A soft budget can empty a pool: the median is taken over costs without errors and
  compared with a cost that includes the error rate, so the only endpoint of a pool is
  dropped as too expensive once one in ten of its requests has failed.
\<close>

theorem downshift_can_drop_the_only_endpoint:
  "\<exists>s. fst (evaluate (demo_provider ''cost_aware'' 1) no_slots 5 length ''pool'' (Some demo_hint)) ''ep'' = Some s
      \<and> sig_excluded s \<and> sig_cooldown_secs s = None"
proof -
  let ?pr = "endpoint_profile_default\<lparr>price := known 1 0, capability_score := 1\<rparr>"
  have est: "estimate_cost (known 1 0) 1000000 0 = 1"
    by (simp add: estimate_cost_def per_million_def known_def input_price_def output_price_def
        fadd_def fmul_def fdiv_def f64_of_nat_def f64_simps)
  have z: "fclamp 0 0 (rnd (95 / 100)) = 0" using lit_unit [of "95 / 100"] by (simp add: fclamp_def)
  have t: "fclamp (rnd (1 / 10)) 0 (rnd (95 / 100)) = rnd (1 / 10)"
    by (rule fclamp_id) (simp_all add: rnd_nonneg rnd_mono)
  have c0: "expected_cost ?pr 1000000 0 0 = 1"
    using est by (simp add: expected_cost_def Let_def z [simplified] is_priced_def known_def fmul_def fadd_def f64_simps)
  have c1: "expected_cost ?pr 1000000 0 (rnd (1 / 10)) = fadd 1 (rnd (1 / 10))"
    using est by (simp add: expected_cost_def Let_def t [simplified] is_priced_def known_def fmul_def)
  have "fmul 1 (rnd (105 / 100)) \<le> 17 / 16"
    unfolding fmul_def by (rule rnd_lit_le)
      (simp_all add: rnd_eval [where s = 52 and n = 4728779608739021] rnd_eval [where s = 52 and n = 4785074604081152])
  also have "(17 / 16 :: rat) < 35 / 32" by simp
  also have "\<dots> \<le> fadd 1 (rnd (1 / 10))"
    unfolding fadd_def by (rule rnd_lit_ge)
      (simp_all add: rnd_eval [where s = 56 and n = 7205759403792794] rnd_eval [where s = 52 and n = 4925812092436480])
  finally have dear: "fmul 1 (rnd (105 / 100)) < fadd 1 (rnd (1 / 10))" .
  show ?thesis
    using dear c0 c1
    by (simp add: evaluate_def demo_provider_def Let_def assess_def apply_affinity_def route_query_of_def
        choose_hint_def demo_hint_def median_cost_def priced_costs_def List.map_filter_def error_rate_of_def
        cooling_def demo_metric_def endpoint_metric_new_def budget_protected_def is_priced_def known_def
        canonicalize_def fdiv_def max_pool_capability_def)
qed

text \<open>
  Session affinity only promotes: it never changes which endpoints are excluded or
  cooled down, and the only score it can change is that of a sticky endpoint that is not
  excluded, by exactly the boost.
\<close>

theorem affinity_only_promotes_sticky:
  assumes "apply_affinity fp q mc members sigs ep = Some s'"
  shows "\<exists>s. sigs ep = Some s \<and> sig_excluded s' = sig_excluded s \<and>
     sig_cooldown_secs s' = sig_cooldown_secs s \<and>
     (sig_score s' \<noteq> sig_score s \<longrightarrow> rq_sticky q = Some ep \<and> \<not> sig_excluded s' \<and>
        sig_score s' = Some (fadd (unwrap_or (sig_score s) 0) AFFINITY_BOOST))"
  using affinity_frame [OF assms] by auto

theorem affinity_only_promotes_sticky_witness:
  "\<exists>s'. apply_affinity (demo_provider ''cost_aware'' 0)
      (pool_query (demo_provider ''cost_aware'' 0) no_slots 5 ''pool''
        (Some (demo_hint\<lparr>hint_affinity_enabled := True, hint_sticky_endpoint_id := Some ''ep''\<rparr>))) 1 []
      [''ep'' \<mapsto> \<lparr>sig_score = Some 2, sig_excluded = False, sig_cooldown_secs = None,
                   sig_recent_error_rate = None\<rparr>] ''ep'' = Some s' \<and>
      sig_score s' = Some 10002 \<and> \<not> sig_excluded s'"
proof -
  let ?a = "apply_affinity (demo_provider ''cost_aware'' 0)
      (pool_query (demo_provider ''cost_aware'' 0) no_slots 5 ''pool''
        (Some (demo_hint\<lparr>hint_affinity_enabled := True, hint_sticky_endpoint_id := Some ''ep''\<rparr>))) 1 []
      [''ep'' \<mapsto> \<lparr>sig_score = Some 2, sig_excluded = False, sig_cooldown_secs = None,
                   sig_recent_error_rate = None\<rparr>] ''ep''"
  have "\<exists>s'. ?a = Some s' \<and> sig_score s' = Some 10002"
    by (simp add: apply_affinity_def pool_query_def route_query_of_def choose_hint_def demo_provider_def
        demo_hint_def sticky_is_capable_def canonicalize_def sticky_cache_collapsed_def best_other_ratio_def
        List.map_filter_def observed_ratio_def AFFINITY_BOOST_def fadd_def f64_simps split: option.split)
  then obtain s' where s': "?a = Some s'" "sig_score s' = Some 10002" by blast
  with affinity_only_promotes_sticky [OF s'(1)] show ?thesis by auto
qed

text \<open>An evaluation reads the hints through the one it chooses only.\<close>

lemma evaluate_hint_cong:
  assumes "choose_hint fp slots pool_id rh = choose_hint (fp\<lparr>fp_hints := shared\<rparr>) slots' pool_id rh'"
  shows "evaluate fp slots now tie pool_id rh = evaluate (fp\<lparr>fp_hints := shared\<rparr>) slots' now tie pool_id rh'"
proof -
  let ?g = "fp\<lparr>fp_hints := shared\<rparr>"
  note assms
  moreover have f: "fp_metrics ?g = fp_metrics fp" "fp_profiles ?g = fp_profiles fp"
    "fp_pools ?g = fp_pools fp" "fp_pool_members ?g = fp_pool_members fp" by simp_all
  moreover have c: "capability_of ?g = capability_of fp" by (intro ext) (simp only: capability_of_def f)
  moreover have "max_pool_capability ?g = max_pool_capability fp" "budget_protected ?g = budget_protected fp"
    by (intro ext, simp only: max_pool_capability_def budget_protected_def c)+
  moreover have p: "priced_costs ?g = priced_costs fp" by (intro ext) (simp only: priced_costs_def f)
  moreover have "median_cost ?g = median_cost fp" by (intro ext) (simp only: median_cost_def p)
  moreover have "assess ?g = assess fp" by (intro ext) (simp only: assess_def f)
  moreover have o: "observed_ratio ?g = observed_ratio fp" by (intro ext) (simp only: observed_ratio_def f)
  moreover have b: "best_other_ratio ?g = best_other_ratio fp"
    by (intro ext) (simp only: best_other_ratio_def o)
  moreover have d: "sticky_cache_collapsed ?g = sticky_cache_collapsed fp"
    by (intro ext) (simp only: sticky_cache_collapsed_def o b)
  moreover have e: "sticky_is_capable ?g = sticky_is_capable fp"
    by (intro ext) (simp only: sticky_is_capable_def c)
  moreover have "apply_affinity ?g = apply_affinity fp"
    by (intro ext) (simp only: apply_affinity_def d e)
  moreover have "trace_cmp ?g = trace_cmp fp" by (intro ext) (simp only: trace_cmp_def f)
  ultimately show ?thesis by (simp only: evaluate_def)
qed

text \<open>
  A request that brings its own hint is routed by it alone: the shared hint map and
  the process-wide slot, which concurrent requests overwrite, have no influence.
\<close>

theorem request_hint_isolates_from_shared_state:
  "evaluate fp slots now tie pool_id (Some h) =
   evaluate (fp\<lparr>fp_hints := shared\<rparr>) slots' now tie pool_id (Some h)"
  by (rule evaluate_hint_cong) (simp add: choose_hint_def)

text \<open>
  The trace comparison is not an order: scores closer than a millionth count as equal,
  so three candidates with close scores and different load can each sort before the
  next one in a circle.
\<close>

theorem trace_order_has_a_cycle:
  "let c = (\<lambda>ep s. \<lparr>ct_endpoint_id = ep, ct_capability = 1, ct_expected_cost = 1, ct_score = Some s,
              ct_excluded = False, ct_exclusion_reason = []\<rparr>);
       load = (\<lambda>n. (endpoint_metric_new ''ep'' 0)\<lparr>active_requests := n\<rparr>);
       fp = (demo_provider ''cost_aware'' 0)\<lparr>fp_metrics :=
              [''a'' \<mapsto> load 0, ''b'' \<mapsto> load 1, ''c'' \<mapsto> load 2]\<rparr>;
       cmp = trace_cmp fp length;
       a = c ''a'' 0; b = c ''b'' (1 / 2 ^ 20); d = c ''c'' (1 / 2 ^ 19)
   in cmp a b = Less \<and> cmp b d = Less \<and> cmp d a = Less"
proof -
  have e: "rnd (1 / 2 ^ 20) = 1 / 2 ^ 20" "rnd (1 / 2 ^ 19) = 1 / 2 ^ 19"
    by (simp_all add: rnd_eval [where s = 72 and n = 4503599627370496] rnd_eval [where s = 71 and n = 4503599627370496])
  have lo: "1 / 2 ^ 20 \<le> rnd (1 / 10 ^ 6)" by (rule rnd_lit_ge) (use e in simp_all)
  have "rnd (1 / 10 ^ 6) \<le> rnd (1 / 2 ^ 19 * (3 / 4))" by (rule rnd_mono) simp
  also have "\<dots> < 1 / 2 ^ 19" by (simp add: rnd_eval [where s = 72 and n = 6755399441055744])
  finally have hi: "rnd (1 / 10 ^ 6) < 1 / 2 ^ 19" .
  have s: "fsub 0 (1 / 2 ^ 20) = - (1 / 2 ^ 20)" "fsub (1 / 2 ^ 20) (1 / 2 ^ 19) = - (1 / 2 ^ 20)"
    using e rnd_minus [of "1 / 2 ^ 20"] by (simp_all add: fsub_def)
  have s3: "fsub (1 / 524288) 0 = 1 / 524288" using e(2) by (simp add: fsub_def)
  have c: "score_cmp (Some 0) (Some (1 / 2 ^ 20)) = Equal"
    "score_cmp (Some (1 / 2 ^ 20)) (Some (1 / 2 ^ 19)) = Equal"
    "score_cmp (Some (1 / 2 ^ 19)) (Some 0) = Less"
    unfolding score_cmp_def using lo hi by (simp_all add: s [simplified] s3 cmp_of_def)
  show ?thesis
    unfolding Let_def trace_cmp_def
    by (simp only: candidate_trace.simps c) (simp add: cmp_of_def then_with_def endpoint_metric_new_def)
qed

end
