(* ===== verification/Sync.thy ===== *)
theory Sync
  imports Auth Routing
begin

text \<open>
  sync/mod.rs: how the database becomes the in-memory routing tables and the pools of the
  gateway engine. The joins of the two statements are computed from the tables; which
  statement fails is part of the environment. The engine is seen through the pools pushed
  to it: the answer of \<open>upsert_pool\<close> is ignored by the code. Gateway structs keep the
  fields the code sets to something other than the library's default.
\<close>

section \<open>Rows of the join\<close>

record sync_row =
  sr_id :: string
  sr_account_id :: string
  sr_upstream_model_id :: string
  sr_enabled :: bool
  sr_pool_priority :: int
  sr_pool_weight :: int
  sr_provider_type :: string
  sr_protocol :: string
  sr_base_url :: string
  sr_api_key :: string
  sr_account_name :: string
  sr_input_price :: "f64 option"
  sr_output_price :: "f64 option"
  sr_capability_score :: f64
  sr_supports_tools :: "int option"
  sr_context_length :: "int option"
  sr_health_status :: string
  sr_cooldown_until :: "nat option"

definition sync_row_of :: "endpoint_row \<Rightarrow> int \<Rightarrow> int \<Rightarrow> provider_account \<Rightarrow> sync_row" where
  "sync_row_of e pri wt pa =
     \<lparr>sr_id = er_id e, sr_account_id = er_account_id e, sr_upstream_model_id = er_upstream_model_id e,
      sr_enabled = er_enabled e, sr_pool_priority = pri, sr_pool_weight = wt,
      sr_provider_type = pa_provider_type pa, sr_protocol = pa_protocol pa, sr_base_url = pa_base_url pa,
      sr_api_key = pa_api_key pa, sr_account_name = pa_name pa,
      sr_input_price = er_input_price_per_1m e, sr_output_price = er_output_price_per_1m e,
      sr_capability_score = er_capability_score e, sr_supports_tools = er_supports_tools e,
      sr_context_length = er_context_length e, sr_health_status = er_health_status e,
      sr_cooldown_until = er_cooldown_until e\<rparr>"

definition joined_rows :: "catalog \<Rightarrow> string \<Rightarrow> sync_row list" where
  "joined_rows db pool_id =
     concat (map (\<lambda>e. concat (map (\<lambda>(p, ep, pri, wt). concat (map (\<lambda>pa.
        if er_id e = ep \<and> er_account_id e = pa_id pa \<and> p = pool_id \<and> er_enabled e \<and> pa_status pa = ''active''
        then [sync_row_of e pri wt pa] else []) (ct_accounts db))) (ct_pool_endpoints db))) (ct_endpoints db))"

text \<open>priority DESC, weight DESC, id ASC\<close>

definition row_cmp :: "(string \<Rightarrow> string \<Rightarrow> ordering) \<Rightarrow> sync_row \<Rightarrow> sync_row \<Rightarrow> ordering" where
  "row_cmp collate a b =
     then_with (cmp_of (sr_pool_priority b) (sr_pool_priority a))
       (then_with (cmp_of (sr_pool_weight b) (sr_pool_weight a)) (collate (sr_id a) (sr_id b)))"

definition pool_rows :: "(string \<Rightarrow> string \<Rightarrow> ordering) \<Rightarrow> catalog \<Rightarrow> string \<Rightarrow> sync_row list" where
  "pool_rows collate db pool_id = sort_by (row_cmp collate) (joined_rows db pool_id)"

definition vm_records :: "catalog \<Rightarrow> string \<Rightarrow> (string \<times> string) list" where
  "vm_records db pool_id =
     map (\<lambda>vm. (vm_id vm, vm_name vm)) (filter (\<lambda>vm. vm_pool_id vm = pool_id) (ct_virtual_models db))"

section \<open>Health, capabilities, members\<close>

definition seed_health :: "nat \<Rightarrow> metric_map \<Rightarrow> sync_row \<Rightarrow> metric_map" where
  "seed_health now ms r =
     (if ms (sr_id r) \<noteq> None then ms
      else ms(sr_id r \<mapsto> (endpoint_metric_new (sr_id r) now)
             \<lparr>health_status := sr_health_status r,
              cooldown_until := (case sr_cooldown_until r of
                 None \<Rightarrow> None | Some until \<Rightarrow> if now < until then Some until else None)\<rparr>))"

definition configured_capabilities :: "sync_row list \<Rightarrow> (string \<times> f64) list" where
  "configured_capabilities rows = map (\<lambda>r. (sr_upstream_model_id r,
     effective_capability_score (sr_upstream_model_id r) (sr_capability_score r))) rows"

definition profile_of :: "sync_row \<Rightarrow> f64 \<Rightarrow> endpoint_profile" where
  "profile_of r capability = endpoint_profile_default
     \<lparr>price := \<lparr>input_per_1m = sr_input_price r, output_per_1m = sr_output_price r, cache_read_per_1m = None\<rparr>,
      capability_score := capability,
      family_capability_score := default_capability_score (sr_upstream_model_id r) None,
      supports_tools := or_else (map_option (\<lambda>v. v \<noteq> 0) (sr_supports_tools r)) (Some True),
      context_length := sr_context_length r\<rparr>"

definition member_of :: "sync_row \<Rightarrow> pool_endpoint_member" where
  "member_of r = \<lparr>member_endpoint_id = sr_id r, member_priority = sr_pool_priority r,
     member_weight = sr_pool_weight r\<rparr>"

text \<open>The members of a pool, and the profiles its rows leave behind, the last row of an id winning.\<close>

definition pool_profiles :: "sync_row list \<Rightarrow> (string \<rightharpoonup> endpoint_profile) \<Rightarrow> (string \<rightharpoonup> endpoint_profile)" where
  "pool_profiles rows ps =
     foldl (\<lambda>ps (r, c). ps(sr_id r \<mapsto> profile_of r c)) ps
       (zip rows (resolve_pool_capabilities (configured_capabilities rows)))"

definition pool_members_of :: "sync_row list \<Rightarrow> pool_endpoint_member list" where
  "pool_members_of rows =
     map (\<lambda>(r, c). member_of r) (zip rows (resolve_pool_capabilities (configured_capabilities rows)))"

section \<open>What the gateway is given\<close>

datatype provider_kind = Anthropic | OpenAiCompatible

record gateway_endpoint =
  ge_endpoint_id :: string
  ge_provider_name :: "string option"
  ge_source_endpoint_id :: "string option"
  ge_provider_family :: "string option"
  ge_provider_kind :: provider_kind
  ge_driver_id :: string
  ge_base_url :: string
  ge_api_key :: string
  ge_default_model :: "string option"
  ge_model_mapping :: "string \<rightharpoonup> string"
  ge_enabled :: bool
  ge_metadata :: "string \<rightharpoonup> string"

definition map_provider :: "string \<Rightarrow> string \<Rightarrow> provider_kind \<times> string \<times> string option" where
  "map_provider protocol provider_type =
     (let p = to_ascii_lowercase protocol in
      if p = ''anthropic'' then (Anthropic, ''anthropic'', Some ''anthropic'')
      else (OpenAiCompatible, ''openai-compatible'', Some p))"

definition normalize_base_url :: "string \<Rightarrow> string" where
  "normalize_base_url url =
     (let trimmed = trim_end_char (CHR ''/'') (trim url) in
      if trimmed = [] then [] else trimmed @ ''/'')"

definition endpoint_metadata :: "sync_row \<Rightarrow> string \<rightharpoonup> string" where
  "endpoint_metadata r = [''account_id'' \<mapsto> sr_account_id r, ''account_name'' \<mapsto> sr_account_name r,
     ''provider_type'' \<mapsto> sr_provider_type r, ''protocol'' \<mapsto> sr_protocol r]"

text \<open>Both places that build an endpoint fill it the same way but for the model mapping.\<close>

definition gateway_endpoint_of :: "sync_row \<Rightarrow> (string \<rightharpoonup> string) \<Rightarrow> gateway_endpoint" where
  "gateway_endpoint_of r mapping =
     (case map_provider (sr_protocol r) (sr_provider_type r) of (kind, driver, family) \<Rightarrow>
       \<lparr>ge_endpoint_id = sr_id r, ge_provider_name = Some (sr_account_name r),
        ge_source_endpoint_id = Some (sr_upstream_model_id r), ge_provider_family = family,
        ge_provider_kind = kind, ge_driver_id = driver,
        ge_base_url = normalize_base_url (sr_base_url r), ge_api_key = sr_api_key r,
        ge_default_model = Some (sr_upstream_model_id r), ge_model_mapping = mapping,
        ge_enabled = sr_enabled r, ge_metadata = endpoint_metadata r\<rparr>)"

definition model_mapping :: "sync_row \<Rightarrow> string \<Rightarrow> (string \<times> string) list \<Rightarrow> string \<rightharpoonup> string" where
  "model_mapping r pool_name vms =
     foldl (\<lambda>m (vid, vname). m(vname \<mapsto> sr_upstream_model_id r))
       [''*'' \<mapsto> sr_upstream_model_id r, pool_name \<mapsto> sr_upstream_model_id r,
        sr_upstream_model_id r \<mapsto> sr_upstream_model_id r] vms"

datatype load_balancing = ScoreOrdered | Fallback | Random | RoundRobin

definition map_strategy :: "string \<Rightarrow> bool \<Rightarrow> load_balancing" where
  "map_strategy strategy session_affinity_enabled =
     (let s = canonicalize strategy in
      if session_affinity_enabled \<or> uses_score_order s then ScoreOrdered
      else if s = ''fallback'' then Fallback
      else if s = ''random'' then Random
      else RoundRobin)"

datatype retry_condition = HttpStatus nat | TimeoutError | TransportError

record retry_policy =
  rp_max_attempts :: nat
  rp_per_attempt_timeout_ms :: "nat option"
  rp_retry_on :: "retry_condition list"
  rp_stop_after_stream_started :: bool

definition retry_conditions :: "retry_condition list" where
  "retry_conditions = [HttpStatus 429, HttpStatus 500, HttpStatus 502, HttpStatus 503, HttpStatus 504,
     TimeoutError, TransportError]"

definition retry_policy_of :: "string \<Rightarrow> nat \<Rightarrow> retry_policy" where
  "retry_policy_of strategy n =
     \<lparr>rp_max_attempts = (if strategy = ''fallback'' then max n 1 else if 1 < n then 2 else 1),
      rp_per_attempt_timeout_ms = None, rp_retry_on = retry_conditions, rp_stop_after_stream_started = True\<rparr>"

record provider_pool =
  pp_pool_id :: string
  pp_endpoints :: "gateway_endpoint list"
  pp_load_balancing :: load_balancing
  pp_retry_policy :: retry_policy
  pp_metadata :: "string \<rightharpoonup> string"

definition provider_pool_of :: "model_pool \<Rightarrow> sync_row list \<Rightarrow> (string \<times> string) list \<Rightarrow> provider_pool" where
  "provider_pool_of pool rows vms =
     (let eps = map (\<lambda>r. gateway_endpoint_of r (model_mapping r (mp_name pool) vms)) rows in
      \<lparr>pp_pool_id = mp_id pool, pp_endpoints = eps,
       pp_load_balancing = map_strategy (mp_strategy pool) (mp_session_affinity_enabled pool \<noteq> 0),
       pp_retry_policy = retry_policy_of (mp_strategy pool) (length eps),
       pp_metadata = [''strategy'' \<mapsto> mp_strategy pool]\<rparr>)"

text \<open>Every key a pool answers to: its id, its name, and the ids and names of its Virtual Models.\<close>

definition pool_keys :: "model_pool \<Rightarrow> (string \<times> string) list \<Rightarrow> string list" where
  "pool_keys pool vms = [mp_id pool, mp_name pool] @ concat (map (\<lambda>(i, n). [i, n]) vms)"

section \<open>The synchronisation\<close>

record sync_state =
  ss_pools :: "string \<rightharpoonup> model_pool"
  ss_pool_members :: "string \<rightharpoonup> pool_endpoint_member list"
  ss_profiles :: "string \<rightharpoonup> endpoint_profile"
  ss_metrics :: metric_map
  ss_upserts :: "provider_pool list"

text \<open>
  The database and the moment, and which statements answer: the list of pools, the rows
  of a pool and its Virtual Models, by pool id.
\<close>

record sync_env =
  se_db :: catalog
  se_now :: nat
  se_collate :: "string \<Rightarrow> string \<Rightarrow> ordering"
  se_pools_ok :: bool
  se_rows_ok :: "string \<Rightarrow> bool"
  se_vms_ok :: "string \<Rightarrow> bool"

definition env_rows :: "sync_env \<Rightarrow> model_pool \<Rightarrow> sync_row list" where
  "env_rows env pool = pool_rows (se_collate env) (se_db env) (mp_id pool)"

definition env_vms :: "sync_env \<Rightarrow> model_pool \<Rightarrow> (string \<times> string) list" where
  "env_vms env pool = (if se_vms_ok env (mp_id pool) then vm_records (se_db env) (mp_id pool) else [])"

definition insert_all :: "string list \<Rightarrow> 'v \<Rightarrow> (string \<rightharpoonup> 'v) \<Rightarrow> (string \<rightharpoonup> 'v)" where
  "insert_all ks v m = foldl (\<lambda>m k. m(k \<mapsto> v)) m ks"

definition sync_pool :: "sync_env \<Rightarrow> sync_state \<Rightarrow> model_pool \<Rightarrow> sync_state" where
  "sync_pool env st pool =
     (let rows = env_rows env pool;
          vms = env_vms env pool;
          keys = pool_keys pool vms;
          pp = provider_pool_of pool rows vms
      in \<lparr>ss_pools = insert_all keys pool (ss_pools st),
          ss_pool_members = insert_all keys (pool_members_of rows) (ss_pool_members st),
          ss_profiles = pool_profiles rows (ss_profiles st),
          ss_metrics = foldl (seed_health (se_now env)) (ss_metrics st) rows,
          ss_upserts = ss_upserts st @ map (\<lambda>k. pp\<lparr>pp_pool_id := k\<rparr>) keys\<rparr>)"

fun sync_loop :: "sync_env \<Rightarrow> sync_state \<Rightarrow> model_pool list \<Rightarrow> sync_state \<times> (unit + unit)" where
  "sync_loop env st [] = (st, Inr ())"
| "sync_loop env st (pool # pools) =
     (if se_rows_ok env (mp_id pool) then sync_loop env (sync_pool env st pool) pools else (st, Inl ()))"

definition enabled_pools :: "catalog \<Rightarrow> model_pool list" where
  "enabled_pools db = filter mp_enabled (ct_model_pools db)"

definition sync_all_pools :: "sync_env \<Rightarrow> sync_state \<Rightarrow> sync_state \<times> (unit + unit)" where
  "sync_all_pools env st =
     (if \<not> se_pools_ok env then (st, Inl ())
      else sync_loop env (st\<lparr>ss_pools := Map.empty, ss_pool_members := Map.empty, ss_profiles := Map.empty\<rparr>)
             (enabled_pools (se_db env)))"

text \<open>One endpoint for a direct dispatch; the fallible statement returns at most one row.\<close>

definition endpoint_rows :: "catalog \<Rightarrow> string \<Rightarrow> sync_row list" where
  "endpoint_rows db endpoint_id =
     concat (map (\<lambda>e. concat (map (\<lambda>pa.
        if pa_id pa = er_account_id e \<and> er_id e = endpoint_id \<and> er_enabled e \<and> pa_status pa = ''active''
        then [sync_row_of e 0 0 pa] else []) (ct_accounts db))) (ct_endpoints db))"

definition load_endpoint_for_dispatch :: "bool \<Rightarrow> catalog \<Rightarrow> string \<Rightarrow> unit + gateway_endpoint option" where
  "load_endpoint_for_dispatch ok db endpoint_id =
     (if \<not> ok then Inl ()
      else case endpoint_rows db endpoint_id of
        [] \<Rightarrow> Inr None
      | r # _ \<Rightarrow> Inr (Some (gateway_endpoint_of r
          [''*'' \<mapsto> sr_upstream_model_id r, sr_upstream_model_id r \<mapsto> sr_upstream_model_id r])))"

text \<open>The tables as the feedback provider of Routing sees them.\<close>

definition provider_of :: "sync_state \<Rightarrow> (string \<rightharpoonup> route_hint) \<Rightarrow> feedback_provider" where
  "provider_of st hints =
     \<lparr>fp_metrics = ss_metrics st, fp_pools = (\<lambda>k. map_option mp_strategy (ss_pools st k)),
      fp_pool_members = ss_pool_members st, fp_profiles = ss_profiles st, fp_hints = hints\<rparr>"

section \<open>Lemmas\<close>

lemma insert_all_apply [simp]: "insert_all ks v m k = (if k \<in> set ks then Some v else m k)"
  unfolding insert_all_def by (induction ks arbitrary: m) simp_all

lemma length_capabilities [simp]: "length (resolve_pool_capabilities xs) = length xs"
  by (simp add: resolve_pool_capabilities_def Let_def)

lemma length_configured [simp]: "length (configured_capabilities rows) = length rows"
  by (simp add: configured_capabilities_def)

lemma pool_members_of_eq [simp]: "pool_members_of rows = map member_of rows"
proof -
  have "map (\<lambda>(r, c). member_of r) (zip rows cs) = map member_of rows" if "length cs = length rows" for cs :: "f64 list"
    using that by (induction rows cs rule: list_induct2') simp_all
  then show ?thesis by (simp add: pool_members_of_def)
qed

lemma member_id [simp]: "member_endpoint_id (member_of r) = sr_id r"
  by (simp add: member_of_def)

lemma foldl_upd_other:
  "ep \<notin> f ` set xs \<Longrightarrow> foldl (\<lambda>m x. m(f x \<mapsto> g x)) m xs ep = m ep"
  by (induction xs arbitrary: m) simp_all

lemma foldl_upd_cases:
  "foldl (\<lambda>m x. m(f x \<mapsto> g x)) m xs ep = m ep \<and> ep \<notin> f ` set xs \<or>
   (\<exists>x \<in> set xs. f x = ep \<and> foldl (\<lambda>m x. m(f x \<mapsto> g x)) m xs ep = Some (g x))"
proof (induction xs arbitrary: m)
  case (Cons y ys)
  from Cons.IH [of "m(f y \<mapsto> g y)"] show ?case by auto
qed simp

lemma pool_profiles_cases:
  "pool_profiles rows ps ep = ps ep \<and> ep \<notin> sr_id ` set rows \<or>
   (\<exists>r c. (r, c) \<in> set (zip rows (resolve_pool_capabilities (configured_capabilities rows))) \<and>
      sr_id r = ep \<and> pool_profiles rows ps ep = Some (profile_of r c))"
proof -
  let ?z = "zip rows (resolve_pool_capabilities (configured_capabilities rows))"
  have "fst ` set ?z = set rows"
    by (metis length_capabilities length_configured list.set_map map_fst_zip)
  then have ids: "(sr_id \<circ> fst) ` set ?z = sr_id ` set rows" by (metis image_comp)
  have "pool_profiles rows ps = foldl (\<lambda>m x. m((sr_id \<circ> fst) x \<mapsto> profile_of (fst x) (snd x))) ps ?z"
    by (simp add: pool_profiles_def case_prod_beta')
  then show ?thesis
    using foldl_upd_cases [of "sr_id \<circ> fst" "\<lambda>x. profile_of (fst x) (snd x)" ps ?z ep] ids by fastforce
qed

lemma seed_health_le: "ms \<subseteq>\<^sub>m seed_health now ms r"
  by (auto simp: seed_health_def map_le_def)

lemma seed_all_le: "ms \<subseteq>\<^sub>m foldl (seed_health now) ms rows"
proof (induction rows arbitrary: ms)
  case (Cons r rows)
  show ?case using map_le_trans [OF seed_health_le Cons.IH] by simp
qed simp

lemma seed_all_dom: "r \<in> set rows \<Longrightarrow> foldl (seed_health now) ms rows (sr_id r) \<noteq> None"
proof (induction rows arbitrary: ms)
  case (Cons x rows)
  have "seed_health now ms x (sr_id x) \<noteq> None" by (simp add: seed_health_def)
  then have "foldl (seed_health now) (seed_health now ms x) rows (sr_id x) \<noteq> None"
    using seed_all_le [of "seed_health now ms x" now rows]
    by (auto simp: map_le_def dom_def)
  with Cons show ?case by auto
qed simp

lemma capabilities_in_unit:
  assumes "c \<in> set (resolve_pool_capabilities (configured_capabilities rows))"
  shows "0 \<le> c \<and> c \<le> 1"
  using assms effective_capability_unit default_capability_unit
  by (auto simp: resolve_pool_capabilities_def configured_capabilities_def Let_def split: if_splits)

text \<open>
  An invariant of the tables that one pool keeps is kept by the whole synchronisation,
  whichever statement fails.
\<close>

locale table_invariant =
  fixes inv :: "sync_env \<Rightarrow> sync_state \<Rightarrow> bool"
  assumes pool: "inv env st \<Longrightarrow> inv env (sync_pool env st p)"
begin

lemma loop: "inv env st \<Longrightarrow> inv env (fst (sync_loop env st ps))"
  by (induction env st ps rule: sync_loop.induct) (simp_all add: pool)

lemma sync:
  assumes "inv env st" and "inv env (st\<lparr>ss_pools := Map.empty, ss_pool_members := Map.empty, ss_profiles := Map.empty\<rparr>)"
  shows "inv env (fst (sync_all_pools env st))"
  using assms by (simp add: sync_all_pools_def loop)

end

text \<open>What the engine holds after a run of upserts: a pool replaces the one of its id.\<close>

definition engine_pools :: "provider_pool list \<Rightarrow> (string \<rightharpoonup> provider_pool)" where
  "engine_pools ups = foldl (\<lambda>m pp. m(pp_pool_id pp \<mapsto> pp)) Map.empty ups"

definition tables_ok :: "sync_state \<Rightarrow> bool" where
  "tables_ok st \<longleftrightarrow>
     dom (ss_pools st) = dom (ss_pool_members st) \<and>
     (\<forall>k ms. ss_pool_members st k = Some ms \<longrightarrow>
        member_endpoint_id ` set ms \<subseteq> dom (ss_profiles st) \<inter> dom (ss_metrics st)) \<and>
     (\<forall>p \<in> ran (ss_profiles st). 0 \<le> capability_score p \<and> capability_score p \<le> 1 \<and>
        0 \<le> family_capability_score p \<and> family_capability_score p \<le> 1)"

definition engine_agrees :: "sync_state \<Rightarrow> bool" where
  "engine_agrees st \<longleftrightarrow> (\<forall>k ms. ss_pool_members st k = Some ms \<longrightarrow>
     (\<exists>pp pool. engine_pools (ss_upserts st) k = Some pp \<and> ss_pools st k = Some pool \<and>
        map ge_endpoint_id (pp_endpoints pp) = map member_endpoint_id ms \<and>
        pp_load_balancing pp = map_strategy (mp_strategy pool) (mp_session_affinity_enabled pool \<noteq> 0)))"

lemma pool_profiles_dom: "dom (pool_profiles rows ps) = dom ps \<union> sr_id ` set rows"
proof -
  have "pool_profiles rows ps ep \<noteq> None \<longleftrightarrow> ps ep \<noteq> None \<or> ep \<in> sr_id ` set rows" for ep
    using pool_profiles_cases [of rows ps ep] by (force dest: set_zip_leftD)
  then show ?thesis by blast
qed

lemma pool_profiles_ran:
  assumes "p \<in> ran (pool_profiles rows ps)"
  shows "p \<in> ran ps \<or> 0 \<le> capability_score p \<and> capability_score p \<le> 1 \<and>
    0 \<le> family_capability_score p \<and> family_capability_score p \<le> 1"
proof -
  obtain ep where "pool_profiles rows ps ep = Some p" using assms by (auto simp: ran_def)
  then show ?thesis
    using pool_profiles_cases [of rows ps ep] default_capability_unit
    by (auto simp: ran_def profile_of_def dest!: set_zip_rightD capabilities_in_unit)
qed

lemma seed_foldl_dom: "dom ms \<union> sr_id ` set rows \<subseteq> dom (foldl (seed_health now) ms rows)"
  using seed_all_dom seed_all_le [of ms now rows] by (fastforce dest: map_le_implies_dom_le)

lemma foldl_engine_map:
  "foldl (\<lambda>m pp. m(pp_pool_id pp \<mapsto> pp)) m (map (\<lambda>k. pp\<lparr>pp_pool_id := k\<rparr>) ks) =
     (\<lambda>k. if k \<in> set ks then Some (pp\<lparr>pp_pool_id := k\<rparr>) else m k)"
  by (induction ks arbitrary: m) (auto simp: fun_eq_iff)

lemma engine_pools_append:
  "engine_pools (ups @ map (\<lambda>k. pp\<lparr>pp_pool_id := k\<rparr>) ks) =
     (\<lambda>k. if k \<in> set ks then Some (pp\<lparr>pp_pool_id := k\<rparr>) else engine_pools ups k)"
  unfolding engine_pools_def by (simp add: foldl_engine_map)

lemma gateway_endpoint_fields [simp]:
  "ge_endpoint_id (gateway_endpoint_of r m) = sr_id r"
  "ge_model_mapping (gateway_endpoint_of r m) = m"
  "ge_default_model (gateway_endpoint_of r m) = Some (sr_upstream_model_id r)"
  "(gateway_endpoint_of r m)\<lparr>ge_model_mapping := m'\<rparr> = gateway_endpoint_of r m'"
  by (simp_all add: gateway_endpoint_of_def split: prod.splits)

lemma sync_pool_fields:
  "ss_pools (sync_pool env st p) k =
     (if k \<in> set (pool_keys p (env_vms env p)) then Some p else ss_pools st k)"
  "ss_pool_members (sync_pool env st p) k =
     (if k \<in> set (pool_keys p (env_vms env p)) then Some (map member_of (env_rows env p)) else ss_pool_members st k)"
  "ss_profiles (sync_pool env st p) = pool_profiles (env_rows env p) (ss_profiles st)"
  "ss_metrics (sync_pool env st p) = foldl (seed_health (se_now env)) (ss_metrics st) (env_rows env p)"
  "engine_pools (ss_upserts (sync_pool env st p)) k =
     (if k \<in> set (pool_keys p (env_vms env p))
      then Some ((provider_pool_of p (env_rows env p) (env_vms env p))\<lparr>pp_pool_id := k\<rparr>)
      else engine_pools (ss_upserts st) k)"
  by (simp_all add: sync_pool_def Let_def engine_pools_append)

lemma tables_ok_pool:
  assumes "tables_ok st" shows "tables_ok (sync_pool env st p)"
proof -
  let ?s = "sync_pool env st p"
  have "dom (ss_pools ?s) = dom (ss_pool_members ?s)"
    using assms by (auto simp: tables_ok_def dom_def sync_pool_fields)
  moreover have "member_endpoint_id ` set ms \<subseteq> dom (ss_profiles ?s) \<inter> dom (ss_metrics ?s)"
    if "ss_pool_members ?s k = Some ms" for k ms
  proof (cases "k \<in> set (pool_keys p (env_vms env p))")
    case True
    with that have "member_endpoint_id ` set ms = sr_id ` set (env_rows env p)"
      by (auto simp: sync_pool_fields image_image)
    then show ?thesis
      using seed_foldl_dom [of "ss_metrics st" "env_rows env p"] by (auto simp: sync_pool_fields pool_profiles_dom)
  next
    case False
    with that assms have "member_endpoint_id ` set ms \<subseteq> dom (ss_profiles st) \<inter> dom (ss_metrics st)"
      by (simp add: tables_ok_def sync_pool_fields)
    then show ?thesis
      using seed_foldl_dom [of "ss_metrics st" "env_rows env p" "se_now env"]
      unfolding sync_pool_fields(3,4) pool_profiles_dom by blast
  qed
  moreover have "0 \<le> capability_score q \<and> capability_score q \<le> 1 \<and>
      0 \<le> family_capability_score q \<and> family_capability_score q \<le> 1" if "q \<in> ran (ss_profiles ?s)" for q
    using that pool_profiles_ran [of q] assms unfolding tables_ok_def sync_pool_fields by blast
  ultimately show ?thesis unfolding tables_ok_def by blast
qed

lemma engine_agrees_pool:
  assumes "engine_agrees st" shows "engine_agrees (sync_pool env st p)"
  using assms
  by (auto simp: engine_agrees_def sync_pool_fields provider_pool_of_def Let_def comp_def)

interpretation tables: table_invariant "\<lambda>_. tables_ok"
  by unfold_locales (rule tables_ok_pool)

interpretation engine: table_invariant "\<lambda>_. engine_agrees"
  by unfold_locales (rule engine_agrees_pool)

interpretation kept_metrics: table_invariant "\<lambda>_ st. ms \<subseteq>\<^sub>m ss_metrics st" for ms
  by unfold_locales (simp add: sync_pool_fields map_le_trans [OF _ seed_all_le])

section \<open>Properties\<close>

lemma cleared_ok:
  "tables_ok (st\<lparr>ss_pools := Map.empty, ss_pool_members := Map.empty, ss_profiles := Map.empty\<rparr>)"
  "engine_agrees (st\<lparr>ss_pools := Map.empty, ss_pool_members := Map.empty, ss_profiles := Map.empty\<rparr>)"
  by (simp_all add: tables_ok_def engine_agrees_def)

text \<open>
  C31. The routing tables stay well formed: after any synchronisation, whichever statement
  of the database fails, the same keys have a pool and members, every member has a profile
  and a metric, and every capability score lies in the unit interval.
\<close>

theorem routing_tables_stay_well_formed:
  assumes "tables_ok st"
  shows "tables_ok (fst (sync_all_pools env st))"
  by (rule tables.sync [OF assms cleared_ok(1)])

definition empty_sync :: sync_state where
  "empty_sync = \<lparr>ss_pools = Map.empty, ss_pool_members = Map.empty, ss_profiles = Map.empty,
     ss_metrics = Map.empty, ss_upserts = []\<rparr>"

definition demo_env :: "(string \<Rightarrow> bool) \<Rightarrow> sync_env" where
  "demo_env rows_ok = \<lparr>se_db = demo_catalog, se_now = 0, se_collate = byte_order, se_pools_ok = True,
     se_rows_ok = rows_ok, se_vms_ok = (\<lambda>_. True)\<rparr>"

lemma empty_sync_ok: "tables_ok empty_sync" "engine_agrees empty_sync"
  by (simp_all add: tables_ok_def engine_agrees_def empty_sync_def)

theorem routing_tables_stay_well_formed_witness:
  "tables_ok (fst (sync_all_pools (demo_env (\<lambda>_. True)) empty_sync))"
  by (rule routing_tables_stay_well_formed [OF empty_sync_ok(1)])



text \<open>
  A synchronisation never forgets what the running process learned: the metrics of
  every known endpoint are untouched, whatever the database says of its health.
\<close>

theorem runtime_metrics_survive_sync:
  "ss_metrics st \<subseteq>\<^sub>m ss_metrics (fst (sync_all_pools env st))"
  by (rule kept_metrics.sync) simp_all

text \<open>The tables a run of the loop leaves, in closed form.\<close>

definition claiming :: "sync_env \<Rightarrow> model_pool list \<Rightarrow> string \<Rightarrow> model_pool option" where
  "claiming env ps k = find (\<lambda>p. k \<in> set (pool_keys p (env_vms env p))) (rev ps)"

lemma sync_loop_tables:
  "snd (sync_loop env st ps) = Inr () \<Longrightarrow>
   ss_pools (fst (sync_loop env st ps)) k =
     (case claiming env ps k of Some p \<Rightarrow> Some p | None \<Rightarrow> ss_pools st k) \<and>
   ss_pool_members (fst (sync_loop env st ps)) k =
     (case claiming env ps k of Some p \<Rightarrow> Some (map member_of (env_rows env p)) | None \<Rightarrow> ss_pool_members st k)"
proof (induction env st ps rule: sync_loop.induct)
  case (1 env st)
  show ?case by (simp add: claiming_def)
next
  case (2 env st p ps)
  then have "se_rows_ok env (mp_id p)" by (auto split: if_splits)
  with 2 show ?case by (auto simp: claiming_def find_append sync_pool_fields split: option.splits)
qed

lemma synced_tables:
  assumes "snd (sync_all_pools env st) = Inr ()"
  shows "ss_pools (fst (sync_all_pools env st)) k = claiming env (enabled_pools (se_db env)) k \<and>
     ss_pool_members (fst (sync_all_pools env st)) k =
       map_option (\<lambda>p. map member_of (env_rows env p)) (claiming env (enabled_pools (se_db env)) k)"
  using assms sync_loop_tables
  by (auto simp: sync_all_pools_def split: if_splits option.splits)

text \<open>
  A complete synchronisation makes the tables a function of the database alone: a key
  is served by the last enabled pool that carries it as its id, its name, or the id or
  name of a Virtual Model, with exactly the enabled endpoints of active accounts joined to
  that pool, and a key no enabled pool carries is served by none, whatever was served before.
\<close>

theorem synced_tables_are_the_database:
  assumes "snd (sync_all_pools env st) = Inr ()"
  shows "ss_pools (fst (sync_all_pools env st)) k = claiming env (enabled_pools (se_db env)) k \<and>
     ss_pool_members (fst (sync_all_pools env st)) k =
       map_option (\<lambda>p. map member_of (env_rows env p)) (claiming env (enabled_pools (se_db env)) k)"
  by (rule synced_tables [OF assms])

theorem synced_tables_are_the_database_witness:
  "ss_pools (fst (sync_all_pools (demo_env (\<lambda>_. True)) empty_sync)) ''auto'' = Some demo_pool"
proof -
  have "snd (sync_all_pools (demo_env (\<lambda>_. True)) empty_sync) = Inr ()"
    by (simp add: sync_all_pools_def demo_env_def enabled_pools_def demo_catalog_simps)
  from synced_tables_are_the_database [OF this, of "''auto''"] show ?thesis
    by (simp add: claiming_def enabled_pools_def demo_env_def demo_catalog_simps env_vms_def vm_records_def
        pool_keys_def)
qed

lemma pool_rows_iff:
  "r \<in> set (pool_rows c db i) \<longleftrightarrow> (\<exists>e \<in> set (ct_endpoints db). \<exists>pri wt. \<exists>pa \<in> set (ct_accounts db).
     (i, er_id e, pri, wt) \<in> set (ct_pool_endpoints db) \<and> er_account_id e = pa_id pa \<and> er_enabled e \<and>
     pa_status pa = ''active'' \<and> r = sync_row_of e pri wt pa)"
  unfolding pool_rows_def set_sort_by joined_rows_def by (fastforce split: if_splits)

lemma pool_rows_sorted: "sorted (map (\<lambda>r. - sr_pool_priority r) (pool_rows c db i))"
  unfolding pool_rows_def
  by (rule sorted_sort_by) (auto simp: row_cmp_def then_with_def cmp_of_def split: if_splits)


text \<open>A pool of two endpoints of one account, and a second pool sharing the first of them.\<close>

definition demo_account :: provider_account where
  "demo_account = \<lparr>pa_id = ''a'', pa_name = ''A'', pa_provider_type = ''openai'', pa_protocol = ''openai'',
     pa_base_url = ''http://u'', pa_api_key = ''s'', pa_status = ''active'', pa_metadata = None,
     pa_created_at = 0, pa_updated_at = 0\<rparr>"

definition demo_endpoint :: "string \<Rightarrow> string \<Rightarrow> endpoint_row" where
  "demo_endpoint i model = \<lparr>er_id = i, er_account_id = ''a'', er_name = i, er_upstream_model_id = model,
     er_enabled = True, er_priority = 0, er_weight = 1, er_health_status = ''healthy'',
     er_cooldown_until = None, er_input_price_per_1m = None, er_output_price_per_1m = None,
     er_capability_score = 1, er_supports_tools = None, er_context_length = None,
     er_metadata = None, er_created_at = 0, er_updated_at = 0\<rparr>"

definition shared_catalog :: catalog where
  "shared_catalog = empty_catalog
     \<lparr>ct_accounts := [demo_account],
      ct_endpoints := [demo_endpoint ''e1'' ''deepseek-v4-flash'', demo_endpoint ''e2'' ''deepseek-v4-pro''],
      ct_pool_endpoints := [(''mp'', ''e1'', 0, 1), (''mp'', ''e2'', 1, 1), (''mq'', ''e1'', 0, 1)],
      ct_model_pools := [demo_pool, demo_pool\<lparr>mp_id := ''mq'', mp_name := ''solo''\<rparr>]\<rparr>"

definition shared_env :: sync_env where
  "shared_env = (demo_env (\<lambda>_. True))\<lparr>se_db := shared_catalog\<rparr>"

lemmas shared_simps = shared_env_def demo_env_def shared_catalog_def demo_account_def demo_endpoint_def
  demo_pool_def empty_catalog_def

lemma shared_rows:
  "env_rows shared_env demo_pool =
     [sync_row_of (demo_endpoint ''e2'' ''deepseek-v4-pro'') 1 1 demo_account,
      sync_row_of (demo_endpoint ''e1'' ''deepseek-v4-flash'') 0 1 demo_account]"
  "env_rows shared_env (demo_pool\<lparr>mp_id := ''mq'', mp_name := ''solo''\<rparr>) =
     [sync_row_of (demo_endpoint ''e1'' ''deepseek-v4-flash'') 0 1 demo_account]"
  by (simp_all add: shared_simps env_rows_def pool_rows_def joined_rows_def sort_by_def row_cmp_def
      then_with_def cmp_of_def sync_row_of_def)


text \<open>
  A database failure during a synchronisation loses pools: the tables are cleared before
  the first per-pool statement, so when that statement fails no key is served any more,
  although the database still has the pools and the tables were complete before.
\<close>

theorem failed_sync_unserves_every_pool:
  assumes "se_pools_ok env" "enabled_pools (se_db env) = p # ps" "\<not> se_rows_ok env (mp_id p)"
  shows "sync_all_pools env st =
     (st\<lparr>ss_pools := Map.empty, ss_pool_members := Map.empty, ss_profiles := Map.empty\<rparr>, Inl ())"
  using assms by (simp add: sync_all_pools_def)

theorem failed_sync_unserves_every_pool_witness:
  "ss_pools (fst (sync_all_pools (demo_env (\<lambda>_. False))
     (fst (sync_all_pools (demo_env (\<lambda>_. True)) empty_sync)))) = Map.empty"
proof -
  have "enabled_pools (se_db (demo_env (\<lambda>_. False))) = demo_pool # []"
    by (simp add: demo_env_def enabled_pools_def demo_catalog_simps)
  from failed_sync_unserves_every_pool [OF _ this] show ?thesis by (simp add: demo_env_def)
qed

lemma model_mapping_all:
  "k \<in> {''*'', n, sr_upstream_model_id r} \<union> snd ` set vms \<Longrightarrow> model_mapping r n vms k = Some (sr_upstream_model_id r)"
  "model_mapping r n vms k = Some v \<Longrightarrow> v = sr_upstream_model_id r"
proof -
  have "foldl (\<lambda>m (vid, vname). m(vname \<mapsto> u)) m vms k = (if k \<in> snd ` set vms then Some u else m k)"
    for u :: string and m :: "string \<rightharpoonup> string"
    by (induction vms arbitrary: m) (auto split: prod.splits)
  then show "k \<in> {''*'', n, sr_upstream_model_id r} \<union> snd ` set vms \<Longrightarrow> model_mapping r n vms k = Some (sr_upstream_model_id r)"
    "model_mapping r n vms k = Some v \<Longrightarrow> v = sr_upstream_model_id r"
    by (auto simp: model_mapping_def split: if_splits)
qed

lemma unique_endpoint_row:
  assumes "distinct (map er_id (ct_endpoints db))" "distinct (map pa_id (ct_accounts db))"
    and "r \<in> set (endpoint_rows db i)" "r' \<in> set (pool_rows c db p)" "sr_id r' = i"
  obtains pri wt where "r' = r\<lparr>sr_pool_priority := pri, sr_pool_weight := wt\<rparr>"
proof -
  from assms(3) obtain e pa where 1: "e \<in> set (ct_endpoints db)" "pa \<in> set (ct_accounts db)" "er_id e = i"
    "pa_id pa = er_account_id e" "r = sync_row_of e 0 0 pa"
    by (auto simp: endpoint_rows_def split: if_splits)
  from assms(4) obtain e' pri wt pa' where 2: "e' \<in> set (ct_endpoints db)" "pa' \<in> set (ct_accounts db)"
    "er_account_id e' = pa_id pa'" "r' = sync_row_of e' pri wt pa'"
    unfolding pool_rows_iff by blast
  from 2(4) assms(5) have "er_id e' = i" by (simp add: sync_row_of_def)
  with 1 2 assms(1) have "e' = e" by (metis distinct_map inj_on_def)
  with 1 2 assms(2) have "pa' = pa" by (metis distinct_map inj_on_def)
  with \<open>e' = e\<close> 1(5) 2(4) have "r' = r\<lparr>sr_pool_priority := pri, sr_pool_weight := wt\<rparr>" by (simp add: sync_row_of_def)
  then show thesis by (rule that)
qed

text \<open>
  The direct dispatch of an endpoint uses the provider the pools use: where endpoint
  and account ids are unique, the endpoint loaded for the judge or a mirror is the one a
  pool pushed to the engine, credentials, driver and address included, with a smaller
  model mapping that still answers every name.
\<close>

theorem direct_dispatch_uses_the_pool_endpoint:
  assumes "distinct (map er_id (ct_endpoints (se_db env)))" "distinct (map pa_id (ct_accounts (se_db env)))"
    and "load_endpoint_for_dispatch ok (se_db env) i = Inr (Some ge)"
    and "pe \<in> set (pp_endpoints (provider_pool_of pool (env_rows env pool) vms))" "ge_endpoint_id pe = i"
  shows "ge = pe\<lparr>ge_model_mapping := ge_model_mapping ge\<rparr> \<and> ge_model_mapping ge \<subseteq>\<^sub>m ge_model_mapping pe \<and>
     ge_model_mapping ge ''*'' = ge_default_model pe"
proof -
  have "pe \<in> (\<lambda>r. gateway_endpoint_of r (model_mapping r (mp_name pool) vms)) ` set (env_rows env pool)"
    using assms(4) by (simp add: provider_pool_of_def Let_def)
  then obtain r' where r': "r' \<in> set (pool_rows (se_collate env) (se_db env) (mp_id pool))"
    "pe = gateway_endpoint_of r' (model_mapping r' (mp_name pool) vms)"
    unfolding env_rows_def by blast
  then have id: "sr_id r' = i" using assms(5) by simp
  let ?m = "\<lambda>r. [''*'' \<mapsto> sr_upstream_model_id r, sr_upstream_model_id r \<mapsto> sr_upstream_model_id r]"
  from assms(3) obtain r rs where rs: "endpoint_rows (se_db env) i = r # rs" and ge: "ge = gateway_endpoint_of r (?m r)"
    by (auto simp: load_endpoint_for_dispatch_def split: if_splits list.splits)
  from rs have "r \<in> set (endpoint_rows (se_db env) i)" by simp
  from unique_endpoint_row [OF assms(1,2) this r'(1) id]
  obtain pri wt where eq: "r' = r\<lparr>sr_pool_priority := pri, sr_pool_weight := wt\<rparr>" .
  have "gateway_endpoint_of r' m = gateway_endpoint_of r m" for m
    unfolding eq by (simp add: gateway_endpoint_of_def endpoint_metadata_def)
  moreover have "?m r \<subseteq>\<^sub>m model_mapping r' (mp_name pool) vms"
    unfolding map_le_def by (auto simp: model_mapping_all(1) eq)
  ultimately show ?thesis
    by (simp add: ge r'(2))
qed

theorem direct_dispatch_uses_the_pool_endpoint_witness:
  "\<exists>ge. load_endpoint_for_dispatch True shared_catalog ''e1'' = Inr (Some ge) \<and>
     ge_model_mapping ge ''*'' = Some ''deepseek-v4-flash''"
proof -
  let ?r = "sync_row_of (demo_endpoint ''e1'' ''deepseek-v4-flash'') 0 1 demo_account"
  have db: "se_db shared_env = shared_catalog" by (simp add: shared_env_def)
  have d: "distinct (map er_id (ct_endpoints (se_db shared_env)))" "distinct (map pa_id (ct_accounts (se_db shared_env)))"
    by (simp_all add: shared_simps)
  obtain ge where ge: "load_endpoint_for_dispatch True (se_db shared_env) ''e1'' = Inr (Some ge)"
    by (simp add: load_endpoint_for_dispatch_def endpoint_rows_def shared_simps)
  have pe: "gateway_endpoint_of ?r (model_mapping ?r (mp_name demo_pool) [])
      \<in> set (pp_endpoints (provider_pool_of demo_pool (env_rows shared_env demo_pool) []))"
    by (simp add: provider_pool_of_def shared_rows)
  have "ge_endpoint_id (gateway_endpoint_of ?r (model_mapping ?r (mp_name demo_pool) [])) = ''e1''"
    by (simp add: sync_row_of_def demo_endpoint_def)
  from direct_dispatch_uses_the_pool_endpoint [OF d ge pe this] ge show ?thesis
    by (simp add: db sync_row_of_def demo_endpoint_def)
qed

lemma normalize_base_url_shape:
  assumes "normalize_base_url u \<noteq> []"
  obtains t where "normalize_base_url u = t @ ''/''" "trim (t @ ''/'') = t @ ''/''" "trim_end_char (CHR ''/'') t = t" "t \<noteq> []"
proof -
  let ?t = "trim_end_char (CHR ''/'') (trim u)"
  have slash: "\<not> is_cont (CHR ''/'')" "\<not> is_whitespace [CHR ''/'']"
    by (simp_all add: is_cont_def is_whitespace_def byte_def)
  have t: "?t \<noteq> []" "normalize_base_url u = ?t @ ''/''"
    using assms by (auto simp: normalize_base_url_def Let_def split: if_splits)
  obtain n where "trim u = ?t @ replicate n (CHR ''/'')" using trim_end_char_split by blast
  then have "trim_chars (utf8_chars u) = utf8_chars ?t @ replicate n [CHR ''/'']"
    by (metis utf8_chars_trim utf8_chars_append_replicate slash(1))
  moreover have ne: "utf8_chars ?t \<noteq> []" using t(1) by simp
  ultimately have "\<not> is_whitespace (hd (utf8_chars ?t))"
    using trim_chars_hd [of "utf8_chars u"] by auto
  then have "trim (?t @ ''/'') = ?t @ ''/''"
    using ne slash by (intro trim_id) (simp_all add: utf8_chars_snoc)
  with t show thesis by (intro that [of ?t]) simp_all
qed

text \<open>
  Base addresses are canonical: normalising is idempotent, and a normalised address is
  empty or ends in exactly one slash.
\<close>

theorem normalize_base_url_canonical:
  "normalize_base_url (normalize_base_url u) = normalize_base_url u \<and>
   (normalize_base_url u = [] \<or>
    (\<exists>t. normalize_base_url u = t @ ''/'' \<and> t \<noteq> [] \<and> last t \<noteq> CHR ''/''))"
proof (cases "normalize_base_url u = []")
  case True
  then show ?thesis by (simp add: normalize_base_url_def trim_def trim_chars_def trim_end_char_def)
next
  case False
  then obtain t where t: "normalize_base_url u = t @ ''/''" "trim (t @ ''/'') = t @ ''/''"
    "trim_end_char (CHR ''/'') t = t" "t \<noteq> []"
    by (rule normalize_base_url_shape)
  have "last t \<noteq> CHR ''/''"
    using t(3,4) by (metis trim_end_char_last)
  moreover have "normalize_base_url (t @ ''/'') = t @ ''/''"
    unfolding normalize_base_url_def t(2) using t(3,4) by simp
  ultimately show ?thesis using t(1,4) by auto
qed

text \<open>
  The profile of an endpoint that two pools share is that of the pool synchronised last:
  the capability the first pool resolved for its own spread is overwritten.
\<close>

theorem shared_profile_is_the_last_pools:
  assumes "r \<in> set (env_rows env p)" "distinct (map sr_id (env_rows env p))" "se_rows_ok env (mp_id p)"
    and "snd (sync_loop env st ps) = Inr ()"
  shows "\<exists>c. (r, c) \<in> set (zip (env_rows env p) (resolve_pool_capabilities (configured_capabilities (env_rows env p)))) \<and>
    ss_profiles (fst (sync_loop env st (ps @ [p]))) (sr_id r) = Some (profile_of r c)"
proof -
  have "sync_loop env st (ps @ [p]) = (sync_pool env (fst (sync_loop env st ps)) p, Inr ())"
    using assms(3,4) by (induction env st ps rule: sync_loop.induct) (auto split: if_splits)
  then have eq: "ss_profiles (fst (sync_loop env st (ps @ [p]))) =
      pool_profiles (env_rows env p) (ss_profiles (fst (sync_loop env st ps)))"
    by (simp add: sync_pool_fields)
  have "x = r" if "x \<in> set (env_rows env p)" "sr_id x = sr_id r" for x
    using that assms(1,2) by (metis distinct_map inj_on_def)
  then show ?thesis
    using pool_profiles_cases [of "env_rows env p" "ss_profiles (fst (sync_loop env st ps))" "sr_id r"] assms(1)
    unfolding eq by (metis imageI set_zip_leftD)
qed

end
