(* ===== verification/Judge.thy ===== *)
theory Judge
  imports Tokens
begin

text \<open>
  api/judge.rs and the thresholds of policy/mod.rs: difficulty tiers, when the auxiliary
  judge is asked, the request it is sent, the metadata that attributes its usage, and how
  its answer is read. Dispatching the request is code of the gateway library: the answer
  is an argument.
\<close>

section \<open>Tiers\<close>

definition DIFFICULTY_HIGH_THRESHOLD :: f64 where "DIFFICULTY_HIGH_THRESHOLD = rnd (55 / 100)"
definition DIFFICULTY_MEDIUM_THRESHOLD :: f64 where "DIFFICULTY_MEDIUM_THRESHOLD = rnd (35 / 100)"
definition JUDGE_TRIGGER_MIN :: f64 where "JUDGE_TRIGGER_MIN = rnd (30 / 100)"
definition JUDGE_TRIGGER_MAX :: f64 where "JUDGE_TRIGGER_MAX = rnd (65 / 100)"

datatype difficulty_tier = Low | Medium | High

fun tier_rank :: "difficulty_tier \<Rightarrow> nat" where
  "tier_rank Low = 0" | "tier_rank Medium = 1" | "tier_rank High = 2"

instantiation difficulty_tier :: linorder
begin

definition less_eq_difficulty_tier :: "difficulty_tier \<Rightarrow> difficulty_tier \<Rightarrow> bool" where
  "less_eq_difficulty_tier a b \<longleftrightarrow> tier_rank a \<le> tier_rank b"

definition less_difficulty_tier :: "difficulty_tier \<Rightarrow> difficulty_tier \<Rightarrow> bool" where
  "less_difficulty_tier a b \<longleftrightarrow> tier_rank a < tier_rank b"

instance
proof
  fix a b c :: difficulty_tier
  show "(a < b) = (a \<le> b \<and> \<not> b \<le> a)" by (auto simp: less_eq_difficulty_tier_def less_difficulty_tier_def)
  show "a \<le> a" by (simp add: less_eq_difficulty_tier_def)
  show "a \<le> b \<Longrightarrow> b \<le> c \<Longrightarrow> a \<le> c" by (simp add: less_eq_difficulty_tier_def)
  show "a \<le> b \<Longrightarrow> b \<le> a \<Longrightarrow> a = b" by (cases a; cases b) (simp_all add: less_eq_difficulty_tier_def)
  show "a \<le> b \<or> b \<le> a" by (auto simp: less_eq_difficulty_tier_def)
qed

end

fun tier_as_str :: "difficulty_tier \<Rightarrow> string" where
  "tier_as_str Low = ''low''" | "tier_as_str Medium = ''medium''" | "tier_as_str High = ''high''"

fun tier_score :: "difficulty_tier \<Rightarrow> f64" where
  "tier_score Low = rnd (20 / 100)"
| "tier_score Medium = rnd (50 / 100)"
| "tier_score High = rnd (85 / 100)"

definition difficulty_tier_of :: "f64 \<Rightarrow> difficulty_tier" where
  "difficulty_tier_of d =
     (if DIFFICULTY_HIGH_THRESHOLD \<le> d then High
      else if DIFFICULTY_MEDIUM_THRESHOLD \<le> d then Medium else Low)"

section \<open>The judge request\<close>

definition judge_instructions :: string where
  "judge_instructions = ''You are a prompt complexity classifier. Answer ONLY one label: LOW, MEDIUM, or HIGH. Use HIGH for advanced reasoning, proofs, complex architecture or algorithms, or deep debugging. Use MEDIUM for non-trivial implementation, comparison, design, or analysis. Use LOW for simple questions, formatting, translation, or direct extraction.''"

definition judge_payload :: "string option \<Rightarrow> string \<Rightarrow> json" where
  "judge_payload default_model prompt_text = Object
     [(''model'', String (unwrap_or default_model ''smartgate-judge'')),
      (''max_tokens'', Number (IntN 10)),
      (''temperature'', Number (FloatN 0)),
      (''stream'', Bool False),
      (''messages'', Array
         [Object [(''role'', String ''system''), (''content'', String judge_instructions)],
          Object [(''role'', String ''user''), (''content'', String (take_chars 400 prompt_text))]])]"

record judge_scope =
  js_org_id :: string
  js_project_id :: string
  js_key_id :: string
  js_virtual_model_id :: string
  js_source_pool_id :: string

definition judge_metadata :: "judge_scope \<Rightarrow> string \<Rightarrow> string \<rightharpoonup> string" where
  "judge_metadata scope prompt_text =
     [''org_id'' \<mapsto> js_org_id scope, ''project_id'' \<mapsto> js_project_id scope, ''key_id'' \<mapsto> js_key_id scope,
      ''virtual_model_id'' \<mapsto> js_virtual_model_id scope, ''pool_id'' \<mapsto> js_source_pool_id scope,
      ''routing_strategy'' \<mapsto> ''judge'', ''judge_request'' \<mapsto> ''1'', ''quota_release'' \<mapsto> ''0'',
      ''input_tokens_est'' \<mapsto> show_nat (unat (estimate_tokens_from_text prompt_text)),
      ''output_tokens_est'' \<mapsto> ''10'']"

section \<open>Its answer\<close>

text \<open>\<open>choices.get(0)\<close>: only an array has elements.\<close>

definition first_choice_content :: "json \<Rightarrow> string option" where
  "first_choice_content response =
     Option.bind (jget ''choices'' response) (\<lambda>choices. case choices of
        Array (c # _) \<Rightarrow> Option.bind (jget ''message'' c) (jget_str ''content'')
      | _ \<Rightarrow> None)"

definition text_block :: "json \<Rightarrow> string option" where
  "text_block b = (if jget_str ''type'' b = Some ''text'' then jget_str ''text'' b else None)"

definition first_text_block :: "json \<Rightarrow> string option" where
  "first_text_block response =
     Option.bind (Option.bind (jget ''content'' response) as_array) (\<lambda>blocks.
       case List.map_filter text_block blocks of [] \<Rightarrow> None | t # _ \<Rightarrow> Some t)"

definition read_label :: "string \<Rightarrow> difficulty_tier option" where
  "read_label content =
     (let upper = to_ascii_uppercase (trim content) in
      if contains upper ''HIGH'' then Some High
      else if contains upper ''MEDIUM'' then Some Medium
      else if contains upper ''LOW'' then Some Low
      else if contains upper ''COMPLEX'' then Some High
      else if contains upper ''SIMPLE'' then Some Low
      else None)"

definition classify_judge_response :: "json \<Rightarrow> difficulty_tier option" where
  "classify_judge_response response =
     Option.bind (or_else (first_choice_content response) (first_text_block response)) read_label"

text \<open>The difficulty the request is routed on, and where it comes from.\<close>

definition judged_difficulty :: "difficulty_tier option \<Rightarrow> f64 \<Rightarrow> f64 \<times> string" where
  "judged_difficulty verdict d = (case verdict of
     Some tier \<Rightarrow> (tier_score tier, ''judge'') | None \<Rightarrow> (d, ''heuristic''))"

section \<open>Lemmas\<close>

lemma thresholds:
  "rnd (20 / 100) < DIFFICULTY_MEDIUM_THRESHOLD" "DIFFICULTY_MEDIUM_THRESHOLD \<le> rnd (50 / 100)"
  "rnd (50 / 100) < DIFFICULTY_HIGH_THRESHOLD" "DIFFICULTY_HIGH_THRESHOLD \<le> rnd (85 / 100)"
proof -
  have a: "rnd (1 / 5) = of_int 7205759403792794 / 2 ^ 55"
    by (rule rnd_eval) simp_all
  have b: "rnd (7 / 20) = of_int 6305039478318694 / 2 ^ 54"
    by (rule rnd_eval) simp_all
  have c: "rnd (11 / 20) = of_int 4953959590107546 / 2 ^ 53"
    by (rule rnd_eval) simp_all
  have d: "rnd (1 / 2) = of_int 4503599627370496 / 2 ^ 53"
    by (rule rnd_eval) simp_all
  have e: "rnd (17 / 20) = of_int 7656119366529843 / 2 ^ 53"
    by (rule rnd_eval) simp_all
  show "rnd (20 / 100) < DIFFICULTY_MEDIUM_THRESHOLD" "DIFFICULTY_MEDIUM_THRESHOLD \<le> rnd (50 / 100)"
    "rnd (50 / 100) < DIFFICULTY_HIGH_THRESHOLD" "DIFFICULTY_HIGH_THRESHOLD \<le> rnd (85 / 100)"
    by (simp_all add: DIFFICULTY_MEDIUM_THRESHOLD_def DIFFICULTY_HIGH_THRESHOLD_def a b c d e)
qed

lemma tier_of_score: "difficulty_tier_of (tier_score t) = t"
  using thresholds by (cases t) (simp_all add: difficulty_tier_of_def)

lemma tier_mono: "d \<le> e \<Longrightarrow> difficulty_tier_of d \<le> difficulty_tier_of e"
  by (auto simp: difficulty_tier_of_def less_eq_difficulty_tier_def)

section \<open>Properties\<close>

text \<open>
  Tiers are a faithful coarsening of difficulty: a harder task never gets a lower
  tier, and the score a tier stands for lies in that tier.
\<close>

theorem tiers_order_difficulty:
  "(d \<le> e \<longrightarrow> difficulty_tier_of d \<le> difficulty_tier_of e) \<and> difficulty_tier_of (tier_score t) = t \<and>
   (t < t' \<longrightarrow> tier_score t < tier_score t')"
proof -
  have "tier_score t < tier_score t'" if "t < t'"
  proof (rule ccontr)
    assume "\<not> tier_score t < tier_score t'"
    then have "difficulty_tier_of (tier_score t') \<le> difficulty_tier_of (tier_score t)" by (intro tier_mono) simp
    with that show False by (simp add: tier_of_score)
  qed
  then show ?thesis using tier_mono tier_of_score by blast
qed

theorem tiers_order_difficulty_witness: "tier_score Low < tier_score High"
  using tiers_order_difficulty [where t = Low and t' = High] by (simp add: less_difficulty_tier_def)

end
