(* ===== verification/Warm_Context.thy ===== *)
theory Warm_Context
  imports Http
begin

text \<open>
  warm/mod.rs, the part without a store: configuration from the environment, the error
  type with its codes and messages, session keys and namespaces, message fingerprints,
  and the delivery context a request carries in its body and headers. The standard
  hasher, the JSON printer and the gateway's request type come from outside: the hash is
  a parameter, the gateway fields a map from names to JSON values.
\<close>

definition HASH_ALGORITHM_VERSION :: string where "HASH_ALGORITHM_VERSION = ''v1''"

section \<open>Configuration\<close>

record warm_config =
  wc_idle_ttl_secs :: "nat option"
  wc_max_lifetime_secs :: "nat option"
  wc_max_messages :: "nat option"
  wc_max_prefix_bytes :: "nat option"
  wc_max_tail_bytes :: "nat option"
  wc_max_assembled_bytes :: "nat option"
  wc_cleanup_interval_secs :: "nat option"
  wc_redis_url :: "string option"
  wc_redis_key_prefix :: string
  wc_require_virtual_model :: bool

definition warm_config_default :: warm_config where
  "warm_config_default =
     \<lparr>wc_idle_ttl_secs = None, wc_max_lifetime_secs = None, wc_max_messages = None,
      wc_max_prefix_bytes = None, wc_max_tail_bytes = None, wc_max_assembled_bytes = None,
      wc_cleanup_interval_secs = Some 60, wc_redis_url = None,
      wc_redis_key_prefix = ''smartgate:warm:'', wc_require_virtual_model = False\<rparr>"

text \<open>The answer of \<open>std::env::var\<close>, and the ways reading a setting fails.\<close>

datatype env_var = EnvValue string | EnvNotPresent | EnvNotUnicode

datatype env_error = NotABoolean string | NotAValue string | Unreadable string | BadKeyPrefix

type_synonym env = "string \<Rightarrow> env_var"

definition optional_env_bool :: "env \<Rightarrow> string \<Rightarrow> env_error + bool option" where
  "optional_env_bool env name = (case env name of
     EnvValue value \<Rightarrow>
       (let v = to_ascii_lowercase value in
        if v \<in> {''1'', ''true'', ''yes'', ''on''} then Inr (Some True)
        else if v \<in> {''0'', ''false'', ''no'', ''off''} then Inr (Some False)
        else Inl (NotABoolean name))
   | EnvNotPresent \<Rightarrow> Inr None
   | EnvNotUnicode \<Rightarrow> Inl (Unreadable name))"

definition optional_env :: "env \<Rightarrow> string \<Rightarrow> env_error + nat option" where
  "optional_env env name = (case env name of
     EnvValue value \<Rightarrow> (case parse_unsigned 10 (2 ^ 64 - 1) value of
         Some n \<Rightarrow> Inr (Some n) | None \<Rightarrow> Inl (NotAValue name))
   | EnvNotPresent \<Rightarrow> Inr None
   | EnvNotUnicode \<Rightarrow> Inl (Unreadable name))"

definition env_ok :: "env \<Rightarrow> string \<Rightarrow> string option" where
  "env_ok env name = (case env name of EnvValue v \<Rightarrow> Some v | _ \<Rightarrow> None)"

definition normalize_key_prefix :: "string \<Rightarrow> env_error + string" where
  "normalize_key_prefix value0 =
     (let value = trim value0 in
      if value = [] \<or> 128 < length value \<or> list_ex is_control (utf8_chars value) then Inl BadKeyPrefix
      else Inr (if ends_with value '':'' then value else value @ '':''))"

definition and_then :: "'e + 'a \<Rightarrow> ('a \<Rightarrow> 'e + 'b) \<Rightarrow> 'e + 'b" where
  "and_then r f = (case r of Inl e \<Rightarrow> Inl e | Inr x \<Rightarrow> f x)"

definition warm_config_from_env :: "env \<Rightarrow> env_error + warm_config" where
  "warm_config_from_env env =
     and_then (optional_env env ''SMARTGATE_WARM_IDLE_TTL_SECS'') (\<lambda>idle.
     and_then (optional_env env ''SMARTGATE_WARM_MAX_LIFETIME_SECS'') (\<lambda>life.
     and_then (optional_env env ''SMARTGATE_WARM_MAX_MESSAGES'') (\<lambda>msgs.
     and_then (optional_env env ''SMARTGATE_WARM_MAX_PREFIX_BYTES'') (\<lambda>pre.
     and_then (optional_env env ''SMARTGATE_WARM_MAX_TAIL_BYTES'') (\<lambda>tailb.
     and_then (optional_env env ''SMARTGATE_WARM_MAX_ASSEMBLED_BYTES'') (\<lambda>asm.
     and_then (optional_env env ''SMARTGATE_WARM_CLEANUP_INTERVAL_SECS'') (\<lambda>clean.
     and_then (normalize_key_prefix
         (unwrap_or (env_ok env ''SMARTGATE_WARM_REDIS_KEY_PREFIX'') (wc_redis_key_prefix warm_config_default)))
       (\<lambda>prefix.
     and_then (optional_env_bool env ''SMARTGATE_WARM_REQUIRE_VIRTUAL_MODEL'') (\<lambda>require.
       Inr \<lparr>wc_idle_ttl_secs = idle, wc_max_lifetime_secs = life, wc_max_messages = msgs,
            wc_max_prefix_bytes = pre, wc_max_tail_bytes = tailb, wc_max_assembled_bytes = asm,
            wc_cleanup_interval_secs =
              (case clean of Some v \<Rightarrow> if v = 0 then None else Some v
               | None \<Rightarrow> wc_cleanup_interval_secs warm_config_default),
            wc_redis_url = or_else (env_ok env ''SMARTGATE_WARM_REDIS_URL'') (env_ok env ''REDIS_URL''),
            wc_redis_key_prefix = prefix, wc_require_virtual_model = unwrap_or require False\<rparr>)))))))))"

section \<open>Errors\<close>

datatype warm_error =
    InvalidContext string
  | SessionNotFound
  | SessionExpired
  | StoreUnavailable string
  | PrefixTooLarge
  | TailTooLarge
  | AssembledTooLarge
  | EpochConflict
  | StaleEpoch
  | EpochMismatch
  | PrefixHashMismatch
  | TailStartMismatch nat nat
  | VirtualModelMismatch
  | VirtualModelUnauthorized
  | VirtualModelRequired
  | InvalidPublish string

fun error_code :: "warm_error \<Rightarrow> string" where
  "error_code (InvalidContext _) = ''INVALID_CONTEXT''"
| "error_code SessionNotFound = ''SESSION_NOT_FOUND''"
| "error_code SessionExpired = ''SESSION_EXPIRED''"
| "error_code (StoreUnavailable _) = ''PUBLISH_UNAVAILABLE''"
| "error_code PrefixTooLarge = ''PREFIX_TOO_LARGE''"
| "error_code TailTooLarge = ''TAIL_TOO_LARGE''"
| "error_code AssembledTooLarge = ''ASSEMBLED_TOO_LARGE''"
| "error_code EpochConflict = ''EPOCH_CONFLICT''"
| "error_code StaleEpoch = ''STALE_EPOCH''"
| "error_code EpochMismatch = ''EPOCH_MISMATCH''"
| "error_code PrefixHashMismatch = ''PREFIX_HASH_MISMATCH''"
| "error_code (TailStartMismatch _ _) = ''TAIL_START_MISMATCH''"
| "error_code VirtualModelMismatch = ''VIRTUAL_MODEL_MISMATCH''"
| "error_code VirtualModelUnauthorized = ''MODEL_NOT_AUTHORIZED''"
| "error_code VirtualModelRequired = ''VIRTUAL_MODEL_REQUIRED''"
| "error_code (InvalidPublish _) = ''INVALID_CONTEXT''"

fun error_message :: "warm_error \<Rightarrow> string" where
  "error_message (InvalidContext m) = m"
| "error_message (InvalidPublish m) = m"
| "error_message SessionNotFound = ''Zene session was not found''"
| "error_message SessionExpired = ''Zene session has expired''"
| "error_message (StoreUnavailable m) = m"
| "error_message PrefixTooLarge = ''The published prefix is too large''"
| "error_message TailTooLarge = ''The delta tail is too large''"
| "error_message AssembledTooLarge = ''The assembled request is too large''"
| "error_message EpochConflict = ''The epoch already contains a different prefix''"
| "error_message StaleEpoch = ''The publish epoch is older than the stored prefix''"
| "error_message EpochMismatch = ''The request epoch does not match the stored prefix''"
| "error_message PrefixHashMismatch = ''The prefix hash does not match the stored prefix''"
| "error_message (TailStartMismatch expected actual) =
     ''tail_start must equal '' @ show_nat expected @ '', got '' @ show_nat actual"
| "error_message VirtualModelMismatch = ''The session is bound to a different Virtual Model''"
| "error_message VirtualModelUnauthorized = ''The requested Virtual Model is not authorized''"
| "error_message VirtualModelRequired = ''virtual_model is required for Warm publish''"

text \<open>api/warm.rs: the response status of an error.\<close>

fun status_for :: "warm_error \<Rightarrow> nat" where
  "status_for (InvalidContext _) = 400"
| "status_for (InvalidPublish _) = 400"
| "status_for SessionNotFound = 404"
| "status_for SessionExpired = 404"
| "status_for (StoreUnavailable _) = 503"
| "status_for PrefixTooLarge = 413"
| "status_for TailTooLarge = 413"
| "status_for AssembledTooLarge = 413"
| "status_for VirtualModelUnauthorized = 403"
| "status_for VirtualModelRequired = 403"
| "status_for EpochConflict = 409"
| "status_for StaleEpoch = 409"
| "status_for EpochMismatch = 409"
| "status_for PrefixHashMismatch = 409"
| "status_for (TailStartMismatch _ _) = 409"
| "status_for VirtualModelMismatch = 409"

definition warm_error_response :: "nat \<Rightarrow> warm_error \<Rightarrow> nat \<times> json" where
  "warm_error_response status e =
     (status, Object [(''error'', Object
        [(''code'', String (error_code e)), (''message'', String (error_message e)),
         (''retryable'', Bool (status = 503))])])"

section \<open>Keys\<close>

record session_key =
  sk_project_id :: string
  sk_api_key_id :: string
  sk_session_id :: string

record gateway_session_key =
  gk_namespace :: string
  gk_session_id :: string

definition encode_namespace_component :: "string \<Rightarrow> string" where
  "encode_namespace_component value = show_nat (length value) @ '':'' @ value"

definition gateway_key :: "session_key \<Rightarrow> gateway_session_key" where
  "gateway_key key =
     \<lparr>gk_namespace = ''smartgate:v1:'' @ encode_namespace_component (sk_project_id key) @ '':'' @
        encode_namespace_component (sk_api_key_id key),
      gk_session_id = sk_session_id key\<rparr>"

section \<open>Fingerprints and validation\<close>

definition option_json :: "json option \<Rightarrow> json" where
  "option_json v = unwrap_or v Null"

definition selected_fields :: "json \<Rightarrow> json" where
  "selected_fields m = Object
     [(''role'', option_json (jget ''role'' m)), (''content'', option_json (jget ''content'' m)),
      (''tool_calls'', option_json (jget ''tool_calls'' m)), (''name'', option_json (jget ''name'' m))]"

text \<open>Successive writes to the hasher hash the concatenation of the bytes.\<close>

definition fingerprint_messages :: "(string \<Rightarrow> u64) \<Rightarrow> (json \<Rightarrow> string) \<Rightarrow> json list \<Rightarrow> string" where
  "fingerprint_messages hash64 to_string messages =
     hex16 (hash64 (concat (map (\<lambda>m. to_string (selected_fields m)) messages)))"

definition validate_virtual_model_id :: "string \<Rightarrow> warm_error + unit" where
  "validate_virtual_model_id value =
     (if trim value = [] \<or> 256 < length value \<or> list_ex is_control (utf8_chars value)
      then Inl (InvalidPublish ''virtual_model must be 1-256 non-control characters'')
      else Inr ())"

record publish_input =
  pi_epoch :: int
  pi_message_count :: nat
  pi_messages :: "json list"
  pi_pinned_boundary :: nat
  pi_prefix_hash :: "string option"
  pi_virtual_model_id :: "string option"

definition validate_publish :: "publish_input \<Rightarrow> warm_error + unit" where
  "validate_publish input =
     (if pi_epoch input < 0 then Inl (InvalidPublish ''epoch must be non-negative'')
      else if pi_message_count input \<noteq> length (pi_messages input)
      then Inl (InvalidPublish ''message_count must equal messages.length'')
      else if pi_message_count input < pi_pinned_boundary input
      then Inl (InvalidPublish ''pinned_boundary must not exceed message_count'')
      else Inr ())"

section \<open>The delivery context\<close>

datatype delivery = Full | Delta

record warm_context =
  wx_session_id :: "string option"
  wx_epoch :: "int option"
  wx_delivery :: delivery
  wx_prefix_hash :: "string option"
  wx_tail_start :: "nat option"
  wx_request_id :: "string option"

definition string_field :: "json \<Rightarrow> string \<Rightarrow> warm_error + string option" where
  "string_field obj name = (case jget name obj of
     None \<Rightarrow> Inr None
   | Some v \<Rightarrow> if v = Null then Inr None
       else (case as_str v of Some s \<Rightarrow> Inr (Some s)
             | None \<Rightarrow> Inl (InvalidContext (name @ '' must be a string''))))"

definition integer_field :: "json \<Rightarrow> string \<Rightarrow> warm_error + int option" where
  "integer_field obj name = (case jget name obj of
     None \<Rightarrow> Inr None
   | Some v \<Rightarrow> if v = Null then Inr None
       else (case as_i64 v of Some i \<Rightarrow> Inr (Some i)
             | None \<Rightarrow> Inl (InvalidContext (name @ '' must be an integer''))))"

definition conflict_error :: "string \<Rightarrow> string \<Rightarrow> warm_error" where
  "conflict_error header_name body_name =
     InvalidContext (''header '' @ header_name @ '' conflicts with _zene_context.'' @ body_name)"

text \<open>A field given in the header and in the body must agree.\<close>

definition resolve_pair :: "string \<Rightarrow> string \<Rightarrow> 'a option \<Rightarrow> 'a option \<Rightarrow> warm_error + 'a option" where
  "resolve_pair body_name header_name body_value header_value =
     (if body_value \<noteq> None \<and> header_value \<noteq> None \<and> body_value \<noteq> header_value
      then Inl (conflict_error header_name body_name)
      else Inr (or_else header_value body_value))"

definition resolve_string ::
    "json option \<Rightarrow> (string \<Rightarrow> string option) \<Rightarrow> string \<Rightarrow> string \<Rightarrow> warm_error + string option" where
  "resolve_string body_object hv body_name header_name =
     and_then (case body_object of Some obj \<Rightarrow> string_field obj body_name | None \<Rightarrow> Inr None)
       (\<lambda>b. resolve_pair body_name header_name b (hv header_name))"

definition resolve_integer ::
    "json option \<Rightarrow> (string \<Rightarrow> string option) \<Rightarrow> string \<Rightarrow> string \<Rightarrow> warm_error + int option" where
  "resolve_integer body_object hv body_name header_name =
     and_then (case body_object of Some obj \<Rightarrow> integer_field obj body_name | None \<Rightarrow> Inr None)
       (\<lambda>b. and_then (case hv header_name of
                None \<Rightarrow> Inr None
              | Some v \<Rightarrow> (case parse_i64 v of
                  Some i \<Rightarrow> Inr (Some i)
                | None \<Rightarrow> Inl (InvalidContext (''header '' @ header_name @ '' must be an integer''))))
            (\<lambda>h. resolve_pair body_name header_name b h))"

definition context_headers :: "string list" where
  "context_headers = [''x-zene-session-id'', ''x-zene-context-epoch'', ''x-zene-context-delivery'',
     ''x-zene-prefix-hash'', ''x-zene-tail-start'', ''x-zene-request-id'']"

definition context_body :: "json \<Rightarrow> warm_error + json option" where
  "context_body payload = (case jget ''_zene_context'' payload of
     None \<Rightarrow> Inr None
   | Some raw \<Rightarrow> if as_object raw \<noteq> None then Inr (Some raw)
       else Inl (InvalidContext ''_zene_context must be an object''))"

definition resolve_context ::
    "json option \<Rightarrow> (string \<Rightarrow> string option) \<Rightarrow> warm_error + warm_context" where
  "resolve_context body hv =
     and_then (resolve_string body hv ''session_id'' ''x-zene-session-id'') (\<lambda>session_id.
     and_then (resolve_string body hv ''delivery'' ''x-zene-context-delivery'') (\<lambda>d.
     and_then (case d of
         None \<Rightarrow> Inr Full
       | Some v \<Rightarrow> if v = ''full'' then Inr Full else if v = ''delta'' then Inr Delta
           else Inl (InvalidContext (''unsupported delivery: '' @ v)))
       (\<lambda>dlv.
     if dlv = Delta \<and> session_id = None
     then Inl (InvalidContext ''delta delivery requires session_id'') else
     and_then (resolve_integer body hv ''context_epoch'' ''x-zene-context-epoch'') (\<lambda>epoch.
     and_then (resolve_integer body hv ''tail_start'' ''x-zene-tail-start'') (\<lambda>tail_i.
     and_then (case tail_i of
         None \<Rightarrow> Inr None
       | Some i \<Rightarrow> if 0 \<le> i then Inr (Some (nat i))
           else Inl (InvalidContext ''tail_start must be a non-negative integer''))
       (\<lambda>tail_start.
     and_then (resolve_string body hv ''prefix_hash'' ''x-zene-prefix-hash'') (\<lambda>ph.
     and_then (resolve_string body hv ''request_id'' ''x-zene-request-id'') (\<lambda>rid.
       Inr \<lparr>wx_session_id = session_id, wx_epoch = epoch, wx_delivery = dlv,
         wx_prefix_hash = ph, wx_tail_start = tail_start, wx_request_id = rid\<rparr>))))))))"

definition parse_context_with_headers ::
    "json \<Rightarrow> headers option \<Rightarrow> warm_error + warm_context option" where
  "parse_context_with_headers payload hs =
     and_then (context_body payload) (\<lambda>body.
     let hv = (\<lambda>name. Option.bind hs (\<lambda>h. header_str h name));
         has_context = (body \<noteq> None \<or>
           (case hs of None \<Rightarrow> False | Some h \<Rightarrow> list_ex (\<lambda>n. h n \<noteq> None) context_headers))
     in if \<not> has_context then Inr None
        else and_then (resolve_context body hv) (\<lambda>c. Inr (Some c)))"

definition parse_context :: "json \<Rightarrow> warm_error + warm_context option" where
  "parse_context payload = parse_context_with_headers payload None"

definition strip_context :: "json \<Rightarrow> json" where
  "strip_context payload = jremove ''_zene_context'' payload"

text \<open>
  The gateway fields of a request, by name; \<open>Inl\<close> leaves the fields changed so far. The
  name of the gateway's session field is a constant of the gateway library.
\<close>

type_synonym gateway_fields = "string \<rightharpoonup> json"

definition install_session_gateway_context ::
    "string \<Rightarrow> gateway_fields \<Rightarrow> warm_context option \<Rightarrow> gateway_fields \<times> (warm_error + unit)" where
  "install_session_gateway_context gw_field fields0 ctx =
     (let fields = fields0(''_zene_context'' := None);
          cleared = fields(gw_field := None)
      in case ctx of
           None \<Rightarrow> (cleared, Inr ())
         | Some c \<Rightarrow>
           if wx_delivery c = Full then (cleared, Inr ())
           else (case wx_session_id c of
                   None \<Rightarrow> (fields, Inl (InvalidContext ''delta delivery requires session_id''))
                 | Some sid \<Rightarrow>
                   (case wx_epoch c of
                      None \<Rightarrow> (fields, Inl (InvalidContext ''delta delivery requires context_epoch''))
                    | Some epoch \<Rightarrow>
                      if epoch < 0 then (fields, Inl (InvalidContext ''context_epoch must be non-negative''))
                      else (fields(gw_field \<mapsto> Object
                              ([(''session_id'', String sid), (''epoch'', Number (IntN epoch)),
                                (''delivery'', String ''delta'')] @
                               (case wx_prefix_hash c of Some p \<Rightarrow> [(''prefix_hash'', String p)] | None \<Rightarrow> []) @
                               (case wx_tail_start c of
                                  Some t \<Rightarrow> [(''tail_start'', Number (IntN (int t)))] | None \<Rightarrow> []))),
                            Inr ()))))"

section \<open>Lemmas\<close>

lemma and_then_Inr: "and_then r f = Inr y \<longleftrightarrow> (\<exists>x. r = Inr x \<and> f x = Inr y)"
  by (cases r) (simp_all add: and_then_def)

lemma colon_not_digit: "CHR '':'' \<notin> set (show_nat n)"
  using show_nat_digits [of "CHR '':''" n] by (auto simp: byte_def)

lemma encode_append_inj:
  "encode_namespace_component v @ r = encode_namespace_component w @ q \<longleftrightarrow> v = w \<and> r = q"
proof
  assume e: "encode_namespace_component v @ r = encode_namespace_component w @ q"
  have tw: "takeWhile (\<lambda>c. c \<noteq> CHR '':'') (show_nat n @ CHR '':'' # xs) = show_nat n" for n xs
    using colon_not_digit [of n] by (subst takeWhile_append2) auto
  have "show_nat (length v) = show_nat (length w)"
    using arg_cong [OF e, of "takeWhile (\<lambda>c. c \<noteq> CHR '':'')"]
    by (simp add: encode_namespace_component_def tw)
  then have "length v = length w" by simp
  with e show "v = w \<and> r = q" by (simp add: encode_namespace_component_def)
qed simp

lemma resolve_pair_Inr:
  "resolve_pair b n bv hv = Inr v \<Longrightarrow> (hv = Some x \<longrightarrow> v = Some x) \<and> (bv = Some x \<longrightarrow> v = Some x)"
  by (cases hv) (auto simp: resolve_pair_def split: if_splits)

lemma resolve_string_Inr:
  assumes "resolve_string body hv b n = Inr v"
  shows "hv n = Some x \<longrightarrow> v = Some x"
    "body = Some obj \<longrightarrow> jget b obj = Some (String x) \<longrightarrow> v = Some x"
  using assms resolve_pair_Inr
  by (fastforce simp: resolve_string_def and_then_Inr string_field_def)+

lemma resolve_context_fields:
  assumes "resolve_context body hv = Inr c"
  shows "resolve_string body hv ''session_id'' ''x-zene-session-id'' = Inr (wx_session_id c) \<and>
    resolve_string body hv ''prefix_hash'' ''x-zene-prefix-hash'' = Inr (wx_prefix_hash c) \<and>
    (wx_delivery c = Delta \<longrightarrow> wx_session_id c \<noteq> None)"
  using assms unfolding resolve_context_def and_then_Inr
  by (elim exE conjE)
    (simp only: and_then_Inr sum.distinct sum.inject split: if_split_asm, elim exE conjE, hypsubst, simp)

lemma parse_context_fields:
  assumes "parse_context_with_headers payload hs = Inr (Some c)"
  shows "context_body payload = Inr (jget ''_zene_context'' payload) \<and>
    resolve_context (jget ''_zene_context'' payload) (\<lambda>name. Option.bind hs (\<lambda>h. header_str h name)) = Inr c"
proof -
  have b: "context_body payload = Inr body \<Longrightarrow> body = jget ''_zene_context'' payload" for body
    by (auto simp: context_body_def split: option.splits if_splits)
  from assms obtain body where body: "context_body payload = Inr body"
    "resolve_context body (\<lambda>name. Option.bind hs (\<lambda>h. header_str h name)) = Inr c"
    by (auto simp only: parse_context_with_headers_def and_then_Inr Let_def sum.inject option.inject
        split: if_split_asm)
  with b show ?thesis by simp
qed

section \<open>Properties\<close>

text \<open>
  Tenants cannot collide: the gateway key of a session determines its project, its
  API key and its session id, whatever characters, colons included, the ids contain.
\<close>

theorem gateway_key_injective: "gateway_key a = gateway_key b \<longleftrightarrow> a = b"
proof -
  have "gk_namespace (gateway_key a) = gk_namespace (gateway_key b) \<longleftrightarrow>
      sk_project_id a = sk_project_id b \<and> sk_api_key_id a = sk_api_key_id b"
    using encode_append_inj [of "sk_api_key_id a" "[]" "sk_api_key_id b" "[]"]
    by (auto simp: gateway_key_def encode_append_inj)
  then show ?thesis by (cases a; cases b) (auto simp: gateway_key_def)
qed

text \<open>
  A parsed delivery context is unambiguous: its session id and prefix hash are those
  of the header and those of the body wherever either gives them, a delta always has
  a session id, and stripping removes the context from the payload.
\<close>

theorem parsed_context_agrees_with_request:
  assumes "parse_context_with_headers payload (Some h) = Inr (Some c)"
    and "jget ''_zene_context'' payload = Some obj"
  shows "(header_str h ''x-zene-session-id'' = Some x \<longrightarrow> wx_session_id c = Some x) \<and>
     (jget ''session_id'' obj = Some (String x) \<longrightarrow> wx_session_id c = Some x) \<and>
     (header_str h ''x-zene-prefix-hash'' = Some x \<longrightarrow> wx_prefix_hash c = Some x) \<and>
     (jget ''prefix_hash'' obj = Some (String x) \<longrightarrow> wx_prefix_hash c = Some x) \<and>
     (wx_delivery c = Delta \<longrightarrow> wx_session_id c \<noteq> None) \<and>
     jget ''_zene_context'' (strip_context payload) = None"
proof -
  let ?hv = "\<lambda>name. Option.bind (Some h) (\<lambda>h. header_str h name)"
  from parse_context_fields [OF assms(1)] assms(2)
  have "resolve_context (Some obj) ?hv = Inr c" by simp
  note f = resolve_context_fields [OF this]
  show ?thesis
    using f resolve_string_Inr [OF f [THEN conjunct1], where x = x]
      resolve_string_Inr [OF f [THEN conjunct2, THEN conjunct1], where x = x]
    by (simp add: strip_context_def jget_jremove)
qed

definition delta_payload :: json where
  "delta_payload = Object [(''_zene_context'', Object
     [(''session_id'', String ''s1''), (''delivery'', String ''delta''), (''tail_start'', Number (IntN 3))])]"

lemma parse_delta_payload:
  "parse_context_with_headers delta_payload (Some [''x-zene-session-id'' \<mapsto> Text ''s1'']) =
     Inr (Some \<lparr>wx_session_id = Some ''s1'', wx_epoch = None, wx_delivery = Delta, wx_prefix_hash = None,
       wx_tail_start = Some 3, wx_request_id = None\<rparr>)"
  by (simp add: parse_context_with_headers_def context_body_def resolve_context_def delta_payload_def and_then_def resolve_string_def
      resolve_integer_def resolve_pair_def string_field_def integer_field_def header_str_def Let_def)

theorem parsed_context_agrees_with_request_witness:
  "jget ''_zene_context'' (strip_context delta_payload) = None"
  using parsed_context_agrees_with_request [OF parse_delta_payload] by (simp add: delta_payload_def)

text \<open>
  Only a validated delta reaches the gateway: after installing the context the legacy
  field is gone, the gateway's session field is present exactly for a delta and then
  names the context's session and a non-negative epoch, and no other field changes.
\<close>

theorem gateway_context_only_for_deltas:
  assumes "install_session_gateway_context gw gf ctx = (gf', Inr ())" "gw \<noteq> ''_zene_context''"
  shows "gf' ''_zene_context'' = None \<and>
     (gf' gw \<noteq> None \<longleftrightarrow> (\<exists>c. ctx = Some c \<and> wx_delivery c = Delta)) \<and>
     (\<forall>c v. ctx = Some c \<longrightarrow> gf' gw = Some v \<longrightarrow>
        jget_str ''session_id'' v = wx_session_id c \<and>
        (\<exists>e \<ge> 0. wx_epoch c = Some e \<and> jget ''epoch'' v = Some (Number (IntN e)))) \<and>
     (\<forall>n. n \<noteq> gw \<longrightarrow> n \<noteq> ''_zene_context'' \<longrightarrow> gf' n = gf n)"
proof (cases ctx)
  case None
  then show ?thesis using assms by (auto simp: install_session_gateway_context_def Let_def)
next
  case (Some c)
  show ?thesis
  proof (cases "wx_delivery c")
    case Full
    then show ?thesis using Some assms by (auto simp: install_session_gateway_context_def Let_def)
  next
    case Delta
    then show ?thesis using Some assms
      by (auto simp: install_session_gateway_context_def Let_def jget_str_def
          split: option.splits if_splits)
  qed
qed

theorem gateway_context_only_for_deltas_witness:
  "fst (install_session_gateway_context ''gw'' [''gw'' \<mapsto> Null] None) ''gw'' = None"
  using gateway_context_only_for_deltas [of "''gw''" "[''gw'' \<mapsto> Null]" None]
  by (simp add: install_session_gateway_context_def Let_def)

text \<open>
  Error codes are a sound contract: equal codes have equal statuses, and an error is
  reported retryable exactly when the store is unavailable.
\<close>

theorem error_code_determines_status:
  "(error_code e = error_code e' \<longrightarrow> status_for e = status_for e') \<and>
   (warm_error_response (status_for e) e = (503, Object [(''error'', Object
        [(''code'', String ''PUBLISH_UNAVAILABLE''), (''message'', String (error_message e)),
         (''retryable'', Bool True)])]) \<longleftrightarrow> (\<exists>m. e = StoreUnavailable m))"
  by (cases e; cases e') (simp_all add: warm_error_response_def)

theorem error_code_determines_status_witness:
  "status_for (InvalidContext ''a'') = status_for (InvalidPublish ''b'')"
  using error_code_determines_status [of "InvalidContext ''a''" "InvalidPublish ''b''"] by simp

end
