(* ===== verification/Gateway.thy ===== *)
theory Gateway
  imports Sync Judge Warm_Context
begin

text \<open>
  The boundary to the gateway library as api/proxy.rs, api/judge.rs, api/shadow.rs and
  api/host.rs use it: a parsed request with its metadata and extension fields, the
  protocol it is rendered in, the target, and the outcome of a dispatch. What the library
  parses a payload into is opaque (\<open>'r\<close>), so is a streamed body (\<open>'b\<close>); parsing and
  dispatching are functions given to the definitions that call them.
\<close>

record 'r gateway_request =
  gr_metadata :: "string \<rightharpoonup> string"
  gr_extra :: gateway_fields
  gr_rest :: 'r

datatype chat_protocol = ChatOpenAi | ChatAnthropic

datatype host_target = ServiceTarget string | PoolTarget provider_pool

datatype 'b proto_body = JsonBody json | SseBody 'b

datatype 'b host_outcome = HostResponse nat "'b proto_body" | PoolNotFound | OtherOutcome

datatype host_error = CoreInvalidRequest string | CorePoolNotFound string | CoreEndpointNotFound string | OtherHostError string

text \<open>The state a dispatch acts on is the caller's (\<open>'st\<close>): the hooks of the engine run inside it.\<close>

type_synonym ('st, 'r, 'b) dispatcher =
  "host_target \<Rightarrow> chat_protocol \<Rightarrow> 'r gateway_request \<Rightarrow> session_key option \<Rightarrow> 'st
     \<Rightarrow> 'st \<times> (host_error + 'b host_outcome)"

type_synonym 'r parser = "chat_protocol \<Rightarrow> json \<Rightarrow> string \<Rightarrow> string + 'r gateway_request"

definition insert_metadata :: "(string \<rightharpoonup> string) \<Rightarrow> 'r gateway_request \<Rightarrow> 'r gateway_request" where
  "insert_metadata m rq = rq\<lparr>gr_metadata := gr_metadata rq ++ m\<rparr>"

lemma insert_metadata_fields [simp]:
  "gr_metadata (insert_metadata m rq) = gr_metadata rq ++ m"
  "gr_extra (insert_metadata m rq) = gr_extra rq"
  "gr_rest (insert_metadata m rq) = gr_rest rq"
  by (simp_all add: insert_metadata_def)

section \<open>The judge call\<close>

text \<open>
  api/judge.rs, build_judge_request and classify_with_judge: the request is parsed for the
  protocol of the judge endpoint; a lookup, parse or dispatch failure, a timeout, a stream
  or an unreadable answer gives no verdict. A timeout is an error of the dispatcher.
\<close>

definition build_judge_request :: "'r parser \<Rightarrow> gateway_endpoint \<Rightarrow> string \<Rightarrow> ('r gateway_request \<times> chat_protocol) option" where
  "build_judge_request parse ep prompt_text =
     (let payload = judge_payload (ge_default_model ep) prompt_text;
          protocol = (case ge_provider_kind ep of Anthropic \<Rightarrow> ChatAnthropic | _ \<Rightarrow> ChatOpenAi)
      in case parse protocol payload ''smartgate-judge'' of
           Inl _ \<Rightarrow> None
         | Inr rq \<Rightarrow> Some (rq, protocol))"

text \<open>The library's default retry policy is given; the code overrides two of its fields.\<close>

definition JUDGE_TIMEOUT_MS :: nat where "JUDGE_TIMEOUT_MS = 250"

definition judge_pool :: "retry_policy \<Rightarrow> string \<Rightarrow> gateway_endpoint \<Rightarrow> provider_pool" where
  "judge_pool default_retry judge_endpoint_id ep =
     \<lparr>pp_pool_id = ''smartgate:judge:'' @ judge_endpoint_id, pp_endpoints = [ep], pp_load_balancing = Fallback,
      pp_retry_policy = default_retry\<lparr>rp_max_attempts := 1, rp_per_attempt_timeout_ms := Some JUDGE_TIMEOUT_MS\<rparr>,
      pp_metadata = Map.empty\<rparr>"

definition judge_answer :: "(host_error + 'b host_outcome) \<Rightarrow> difficulty_tier option" where
  "judge_answer r = (case r of
     Inr (HostResponse status (JsonBody j)) \<Rightarrow> classify_judge_response j
   | _ \<Rightarrow> None)"

definition classify_with_judge ::
    "retry_policy \<Rightarrow> 'r parser \<Rightarrow> ('st, 'r, 'b) dispatcher \<Rightarrow> bool \<Rightarrow> catalog \<Rightarrow> string \<Rightarrow> string \<Rightarrow> judge_scope \<Rightarrow> 'st
       \<Rightarrow> 'st \<times> difficulty_tier option" where
  "classify_with_judge default_retry parse dispatch load_ok db judge_endpoint_id prompt_text scope st =
     (case load_endpoint_for_dispatch load_ok db judge_endpoint_id of
        Inr (Some ep) \<Rightarrow>
          (case build_judge_request parse ep prompt_text of
             None \<Rightarrow> (st, None)
           | Some (rq, protocol) \<Rightarrow>
             (case dispatch (PoolTarget (judge_pool default_retry judge_endpoint_id ep)) protocol
                     (insert_metadata (judge_metadata scope prompt_text) rq) None st of
                (st', r) \<Rightarrow> (st', judge_answer r)))
      | _ \<Rightarrow> (st, None))"

end
