(* ===== verification/Session.thy ===== *)
theory Session
  imports Http
begin

text \<open>
  policy/session.rs: session ids, context epochs and prefix hashes read from a request,
  and the process-wide store of sessions with turn counts and sticky endpoints. The
  store is a map from (pool, session, epoch) to an entry; an operation takes the clock
  reading \<open>now\<close> it works with and returns the new store.
\<close>

section \<open>Request fields\<close>

definition SESSION_HEADER :: string where "SESSION_HEADER = ''x-smartgate-session-id''"
definition EPOCH_HEADER :: string where "EPOCH_HEADER = ''x-smartgate-context-epoch''"
definition DELIVERY_HEADER :: string where "DELIVERY_HEADER = ''x-smartgate-context-delivery''"
definition PREFIX_HASH_HEADER :: string where "PREFIX_HASH_HEADER = ''x-smartgate-prefix-hash''"
definition MAX_SESSION_ID_LEN :: nat where "MAX_SESSION_ID_LEN = 128"

definition session_char :: "char \<Rightarrow> bool" where
  "session_char c \<longleftrightarrow> is_ascii_alphanumeric c \<or> c \<in> {CHR ''.'', CHR ''_'', CHR '':'', CHR ''-''}"

definition validate_session_id :: "string \<Rightarrow> string option" where
  "validate_session_id raw =
     (let s = trim raw in
      if s = [] \<or> MAX_SESSION_ID_LEN < length s then None
      else if list_all session_char s then Some s else None)"

definition extract_session_id :: "headers \<Rightarrow> json \<Rightarrow> string option" where
  "extract_session_id h payload =
     or_else (Option.bind (header_str h SESSION_HEADER) validate_session_id)
       (or_else (Option.bind (Option.bind (context_field ''session_id'' payload) as_str) validate_session_id)
          (Option.bind (jget_str ''user'' payload) validate_session_id))"

definition parse_epoch_value :: "json \<Rightarrow> u32 option" where
  "parse_epoch_value v = (case v of
     Number _ \<Rightarrow> Option.bind (as_u64 v) (\<lambda>u. if u < 2 ^ 32 then Some (of_nat u) else None)
   | String s \<Rightarrow> map_option of_nat (parse_unsigned 10 (2 ^ 32 - 1) (trim s))
   | _ \<Rightarrow> None)"

definition parse_epoch :: "string \<Rightarrow> u32 option" where
  "parse_epoch raw = parse_epoch_value (String (trim raw))"

definition extract_context_epoch :: "headers \<Rightarrow> json \<Rightarrow> u32" where
  "extract_context_epoch h payload =
     (case Option.bind (header_str h EPOCH_HEADER) parse_epoch of
        Some v \<Rightarrow> v
      | None \<Rightarrow> unwrap_or (Option.bind (context_field ''epoch'' payload) parse_epoch_value) 0)"

definition extract_context_delivery :: "headers \<Rightarrow> json \<Rightarrow> string option" where
  "extract_context_delivery h payload =
     or_else (header_str h DELIVERY_HEADER)
             (Option.bind (context_field ''delivery'' payload) as_str)"

section \<open>Prefix hashes\<close>

unbundle bit_operations_syntax

definition parse_prefix_hash_hex :: "string \<Rightarrow> u64 option run" where
  "parse_prefix_hash_hex raw =
     (let s = trim_start_0x (trim raw);
          parse = (\<lambda>t. map_option of_nat (parse_unsigned 16 (2 ^ 64 - 1) t))
      in if 16 < length s then run_map parse (slice_from s (length s - 16))
         else Returns (parse s))"

definition fnv1a64 :: "string \<Rightarrow> u64" where
  "fnv1a64 data = foldl (\<lambda>hash c. (hash XOR of_nat (byte c)) * 0x100000001b3) 0xcbf29ce484222325 data"

text \<open>\<open>to_string\<close> is serde_json's printer on a message list.\<close>

definition computed_prefix_hash :: "(json list \<Rightarrow> string option) \<Rightarrow> json \<Rightarrow> u64 option" where
  "computed_prefix_hash to_string payload =
     (case Option.bind (jget ''messages'' payload) as_array of
        None \<Rightarrow> None
      | Some msgs \<Rightarrow>
          if msgs = [] then None
          else let prefix = (if 1 < length msgs then butlast msgs else msgs)
               in map_option fnv1a64 (to_string prefix))"

definition resolve_prefix_hash :: "(json list \<Rightarrow> string option) \<Rightarrow> headers \<Rightarrow> json \<Rightarrow> u64 option run" where
  "resolve_prefix_hash to_string h payload =
     (let try_hex = (\<lambda>raw. case raw of None \<Rightarrow> Returns None | Some r \<Rightarrow> parse_prefix_hash_hex r) in
      case try_hex (header_str h PREFIX_HASH_HEADER) of
        Panics \<Rightarrow> Panics
      | Returns (Some v) \<Rightarrow> Returns (Some v)
      | Returns None \<Rightarrow>
          (case try_hex (Option.bind (context_field ''prefix_hash'' payload) as_str) of
             Panics \<Rightarrow> Panics
           | Returns (Some v) \<Rightarrow> Returns (Some v)
           | Returns None \<Rightarrow> Returns (computed_prefix_hash to_string payload)))"

definition format_prefix_hash :: "u64 \<Rightarrow> string" where
  "format_prefix_hash h = hex16 h"

section \<open>The session store\<close>

type_synonym session_key = "string \<times> string \<times> u32"

record session_entry =
  turn_count :: u32
  first_prefix_hash :: "u64 option"
  sticky_endpoint_id :: "string option"
  last_seen :: nat
  ttl :: nat

type_synonym session_store = "session_key \<rightharpoonup> session_entry"

definition DEFAULT_SESSION_TTL :: nat where "DEFAULT_SESSION_TTL = 3600 * 1000000000"

definition purge_stale_sessions :: "session_store \<Rightarrow> nat \<Rightarrow> session_store" where
  "purge_stale_sessions st now = (\<lambda>k. case st k of
     None \<Rightarrow> None
   | Some e \<Rightarrow> if now - last_seen e < ttl e then Some e else None)"

definition ttl_from_secs :: "int \<Rightarrow> nat" where
  "ttl_from_secs secs = (if secs \<le> 0 then DEFAULT_SESSION_TTL else nat secs * 1000000000)"

definition get_sticky_endpoint ::
    "session_store \<Rightarrow> nat \<Rightarrow> session_key \<Rightarrow> int \<Rightarrow> session_store \<times> string option" where
  "get_sticky_endpoint st now key ttl_secs =
     (let st1 = purge_stale_sessions st now in
      (st1, case st1 key of
              None \<Rightarrow> None
            | Some e \<Rightarrow> if ttl_from_secs ttl_secs \<le> now - last_seen e then None
                        else sticky_endpoint_id e))"

definition fresh_entry :: "u64 option \<Rightarrow> nat \<Rightarrow> nat \<Rightarrow> session_entry" where
  "fresh_entry prefix_hash now t = \<lparr>turn_count = 0, first_prefix_hash = prefix_hash,
     sticky_endpoint_id = None, last_seen = now, ttl = t\<rparr>"

definition next_turn_index ::
    "session_store \<Rightarrow> nat \<Rightarrow> session_key \<Rightarrow> u64 option \<Rightarrow> int \<Rightarrow> session_store \<times> u32" where
  "next_turn_index st now key prefix_hash ttl_secs =
     (let st1 = purge_stale_sessions st now;
          t = ttl_from_secs ttl_secs;
          e = unwrap_or (st1 key) (fresh_entry prefix_hash now t);
          e1 = e\<lparr>turn_count := turn_count e + 1, last_seen := now, ttl := t,
                 first_prefix_hash := or_else (first_prefix_hash e) prefix_hash\<rparr>
      in (st1(key \<mapsto> e1), turn_count e1))"

definition prefix_stable :: "session_store \<Rightarrow> session_key \<Rightarrow> u64 option \<Rightarrow> bool option" where
  "prefix_stable st key prefix_hash = (case st key of
     None \<Rightarrow> None
   | Some e \<Rightarrow> (case (first_prefix_hash e, prefix_hash) of
       (Some first, Some current) \<Rightarrow> Some (first = current)
     | _ \<Rightarrow> None))"

definition record_success ::
    "session_store \<Rightarrow> nat \<Rightarrow> session_key \<Rightarrow> string \<Rightarrow> u64 option \<Rightarrow> bool \<Rightarrow> int \<Rightarrow> session_store" where
  "record_success st now key endpoint_id prefix_hash affinity_hit ttl_secs =
     (let t = ttl_from_secs ttl_secs;
          e = unwrap_or (st key) (fresh_entry prefix_hash now t);
          e1 = e\<lparr>last_seen := now, ttl := t\<rparr>;
          e2 = (if sticky_endpoint_id e1 = None then e1\<lparr>sticky_endpoint_id := Some endpoint_id\<rparr>
                else if affinity_hit then e1\<lparr>last_seen := now\<rparr> else e1);
          e3 = e2\<lparr>first_prefix_hash := or_else (first_prefix_hash e2) prefix_hash\<rparr>
      in st(key \<mapsto> e3))"

section \<open>Text of hashes\<close>

lemma digit_char_ascii: "d < 16 \<Longrightarrow> byte (digit_char d) < 128 \<and> \<not> is_whitespace [digit_char d] \<and> digit_char d \<noteq> CHR ''x''"
proof -
  assume d: "d < 16"
  have b: "byte (digit_char d) = (if d < 10 then 48 + d else 87 + d)"
    using d by (simp add: digit_char_def byte_char_of)
  have "digit_char d \<noteq> CHR ''x''"
  proof
    assume "digit_char d = CHR ''x''"
    then have "byte (digit_char d) = 120" by (simp add: byte_def)
    with b d show False by (simp split: if_splits)
  qed
  with b d show ?thesis by (auto simp: is_whitespace_def Let_def)
qed

lemma hex16_chars:
  "ascii (hex16 h)" "list_all (\<lambda>c. \<not> is_whitespace [c]) (hex16 h)" "CHR ''x'' \<notin> set (hex16 h)"
  "length (hex16 h) = 16"
  using set_hex_digits [of 16 "unat h"] digit_char_ascii
  by (fastforce simp: ascii_def list_all_iff hex16_def simp del: hex_digits.simps)+

lemma no_0x: "CHR ''x'' \<notin> set s \<Longrightarrow> trim_start_0x s = s"
proof -
  assume "CHR ''x'' \<notin> set s"
  then have "\<not> starts_with s ''0x''" by (auto simp: starts_with_iff)
  then show ?thesis by (cases "length s") (simp_all add: trim_start_0x_def)
qed

section \<open>Runs\<close>

datatype session_op =
    Turn nat session_key "u64 option" int
  | Success nat session_key string "u64 option" bool int
  | Sticky nat session_key int

fun op_key :: "session_op \<Rightarrow> session_key" where
  "op_key (Turn _ k _ _) = k"
| "op_key (Success _ k _ _ _ _) = k"
| "op_key (Sticky _ k _) = k"

fun op_time :: "session_op \<Rightarrow> nat" where
  "op_time (Turn t _ _ _) = t"
| "op_time (Success t _ _ _ _ _) = t"
| "op_time (Sticky t _ _) = t"

text \<open>One operation: the new store and the turn index it assigned, if any.\<close>

fun session_step :: "session_store \<Rightarrow> session_op \<Rightarrow> session_store \<times> u32 list" where
  "session_step st (Turn t k h s) = (case next_turn_index st t k h s of (st', n) \<Rightarrow> (st', [n]))"
| "session_step st (Success t k ep h hit s) = (record_success st t k ep h hit s, [])"
| "session_step st (Sticky t k s) = (fst (get_sticky_endpoint st t k s), [])"

fun session_run :: "session_store \<Rightarrow> session_op list \<Rightarrow> session_store \<times> (session_key \<times> u32) list" where
  "session_run st [] = (st, [])"
| "session_run st (op # ops) =
     (case session_step st op of (st1, ns) \<Rightarrow>
      case session_run st1 ops of (st2, outs) \<Rightarrow> (st2, map (Pair (op_key op)) ns @ outs))"

text \<open>
  The session \<open>k\<close> stays alive: the clock does not run backwards, every operation on
  any session falls less than the time to live after the last touch of \<open>k\<close>, and every
  touch of \<open>k\<close> carries the same time to live.
\<close>

fun alive_run :: "session_key \<Rightarrow> nat \<Rightarrow> nat \<Rightarrow> session_op list \<Rightarrow> bool" where
  "alive_run k T seen [] \<longleftrightarrow> True"
| "alive_run k T seen (op # ops) \<longleftrightarrow> seen \<le> op_time op \<and> op_time op - seen < T \<and>
     (case op of
        Turn t k' h s \<Rightarrow> (if k' = k then ttl_from_secs s = T \<and> alive_run k T t ops else alive_run k T seen ops)
      | Success t k' ep h hit s \<Rightarrow>
          (if k' = k then ttl_from_secs s = T \<and> alive_run k T t ops else alive_run k T seen ops)
      | Sticky t k' s \<Rightarrow> alive_run k T seen ops)"

fun turns_of :: "session_key \<Rightarrow> session_op list \<Rightarrow> nat" where
  "turns_of k [] = 0"
| "turns_of k (op # ops) = (case op of Turn _ k' _ _ \<Rightarrow> if k' = k then 1 else 0 | _ \<Rightarrow> 0) + turns_of k ops"

fun first_success :: "session_key \<Rightarrow> session_op list \<Rightarrow> string option" where
  "first_success k [] = None"
| "first_success k (op # ops) = (case op of
     Success _ k' ep _ _ _ \<Rightarrow> if k' = k then Some ep else first_success k ops
   | _ \<Rightarrow> first_success k ops)"

lemma purge_other [simp]:
  "st k = Some e \<Longrightarrow> now - last_seen e < ttl e \<Longrightarrow> purge_stale_sessions st now k = Some e"
  by (simp add: purge_stale_sessions_def)

definition tracked :: "session_store \<Rightarrow> session_key \<Rightarrow> nat \<Rightarrow> nat \<Rightarrow> nat \<Rightarrow> string option \<Rightarrow> bool" where
  "tracked st k T seen n sticky \<longleftrightarrow> (\<exists>e. st k = Some e \<and> turn_count e = of_nat n \<and>
     sticky_endpoint_id e = sticky \<and> last_seen e = seen \<and> ttl e = T)"

lemma tracked_turn:
  assumes "tracked st k T seen n x" "t - seen < T" "next_turn_index st t k' h s = (st', m)"
  shows "k' = k \<Longrightarrow> m = of_nat (Suc n) \<and> tracked st' k (ttl_from_secs s) t (Suc n) x"
    and "k' \<noteq> k \<Longrightarrow> tracked st' k T seen n x"
  using assms by (auto simp: tracked_def next_turn_index_def Let_def add.commute)

lemma tracked_success:
  assumes "tracked st k T seen n x" "t - seen < T"
  shows "k' = k \<Longrightarrow> tracked (record_success st t k' ep h hit s) k (ttl_from_secs s) t n (or_else x (Some ep))"
    and "k' \<noteq> k \<Longrightarrow> tracked (record_success st t k' ep h hit s) k T seen n x"
  using assms by (auto simp: tracked_def record_success_def Let_def)

lemma tracked_sticky:
  "tracked st k T seen n x \<Longrightarrow> t - seen < T \<Longrightarrow> tracked (fst (get_sticky_endpoint st t k' s)) k T seen n x"
  by (auto simp: tracked_def get_sticky_endpoint_def Let_def)

lemma session_run_alive:
  assumes "tracked st k T seen n x" "alive_run k T seen ops" "session_run st ops = (st', outs)"
  shows "map snd (filter (\<lambda>o'. fst o' = k) outs) = map of_nat [Suc n..<Suc n + turns_of k ops] \<and>
     (\<exists>seen'. tracked st' k T seen' (n + turns_of k ops) (or_else x (first_success k ops)))"
  using assms
proof (induction ops arbitrary: st seen n x outs)
  case Nil
  then show ?case by (cases x) auto
next
  case (Cons op ops)
  obtain st1 ns where st1: "session_step st op = (st1, ns)" by fastforce
  obtain outs1 where r: "session_run st1 ops = (st', outs1)" and outs: "outs = map (Pair (op_key op)) ns @ outs1"
    using Cons.prems(3) st1 by (auto split: prod.splits)
  have t: "op_time op - seen < T" using Cons.prems(2) by simp
  show ?case
  proof (cases op)
    case (Turn t' k' h s)
    obtain m where m: "next_turn_index st t' k' h s = (st1, m)" and ns: "ns = [m]"
      using st1 Turn by (auto split: prod.splits)
    show ?thesis
    proof (cases "k' = k")
      case True
      from True tracked_turn(1) [OF Cons.prems(1) _ m True] t Turn Cons.prems(2)
      have "m = of_nat (Suc n)" "tracked st1 k T t' (Suc n) x" "alive_run k T t' ops" by auto
      with Cons.IH [OF this(2,3) r] show ?thesis
        unfolding outs ns Turn True by (simp add: upt_conv_Cons [of "Suc n"] del: upt_Suc)
    next
      case False
      with tracked_turn(2) [OF Cons.prems(1) _ m False] t Turn Cons.prems(2)
      have "tracked st1 k T seen n x" "alive_run k T seen ops" by auto
      with Cons.IH [OF this r] show ?thesis by (simp add: outs ns Turn False)
    qed
  next
    case (Success t' k' ep h hit s)
    then have s1: "st1 = record_success st t' k' ep h hit s" "ns = []" using st1 by simp_all
    show ?thesis
    proof (cases "k' = k")
      case True
      with tracked_success(1) [OF Cons.prems(1) _ True] t Success Cons.prems(2)
      have "tracked st1 k T t' n (or_else x (Some ep))" "alive_run k T t' ops" by (auto simp: s1)
      with Cons.IH [OF this r] show ?thesis by (cases x) (simp_all add: outs s1 Success True)
    next
      case False
      with tracked_success(2) [OF Cons.prems(1) _ False] t Success Cons.prems(2)
      have "tracked st1 k T seen n x" "alive_run k T seen ops" by (auto simp: s1)
      with Cons.IH [OF this r] show ?thesis by (simp add: outs s1 Success False)
    qed
  next
    case (Sticky t' k' s)
    with tracked_sticky [OF Cons.prems(1), of t' k' s] t Cons.prems(2) st1
    have "tracked st1 k T seen n x" "alive_run k T seen ops" "ns = []" by simp_all
    with Cons.IH [OF this(1,2) r] show ?thesis by (simp add: outs Sticky)
  qed
qed

section \<open>Properties\<close>

text \<open>
  Turns of one session epoch are numbered 1, 2, 3, ... without gaps or repeats, and
  its sticky endpoint is the endpoint of its first success and is never rebound, as long
  as the session stays alive, whatever other sessions do in between.
\<close>

theorem session_turns_and_stickiness:
  assumes "st k = None" "alive_run k (ttl_from_secs s) t0 ops"
    and "session_run st (Turn t0 k h s # ops) = (st', outs)"
  shows "map snd (filter (\<lambda>o'. fst o' = k) outs) = map of_nat [1..<2 + turns_of k ops] \<and>
     (\<exists>e. st' k = Some e \<and> sticky_endpoint_id e = first_success k ops)"
proof -
  obtain st1 m where m: "next_turn_index st t0 k h s = (st1, m)" by fastforce
  then have m1: "m = 1" and tr: "tracked st1 k (ttl_from_secs s) t0 1 None"
    using assms(1)
    by (auto simp: tracked_def next_turn_index_def Let_def purge_stale_sessions_def fresh_entry_def)
  obtain outs1 where r: "session_run st1 ops = (st', outs1)" and outs: "outs = (k, m) # outs1"
    using assms(3) m by (auto split: prod.splits)
  have u: "map of_nat [1..<2 + j] = (1 :: u32) # map of_nat [Suc 1..<Suc 1 + j]" for j
    by (subst upt_conv_Cons) (simp_all add: numeral_2_eq_2)
  show ?thesis
    using session_run_alive [OF tr assms(2) r]
    unfolding u outs m1 tracked_def by auto
qed

theorem session_turns_and_stickiness_witness:
  "let k = (''pool'', ''s'', 0); k2 = (''pool'', ''s'', 1);
       ops = [Success 5 k ''ep1'' None False 60, Turn 9 k2 None 60, Turn 20 k None 60,
              Success 25 k ''ep2'' None False 60, Turn 30 k None 60];
       r = session_run Map.empty (Turn 1 k None 60 # ops)
   in map snd (filter (\<lambda>o'. fst o' = k) (snd r)) = [1, 2, 3] \<and>
      (\<exists>e. fst r k = Some e \<and> sticky_endpoint_id e = Some ''ep1'')"
proof -
  let ?k = "(''pool'', ''s'', 0) :: session_key" and ?k2 = "(''pool'', ''s'', 1) :: session_key"
  let ?ops = "[Success 5 ?k ''ep1'' None False 60, Turn 9 ?k2 None 60, Turn 20 ?k None 60,
      Success 25 ?k ''ep2'' None False 60, Turn 30 ?k None 60]"
  obtain st' outs where r: "session_run Map.empty (Turn 1 ?k None 60 # ?ops) = (st', outs)" by fastforce
  have a: "alive_run ?k (ttl_from_secs 60) 1 ?ops" by (simp add: ttl_from_secs_def)
  have t: "turns_of ?k ?ops = 2" "first_success ?k ?ops = Some ''ep1''" by simp_all
  have "[1..<2 + 2] = [1, 2, 3 :: nat]" by (simp add: upt_conv_Cons)
  then show ?thesis
    using session_turns_and_stickiness [OF _ a r] unfolding t Let_def r by simp
qed

text \<open>
  Sessions are isolated by pool, id and epoch: an operation on another key never
  changes a session; it can only drop it, and only when its time to live has run out.
\<close>

theorem other_sessions_untouched:
  assumes "op_key op \<noteq> k"
  shows "fst (session_step st op) k = st k \<or>
     (\<exists>e. st k = Some e \<and> ttl e \<le> op_time op - last_seen e \<and> fst (session_step st op) k = None)"
proof -
  have "purge_stale_sessions st now k = st k \<or>
     (\<exists>e. st k = Some e \<and> ttl e \<le> now - last_seen e \<and> purge_stale_sessions st now k = None)" for now
    by (auto simp: purge_stale_sessions_def not_less split: option.split)
  then show ?thesis
    using assms
    by (cases op) (simp_all add: next_turn_index_def record_success_def get_sticky_endpoint_def Let_def)
qed

theorem other_sessions_untouched_witness:
  "let e = fresh_entry None 0 5; st = [(''p'', ''a'', 0) \<mapsto> e]
   in fst (session_step st (Success 3 (''p'', ''a'', 1) ''ep'' None False 60)) (''p'', ''a'', 0) = Some e"
  using other_sessions_untouched
    [of "Success 3 (''p'', ''a'', 1) ''ep'' None False 60" "(''p'', ''a'', 0)"
        "[(''p'', ''a'', 0) \<mapsto> fresh_entry None 0 5]"]
  by (simp add: Let_def fresh_entry_def)

text \<open>
  A prefix hash survives the trip through its header form: the text
  format_prefix_hash prints is parsed back to the same 64-bit value.
\<close>

theorem prefix_hash_roundtrip: "parse_prefix_hash_hex (format_prefix_hash h) = Returns (Some h)"
proof -
  have "trim (hex16 h) = hex16 h" by (rule trim_ascii [OF hex16_chars(1,2)])
  then show ?thesis
    unfolding parse_prefix_hash_hex_def format_prefix_hash_def Let_def
    by (simp only: no_0x [OF hex16_chars(3)] hex16_chars(4) parse_hex16) simp
qed

text \<open>
  The computed prefix hash does not depend on the last message of a conversation:
  two requests that share all earlier messages hash alike, whatever the new message is.
\<close>

theorem prefix_hash_ignores_last_message:
  assumes "jget ''messages'' p = Some (Array (ms @ [a]))" "jget ''messages'' q = Some (Array (ms @ [b]))"
    and "ms \<noteq> []"
  shows "computed_prefix_hash to_string p = computed_prefix_hash to_string q"
  using assms by (simp add: computed_prefix_hash_def Let_def)

theorem prefix_hash_ignores_last_message_witness:
  "computed_prefix_hash (\<lambda>_. Some ''x'') (Object [(''messages'', Array [Null, Bool True])]) =
   computed_prefix_hash (\<lambda>_. Some ''x'') (Object [(''messages'', Array [Null, Bool False])])"
  by (rule prefix_hash_ignores_last_message [where ms = "[Null]" and a = "Bool True" and b = "Bool False"])
    simp_all

text \<open>
  A prefix hash in the body can crash the request: a string of seventeen bytes or
  more whose sixteenth byte from the end lies inside a character makes the slice panic.
  Header values are visible ASCII and never do.
\<close>

theorem prefix_hash_slice_panics:
  "resolve_prefix_hash to_string Map.empty
     (Object [(''_smartgate_context'', Object [(''prefix_hash'',
        String (CHR 0xC3 # CHR 0xA9 # ''aaaaaaaaaaaaaaa''))])]) = Panics"
proof -
  have t: "trim (CHR 0xC3 # CHR 0xA9 # ''aaaaaaaaaaaaaaa'') = CHR 0xC3 # CHR 0xA9 # ''aaaaaaaaaaaaaaa''"
    by (simp add: trim_def trim_chars_def is_cont_def byte_def is_whitespace_def Let_def)
  have z: "trim_start_0x (CHR 0xC3 # CHR 0xA9 # ''aaaaaaaaaaaaaaa'') = CHR 0xC3 # CHR 0xA9 # ''aaaaaaaaaaaaaaa''"
    by code_simp
  have s: "slice_from (CHR 0xC3 # CHR 0xA9 # ''aaaaaaaaaaaaaaa'') (Suc 0) = Panics" by code_simp
  show ?thesis
    by (simp add: resolve_prefix_hash_def header_str_def context_field_def parse_prefix_hash_hex_def t z s
        run_map_def)
qed

text \<open>
  The affinity hit flag has no effect: record_success leaves the same store whether
  the request hit its sticky endpoint or not, so a success elsewhere extends the
  binding just as a hit does.
\<close>

theorem affinity_hit_flag_is_ignored:
  "record_success st now k ep h True s = record_success st now k ep h False s"
  unfolding record_success_def Let_def
  by (cases "unwrap_or (st k) (fresh_entry h now (ttl_from_secs s))") simp

end
