(* ===== verification/Usage.thy ===== *)
theory Usage
  imports Metrics Pricing Session Quota
begin

text \<open>
  usage/mod.rs: what happens when the data plane reports a finished request. The slots
  of the request are released, token counts and cost are settled, the cache ratio of
  the endpoint is updated, the session binding is recorded, and one usage row is written.
  The report is the record the data plane passes in; error kinds and attempt states are
  their Debug texts. The JSON printer, the row id and the price registry version come
  from outside and are parameters.
\<close>

record token_usage =
  tu_input_tokens :: "nat option"
  tu_output_tokens :: "nat option"
  tu_total_tokens :: "nat option"
  tu_cache_hit_tokens :: "nat option"
  tu_cache_write_tokens :: "nat option"

record attempt_report =
  at_endpoint_id :: string
  at_status :: string
  at_error_kind :: "string option"

record request_report =
  rr_metadata :: "string \<rightharpoonup> string"
  rr_selected_endpoint_id :: string
  rr_pool_id :: "string option"
  rr_usage :: "token_usage option"
  rr_attempts :: "attempt_report list"
  rr_latency_ms :: nat
  rr_error_kind :: "string option"
  rr_ttft_ms :: "nat option"

section \<open>Parsing metadata\<close>

definition parse_u64 :: "string \<Rightarrow> nat option" where
  "parse_u64 s = parse_unsigned 10 (2 ^ 64 - 1) s"

definition parse_i32 :: "string \<Rightarrow> int option" where
  "parse_i32 s = Option.bind (parse_i64 s) (\<lambda>i. if - (2 ^ 31) \<le> i \<and> i < 2 ^ 31 then Some i else None)"

definition meta_u64 :: "request_report \<Rightarrow> string \<Rightarrow> nat" where
  "meta_u64 r key = unwrap_or (Option.bind (rr_metadata r key) parse_u64) 0"

definition meta_i32 :: "request_report \<Rightarrow> string \<Rightarrow> int option" where
  "meta_i32 r key = Option.bind (rr_metadata r key) parse_i32"

text \<open>\<open>value as i64\<close> for a \<open>u64\<close>.\<close>

definition i64_of_nat :: "nat \<Rightarrow> int" where
  "i64_of_nat n = sint (of_nat n :: u64)"

section \<open>Settling one report\<close>

definition release_slots_of :: "quota_limiter \<Rightarrow> request_report \<Rightarrow> quota_limiter" where
  "release_slots_of l r =
     (if rr_metadata r ''quota_release'' \<noteq> Some ''0''
      then (case rr_metadata r ''key_id'' of
              Some key_id \<Rightarrow> release l key_id (rr_metadata r ''project_id'')
            | None \<Rightarrow> l)
      else l)"

definition report_endpoint :: "request_report \<Rightarrow> string" where
  "report_endpoint r = unwrap_or (rr_metadata r ''endpoint_id'') (rr_selected_endpoint_id r)"

record usage_figures =
  uf_source :: string
  uf_confidence :: string
  uf_prompt :: nat
  uf_completion :: nat
  uf_total :: nat
  uf_cache_hit :: "nat option"
  uf_cache_write :: "nat option"

definition usage_figures_of :: "request_report \<Rightarrow> usage_figures" where
  "usage_figures_of r =
     (let est_in = meta_u64 r ''input_tokens_est'';
          est_out = meta_u64 r ''output_tokens_est'';
          pu = rr_usage r;
          reported_in = Option.bind pu tu_input_tokens;
          reported_out = Option.bind pu tu_output_tokens;
          source = (if pu \<noteq> None then ''provider_reported''
                    else if 0 < est_in \<or> 0 < est_out then ''local_estimate'' else ''unavailable'');
          confidence = (if pu \<noteq> None \<and> reported_in \<noteq> None \<and> reported_out \<noteq> None then ''high''
                        else if pu \<noteq> None then ''partial''
                        else if source = ''local_estimate'' then ''low'' else ''unknown'');
          prompt = unwrap_or reported_in est_in;
          completion = unwrap_or reported_out est_out
      in \<lparr>uf_source = source, uf_confidence = confidence, uf_prompt = prompt, uf_completion = completion,
          uf_total = unwrap_or (Option.bind pu tu_total_tokens) ((prompt + completion) mod 2 ^ 64),
          uf_cache_hit = Option.bind pu tu_cache_hit_tokens,
          uf_cache_write = Option.bind pu tu_cache_write_tokens\<rparr>)"

text \<open>Only an endpoint that already has a metric observes the cache outcome.\<close>

definition observe_cache :: "metric_map \<Rightarrow> request_report \<Rightarrow> usage_figures \<Rightarrow> metric_map" where
  "observe_cache ms r u =
     (if rr_error_kind r = None
      then (case ms (report_endpoint r) of
              None \<Rightarrow> ms
            | Some m \<Rightarrow> ms(report_endpoint r \<mapsto> record_cache_observation m (i64_of_nat (uf_prompt u))
                            (i64_of_nat (unwrap_or (uf_cache_hit u) 0))))
      else ms)"

definition settle_price :: "(string \<rightharpoonup> endpoint_profile) \<Rightarrow> string \<Rightarrow> unit_price \<times> string" where
  "settle_price profiles ep = (case profiles ep of
     Some p \<Rightarrow> (price p, if is_priced (price p) then ''configured_endpoint'' else ''unpriced'')
   | None \<Rightarrow> (unit_price_default, ''unpriced''))"

definition settle_cost :: "unit_price \<Rightarrow> usage_figures \<Rightarrow> f64" where
  "settle_cost p u = calculate_cost p (of_nat (uf_prompt u)) (of_nat (uf_completion u))
     (map_option of_nat (uf_cache_hit u))"

record session_fields =
  sf_session_id :: "string option"
  sf_turn_index :: "int option"
  sf_prefix_hash :: "string option"
  sf_context_epoch :: int
  sf_affinity_enabled :: bool
  sf_affinity_applied :: bool
  sf_affinity_ttl_secs :: int
  sf_affinity_hit :: bool
  sf_prefix_hash_u64 :: "u64 option"

definition session_fields_of :: "request_report \<Rightarrow> session_fields" where
  "session_fields_of r =
     \<lparr>sf_session_id = rr_metadata r ''session_id'',
      sf_turn_index = meta_i32 r ''turn_index'',
      sf_prefix_hash = rr_metadata r ''prefix_hash'',
      sf_context_epoch = unwrap_or (meta_i32 r ''context_epoch'') 0,
      sf_affinity_enabled = (rr_metadata r ''affinity_enabled'' = Some ''1''),
      sf_affinity_applied = (rr_metadata r ''affinity_applied'' = Some ''1''),
      sf_affinity_ttl_secs = unwrap_or (meta_i32 r ''affinity_ttl_secs'') 3600,
      sf_affinity_hit = (rr_metadata r ''sticky_endpoint_id'' = Some (rr_selected_endpoint_id r)),
      sf_prefix_hash_u64 = Option.bind (rr_metadata r ''prefix_hash'')
        (\<lambda>h. map_option of_nat (parse_unsigned 16 (2 ^ 64 - 1) h))\<rparr>"

definition attempt_text :: "attempt_report \<Rightarrow> string" where
  "attempt_text a = at_endpoint_id a @ '':'' @ at_status a @
     (case at_error_kind a of Some k \<Rightarrow> '':'' @ k | None \<Rightarrow> [])"

definition metadata_values :: "request_report \<Rightarrow> usage_figures \<Rightarrow> string \<Rightarrow> string \<rightharpoonup> string" where
  "metadata_values r u pricing_source =
     (rr_metadata r)
       (''usage_source'' \<mapsto> uf_source u,
        ''usage_confidence'' \<mapsto> uf_confidence u,
        ''pricing_source'' \<mapsto> pricing_source,
        ''attempts'' \<mapsto> join '','' (map attempt_text (rr_attempts r)),
        ''attempt_count'' \<mapsto> show_nat (length (rr_attempts r)),
        ''fallback'' \<mapsto> (if 1 < length (rr_attempts r) then ''true'' else ''false''))"

definition status_of :: "request_report \<Rightarrow> int" where
  "status_of r = (if rr_error_kind r \<noteq> None then 502 else 200)"

definition bind_session :: "session_store \<Rightarrow> nat \<Rightarrow> request_report \<Rightarrow> session_store" where
  "bind_session st now r =
     (let sf = session_fields_of r in
      if status_of r = 200 then
        (case (sf_session_id sf, rr_metadata r ''pool_id'') of
           (Some sid, Some pool_id) \<Rightarrow>
             if sf_affinity_enabled sf
             then record_success st now (pool_id, sid, u32_of_int (sf_context_epoch sf))
                    (rr_selected_endpoint_id r) (sf_prefix_hash_u64 sf) (sf_affinity_hit sf)
                    (sf_affinity_ttl_secs sf)
             else st
         | _ \<Rightarrow> st)
      else st)"

section \<open>The usage row\<close>

text \<open>The columns of the INSERT, grouped: identity, tokens, settlement, session.\<close>

record usage_ids =
  ul_id :: string
  ul_org_id :: "string option"
  ul_project_id :: "string option"
  ul_key_id :: "string option"
  ul_virtual_model_id :: "string option"
  ul_pool_id :: "string option"
  ul_endpoint_id :: string
  ul_provider_account_id :: "string option"

record usage_tokens =
  ul_prompt_tokens :: int
  ul_completion_tokens :: int
  ul_total_tokens :: int
  ul_cache_hit_tokens :: "int option"
  ul_cache_write_tokens :: "int option"
  ul_latency_ms :: int
  ul_ttft_ms :: "int option"
  ul_cached_input_tokens :: int
  ul_tool_message_chars :: int
  ul_trimmed_chars :: int

record usage_settlement =
  ul_status_code :: int
  ul_error_message :: "string option"
  ul_metadata :: string
  ul_estimated_cost :: f64
  ul_routing_strategy :: "string option"
  ul_routing_decision :: "string option"
  ul_usage_source :: string
  ul_usage_confidence :: string
  ul_pricing_source :: string
  ul_input_price_snapshot :: f64
  ul_output_price_snapshot :: f64
  ul_pricing_version :: "string option"

record usage_session =
  ul_session_id :: "string option"
  ul_turn_index :: "int option"
  ul_affinity_applied :: int
  ul_affinity_hit :: int
  ul_prefix_hash :: "string option"
  ul_context_epoch :: int

type_synonym usage_row = "usage_ids \<times> usage_tokens \<times> usage_settlement \<times> usage_session"

definition usage_row_of ::
    "((string \<rightharpoonup> string) \<Rightarrow> string) \<Rightarrow> string \<Rightarrow> string \<Rightarrow> (string \<rightharpoonup> endpoint_profile) \<Rightarrow> request_report \<Rightarrow> usage_row" where
  "usage_row_of to_json row_id registry_version profiles r =
     (let u = usage_figures_of r;
          ep = report_endpoint r;
          (unit_price, pricing_source) = settle_price profiles ep;
          sf = session_fields_of r
      in (\<lparr>ul_id = row_id, ul_org_id = rr_metadata r ''org_id'',
           ul_project_id = rr_metadata r ''project_id'', ul_key_id = rr_metadata r ''key_id'',
           ul_virtual_model_id = rr_metadata r ''virtual_model_id'',
           ul_pool_id = or_else (rr_metadata r ''pool_id'') (rr_pool_id r), ul_endpoint_id = ep,
           ul_provider_account_id = rr_metadata r ''account_id''\<rparr>,
          \<lparr>ul_prompt_tokens = i32_of_nat (uf_prompt u), ul_completion_tokens = i32_of_nat (uf_completion u),
           ul_total_tokens = i32_of_nat (uf_total u),
           ul_cache_hit_tokens = map_option i64_of_nat (uf_cache_hit u),
           ul_cache_write_tokens = map_option i64_of_nat (uf_cache_write u),
           ul_latency_ms = i32_of_nat (rr_latency_ms r),
           ul_ttft_ms = map_option i32_of_nat (rr_ttft_ms r),
           ul_cached_input_tokens = i32_of_nat (unwrap_or (uf_cache_hit u) 0),
           ul_tool_message_chars = unwrap_or (meta_i32 r ''tool_message_chars'') 0,
           ul_trimmed_chars = unwrap_or (meta_i32 r ''trimmed_chars'') 0\<rparr>,
          \<lparr>ul_status_code = status_of r, ul_error_message = rr_error_kind r,
           ul_metadata = to_json (metadata_values r u pricing_source),
           ul_estimated_cost = settle_cost unit_price u,
           ul_routing_strategy = rr_metadata r ''routing_strategy'',
           ul_routing_decision = rr_metadata r ''routing_decision'',
           ul_usage_source = uf_source u, ul_usage_confidence = uf_confidence u,
           ul_pricing_source = pricing_source,
           ul_input_price_snapshot = input_price unit_price,
           ul_output_price_snapshot = output_price unit_price,
           ul_pricing_version = (if pricing_source = ''configured_endpoint'' then Some registry_version else None)\<rparr>,
          \<lparr>ul_session_id = sf_session_id sf, ul_turn_index = sf_turn_index sf,
           ul_affinity_applied = (if sf_affinity_applied sf then 1 else 0),
           ul_affinity_hit = (if sf_affinity_hit sf then 1 else 0),
           ul_prefix_hash = sf_prefix_hash sf, ul_context_epoch = sf_context_epoch sf\<rparr>))"

record hook_state =
  hk_metrics :: metric_map
  hk_quotas :: quota_limiter
  hk_sessions :: session_store
  hk_usage_logs :: "usage_row list"

text \<open>A failed insert is logged and ignored; the rest has happened before it.\<close>

definition on_request_finished ::
    "((string \<rightharpoonup> string) \<Rightarrow> string) \<Rightarrow> string \<Rightarrow> string \<Rightarrow> (string \<rightharpoonup> endpoint_profile) \<Rightarrow> bool \<Rightarrow> nat
      \<Rightarrow> hook_state \<Rightarrow> request_report \<Rightarrow> hook_state" where
  "on_request_finished to_json row_id registry_version profiles insert_ok now s r =
     (let s1 = s\<lparr>hk_quotas := release_slots_of (hk_quotas s) r\<rparr>;
          s2 = s1\<lparr>hk_metrics := observe_cache (hk_metrics s1) r (usage_figures_of r)\<rparr>;
          s3 = s2\<lparr>hk_sessions := bind_session (hk_sessions s2) now r\<rparr>
      in if insert_ok
         then s3\<lparr>hk_usage_logs := hk_usage_logs s3 @ [usage_row_of to_json row_id registry_version profiles r]\<rparr>
         else s3)"

lemma parse_i32_show_int: "- (2 ^ 31) \<le> i \<Longrightarrow> i < 2 ^ 31 \<Longrightarrow> parse_i32 (show_int i) = Some i"
  by (simp add: parse_i32_def parse_i64_show_int)

lemma parse_i32_show_nat: "n < 2 ^ 31 \<Longrightarrow> parse_i32 (show_nat n) = Some (int n)"
  using parse_i32_show_int [of "int n"] by (simp add: show_int_def)

section \<open>Lemmas\<close>

lemma calculate_cost_zero: "prices_nonneg p \<Longrightarrow> calculate_cost p 0 0 None = 0"
  by (simp add: calculate_cost_def Let_def sat_sub_u32_def fmul_def fadd_def)

lemma no_usage_no_estimate:
  "uf_source (usage_figures_of r) = ''unavailable'' \<Longrightarrow>
     uf_prompt (usage_figures_of r) = 0 \<and> uf_completion (usage_figures_of r) = 0 \<and>
     uf_cache_hit (usage_figures_of r) = None"
  by (auto simp: usage_figures_of_def Let_def split: if_splits)

lemma unpriced_cost_zero:
  "\<not> is_priced p \<Longrightarrow> cache_read_per_1m p = None \<Longrightarrow> calculate_cost p i out hits = 0"
  by (simp add: calculate_cost_def Let_def is_priced_def input_price_def output_price_def fmul_def fadd_def)

definition plain_report :: "(string \<rightharpoonup> string) \<Rightarrow> request_report" where
  "plain_report md = \<lparr>rr_metadata = md, rr_selected_endpoint_id = ''ep1'', rr_pool_id = None,
     rr_usage = None, rr_attempts = [], rr_latency_ms = 5, rr_error_kind = None, rr_ttft_ms = None\<rparr>"

section \<open>Properties\<close>

text \<open>
  A finished request gives back its own slots and nothing else: no slot of another
  key or of another project changes, and a sub-request marked with quota_release = 0
  (the judge, a mirror) leaves the limiter as it was.
\<close>

theorem report_releases_only_its_own_slots:
  "(rr_metadata r ''key_id'' \<noteq> Some k \<longrightarrow>
      slots (key_concurrency (hk_quotas (on_request_finished j i v pf ok now s r))) k
      = slots (key_concurrency (hk_quotas s)) k) \<and>
   (rr_metadata r ''project_id'' \<noteq> Some p \<longrightarrow>
      slots (project_concurrency (hk_quotas (on_request_finished j i v pf ok now s r))) p
      = slots (project_concurrency (hk_quotas s)) p) \<and>
   (rr_metadata r ''quota_release'' = Some ''0'' \<longrightarrow>
      hk_quotas (on_request_finished j i v pf ok now s r) = hk_quotas s)"
proof -
  have q: "hk_quotas (on_request_finished j i v pf ok now s r) = release_slots_of (hk_quotas s) r"
    by (simp add: on_request_finished_def Let_def)
  have key: "slots (key_concurrency (release l k' po)) k = slots (key_concurrency l) k" if "k' \<noteq> k" for l k' po
    using that by (simp add: quota_simps)
  have proj: "slots (project_concurrency (release l k' po)) p = slots (project_concurrency l) p"
    if "po \<noteq> Some p" for l k' po
    using that by (cases po) (auto simp: quota_simps)
  show ?thesis unfolding q release_slots_of_def by (auto simp: key proj split: option.split)
qed

theorem report_releases_only_its_own_slots_witness:
  "let r = plain_report [''key_id'' \<mapsto> ''k1'', ''project_id'' \<mapsto> ''p1''];
       s = \<lparr>hk_metrics = Map.empty,
            hk_quotas = quota_limiter_new\<lparr>key_concurrency := [''k1'' \<mapsto> 1, ''k2'' \<mapsto> 3]\<rparr>,
            hk_sessions = Map.empty, hk_usage_logs = []\<rparr>
   in slots (key_concurrency (hk_quotas (on_request_finished (\<lambda>_. []) ''id'' ''v'' Map.empty True 1 s r))) ''k2'' = 3"
  using report_releases_only_its_own_slots
    [of "plain_report [''key_id'' \<mapsto> ''k1'', ''project_id'' \<mapsto> ''p1'']" "''k2''" "\<lambda>_. []" "''id''" "''v''"
      Map.empty True 1 "\<lparr>hk_metrics = Map.empty,
            hk_quotas = quota_limiter_new\<lparr>key_concurrency := [''k1'' \<mapsto> 1, ''k2'' \<mapsto> 3]\<rparr>,
            hk_sessions = Map.empty, hk_usage_logs = []\<rparr>"]
  by (simp add: plain_report_def slots_def)



text \<open>
  A success under a large context epoch is bound to the wrong session: epochs are u32
  on the request path, but the hook reads them back as i32 and falls back to zero, so a
  request of epoch 3000000000 leaves its own epoch unbound and binds epoch 0 instead.
\<close>

theorem large_epoch_binds_epoch_zero:
  "let r = plain_report [''context_epoch'' \<mapsto> show_nat 3000000000, ''session_id'' \<mapsto> ''s'',
             ''pool_id'' \<mapsto> ''p'', ''affinity_enabled'' \<mapsto> ''1''];
       st = bind_session Map.empty 1 r
   in parse_epoch (show_nat 3000000000) = Some 3000000000 \<and>
      st (''p'', ''s'', 3000000000) = None \<and>
      map_option sticky_endpoint_id (st (''p'', ''s'', 0)) = Some (Some ''ep1'')"
proof -
  let ?r = "plain_report [''context_epoch'' \<mapsto> show_nat 3000000000, ''session_id'' \<mapsto> ''s'',
             ''pool_id'' \<mapsto> ''p'', ''affinity_enabled'' \<mapsto> ''1'']"
  have "char_of (51::nat) = CHR ''3''" "char_of (48::nat) = CHR ''0''" by code_simp+
  then have s: "show_nat 3000000000 = ''3000000000''" by (simp add: show_nat.simps digit_char_def)
  have d: "digits_value 10 0 ''3000000000'' = Some 3000000000"
    by (simp add: digit_value_def is_ascii_digit_def byte_def)
  have p: "parse_unsigned 10 mx ''3000000000'' = (if 3000000000 \<le> mx then Some 3000000000 else None)" for mx
    using d by (simp add: parse_unsigned_def)
  have t: "trim ''3000000000'' = ''3000000000''"
    by (rule trim_ascii) (simp_all add: ascii_def byte_def is_whitespace_def Let_def)
  have e: "parse_epoch ''3000000000'' = Some 3000000000"
    by (simp add: parse_epoch_def parse_epoch_value_def t p)
  have i: "parse_i32 ''3000000000'' = None"
    by (simp add: parse_i32_def parse_i64_def p)
  obtain r where r: "r = ?r" by blast
  have f: "sf_session_id (session_fields_of r) = Some ''s''" "sf_context_epoch (session_fields_of r) = 0"
    "sf_affinity_enabled (session_fields_of r)" "status_of r = 200"
    "rr_metadata r ''pool_id'' = Some ''p''" "rr_selected_endpoint_id r = ''ep1''"
    by (simp_all add: session_fields_of_def r plain_report_def meta_i32_def s i status_of_def)
  show ?thesis
    unfolding Let_def bind_session_def r [symmetric]
    using e by (simp add: f s record_success_def Let_def fresh_entry_def u32_of_int_def)
qed

text \<open>
  A failed request never moves a session: when the report carries an error kind, the
  session store is unchanged and the row is written with status 502.
\<close>

theorem failed_request_keeps_sessions:
  assumes "rr_error_kind r \<noteq> None"
  shows "hk_sessions (on_request_finished j i v pf ok now s r) = hk_sessions s \<and>
     hk_metrics (on_request_finished j i v pf ok now s r) = hk_metrics s \<and>
     ul_status_code (fst (snd (snd (usage_row_of j i v pf r)))) = 502"
  using assms
  by (auto simp: on_request_finished_def Let_def bind_session_def observe_cache_def status_of_def
      usage_row_of_def case_prod_beta)

theorem failed_request_keeps_sessions_witness:
  "hk_sessions (on_request_finished (\<lambda>_. []) ''id'' ''v'' Map.empty True 1
     \<lparr>hk_metrics = Map.empty, hk_quotas = quota_limiter_new, hk_sessions = Map.empty, hk_usage_logs = []\<rparr>
     ((plain_report [''session_id'' \<mapsto> ''s''])\<lparr>rr_error_kind := Some ''Timeout''\<rparr>)) = Map.empty"
  using failed_request_keeps_sessions [of "(plain_report [''session_id'' \<mapsto> ''s''])\<lparr>rr_error_kind := Some ''Timeout''\<rparr>"]
  by simp

end
