(* ===== verification/Shadow.thy ===== *)
theory Shadow
  imports Gateway Usage
begin

text \<open>
  api/shadow.rs: a sampled request is mirrored to a second model and the two answers are
  compared. Text of an answer, previews, word similarity, the mirrored request and the
  evaluation row. Unicode lower case is a parameter, and so is the dispatcher.
\<close>

section \<open>Text of an answer\<close>

definition PREVIEW_CHARS :: nat where "PREVIEW_CHARS = 500"

definition part_text :: "json \<Rightarrow> string option" where
  "part_text part = jget_str ''text'' part"

definition openai_content :: "json \<Rightarrow> json option" where
  "openai_content value =
     Option.bind (Option.bind (Option.bind (jget ''choices'' value) as_array)
       (\<lambda>cs. case cs of [] \<Rightarrow> None | c # _ \<Rightarrow> Some c))
       (\<lambda>c. Option.bind (jget ''message'' c) (jget ''content''))"

definition array_items :: "json option \<Rightarrow> json list" where
  "array_items v = unwrap_or (Option.bind v as_array) []"

definition anthropic_texts :: "json \<Rightarrow> string list" where
  "anthropic_texts value =
     List.map_filter part_text (filter (\<lambda>b. jget_str ''type'' b = Some ''text'') (array_items (jget ''content'' value)))"

definition joined_blocks :: "string list \<Rightarrow> string option" where
  "joined_blocks ts = (if ts = [] then None else Some (join [CHR 10] ts))"

definition assistant_text :: "json \<Rightarrow> string option" where
  "assistant_text value =
     (case openai_content value of
        None \<Rightarrow> joined_blocks (anthropic_texts value)
      | Some content \<Rightarrow> (case as_str content of
          Some text \<Rightarrow> Some text
        | None \<Rightarrow>
            let parts = List.map_filter part_text (array_items (Some content)) in
            if parts \<noteq> [] then Some (join [CHR 10] parts) else joined_blocks (anthropic_texts value)))"

definition extract_json_preview :: "json \<Rightarrow> string" where
  "extract_json_preview value =
     (let content = unwrap_or (assistant_text value) [] in
      if PREVIEW_CHARS < length content then take_chars PREVIEW_CHARS content else content)"

section \<open>Similarity\<close>

definition words :: "(string \<Rightarrow> string) \<Rightarrow> string \<Rightarrow> string set" where
  "words lower s = set (map lower (split_whitespace s))"

definition jaccard_similarity :: "(string \<Rightarrow> string) \<Rightarrow> string \<Rightarrow> string \<Rightarrow> f64" where
  "jaccard_similarity lower a b =
     (if a = [] \<and> b = [] then 1
      else let set_a = words lower a; set_b = words lower b in
        if set_a = {} \<and> set_b = {} then 1
        else if card (set_a \<union> set_b) = 0 then 0
        else fdiv (f64_of_nat (card (set_a \<inter> set_b))) (f64_of_nat (card (set_a \<union> set_b))))"

section \<open>The mirrored request\<close>

definition shadow_metadata :: "auth_context \<Rightarrow> virtual_model \<Rightarrow> string \<rightharpoonup> string" where
  "shadow_metadata auth vm =
     [''org_id'' \<mapsto> pj_org_id (au_project auth), ''project_id'' \<mapsto> pj_id (au_project auth),
      ''key_id'' \<mapsto> ak_id (au_api_key auth), ''virtual_model_id'' \<mapsto> vm_id vm, ''pool_id'' \<mapsto> vm_pool_id vm,
      ''routing_strategy'' \<mapsto> canonicalize ''round_robin'']"

text \<open>A full delivery loses its warm context; a delta keeps it.\<close>

definition shadow_payload :: "headers \<Rightarrow> json \<Rightarrow> string \<Rightarrow> json" where
  "shadow_payload h payload shadow_model_name =
     (let stripped = (case parse_context_with_headers payload (Some h) of
            Inr (Some ctx) \<Rightarrow> if wx_delivery ctx = Full then strip_context payload else payload
          | _ \<Rightarrow> payload)
      in jset ''model'' (String shadow_model_name) stripped)"

definition shadow_protocol :: "bool \<Rightarrow> chat_protocol" where
  "shadow_protocol is_openai = (if is_openai then ChatOpenAi else ChatAnthropic)"

record shadow_result =
  sh_virtual_model_id :: string
  sh_endpoint_id :: string
  sh_provider_type :: string
  sh_latency_ms :: int
  sh_status_code :: int
  sh_request_preview :: string
  sh_response_preview :: string

definition shadow_preview :: "'b proto_body \<Rightarrow> string" where
  "shadow_preview body = (case body of JsonBody j \<Rightarrow> extract_json_preview j | SseBody _ \<Rightarrow> ''[stream]'')"

text \<open>
  The model is resolved like that of any request (Auth). The elapsed milliseconds are cast
  to 32 bits.
\<close>

type_synonym model_resolver = "string \<Rightarrow> string \<Rightarrow> string \<Rightarrow> unit + virtual_model option"

definition execute_shadow ::
    "'r parser \<Rightarrow> ('st, 'r, 'b) dispatcher \<Rightarrow> model_resolver \<Rightarrow> nat \<Rightarrow> auth_context \<Rightarrow> headers \<Rightarrow> json
       \<Rightarrow> string \<Rightarrow> string \<Rightarrow> bool \<Rightarrow> 'st \<Rightarrow> 'st \<times> shadow_result option" where
  "execute_shadow parse dispatch resolve elapsed_ms auth h payload shadow_model_name request_preview is_openai st =
     (case resolve shadow_model_name (pj_id (au_project auth)) (ak_id (au_api_key auth)) of
        Inr (Some vm) \<Rightarrow>
          (case parse (shadow_protocol is_openai) (shadow_payload h payload shadow_model_name) (vm_name vm) of
             Inl _ \<Rightarrow> (st, None)
           | Inr rq \<Rightarrow>
             (case dispatch (ServiceTarget (vm_pool_id vm)) (shadow_protocol is_openai)
                     (insert_metadata (shadow_metadata auth vm) rq) None st of
                (st', Inr (HostResponse status body)) \<Rightarrow>
                  (st', Some \<lparr>sh_virtual_model_id = vm_id vm, sh_endpoint_id = [], sh_provider_type = ''unknown'',
                     sh_latency_ms = i32_of_nat elapsed_ms, sh_status_code = int status,
                     sh_request_preview = request_preview, sh_response_preview = shadow_preview body\<rparr>)
              | (st', _) \<Rightarrow> (st', None)))
      | _ \<Rightarrow> (st, None))"

section \<open>The evaluation\<close>

record shadow_row =
  sv_org_id :: string
  sv_project_id :: string
  sv_key_id :: string
  sv_result :: shadow_result
  sv_similarity_score :: f64
  sv_agreement :: int
  sv_estimated_cost :: f64

definition store_shadow_evaluation ::
    "bool \<Rightarrow> shadow_row list \<Rightarrow> auth_context \<Rightarrow> shadow_result \<Rightarrow> f64 \<Rightarrow> bool \<Rightarrow> shadow_row list" where
  "store_shadow_evaluation ok rows auth result similarity agreement =
     (if ok then rows @ [\<lparr>sv_org_id = pj_org_id (au_project auth), sv_project_id = pj_id (au_project auth),
        sv_key_id = ak_id (au_api_key auth), sv_result = result, sv_similarity_score = similarity,
        sv_agreement = (if agreement then 1 else 0), sv_estimated_cost = 0\<rparr>] else rows)"

record shadow_job =
  sj_auth :: auth_context
  sj_headers :: headers
  sj_payload :: json
  sj_shadow_model_name :: string
  sj_request_preview :: string
  sj_main_preview :: string
  sj_is_openai :: bool

definition run_shadow ::
    "(string \<Rightarrow> string) \<Rightarrow> 'r parser \<Rightarrow> ('st, 'r, 'b) dispatcher \<Rightarrow> model_resolver \<Rightarrow> nat \<Rightarrow> bool
       \<Rightarrow> shadow_job \<Rightarrow> 'st \<times> shadow_row list \<Rightarrow> 'st \<times> shadow_row list" where
  "run_shadow lower parse dispatch resolve elapsed_ms insert_ok job s =
     (case execute_shadow parse dispatch resolve elapsed_ms (sj_auth job) (sj_headers job) (sj_payload job)
             (sj_shadow_model_name job) (sj_request_preview job) (sj_is_openai job) (fst s) of
        (st, None) \<Rightarrow> (st, snd s)
      | (st, Some result) \<Rightarrow>
          let similarity = jaccard_similarity lower (sj_main_preview job) (sh_response_preview result);
              agreement = (rnd (3 / 10) < similarity)
          in (st, store_shadow_evaluation insert_ok (snd s) (sj_auth job) result similarity agreement))"

section \<open>Lemmas\<close>

lemma length_take_chars: "length (utf8_chars (take_chars n s)) = min n (length (utf8_chars s))"
proof -
  have "chunks (take n (utf8_chars s))"
    using chunks_prefix [of "take n (utf8_chars s)" "drop n (utf8_chars s)"] chunks_utf8 by simp
  then show ?thesis by (simp add: take_chars_def utf8_chars_concat)
qed

lemma length_utf8_chars_le: "length (utf8_chars s) \<le> length s"
proof (induction s rule: utf8_chars.induct)
  case (2 c cs)
  have "length (dropWhile is_cont cs) \<le> length cs" by (rule length_dropWhile_le)
  with 2 show ?case by simp
qed simp

lemma finite_words [simp]: "finite (words lower s)"
  by (simp add: words_def)

lemma ratio_unit:
  assumes "A \<subseteq> B" "finite B" "B \<noteq> {}"
  shows "0 \<le> fdiv (f64_of_nat (card A)) (f64_of_nat (card B)) \<and> fdiv (f64_of_nat (card A)) (f64_of_nat (card B)) \<le> 1"
proof -
  have B: "1 \<le> f64_of_nat (card B)"
    using assms f64_of_nat_mono [of 1 "card B"] f64_of_nat_exact [of 1] by (simp add: Suc_leI card_gt_0_iff)
  have "f64_of_nat (card A) \<le> f64_of_nat (card B)"
    using assms by (intro f64_of_nat_mono card_mono)
  then have "f64_of_nat (card A) / f64_of_nat (card B) \<le> 1" using B by simp
  then have "fdiv (f64_of_nat (card A)) (f64_of_nat (card B)) \<le> rnd 1"
    unfolding fdiv_def by (rule rnd_mono)
  then show ?thesis using rnd_of_int [of 1] fdiv_nonneg by simp
qed

lemma ratio_self:
  assumes "finite B" "B \<noteq> {}"
  shows "fdiv (f64_of_nat (card B)) (f64_of_nat (card B)) = 1"
proof -
  have "1 \<le> f64_of_nat (card B)"
    using assms f64_of_nat_mono [of 1 "card B"] f64_of_nat_exact [of 1] by (simp add: Suc_leI card_gt_0_iff)
  then show ?thesis using rnd_of_int [of 1] by (simp add: fdiv_def)
qed

section \<open>Properties\<close>

text \<open>
  The agreement measure of two answers is a similarity: it lies in the unit interval,
  does not depend on which answer is the mirrored one, is 1 for equal answers, and is 0
  for answers without a common word unless neither has one.
\<close>

theorem jaccard_is_a_similarity:
  "0 \<le> jaccard_similarity lower a b \<and> jaccard_similarity lower a b \<le> 1 \<and>
   jaccard_similarity lower a b = jaccard_similarity lower b a \<and>
   jaccard_similarity lower a a = 1 \<and>
   (words lower a \<inter> words lower b = {} \<and> words lower a \<union> words lower b \<noteq> {} \<longrightarrow> jaccard_similarity lower a b = 0)"
proof -
  let ?A = "words lower a" and ?B = "words lower b"
  have "0 \<le> jaccard_similarity lower a b \<and> jaccard_similarity lower a b \<le> 1"
    using ratio_unit [of "?A \<inter> ?B" "?A \<union> ?B"] by (auto simp: jaccard_similarity_def Let_def)
  moreover have "jaccard_similarity lower a b = jaccard_similarity lower b a"
    by (simp add: jaccard_similarity_def Let_def Int_commute Un_commute conj_commute)
  moreover have "jaccard_similarity lower a a = 1"
    using ratio_self [of ?A] by (auto simp: jaccard_similarity_def Let_def)
  moreover have "jaccard_similarity lower a b = 0" if "?A \<inter> ?B = {}" "?A \<union> ?B \<noteq> {}"
  proof -
    have "a \<noteq> [] \<or> b \<noteq> []" using that(2) by (auto simp: words_def split_whitespace_def)
    with that show ?thesis
      by (auto simp: jaccard_similarity_def Let_def f64_of_nat_def fdiv_def)
  qed
  ultimately show ?thesis by blast
qed

text \<open>
  A preview is bounded: whatever an upstream answers, at most 500 characters of it are
  kept for the comparison.
\<close>

theorem preview_is_bounded: "length (utf8_chars (extract_json_preview value)) \<le> PREVIEW_CHARS"
proof -
  let ?c = "unwrap_or (assistant_text value) []"
  have "length (utf8_chars ?c) \<le> length ?c" by (rule length_utf8_chars_le)
  then show ?thesis by (auto simp: extract_json_preview_def Let_def length_take_chars)
qed

text \<open>
  The usage report of a mirrored request releases a concurrency slot of the caller's key
  and project although the mirror never acquired one: its metadata carries the key and the
  project but not the quota_release mark that judge requests carry.
\<close>

theorem mirror_releases_a_slot_it_never_took:
  assumes "gr_metadata rq ''quota_release'' = None"
    and "rr_metadata r = gr_metadata (insert_metadata (shadow_metadata auth vm) rq)"
  shows "release_slots_of l r = release l (ak_id (au_api_key auth)) (Some (pj_id (au_project auth)))"
  using assms by (simp add: release_slots_of_def shadow_metadata_def map_add_def)

text \<open>
  The report of a judge request, which shares the caller's key and project, releases
  nothing: the permit of the outer request stays the only one.
\<close>

lemma judge_report_releases_nothing:
  assumes "rr_metadata r = gr_metadata (insert_metadata (judge_metadata scope prompt) rq)"
  shows "release_slots_of l r = l"
  using assms by (simp add: release_slots_of_def judge_metadata_def)

end
