(* ===== verification/Budget.thy ===== *)
theory Budget
  imports F64
begin

text \<open>
  policy/budget.rs and the budget stage of api/proxy.rs (enforce_spend_budget,
  budget_headers): the effective daily limit, the spend query over the usage rows of
  one key, the three-way evaluation, and the gate that answers 503 or 429. The
  database answer of the spend query is an argument of the gate; the query itself is
  modelled on a list of usage rows, summed in scan order.
\<close>

section \<open>Model\<close>

datatype budget_outcome =
    BudgetOk
  | BudgetSoft f64 f64
  | BudgetHard f64 f64

definition should_downshift :: "budget_outcome \<Rightarrow> bool" where
  "should_downshift b = (case b of BudgetSoft _ _ \<Rightarrow> True | _ \<Rightarrow> False)"

definition is_blocked :: "budget_outcome \<Rightarrow> bool" where
  "is_blocked b = (case b of BudgetHard _ _ \<Rightarrow> True | _ \<Rightarrow> False)"

definition effective_daily_limit :: "f64 option \<Rightarrow> f64 option \<Rightarrow> f64 option" where
  "effective_daily_limit key_limit project_limit = (case (key_limit, project_limit) of
     (Some a, Some b) \<Rightarrow> Some (min a b)
   | (Some a, None) \<Rightarrow> Some a
   | (None, Some b) \<Rightarrow> Some b
   | (None, None) \<Rightarrow> None)"

record usage_cost =
  uc_key_id :: "string option"
  uc_timestamp :: nat
  uc_estimated_cost :: "f64 option"

text \<open>
  \<open>SELECT SUM(estimated_cost) ... WHERE key_id = $1 AND timestamp >= $2\<close>: SUM skips
  NULL costs and is NULL when nothing is left, which the code reads as 0.
\<close>

definition spent_since :: "usage_cost list \<Rightarrow> string \<Rightarrow> nat \<Rightarrow> f64" where
  "spent_since rows key_id start =
     (let costs = List.map_filter uc_estimated_cost
        (filter (\<lambda>r. uc_key_id r = Some key_id \<and> start \<le> uc_timestamp r) rows)
      in foldl fadd 0 costs)"

definition ns_per_day :: nat where
  "ns_per_day = 86400 * 1000000000"

definition spent_today_for_key :: "usage_cost list \<Rightarrow> nat \<Rightarrow> string \<Rightarrow> f64" where
  "spent_today_for_key rows now key_id =
     spent_since rows key_id ((now div ns_per_day) * ns_per_day)"

definition soft_fraction :: f64 where
  "soft_fraction = rnd (8 / 10)"

definition evaluate :: "f64 \<Rightarrow> f64 option \<Rightarrow> budget_outcome" where
  "evaluate spent limit = (case limit of
     None \<Rightarrow> BudgetOk
   | Some l \<Rightarrow> if 0 < l
       then if l \<le> spent then BudgetHard spent l
            else if fmul l soft_fraction \<le> spent then BudgetSoft spent l
            else BudgetOk
       else BudgetOk)"

text \<open>The gate: \<open>Inl\<close> carries the response status.\<close>

record budget_gate =
  bg_outcome :: budget_outcome
  bg_spent :: f64
  bg_limit :: "f64 option"
  bg_downshift :: bool

datatype budget_error =
    SpendUnavailable                                  \<comment> \<open>503\<close>
  | SpendExceeded budget_outcome f64 "f64 option"     \<comment> \<open>429 with the budget headers\<close>

definition enforce_spend_budget ::
    "f64 option \<Rightarrow> f64 option \<Rightarrow> 'dberr + f64 \<Rightarrow> budget_error + budget_gate" where
  "enforce_spend_budget key_limit project_limit answer =
     (let limit = effective_daily_limit key_limit project_limit in
      case answer of
        Inl _ \<Rightarrow> Inl SpendUnavailable
      | Inr spent \<Rightarrow>
          let outcome = evaluate spent limit in
          if is_blocked outcome then Inl (SpendExceeded outcome spent limit)
          else Inr \<lparr>bg_outcome = outcome, bg_spent = spent, bg_limit = limit,
                    bg_downshift = should_downshift outcome\<rparr>)"

text \<open>
  The header values before they are printed with four decimals: status, used share,
  remaining amount.
\<close>

definition budget_headers :: "budget_outcome \<Rightarrow> f64 \<Rightarrow> f64 option \<Rightarrow> string \<times> (f64 \<times> f64) option" where
  "budget_headers b spent limit =
     ((case b of BudgetOk \<Rightarrow> ''ok'' | BudgetSoft _ _ \<Rightarrow> ''soft'' | BudgetHard _ _ \<Rightarrow> ''hard''),
      (case limit of
         None \<Rightarrow> None
       | Some l \<Rightarrow> if 0 < l then Some (fdiv spent l, max (fsub l spent) 0) else None))"

section \<open>Lemmas\<close>

definition severity :: "budget_outcome \<Rightarrow> nat" where
  "severity b = (case b of BudgetOk \<Rightarrow> 0 | BudgetSoft _ _ \<Rightarrow> 1 | BudgetHard _ _ \<Rightarrow> 2)"

lemma soft_fraction_val: "soft_fraction = 7205759403792794 / 2 ^ 53"
  unfolding soft_fraction_def by (subst rnd_eval [where s = 53 and n = 7205759403792794]) simp_all

lemma soft_fraction_bounds: "0 \<le> soft_fraction" "soft_fraction \<le> 1"
  by (simp_all add: soft_fraction_val)

text \<open>The soft threshold never passes the limit it is derived from.\<close>

lemma soft_threshold_le:
  assumes "rnd l = l" "0 \<le> l"
  shows "fmul l soft_fraction \<le> l"
proof -
  have "l * soft_fraction \<le> l * 1" using assms soft_fraction_bounds by (intro mult_left_mono)
  then show ?thesis unfolding fmul_def using assms(1) by (intro f64.le_fixed) simp_all
qed

lemma is_blocked_iff: "is_blocked (evaluate s l) \<longleftrightarrow> (\<exists>x. l = Some x \<and> 0 < x \<and> x \<le> s)"
  by (cases l) (auto simp: is_blocked_def evaluate_def)

lemma should_downshift_iff: "should_downshift (evaluate s l) \<longleftrightarrow>
    (\<exists>x. l = Some x \<and> 0 < x \<and> s < x \<and> fmul x soft_fraction \<le> s)"
  by (cases l) (auto simp: should_downshift_def evaluate_def)

lemma severity_mono_spent: "s \<le> t \<Longrightarrow> severity (evaluate s l) \<le> severity (evaluate t l)"
  by (cases l) (auto simp: severity_def evaluate_def)

lemma severity_antimono_limit:
  assumes "0 < a" "a \<le> b"
  shows "severity (evaluate s (Some b)) \<le> severity (evaluate s (Some a))"
proof -
  have "fmul a soft_fraction \<le> fmul b soft_fraction"
    using assms soft_fraction_bounds by (intro fmul_mono)
  with assms show ?thesis by (auto simp: severity_def evaluate_def)
qed

lemma effective_daily_limit_simps [simp]:
  "effective_daily_limit (Some a) (Some b) = Some (min a b)"
  "effective_daily_limit (Some a) None = Some a"
  "effective_daily_limit None l = l"
  by (simp_all add: effective_daily_limit_def split: option.splits)

lemma effective_limit_blocks:
  assumes "\<forall>x. k = Some x \<longrightarrow> 0 < x" "\<forall>x. p = Some x \<longrightarrow> 0 < x"
  shows "is_blocked (evaluate s (effective_daily_limit k p)) \<longleftrightarrow>
         is_blocked (evaluate s k) \<or> is_blocked (evaluate s p)"
  using assms by (cases k; cases p) (auto simp: is_blocked_iff min_def)

section \<open>Properties\<close>

text \<open>
  The budget evaluation gets no milder when more was spent, and no milder when a
  positive limit is lowered: ok, soft and hard are ordered by severity.
\<close>

theorem budget_severity_monotone:
  assumes "s \<le> t" and "0 < a" and "a \<le> b"
  shows "severity (evaluate s (Some b)) \<le> severity (evaluate t (Some a))"
  using severity_mono_spent [OF assms(1), of "Some b"] severity_antimono_limit [OF assms(2,3), of t]
  by linarith

theorem budget_severity_monotone_witness:
  "severity (evaluate 5 (Some 20)) \<le> severity (evaluate 9 (Some 10))"
  by (rule budget_severity_monotone) simp_all

text \<open>
  C8. With positive limits on the key and the project, the gate built on the effective
  limit lets a request through exactly when the spend is known and is below each of them.
\<close>

theorem spend_gate_admits_iff:
  assumes "\<forall>x. k = Some x \<longrightarrow> 0 < x" and "\<forall>x. p = Some x \<longrightarrow> 0 < x"
  shows "(\<exists>g. enforce_spend_budget k p answer = Inr g) \<longleftrightarrow>
         (\<exists>spent. answer = Inr spent \<and> (\<forall>x. k = Some x \<longrightarrow> spent < x) \<and>
                  (\<forall>x. p = Some x \<longrightarrow> spent < x))"
proof (cases answer)
  case (Inl e)
  then show ?thesis by (simp add: enforce_spend_budget_def)
next
  case (Inr spent)
  have "(\<exists>g. enforce_spend_budget k p answer = Inr g) \<longleftrightarrow>
        \<not> is_blocked (evaluate spent (effective_daily_limit k p))"
    by (simp add: enforce_spend_budget_def Inr Let_def)
  also have "\<dots> \<longleftrightarrow> \<not> is_blocked (evaluate spent k) \<and> \<not> is_blocked (evaluate spent p)"
    using effective_limit_blocks [OF assms] by simp
  also have "\<dots> \<longleftrightarrow> (\<forall>x. k = Some x \<longrightarrow> spent < x) \<and> (\<forall>x. p = Some x \<longrightarrow> spent < x)"
    using assms by (auto simp: is_blocked_iff not_le)
  finally show ?thesis by (simp add: Inr)
qed

theorem spend_gate_admits_iff_witness:
  "\<exists>g. enforce_spend_budget (Some 10) (Some 20) (Inr 3 :: unit + f64) = Inr g"
  using spend_gate_admits_iff [of "Some 10" "Some 20" "Inr 3 :: unit + f64"] by simp

text \<open>
  A key limit of zero turns the project limit off as well: the tighter limit is
  then zero, which the evaluation reads as no limit, so any spend passes.
\<close>

theorem zero_key_limit_disables_project_limit:
  "\<exists>g. enforce_spend_budget (Some 0) (Some 10) (Inr 1000 :: unit + f64) = Inr g \<and>
       bg_outcome g = BudgetOk \<and> \<not> bg_downshift g"
  by (simp add: enforce_spend_budget_def evaluate_def is_blocked_def should_downshift_def min_def)

end
