(* ===== verification/Context_Slim.thy ===== *)
theory Context_Slim
  imports Tokens
begin

text \<open>
  policy/context.rs: reduction of large tool results in a request body, OpenAI tool
  messages and Anthropic tool_result blocks. Each message is rewritten by a function of
  that message and the configuration alone. content_to_text is the same function as in
  policy/tokens.rs and shared with Tokens.
\<close>

record slim_config =
  max_tool_chars :: nat
  placeholder_after :: nat

definition slim_config_default :: slim_config where
  "slim_config_default = \<lparr>max_tool_chars = 32000, placeholder_after = 32000 * 4\<rparr>"

record slim_result =
  sr_body :: json
  sr_original_tool_chars :: nat
  sr_slimmed_chars :: nat
  sr_modified :: bool
  sr_tools_touched :: nat

section \<open>Shortening one text\<close>

definition cut_marker :: "nat \<Rightarrow> string" where
  "cut_marker omitted =
     [CHR 10] @ ''...[truncated by SmartGate: '' @ show_nat omitted @ '' chars]...'' @ [CHR 10]"

definition head_tail :: "string \<Rightarrow> nat \<Rightarrow> string" where
  "head_tail text max_chars =
     (if length text \<le> max_chars then text
      else let head_len = nat_of_f64 (fmul (f64_of_nat max_chars) (rnd (7 / 10)));
               tail_len = max_chars - (head_len + 80);
               head = take_chars head_len text;
               tail = concat (rev (take tail_len (rev (utf8_chars text))));
               omitted = length text - (length head + length tail)
           in head @ cut_marker omitted @ tail)"

definition clue_of :: "string \<Rightarrow> string" where
  "clue_of text = (case find (\<lambda>l. l \<noteq> []) (map trim (lines text)) of
     None \<Rightarrow> ''tool output''
   | Some l \<Rightarrow> if 80 < length (utf8_chars l)
       then take_chars 80 l @ [CHR 0xE2, CHR 0x80, CHR 0xA6] else take_chars 80 l)"

definition placeholder :: "string \<Rightarrow> string option \<Rightarrow> nat \<Rightarrow> string" where
  "placeholder text tool_call_id original_len =
     ''[prior tool result omitted by SmartGate: ~'' @ show_nat original_len @ '' chars, id='' @
     unwrap_or tool_call_id ''-'' @ '', clue='' @ clue_of text @ '']''"

datatype slim_action = Placeholder | Cap string

definition slim_action_of :: "string \<Rightarrow> slim_config \<Rightarrow> slim_action option" where
  "slim_action_of text cfg =
     (if 0 < placeholder_after cfg \<and> placeholder_after cfg < length text then Some Placeholder
      else if max_tool_chars cfg < length text then Some (Cap (head_tail text (max_tool_chars cfg)))
      else None)"

text \<open>The replacement of a body, kept only when it is shorter.\<close>

definition slim_text :: "slim_config \<Rightarrow> string option \<Rightarrow> string \<Rightarrow> string option" where
  "slim_text cfg tool_id text =
     (case slim_action_of text cfg of
        None \<Rightarrow> None
      | Some a \<Rightarrow>
          let new_c = (case a of Placeholder \<Rightarrow> placeholder text tool_id (length text) | Cap capped \<Rightarrow> capped)
          in if length new_c < length text then Some new_c else None)"

section \<open>Messages and bodies\<close>

text \<open>A rewritten value with the characters seen, the characters saved, and the bodies touched.\<close>

type_synonym slimmed = "json \<times> nat \<times> nat \<times> nat"

definition slim_content :: "slim_config \<Rightarrow> string \<Rightarrow> json \<Rightarrow> slimmed" where
  "slim_content cfg id_key v = (case jget ''content'' v of
     None \<Rightarrow> (v, 0, 0, 0)
   | Some content \<Rightarrow>
       let text = content_to_text content in
       (case slim_text cfg (jget_str id_key v) text of
          None \<Rightarrow> (v, length text, 0, 0)
        | Some new_c \<Rightarrow> (jset ''content'' (String new_c) v, length text, length text - length new_c, 1)))"

definition slim_block :: "slim_config \<Rightarrow> json \<Rightarrow> slimmed" where
  "slim_block cfg b =
     (if jget_str ''type'' b \<noteq> Some ''tool_result'' then (b, 0, 0, 0)
      else slim_content cfg ''tool_use_id'' b)"

definition sum_slimmed :: "slimmed list \<Rightarrow> nat \<times> nat \<times> nat" where
  "sum_slimmed rs = (sum_list (map (\<lambda>(_, a, _, _). a) rs), sum_list (map (\<lambda>(_, _, b, _). b) rs),
     sum_list (map (\<lambda>(_, _, _, c). c) rs))"

definition slim_message :: "slim_config \<Rightarrow> json \<Rightarrow> slimmed" where
  "slim_message cfg msg =
     (if role_of msg = Some ''tool'' then slim_content cfg ''tool_call_id'' msg
      else (case Option.bind (jget ''content'' msg) as_array of
              None \<Rightarrow> (msg, 0, 0, 0)
            | Some blocks \<Rightarrow>
                let rs = map (slim_block cfg) blocks
                in (jset ''content'' (Array (map fst rs)) msg, sum_slimmed rs)))"

definition slim_tool_messages :: "json \<Rightarrow> slim_config \<Rightarrow> slim_result" where
  "slim_tool_messages body cfg = (case messages_of body of
     None \<Rightarrow> \<lparr>sr_body = body, sr_original_tool_chars = 0, sr_slimmed_chars = 0,
              sr_modified = False, sr_tools_touched = 0\<rparr>
   | Some msgs \<Rightarrow>
       (let rs = map (slim_message cfg) msgs in
        case sum_slimmed rs of (original, saved, touched) \<Rightarrow>
          \<lparr>sr_body = jset ''messages'' (Array (map fst rs)) body, sr_original_tool_chars = original,
           sr_slimmed_chars = saved, sr_modified = (0 < touched), sr_tools_touched = touched\<rparr>))"

definition trim_tool_messages :: "json \<Rightarrow> nat \<Rightarrow> slim_result" where
  "trim_tool_messages body mx =
     slim_tool_messages body \<lparr>max_tool_chars = mx, placeholder_after = min (mx * 4) (2 ^ 64 - 1)\<rparr>"

section \<open>Accounting\<close>

definition block_chars :: "json \<Rightarrow> nat" where
  "block_chars b = (if jget_str ''type'' b = Some ''tool_result'' then length (content_of b) else 0)"

definition tool_chars :: "json \<Rightarrow> nat" where
  "tool_chars m =
     (if role_of m = Some ''tool'' then length (content_of m)
      else (case Option.bind (jget ''content'' m) as_array of
              None \<Rightarrow> 0 | Some blocks \<Rightarrow> sum_list (map block_chars blocks)))"

lemma slim_text_shorter: "slim_text cfg i t = Some n \<Longrightarrow> length n < length t"
  by (auto simp: slim_text_def Let_def split: option.splits slim_action.splits if_splits)

lemma slim_content_spec:
  assumes "slim_content cfg k v = (v', a, b, c)"
  shows "a = length (content_of v)" "length (content_of v') + b = length (content_of v)"
  using assms
  by (auto simp: slim_content_def Let_def content_of_def content_to_text_def [of "String _"] json_simps
      dest!: slim_text_shorter [THEN less_imp_le] split: option.splits)

lemma slim_content_jget:
  assumes "slim_content cfg k v = (v', abc)" "x \<noteq> ''content''"
  shows "jget x v' = jget x v" "jget_str x v' = jget_str x v"
  using assms
  by (auto simp: slim_content_def Let_def jget_str_def json_simps split: option.splits)

lemma slim_block_chars:
  assumes "slim_block cfg b = (b', x, y, z)"
  shows "x = block_chars b" "block_chars b' + y = block_chars b"
proof -
  have t: "jget_str ''type'' b' = jget_str ''type'' b"
    using assms slim_content_jget(2) [of cfg "''tool_use_id''" b b' _ "''type''"]
    by (auto simp: slim_block_def split: if_splits)
  show "x = block_chars b" "block_chars b' + y = block_chars b"
    using assms t slim_content_spec(1,2) [of cfg "''tool_use_id''" b b' x y z]
    by (auto simp: slim_block_def block_chars_def split: if_splits)
qed

lemma slim_blocks_chars:
  "sum_slimmed (map (slim_block cfg) bs) = (x, y, z) \<Longrightarrow>
     x = sum_list (map block_chars bs) \<and>
     sum_list (map block_chars (map (fst \<circ> slim_block cfg) bs)) + y = sum_list (map block_chars bs)"
proof (induction bs arbitrary: x y z)
  case (Cons b bs)
  obtain b' p q r where b: "slim_block cfg b = (b', p, q, r)" by (cases "slim_block cfg b") auto
  obtain x0 y0 z0 where s: "sum_slimmed (map (slim_block cfg) bs) = (x0, y0, z0)"
    by (cases "sum_slimmed (map (slim_block cfg) bs)") auto
  have "x = p + x0" "y = q + y0" using Cons.prems b s by (auto simp: sum_slimmed_def)
  with Cons.IH [OF s] slim_block_chars [OF b] b show ?case by (simp add: comp_def)
qed (simp add: sum_slimmed_def)

lemma slim_message_chars:
  assumes "slim_message cfg m = (m', x, y, z)"
  shows "x = tool_chars m \<and> tool_chars m' + y = tool_chars m \<and> role_of m' = role_of m"
proof (cases "role_of m = Some ''tool''")
  case True
  then have c: "slim_content cfg ''tool_call_id'' m = (m', x, y, z)" using assms by (simp add: slim_message_def)
  have "role_of m' = role_of m" using slim_content_jget(2) [OF c, of "''role''"] by (simp add: role_of_def)
  with slim_content_spec(1,2) [OF c] True show ?thesis by (simp add: tool_chars_def)
next
  case False
  show ?thesis
  proof (cases "Option.bind (jget ''content'' m) as_array")
    case None
    then show ?thesis using assms False by (simp add: slim_message_def tool_chars_def)
  next
    case (Some blocks)
    then obtain c where c: "jget ''content'' m = Some c" by (cases "jget ''content'' m") auto
    have m': "m' = jset ''content'' (Array (map (fst \<circ> slim_block cfg) blocks)) m"
      and s: "sum_slimmed (map (slim_block cfg) blocks) = (x, y, z)"
      using assms False Some by (auto simp: slim_message_def Let_def)
    have r: "role_of m' = role_of m" by (simp add: m' role_of_def jget_str_jset [OF c])
    have "jget ''content'' m' = Some (Array (map (fst \<circ> slim_block cfg) blocks))"
      by (simp add: m' jget_jset [OF c])
    then show ?thesis using slim_blocks_chars [OF s] False r Some by (simp add: tool_chars_def)
  qed
qed

lemma slim_messages_chars:
  "sum_slimmed (map (slim_message cfg) ms) = (x, y, z) \<Longrightarrow>
     x = sum_list (map tool_chars ms) \<and>
     sum_list (map tool_chars (map (fst \<circ> slim_message cfg) ms)) + y = sum_list (map tool_chars ms)"
proof (induction ms arbitrary: x y z)
  case (Cons m ms)
  obtain m' p q r where m: "slim_message cfg m = (m', p, q, r)" by (cases "slim_message cfg m") auto
  obtain x0 y0 z0 where s: "sum_slimmed (map (slim_message cfg) ms) = (x0, y0, z0)"
    by (cases "sum_slimmed (map (slim_message cfg) ms)") auto
  have "x = p + x0" "y = q + y0" using Cons.prems m s by (auto simp: sum_slimmed_def)
  with Cons.IH [OF s] slim_message_chars [OF m] m show ?case by (simp add: comp_def)
qed (simp add: sum_slimmed_def)

lemma slim_messages:
  assumes "messages_of body = Some ms"
  shows "messages_of (sr_body (slim_tool_messages body cfg)) = Some (map (fst \<circ> slim_message cfg) ms)"
proof -
  obtain v where v: "jget ''messages'' body = Some v" using assms by (cases "jget ''messages'' body") (auto simp: messages_of_def)
  show ?thesis using assms
    by (auto simp: slim_tool_messages_def Let_def messages_of_def jget_jset [OF v] split: prod.split)
qed

section \<open>Lengths\<close>

lemma length_show_nat: "n < 10 ^ Suc k \<Longrightarrow> length (show_nat n) \<le> Suc k"
proof (induction k arbitrary: n)
  case 0
  then show ?case by (simp add: show_nat.simps)
next
  case (Suc k)
  show ?case
  proof (cases "n < 10")
    case True
    then show ?thesis by (simp add: show_nat.simps)
  next
    case False
    have "n div 10 < 10 ^ Suc k" using Suc.prems by (simp add: less_mult_imp_div_less mult.commute)
    then have "length (show_nat (n div 10)) \<le> Suc k" by (rule Suc.IH)
    then show ?thesis using False by (subst show_nat.simps) simp
  qed
qed

lemma ascii_append: "ascii (xs @ ys) \<longleftrightarrow> ascii xs \<and> ascii ys"
  by (simp add: ascii_def)

lemma take_chars_ascii: "ascii s \<Longrightarrow> take_chars n s = take n s"
proof -
  assume "ascii s"
  have "concat (map (\<lambda>c. [c]) t) = t" for t :: string by (induction t) simp_all
  then show ?thesis using \<open>ascii s\<close> by (simp add: take_chars_def utf8_chars_ascii take_map)
qed

lemma length_concat_singletons: "list_all (\<lambda>x. length x = 1) xs \<Longrightarrow> length (concat xs) = length xs"
  by (induction xs) simp_all

lemma length_cut_marker: "length (cut_marker n) = 40 + length (show_nat n)"
  by (simp add: cut_marker_def)

text \<open>Seven tenths of the cap, computed in floating point, is at most three quarters of it.\<close>

lemma head_len_bound:
  assumes "m \<le> 2 ^ 40"
  shows "nat_of_f64 (fmul (f64_of_nat m) (rnd (7 / 10))) \<le> 3 * m div 4"
proof -
  have f: "f64_of_nat m = of_nat m" using assms by (intro f64_of_nat_exact) simp
  have r: "rnd (7 / 10) \<le> 3 / 4"
    using rnd_mono [of "7 / 10" "3 / 4"] by (simp add: rnd_eval [where s = 53 and n = 6755399441055744])
  have quarter: "(2 :: rat) powi - 2 = 1 / 4" by (simp add: power_int_def power2_eq_square)
  have "fmul (of_nat m) (rnd (7 / 10)) \<le> rnd (of_int (3 * int m) * 2 powi - 2)"
    unfolding fmul_def using mult_left_mono [OF r, of "of_nat m"] by (intro rnd_mono) (simp add: quarter)
  also have "\<dots> = of_int (3 * int m) * 2 powi - 2" using assms by (intro rnd_representable) simp_all
  finally have "fmul (of_nat m) (rnd (7 / 10)) \<le> of_nat (3 * m) / 4" by (simp add: quarter)
  moreover have "\<lfloor>(of_nat (3 * m) :: rat) / 4\<rfloor> = int (3 * m div 4)"
    using floor_divide_of_nat_eq [of "3 * m" 4, where ?'a = rat] by simp
  ultimately have "\<lfloor>fmul (of_nat m) (rnd (7 / 10))\<rfloor> \<le> int (3 * m div 4)" by (metis floor_mono)
  then show ?thesis by (simp add: nat_of_f64_def f nat_le_iff)
qed

lemma head_tail_ascii_length:
  assumes "ascii text" "320 \<le> m" "m \<le> 2 ^ 40" "length text < 10 ^ 20"
  shows "length (head_tail text m) \<le> m"
proof (cases "length text \<le> m")
  case True
  then show ?thesis by (simp add: head_tail_def)
next
  case False
  let ?h = "nat_of_f64 (fmul (f64_of_nat m) (rnd (7 / 10)))"
  let ?tail = "concat (rev (take (m - (?h + 80)) (rev (utf8_chars text))))"
  have h: "?h + 80 \<le> m" using head_len_bound [OF assms(3)] assms(2) by linarith
  have one: "\<forall>x \<in> set (utf8_chars text). length x = 1"
    using assms(1) by (auto simp: utf8_chars_ascii)
  have "list_all (\<lambda>x. length x = 1) (rev (take (m - (?h + 80)) (rev (utf8_chars text))))"
    using one by (simp add: list_all_iff) (metis in_set_takeD set_rev)
  then have "length ?tail \<le> m - (?h + 80)" by (simp add: length_concat_singletons)
  moreover have "length (take_chars ?h text) \<le> ?h" by (simp add: take_chars_ascii assms(1))
  moreover have "length (show_nat (length text - x)) \<le> 20" for x
    using length_show_nat [of "length text - x" 19] assms(4) by simp
  ultimately have "length (take_chars ?h text) + length (cut_marker (length text - x)) + length ?tail \<le> m" for x
    using h \<open>\<And>x. length (show_nat (length text - x)) \<le> 20\<close> [of x] unfolding length_cut_marker by linarith
  then show ?thesis using False by (simp add: head_tail_def Let_def add.assoc)
qed

lemma take_chars_all: "length (utf8_chars s) \<le> n \<Longrightarrow> take_chars n s = s"
  by (simp add: take_chars_def)

lemma slim_text_wide:
  assumes "m < length text" "length (utf8_chars text) \<le> nat_of_f64 (fmul (f64_of_nat m) (rnd (7 / 10)))"
  shows "slim_text \<lparr>max_tool_chars = m, placeholder_after = 0\<rparr> i text = None"
  using assms by (simp add: slim_text_def slim_action_of_def head_tail_def Let_def take_chars_all)

text \<open>A run of the three-byte character U+4E2D.\<close>

definition wide_run :: "nat \<Rightarrow> string" where
  "wide_run n = concat (replicate n [CHR 0xE4, CHR 0xB8, CHR 0xAD])"

lemma wide_run_cont: "takeWhile is_cont (wide_run n) = []" "dropWhile is_cont (wide_run n) = wide_run n"
  by (cases n; simp add: wide_run_def is_cont_def byte_def)+

lemma utf8_wide_run: "utf8_chars (wide_run n) = replicate n [CHR 0xE4, CHR 0xB8, CHR 0xAD]"
proof (induction n)
  case 0
  show ?case by (simp add: wide_run_def)
next
  case (Suc n)
  have u: "wide_run (Suc n) = CHR 0xE4 # CHR 0xB8 # CHR 0xAD # wide_run n" by (simp add: wide_run_def)
  have "is_cont (CHR 0xB8)" "is_cont (CHR 0xAD)" by (simp_all add: is_cont_def byte_def)
  then show ?case using Suc by (simp add: u wide_run_cont)
qed

section \<open>Properties\<close>

text \<open>
  Slimming is position independent: what becomes of a message depends on that message
  and the configuration only, so a body whose history grows by new messages renders its
  old messages exactly as before, and the provider's prefix cache survives.
\<close>

theorem slim_is_position_independent:
  assumes "messages_of old = Some ms" "messages_of grown = Some (ms @ ns)"
  shows "\<exists>out rest. messages_of (sr_body (slim_tool_messages old cfg)) = Some out \<and>
     messages_of (sr_body (slim_tool_messages grown cfg)) = Some (out @ rest) \<and>
     length out = length ms \<and> length rest = length ns"
  using slim_messages [OF assms(1), of cfg] slim_messages [OF assms(2), of cfg] by simp

theorem slim_is_position_independent_witness:
  "\<exists>out rest.
     messages_of (sr_body (slim_tool_messages (Object [(''messages'', Array [Null])]) slim_config_default)) = Some out \<and>
     messages_of (sr_body (slim_tool_messages (Object [(''messages'', Array [Null, Bool True])]) slim_config_default))
       = Some (out @ rest) \<and> length out = 1 \<and> length rest = 1"
  using slim_is_position_independent [of "Object [(''messages'', Array [Null])]" "[Null]"
    "Object [(''messages'', Array [Null, Bool True])]" "[Bool True]" slim_config_default]
  by (simp add: messages_of_def)

text \<open>
  Slimming never grows a conversation and accounts for what it removes: the reported
  original size is the size of all tool bodies before, and the size after plus the
  reported savings is exactly the size before.
\<close>

theorem slim_accounts_for_savings:
  assumes "messages_of body = Some ms" "slim_tool_messages body cfg = r"
  shows "sr_original_tool_chars r = sum_list (map tool_chars ms) \<and>
     (\<exists>out. messages_of (sr_body r) = Some out \<and>
        sum_list (map tool_chars out) + sr_slimmed_chars r = sr_original_tool_chars r \<and>
        map role_of out = map role_of ms)"
proof -
  obtain x y z where s: "sum_slimmed (map (slim_message cfg) ms) = (x, y, z)"
    by (cases "sum_slimmed (map (slim_message cfg) ms)") auto
  have r: "sr_original_tool_chars r = x" "sr_slimmed_chars r = y"
    using assms s by (auto simp: slim_tool_messages_def Let_def)
  have "role_of (fst (slim_message cfg m)) = role_of m" for m
    using slim_message_chars [of cfg m] by (cases "slim_message cfg m") auto
  then have "map role_of (map (fst \<circ> slim_message cfg) ms) = map role_of ms" by simp
  with slim_messages [OF assms(1), of cfg] slim_messages_chars [OF s] r show ?thesis
    unfolding assms(2) by auto
qed

theorem slim_accounts_for_savings_witness:
  "sr_original_tool_chars (slim_tool_messages agent_body slim_config_default) = 23"
proof -
  have "messages_of agent_body = Some
     [Object [(''role'', String ''user''), (''content'', String ''list files'')],
      Object [(''role'', String ''tool''), (''content'', String ''fn main: deadlock error'')]]"
    by (simp add: messages_of_def agent_body_def)
  from slim_accounts_for_savings [OF this refl] show ?thesis
    by (simp add: tool_chars_def role_of_def jget_str_def content_of_def content_to_text_def)
qed

text \<open>
  The cap holds for ASCII bodies: with a cap of at least 320, an ASCII tool body
  that is capped comes out no longer than the cap, marker included.
\<close>

theorem ascii_body_fits_the_cap:
  assumes "ascii text" "320 \<le> max_tool_chars cfg" "max_tool_chars cfg \<le> 2 ^ 40" "length text < 10 ^ 20"
    and "slim_action_of text cfg = Some (Cap capped)"
  shows "length capped \<le> max_tool_chars cfg"
  using head_tail_ascii_length [OF assms(1-4)] assms(5) by (auto simp: slim_action_of_def split: if_splits)

theorem ascii_body_fits_the_cap_witness:
  "let text = replicate 400 (CHR ''a'') in length (head_tail text 320) \<le> 320"
proof -
  have a: "slim_action_of (replicate 400 (CHR ''a'')) \<lparr>max_tool_chars = 320, placeholder_after = 0\<rparr>
      = Some (Cap (head_tail (replicate 400 (CHR ''a'')) 320))" by (simp add: slim_action_of_def)
  have "ascii (replicate 400 (CHR ''a''))" by (simp add: ascii_def list_all_length byte_def)
  with ascii_body_fits_the_cap [OF _ _ _ _ a] show ?thesis by (simp add: Let_def)
qed

text \<open>
  The cap counts bytes but cuts characters: a body of a hundred three-byte
  characters exceeds a cap of 250 bytes and is still sent unchanged, because the kept
  head already spans all its characters.
\<close>

theorem wide_body_escapes_the_cap:
  "length (wide_run 100) = 300 \<and>
   slim_text \<lparr>max_tool_chars = 250, placeholder_after = 0\<rparr> i (wide_run 100) = None"
proof -
  have l: "length (wide_run n) = 3 * n" for n by (induction n) (simp_all add: wide_run_def)
  have "rnd (6 / 10) \<le> rnd (7 / 10)" by (rule rnd_mono) simp
  moreover have "1 / 2 \<le> rnd (6 / 10)"
    using rnd_mono [of "1 / 2" "6 / 10"] by (simp add: rnd_eval [where s = 53 and n = 4503599627370496])
  ultimately have "1 / 2 \<le> rnd (7 / 10)" by linarith
  then have "rnd (125) \<le> fmul (f64_of_nat 250) (rnd (7 / 10))"
    unfolding fmul_def by (intro rnd_mono) (simp add: f64_of_nat_exact)
  then have "125 \<le> fmul (f64_of_nat 250) (rnd (7 / 10))" by (simp add: f64_simps)
  then have "100 \<le> nat_of_f64 (fmul (f64_of_nat 250) (rnd (7 / 10)))"
    by (simp add: nat_of_f64_def le_nat_iff le_floor_iff)
  then show ?thesis using slim_text_wide [of 250 "wide_run 100" i] by (simp add: l utf8_wide_run)
qed

end
