(* ===== verification/Warm_Store.thy ===== *)
theory Warm_Store
  imports Warm_Context
begin

text \<open>
  warm/mod.rs, the store: the Virtual Model bindings in memory or in Redis, the publish
  script Redis runs, and the operations of \<open>WarmStore\<close> with their early returns; then the
  handlers of api/warm.rs. The session store of the gateway library is outside the
  repository: its operations, its size limits and its fingerprint comparison are the
  functions of \<open>warm_env\<close>, over a store state of any type. A Redis hash is a row with one
  optional field per name the code writes; numbers in rows are exact (the script's
  numbers are exact below $2^{53}$). A fault of the Redis connection strikes an operation
  before its first command.
\<close>

section \<open>The Redis bindings\<close>

record fingerprint =
  fg_algorithm :: string
  fg_value :: string

record session_prefix =
  sp_epoch :: nat
  sp_messages :: "json list"
  sp_pinned_boundary :: "nat option"
  sp_fingerprint :: "fingerprint option"
  sp_message_count :: "nat option"

record prefix_row =
  pr_epoch :: "nat option"
  pr_prefix :: "string option"
  pr_created_at :: "int option"
  pr_accessed_at :: "int option"
  pr_ttl :: "nat option"

record binding_row =
  br_model :: "string option"
  br_epoch :: "nat option"
  br_created_at :: "int option"
  br_accessed_at :: "int option"
  br_ttl :: "nat option"

definition no_prefix_row :: prefix_row where
  "no_prefix_row = \<lparr>pr_epoch = None, pr_prefix = None, pr_created_at = None, pr_accessed_at = None, pr_ttl = None\<rparr>"

definition no_binding_row :: binding_row where
  "no_binding_row = \<lparr>br_model = None, br_epoch = None, br_created_at = None, br_accessed_at = None, br_ttl = None\<rparr>"

text \<open>The rows the database holds now: a row Redis has expired is no longer in the maps.\<close>

record redis =
  rd_prefix :: "string \<rightharpoonup> prefix_row"
  rd_binding :: "string \<rightharpoonup> binding_row"

datatype publish_result = Created | Replaced | AlreadyCurrent

text \<open>
  \<open>RedisBindingStore\<close>: the key prefix and the lifetimes in seconds.
\<close>

record binding_store =
  bs_key_prefix :: string
  bs_idle_ttl :: "nat option"
  bs_max_lifetime :: "nat option"

definition binding_store_open :: "string \<Rightarrow> nat option \<Rightarrow> nat option \<Rightarrow> binding_store" where
  "binding_store_open base_prefix idle life =
     \<lparr>bs_key_prefix = base_prefix @ ''binding:'', bs_idle_ttl = idle, bs_max_lifetime = life\<rparr>"

text \<open>The script: first the deletion of an expired session, then the publication.\<close>

definition script_expired :: "int \<Rightarrow> nat \<Rightarrow> nat \<Rightarrow> prefix_row option \<Rightarrow> bool" where
  "script_expired now idle_ttl max_lifetime row =
     (case Option.bind row pr_epoch of
        None \<Rightarrow> False
      | Some _ \<Rightarrow>
        let created = unwrap_or (Option.bind row pr_created_at) 0;
            accessed = unwrap_or (Option.bind row pr_accessed_at) 0
        in (0 < max_lifetime \<and> int max_lifetime \<le> now - created) \<or>
           (0 < idle_ttl \<and> int idle_ttl \<le> now - accessed))"

definition hset_prefix :: "nat \<Rightarrow> string \<Rightarrow> int \<Rightarrow> int \<Rightarrow> nat \<Rightarrow> prefix_row \<Rightarrow> prefix_row" where
  "hset_prefix epoch ptext created now idle_ttl row =
     row\<lparr>pr_epoch := Some epoch, pr_prefix := Some ptext, pr_created_at := Some created,
         pr_accessed_at := Some now, pr_ttl := (if 0 < idle_ttl then Some idle_ttl else pr_ttl row)\<rparr>"

definition hset_binding :: "string option \<Rightarrow> nat \<Rightarrow> int \<Rightarrow> int \<Rightarrow> nat \<Rightarrow> binding_row \<Rightarrow> binding_row" where
  "hset_binding model epoch created now idle_ttl row =
     row\<lparr>br_model := (case model of Some m \<Rightarrow> Some m | None \<Rightarrow> br_model row), br_epoch := Some epoch,
         br_created_at := Some created, br_accessed_at := Some now,
         br_ttl := (if 0 < idle_ttl then Some idle_ttl else br_ttl row)\<rparr>"

definition publish_script ::
    "string \<Rightarrow> string \<Rightarrow> nat \<Rightarrow> string \<Rightarrow> int \<Rightarrow> nat \<Rightarrow> nat \<Rightarrow> string \<Rightarrow> redis \<Rightarrow> redis \<times> int" where
  "publish_script prefix_key binding_key new_epoch prefix_json now idle_ttl max_lifetime virtual_model rd0 =
     (let expired = script_expired now idle_ttl max_lifetime (rd_prefix rd0 prefix_key);
          old_created = unwrap_or (Option.bind (rd_prefix rd0 prefix_key) pr_created_at) 0;
          rd = (if expired
                then rd0\<lparr>rd_prefix := (rd_prefix rd0)(prefix_key := None),
                         rd_binding := (rd_binding rd0)(binding_key := None)\<rparr>
                else rd0);
          old_epoch = (if expired then None else Option.bind (rd_prefix rd0 prefix_key) pr_epoch);
          existing_model = Option.bind (rd_binding rd binding_key) br_model
      in if existing_model \<noteq> None \<and> virtual_model \<noteq> [] \<and> existing_model \<noteq> Some virtual_model
         then (rd, - 3)
         else if (case old_epoch of Some e \<Rightarrow> new_epoch < e | None \<Rightarrow> False) then (rd, - 1)
         else if old_epoch = Some new_epoch \<and>
                 Option.bind (rd_prefix rd prefix_key) pr_prefix \<noteq> Some prefix_json
         then (rd, - 2)
         else let result = (case old_epoch of None \<Rightarrow> 0 | Some e \<Rightarrow> if new_epoch = e then 2 else 1);
                  created = (if result = 2 then old_created else now);
                  prow = unwrap_or (rd_prefix rd prefix_key) no_prefix_row;
                  rd1 = rd\<lparr>rd_prefix := (rd_prefix rd)
                           (prefix_key \<mapsto> hset_prefix new_epoch prefix_json created now idle_ttl prow)\<rparr>;
                  brow = unwrap_or (rd_binding rd binding_key) no_binding_row
              in if virtual_model \<noteq> []
                 then (rd1\<lparr>rd_binding := (rd_binding rd1)
                        (binding_key \<mapsto> hset_binding (Some virtual_model) new_epoch created now idle_ttl brow)\<rparr>, result)
                 else if existing_model \<noteq> None
                 then (rd1\<lparr>rd_binding := (rd_binding rd1)
                        (binding_key \<mapsto> hset_binding None new_epoch created now idle_ttl brow)\<rparr>, result)
                 else (rd1, result))"

definition delete_script :: "string \<Rightarrow> string \<Rightarrow> redis \<Rightarrow> redis" where
  "delete_script prefix_key binding_key rd =
     rd\<lparr>rd_prefix := (rd_prefix rd)(prefix_key := None), rd_binding := (rd_binding rd)(binding_key := None)\<rparr>"

text \<open>\<open>RedisBindingStore::get\<close> on the row of a key.\<close>

definition lifetime_over :: "nat option \<Rightarrow> int \<Rightarrow> int \<Rightarrow> bool" where
  "lifetime_over max_lifetime now created =
     (case max_lifetime of None \<Rightarrow> False | Some l \<Rightarrow> int l \<le> now - created)"

definition binding_get ::
    "binding_store \<Rightarrow> int \<Rightarrow> string \<Rightarrow> nat option \<Rightarrow> bool \<Rightarrow> redis \<Rightarrow> redis \<times> (string + string option)" where
  "binding_get bs now redis_key expected_epoch reject_stale rd =
     (case rd_binding rd redis_key of
        None \<Rightarrow> (rd, Inr None)
      | Some row \<Rightarrow>
        if lifetime_over (bs_max_lifetime bs) now (unwrap_or (br_created_at row) now)
        then (rd\<lparr>rd_binding := (rd_binding rd)(redis_key := None)\<rparr>, Inr None)
        else
          let row1 = (if br_epoch row = None \<and> expected_epoch \<noteq> None
                      then row\<lparr>br_epoch := expected_epoch\<rparr> else row)
          in if reject_stale \<and> expected_epoch \<noteq> None \<and> br_epoch row \<noteq> None \<and> br_epoch row \<noteq> expected_epoch
             then (rd\<lparr>rd_binding := (rd_binding rd)(redis_key \<mapsto> row1)\<rparr>,
                   Inl ''Virtual Model binding epoch is stale'')
             else
               let row2 = (if br_model row = None then row1
                           else row1\<lparr>br_ttl := (case bs_idle_ttl bs of Some t \<Rightarrow> Some (max t 1) | None \<Rightarrow> br_ttl row1),
                                     br_accessed_at := Some now\<rparr>)
               in (rd\<lparr>rd_binding := (rd_binding rd)(redis_key \<mapsto> row2)\<rparr>, Inr (br_model row)))"

definition binding_publish ::
    "binding_store \<Rightarrow> int \<Rightarrow> string \<Rightarrow> string \<Rightarrow> nat \<Rightarrow> string \<Rightarrow> string option \<Rightarrow> redis
       \<Rightarrow> redis \<times> (string + publish_result)" where
  "binding_publish bs now binding_key prefix_key epoch prefix_json virtual_model rd =
     (let (rd', result) = publish_script prefix_key binding_key epoch prefix_json now
            (case bs_idle_ttl bs of None \<Rightarrow> 0 | Some t \<Rightarrow> max t 1)
            (case bs_max_lifetime bs of None \<Rightarrow> 0 | Some t \<Rightarrow> max t 1)
            (unwrap_or virtual_model []) rd
      in (rd', if result = 0 then Inr Created
               else if result = 1 then Inr Replaced
               else if result = 2 then Inr AlreadyCurrent
               else if result = - 1 then Inl ''stale epoch''
               else if result = - 2 then Inl ''epoch conflict''
               else if result = - 3 then Inl ''virtual model binding conflict''
               else Inl ''unexpected publish result''))"

text \<open>
  \<open>purge_expired\<close> over the keys SCAN returned, a key possibly more than once.
\<close>

fun binding_purge :: "binding_store \<Rightarrow> int \<Rightarrow> string list \<Rightarrow> redis \<Rightarrow> redis \<times> nat" where
  "binding_purge bs now [] rd = (rd, 0)"
| "binding_purge bs now (k # ks) rd =
     (case Option.bind (rd_binding rd k) br_created_at of
        Some created \<Rightarrow>
          if lifetime_over (bs_max_lifetime bs) now created
          then (let (rd', n) = binding_purge bs now ks (rd\<lparr>rd_binding := (rd_binding rd)(k := None)\<rparr>)
                in (rd', n + 1))
          else binding_purge bs now ks rd
      | None \<Rightarrow> binding_purge bs now ks rd)"

section \<open>The Warm store\<close>

datatype session_error =
    Expired_Error
  | StaleEpoch_Error
  | EpochConflict_Error
  | EpochMismatch_Error
  | FingerprintMismatch_Error
  | TailStartMismatch_Error nat nat
  | PrefixTooLarge_Error
  | TailTooLarge_Error
  | AssembledTooLarge_Error
  | InvalidContext_Error string
  | Unavailable_Error string
  | NotFound_Error

fun map_session_error :: "session_error \<Rightarrow> warm_error" where
  "map_session_error Expired_Error = SessionExpired"
| "map_session_error StaleEpoch_Error = StaleEpoch"
| "map_session_error EpochConflict_Error = EpochConflict"
| "map_session_error EpochMismatch_Error = EpochMismatch"
| "map_session_error FingerprintMismatch_Error = PrefixHashMismatch"
| "map_session_error (TailStartMismatch_Error expected actual) = TailStartMismatch expected actual"
| "map_session_error PrefixTooLarge_Error = PrefixTooLarge"
| "map_session_error TailTooLarge_Error = TailTooLarge"
| "map_session_error AssembledTooLarge_Error = AssembledTooLarge"
| "map_session_error (InvalidContext_Error m) = InvalidContext m"
| "map_session_error (Unavailable_Error m) = StoreUnavailable m"
| "map_session_error NotFound_Error = SessionNotFound"

definition map_redis_publish_error :: "string \<Rightarrow> warm_error" where
  "map_redis_publish_error message =
     (if contains message ''stale epoch'' then StaleEpoch
      else if contains message ''epoch conflict'' then EpochConflict
      else if contains message ''virtual model binding conflict'' then VirtualModelMismatch
      else StoreUnavailable message)"

text \<open>The counters are \<open>AtomicU64\<close>: they wrap.\<close>

record warm_metrics =
  wm_publish_attempts :: u64
  wm_publish_successes :: u64
  wm_publish_failures :: u64
  wm_delta_attempts :: u64
  wm_delta_successes :: u64
  wm_delta_failures :: u64
  wm_full_deliveries :: u64
  wm_virtual_model_mismatches :: u64
  wm_store_unavailable :: u64
  wm_cleanup_runs :: u64
  wm_cleanup_failures :: u64
  wm_sessions_removed :: u64

definition warm_metrics_new :: warm_metrics where
  "warm_metrics_new =
     \<lparr>wm_publish_attempts = 0, wm_publish_successes = 0, wm_publish_failures = 0,
      wm_delta_attempts = 0, wm_delta_successes = 0, wm_delta_failures = 0,
      wm_full_deliveries = 0, wm_virtual_model_mismatches = 0, wm_store_unavailable = 0,
      wm_cleanup_runs = 0, wm_cleanup_failures = 0, wm_sessions_removed = 0\<rparr>"

definition warm_metrics_snapshot :: "warm_metrics \<Rightarrow> json" where
  "warm_metrics_snapshot m =
     (let n = (\<lambda>w. Number (IntN (uint w))) in Object
       [(''publish_attempts'', n (wm_publish_attempts m)), (''publish_successes'', n (wm_publish_successes m)),
        (''publish_failures'', n (wm_publish_failures m)), (''delta_attempts'', n (wm_delta_attempts m)),
        (''delta_successes'', n (wm_delta_successes m)), (''delta_failures'', n (wm_delta_failures m)),
        (''full_deliveries'', n (wm_full_deliveries m)),
        (''virtual_model_mismatches'', n (wm_virtual_model_mismatches m)),
        (''store_unavailable'', n (wm_store_unavailable m)), (''cleanup_runs'', n (wm_cleanup_runs m)),
        (''cleanup_failures'', n (wm_cleanup_failures m)), (''sessions_removed'', n (wm_sessions_removed m))])"

text \<open>
  What changes: the gateway's store, the database, the in-memory bindings, the counters.
\<close>

record 's warm_state =
  ws_store :: 's
  ws_redis :: redis
  ws_models :: "session_key \<rightharpoonup> string option"
  ws_metrics :: warm_metrics

type_synonym ('s, 'a) store_call = "'s \<Rightarrow> redis \<Rightarrow> ('s \<times> redis) \<times> (session_error + 'a)"

record 's warm_env =
  we_get_key :: "gateway_session_key \<Rightarrow> ('s, session_prefix option) store_call"
  we_publish_key :: "gateway_session_key \<Rightarrow> session_prefix \<Rightarrow> ('s, publish_result) store_call"
  we_delete_key :: "gateway_session_key \<Rightarrow> ('s, unit) store_call"
  we_purge :: "('s, nat) store_call"
  we_validate_prefix :: "gateway_session_key \<Rightarrow> json list \<Rightarrow> session_error + unit"
  we_validate_tail :: "gateway_session_key \<Rightarrow> json list \<Rightarrow> session_error + unit"
  we_validate_assembled :: "gateway_session_key \<Rightarrow> json list \<Rightarrow> session_error + unit"
  we_fingerprints_match :: "fingerprint \<Rightarrow> fingerprint \<Rightarrow> bool"
  we_storage_key :: "gateway_session_key \<Rightarrow> string"
  we_hash64 :: "string \<Rightarrow> u64"
  we_to_string :: "json \<Rightarrow> string"
  we_prefix_json :: "session_prefix \<Rightarrow> string"
  we_binding_store :: "binding_store option"
  we_redis_key_prefix :: string
  we_redis_fault :: "string option"
  we_now :: int
  we_scan :: "redis \<Rightarrow> string list"

definition store_call ::
    "('s, 'a) store_call \<Rightarrow> 's warm_state \<Rightarrow> 's warm_state \<times> (session_error + 'a)" where
  "store_call f s = (let ((st, rd), r) = f (ws_store s) (ws_redis s)
                     in (s\<lparr>ws_store := st, ws_redis := rd\<rparr>, r))"

definition redis_call ::
    "'s warm_env \<Rightarrow> (redis \<Rightarrow> redis \<times> (string + 'a)) \<Rightarrow> 's warm_state \<Rightarrow> 's warm_state \<times> (string + 'a)" where
  "redis_call env f s = (case we_redis_fault env of
     Some e \<Rightarrow> (s, Inl e)
   | None \<Rightarrow> let (rd, r) = f (ws_redis s) in (s\<lparr>ws_redis := rd\<rparr>, r))"

definition binding_key :: "'s warm_env \<Rightarrow> binding_store \<Rightarrow> session_key \<Rightarrow> string" where
  "binding_key env bs key = bs_key_prefix bs @ we_storage_key env (gateway_key key)"

definition store_prefix_key :: "'s warm_env \<Rightarrow> session_key \<Rightarrow> string" where
  "store_prefix_key env key = we_redis_key_prefix env @ we_storage_key env (gateway_key key)"

type_synonym ('s, 'a) warm_step = "'s warm_state \<Rightarrow> 's warm_state \<times> (warm_error + 'a)"

definition get_key :: "'s warm_env \<Rightarrow> session_key \<Rightarrow> 's warm_state \<Rightarrow> 's warm_state \<times> (session_error + session_prefix option)" where
  "get_key env key = store_call (we_get_key env (gateway_key key))"

definition lift_err :: "('e \<Rightarrow> warm_error) \<Rightarrow> 's warm_state \<times> ('e + 'a) \<Rightarrow> 's warm_state \<times> (warm_error + 'a)" where
  "lift_err g m = (fst m, map_err g (snd m))"

definition bump :: "((u64 \<Rightarrow> u64) \<Rightarrow> warm_metrics \<Rightarrow> warm_metrics) \<Rightarrow> 's warm_state \<Rightarrow> 's warm_state" where
  "bump upd s = s\<lparr>ws_metrics := upd (\<lambda>n. n + 1) (ws_metrics s)\<rparr>"

definition record_publish_failure :: "'s warm_state \<Rightarrow> 's warm_state" where
  "record_publish_failure s = bump wm_publish_failures_update s"

definition record_delta_attempt :: "delivery \<Rightarrow> 's warm_state \<Rightarrow> 's warm_state" where
  "record_delta_attempt d s =
     (case d of Full \<Rightarrow> bump wm_full_deliveries_update s | Delta \<Rightarrow> bump wm_delta_attempts_update s)"

definition record_delta_result :: "bool \<Rightarrow> 's warm_state \<Rightarrow> 's warm_state" where
  "record_delta_result success s =
     (if success then bump wm_delta_successes_update s else bump wm_delta_failures_update s)"

definition binding_for :: "'s warm_env \<Rightarrow> session_key \<Rightarrow> bool \<Rightarrow> ('s, string option) warm_step" where
  "binding_for env key reject_stale s = (case we_binding_store env of
     Some bs \<Rightarrow>
       try_then (lift_err map_session_error (get_key env key s)) (\<lambda>p s.
         case p of
           None \<Rightarrow> (s, Inr None)
         | Some prf \<Rightarrow> lift_err StoreUnavailable
             (redis_call env (binding_get bs (we_now env) (binding_key env bs key) (Some (sp_epoch prf)) reject_stale) s))
   | None \<Rightarrow> (s, Inr (Option.bind (ws_models s key) (\<lambda>m. m))))"

definition remove_binding :: "'s warm_env \<Rightarrow> session_key \<Rightarrow> ('s, unit) warm_step" where
  "remove_binding env key s = (case we_binding_store env of
     Some bs \<Rightarrow> lift_err StoreUnavailable
       (redis_call env (\<lambda>rd. (delete_script (store_prefix_key env key) (binding_key env bs key) rd, Inr ())) s)
   | None \<Rightarrow> (s\<lparr>ws_models := (ws_models s)(key := None)\<rparr>, Inr ()))"

definition validate_virtual_model :: "'s warm_env \<Rightarrow> session_key \<Rightarrow> string option \<Rightarrow> ('s, unit) warm_step" where
  "validate_virtual_model env key requested s =
     try_then (binding_for env key True s) (\<lambda>binding s.
       if binding \<noteq> None \<and> requested \<noteq> None \<and> binding \<noteq> requested
       then (bump wm_virtual_model_mismatches_update s, Inl VirtualModelMismatch)
       else (s, Inr ()))"

record prefix_snapshot =
  ps_epoch :: int
  ps_prefix_hash :: string
  ps_message_count :: nat
  ps_messages :: "json list"
  ps_pinned_boundary :: nat
  ps_virtual_model_id :: "string option"

text \<open>\<open>epoch as i64\<close> wraps.\<close>

definition to_snapshot :: "'s warm_env \<Rightarrow> session_prefix \<Rightarrow> string option \<Rightarrow> prefix_snapshot" where
  "to_snapshot env p model =
     \<lparr>ps_epoch = sint (of_nat (sp_epoch p) :: u64),
      ps_prefix_hash = (case sp_fingerprint p of Some f \<Rightarrow> fg_value f
        | None \<Rightarrow> fingerprint_messages (we_hash64 env) (we_to_string env) (sp_messages p)),
      ps_message_count = unwrap_or (sp_message_count p) (length (sp_messages p)),
      ps_messages = sp_messages p,
      ps_pinned_boundary = unwrap_or (sp_pinned_boundary p) 0,
      ps_virtual_model_id = model\<rparr>"

definition to_gateway_epoch :: "int \<Rightarrow> warm_error + nat" where
  "to_gateway_epoch epoch =
     (if 0 \<le> epoch then Inr (nat epoch) else Inl (InvalidPublish ''epoch must be non-negative''))"

definition guard :: "bool \<Rightarrow> 'e \<Rightarrow> 'e + unit" where
  "guard b e = (if b then Inr () else Inl e)"

text \<open>
  The checks of \<open>publish\<close> before the store is asked, giving the fingerprint.
\<close>

definition publish_checks :: "'s warm_env \<Rightarrow> publish_input \<Rightarrow> warm_error + string" where
  "publish_checks env input =
     and_then (validate_publish input) (\<lambda>_.
     and_then (case pi_virtual_model_id input of Some m \<Rightarrow> validate_virtual_model_id m | None \<Rightarrow> Inr ()) (\<lambda>_.
       let computed = fingerprint_messages (we_hash64 env) (we_to_string env) (pi_messages input)
       in and_then (guard (pi_prefix_hash input = None \<or> pi_prefix_hash input = Some computed) PrefixHashMismatch)
            (\<lambda>_. Inr computed)))"

text \<open>The stored prefix before a publication; an expired one loses its binding.\<close>

definition existing_prefix :: "'s warm_env \<Rightarrow> session_key \<Rightarrow> ('s, session_prefix option) warm_step" where
  "existing_prefix env key s = (case get_key env key s of
     (s, Inr p) \<Rightarrow> (s, Inr p)
   | (s, Inl e) \<Rightarrow>
       if e = Expired_Error then try_then (remove_binding env key s) (\<lambda>_ s. (s, Inr None))
       else (s, Inl (map_session_error e)))"

definition new_prefix :: "publish_input \<Rightarrow> string \<Rightarrow> nat \<Rightarrow> session_prefix" where
  "new_prefix input computed epoch =
     \<lparr>sp_epoch = epoch, sp_messages = pi_messages input, sp_pinned_boundary = Some (pi_pinned_boundary input),
      sp_fingerprint = Some \<lparr>fg_algorithm = HASH_ALGORITHM_VERSION, fg_value = computed\<rparr>,
      sp_message_count = Some (pi_message_count input)\<rparr>"

text \<open>Publication in Redis or in the gateway's store.\<close>

definition publish_prefix ::
    "'s warm_env \<Rightarrow> session_key \<Rightarrow> session_prefix \<Rightarrow> string option \<Rightarrow> ('s, publish_result) warm_step" where
  "publish_prefix env key p model s = (case we_binding_store env of
     Some bs \<Rightarrow> lift_err map_redis_publish_error
       (redis_call env (binding_publish bs (we_now env) (binding_key env bs key) (store_prefix_key env key)
          (sp_epoch p) (we_prefix_json env p) model) s)
   | None \<Rightarrow> lift_err map_session_error (store_call (we_publish_key env (gateway_key key) p) s))"

definition bind_model :: "'s warm_env \<Rightarrow> session_key \<Rightarrow> string option \<Rightarrow> 's warm_state \<Rightarrow> 's warm_state" where
  "bind_model env key model s =
     (if we_binding_store env = None
      then (case model of Some m \<Rightarrow> s\<lparr>ws_models := (ws_models s)(key \<mapsto> Some m)\<rparr> | None \<Rightarrow> s)
      else s)"

definition publish :: "'s warm_env \<Rightarrow> session_key \<Rightarrow> publish_input \<Rightarrow> ('s, prefix_snapshot) warm_step" where
  "publish env key input s0 =
     (let s = bump wm_publish_attempts_update s0 in
      try_then (s, publish_checks env input) (\<lambda>computed s.
      try_then (binding_for env key False s) (\<lambda>existing_binding s.
      try_then (s, guard (existing_binding = None \<or> pi_virtual_model_id input = None \<or>
                          existing_binding = pi_virtual_model_id input) VirtualModelMismatch) (\<lambda>_ s.
      try_then (existing_prefix env key s) (\<lambda>existing s.
      let effective = or_else (pi_virtual_model_id input) existing_binding in
      try_then (s, to_gateway_epoch (pi_epoch input)) (\<lambda>epoch s.
      let p = new_prefix input computed epoch in
      try_then (s, map_err map_session_error (we_validate_prefix env (gateway_key key) (sp_messages p))) (\<lambda>_ s.
      try_then (publish_prefix env key p effective s) (\<lambda>_ s.
      try_then (lift_err map_session_error (get_key env key (bind_model env key effective s))) (\<lambda>stored s.
        case or_else stored existing of
          None \<Rightarrow> (s, Inl SessionNotFound)
        | Some st \<Rightarrow> (bump wm_publish_successes_update s, Inr (to_snapshot env st effective)))))))))))"

definition get :: "'s warm_env \<Rightarrow> session_key \<Rightarrow> 's warm_state \<Rightarrow> 's warm_state \<times> prefix_snapshot option" where
  "get env key s = (case get_key env key s of
     (s, Inr (Some p)) \<Rightarrow>
       (case binding_for env key True s of
          (s, Inr b) \<Rightarrow> (s, Some (to_snapshot env p b))
        | (s, Inl _) \<Rightarrow> (s, Some (to_snapshot env p None)))
   | (s, Inr None) \<Rightarrow> (fst (remove_binding env key s), None)
   | (s, Inl e) \<Rightarrow> if e = Expired_Error then (fst (remove_binding env key s), None) else (s, None))"

definition delete :: "'s warm_env \<Rightarrow> session_key \<Rightarrow> 's warm_state \<Rightarrow> 's warm_state" where
  "delete env key s = (case we_binding_store env of
     Some bs \<Rightarrow> fst (remove_binding env key s)
   | None \<Rightarrow> fst (remove_binding env key (fst (store_call (we_delete_key env (gateway_key key)) s))))"

text \<open>
  \<open>purge_expired\<close>: without Redis, the bindings of keys whose prefix is gone go too; the
  keys are those of the map, in the order given.
\<close>

fun gone_keys :: "'s warm_env \<Rightarrow> session_key list \<Rightarrow> 's warm_state \<Rightarrow> 's warm_state \<times> session_key list" where
  "gone_keys env [] s = (s, [])"
| "gone_keys env (k # ks) s =
     (let (s1, r) = get env k s; (s2, gone) = gone_keys env ks s1
      in (s2, if r = None then k # gone else gone))"

definition purge_expired ::
    "'s warm_env \<Rightarrow> ((session_key \<rightharpoonup> string option) \<Rightarrow> session_key list) \<Rightarrow> ('s, nat) warm_step" where
  "purge_expired env keys s0 =
     (let s = bump wm_cleanup_runs_update s0 in
      case store_call (we_purge env) s of
        (s, Inl e) \<Rightarrow> (bump wm_cleanup_failures_update s, Inl (map_session_error e))
      | (s, Inr removed) \<Rightarrow>
        (case we_binding_store env of
           Some bs \<Rightarrow>
             (case redis_call env (\<lambda>rd. let (rd', n) = binding_purge bs (we_now env) (we_scan env rd) rd
                                     in (rd', Inr n)) s of
                (s, Inl e) \<Rightarrow> (bump wm_cleanup_failures_update s, Inl (StoreUnavailable e))
              | (s, Inr n) \<Rightarrow> (s\<lparr>ws_metrics := wm_sessions_removed_update
                                  (\<lambda>w. w + of_nat (removed + n)) (ws_metrics s)\<rparr>, Inr removed))
         | None \<Rightarrow>
             (let (s, gone) = gone_keys env (keys (ws_models s)) s
              in (s\<lparr>ws_models := ws_models s |` (- set gone)\<rparr>, Inr removed))))"

text \<open>The checks of a delta against the stored prefix.\<close>

definition delta_checks ::
    "'s warm_env \<Rightarrow> gateway_session_key \<Rightarrow> session_prefix \<Rightarrow> warm_context \<Rightarrow> json list \<Rightarrow> warm_error + json list" where
  "delta_checks env gkey snap ctx tail_msgs =
     and_then (guard (sp_epoch snap < 2 ^ 63) (InvalidContext ''stored epoch is too large'')) (\<lambda>_.
     and_then (guard (wx_epoch ctx = Some (int (sp_epoch snap))) EpochMismatch) (\<lambda>_.
     and_then (case wx_prefix_hash ctx of
         None \<Rightarrow> Inr ()
       | Some h \<Rightarrow> guard (case sp_fingerprint snap of
             None \<Rightarrow> False
           | Some stored \<Rightarrow> we_fingerprints_match env stored \<lparr>fg_algorithm = [], fg_value = h\<rparr>) PrefixHashMismatch)
       (\<lambda>_.
     let expected = unwrap_or (sp_message_count snap) (length (sp_messages snap)) in
     case wx_tail_start ctx of
       None \<Rightarrow> Inl (InvalidContext ''delta delivery requires tail_start'')
     | Some actual \<Rightarrow>
     and_then (guard (actual = expected) (TailStartMismatch expected actual)) (\<lambda>_.
     and_then (map_err map_session_error (we_validate_tail env gkey tail_msgs)) (\<lambda>_.
     and_then (map_err map_session_error (we_validate_assembled env gkey (sp_messages snap @ tail_msgs)))
       (\<lambda>_. Inr (sp_messages snap @ tail_msgs)))))))"

definition assemble_delta ::
    "'s warm_env \<Rightarrow> session_key \<Rightarrow> warm_context \<Rightarrow> json list \<Rightarrow> string option \<Rightarrow> ('s, json list) warm_step" where
  "assemble_delta env key ctx tail_msgs model s = (case get_key env key s of
     (s, Inr None) \<Rightarrow> (s, Inl SessionNotFound)
   | (s, Inl e) \<Rightarrow>
       if e = Expired_Error then (fst (remove_binding env key s), Inl SessionExpired)
       else (s, Inl (map_session_error e))
   | (s, Inr (Some snap)) \<Rightarrow>
       try_then (validate_virtual_model env key model s)
         (\<lambda>_ s. (s, delta_checks env (gateway_key key) snap ctx tail_msgs)))"

text \<open>The namespace the request middleware resolves a session to.\<close>

definition resolve_session_key :: "session_key \<Rightarrow> string \<Rightarrow> gateway_session_key" where
  "resolve_session_key key sid =
     gateway_key \<lparr>sk_project_id = sk_project_id key, sk_api_key_id = sk_api_key_id key, sk_session_id = sid\<rparr>"

section \<open>Handlers\<close>

record publish_request =
  pq_epoch :: int
  pq_message_count :: nat
  pq_messages :: "json list"
  pq_pinned_boundary :: nat
  pq_prefix_hash :: "string option"
  pq_virtual_model :: "string option"

text \<open>
  The Virtual Model of a publish request. \<open>authorize\<close> is the database lookup: a database
  error, no granted model, or the id of the model.
\<close>

definition requested_model ::
    "(string \<Rightarrow> unit + string option) \<Rightarrow> bool \<Rightarrow> string option \<Rightarrow> (nat \<times> json) + string option" where
  "requested_model authorize require_model requested = (case requested of
     Some m \<Rightarrow>
       if trim m = [] \<or> 256 < length m
       then Inl (warm_error_response 400 (InvalidContext ''virtual_model must be 1-256 characters''))
       else (case authorize m of
               Inr (Some mid) \<Rightarrow> Inr (Some mid)
             | Inr None \<Rightarrow> Inl (warm_error_response 403 VirtualModelUnauthorized)
             | Inl _ \<Rightarrow> Inl (warm_error_response 500 (StoreUnavailable ''failed to authorize Virtual Model'')))
   | None \<Rightarrow> if require_model then Inl (warm_error_response 403 VirtualModelRequired) else Inr None)"

definition publish_response :: "prefix_snapshot \<Rightarrow> nat \<times> json" where
  "publish_response snap = (200, Object
     [(''ok'', Bool True), (''epoch'', Number (IntN (ps_epoch snap))),
      (''message_count'', Number (IntN (int (ps_message_count snap)))),
      (''prefix_hash'', String (ps_prefix_hash snap)),
      (''hash_algorithm_version'', String HASH_ALGORITHM_VERSION)])"

definition publish_handler ::
    "'s warm_env \<Rightarrow> (string \<Rightarrow> unit + string option) \<Rightarrow> bool \<Rightarrow> string \<Rightarrow> string \<Rightarrow> string \<Rightarrow> publish_request
       \<Rightarrow> 's warm_state \<Rightarrow> 's warm_state \<times> (nat \<times> json)" where
  "publish_handler env authorize require_model project_id api_key_id session_id req s =
     (if session_id = [] \<or> 256 < length session_id
      then (s, warm_error_response 400
                 (InvalidContext ''session_id must be between 1 and 256 characters''))
      else (case requested_model authorize require_model (pq_virtual_model req) of
         Inl resp \<Rightarrow> (s, resp)
       | Inr model \<Rightarrow>
         (case publish env
            \<lparr>sk_project_id = project_id, sk_api_key_id = api_key_id, sk_session_id = session_id\<rparr>
            \<lparr>pi_epoch = pq_epoch req, pi_message_count = pq_message_count req, pi_messages = pq_messages req,
             pi_pinned_boundary = pq_pinned_boundary req, pi_prefix_hash = pq_prefix_hash req,
             pi_virtual_model_id = model\<rparr> s of
            (s, Inr snap) \<Rightarrow> (s, publish_response snap)
          | (s, Inl e) \<Rightarrow> (record_publish_failure s, warm_error_response (status_for e) e))))"

definition delete_session_handler ::
    "'s warm_env \<Rightarrow> string \<Rightarrow> string \<Rightarrow> string \<Rightarrow> 's warm_state \<Rightarrow> 's warm_state \<times> nat" where
  "delete_session_handler env project_id api_key_id session_id s =
     (delete env \<lparr>sk_project_id = project_id, sk_api_key_id = api_key_id, sk_session_id = session_id\<rparr> s, 204)"

section \<open>Lemmas\<close>

lemma fst_try_then:
  "fst (try_then m f) = (case snd m of Inl e \<Rightarrow> fst m | Inr x \<Rightarrow> fst (f x (fst m)))"
  by (cases m; cases "snd m") simp_all

lemma fst_lift_err [simp]: "fst (lift_err g m) = fst m"
  by (simp add: lift_err_def)

lemma lift_err_Inr: "lift_err g m = (s, Inr x) \<longleftrightarrow> m = (s, Inr x)"
  by (cases m) (simp add: lift_err_def)

lemma guard_Inr [simp]: "guard b e = Inr u \<longleftrightarrow> b"
  by (simp add: guard_def)

text \<open>
  What a step leaves alone: the calls to the store and to Redis keep the counters and the
  in-memory bindings.
\<close>

lemma store_call_frame [simp]:
  "ws_metrics (fst (store_call f s)) = ws_metrics s" "ws_models (fst (store_call f s)) = ws_models s"
  by (simp_all add: store_call_def split_beta)

lemma redis_call_frame [simp]:
  "ws_metrics (fst (redis_call env f s)) = ws_metrics s" "ws_models (fst (redis_call env f s)) = ws_models s"
  by (simp_all add: redis_call_def split_beta split: option.splits)

lemma get_key_frame [simp]:
  "ws_metrics (fst (get_key env key s)) = ws_metrics s" "ws_models (fst (get_key env key s)) = ws_models s"
  by (simp_all add: get_key_def)

lemma binding_for_frame [simp]:
  "ws_metrics (fst (binding_for env key b s)) = ws_metrics s" "ws_models (fst (binding_for env key b s)) = ws_models s"
  by (simp_all add: binding_for_def fst_try_then split: option.splits sum.splits)

lemma remove_binding_metrics [simp]: "ws_metrics (fst (remove_binding env key s)) = ws_metrics s"
  by (simp add: remove_binding_def split: option.splits)

lemma existing_prefix_metrics [simp]: "ws_metrics (fst (existing_prefix env key s)) = ws_metrics s"
proof -
  obtain t r where g: "get_key env key s = (t, r)" by (cases "get_key env key s")
  then have "ws_metrics t = ws_metrics s" using get_key_frame(1) [of env key s] by simp
  then show ?thesis
    by (cases r) (simp_all add: existing_prefix_def g fst_try_then split: sum.splits)
qed

lemma publish_prefix_frame [simp]:
  "ws_metrics (fst (publish_prefix env key p m s)) = ws_metrics s"
  "ws_models (fst (publish_prefix env key p m s)) = ws_models s"
  by (simp_all add: publish_prefix_def split: option.splits)

lemma bind_model_metrics [simp]: "ws_metrics (bind_model env key m s) = ws_metrics s"
  by (simp add: bind_model_def split: option.splits)

lemma bump_metrics [simp]:
  "ws_metrics (bump upd s) = upd (\<lambda>n. n + 1) (ws_metrics s)" "ws_models (bump upd s) = ws_models s"
  "ws_store (bump upd s) = ws_store s" "ws_redis (bump upd s) = ws_redis s"
  by (simp_all add: bump_def)

text \<open>One step of a chain: the counters after it are those of the rest of the chain.\<close>

lemma try_then_metrics:
  assumes "ws_metrics (fst m) = M"
    and "\<And>e. snd m = Inl e \<Longrightarrow> P M (Inl e)"
    and "\<And>x s. m = (s, Inr x) \<Longrightarrow> ws_metrics s = M \<Longrightarrow> P (ws_metrics (fst (f x s))) (snd (f x s))"
  shows "P (ws_metrics (fst (try_then m f))) (snd (try_then m f))"
  using assms by (cases m; cases "snd m") auto

lemma publish_metrics:
  "ws_metrics (fst (publish env key input s)) =
     (let m = wm_publish_attempts_update (\<lambda>n. n + 1) (ws_metrics s)
      in case snd (publish env key input s) of
           Inl _ \<Rightarrow> m | Inr _ \<Rightarrow> wm_publish_successes_update (\<lambda>n. n + 1) m)"
proof -
  define M where "M = wm_publish_attempts_update (\<lambda>n. n + 1) (ws_metrics s)"
  define P where "P = (\<lambda>m (r :: warm_error + prefix_snapshot).
     m = (case r of Inl _ \<Rightarrow> M | Inr _ \<Rightarrow> wm_publish_successes_update (\<lambda>n. n + 1) M))"
  have "P (ws_metrics (fst (publish env key input s))) (snd (publish env key input s))"
    unfolding publish_def Let_def
    apply (rule try_then_metrics [where M = M], simp add: M_def, simp add: P_def)+
    apply (auto simp: P_def split: option.splits)
    done
  then show ?thesis by (simp only: P_def M_def Let_def)
qed

lemma try_then_err: "try_then m f = (s', r) \<Longrightarrow>
    (\<exists>e. m = (s', Inl e) \<and> r = Inl e) \<or> (\<exists>s x. m = (s, Inr x) \<and> f x s = (s', r))"
  by (cases m; cases "snd m") auto

lemma get_key_models: "get_key env key s = (s', r) \<Longrightarrow> ws_models s' = ws_models s"
  using get_key_frame(2) [of env key s] by simp

lemma publish_prefix_models: "publish_prefix env key p m s = (s', r) \<Longrightarrow> ws_models s' = ws_models s"
  using publish_prefix_frame(2) [of env key p m s] by simp

lemma existing_prefix_models:
  assumes "existing_prefix env key s = (s', Inr p)" "we_binding_store env = None"
  shows "ws_models s' = ws_models s \<or> ws_models s' = (ws_models s)(key := None)"
proof -
  obtain s1 r where g: "get_key env key s = (s1, r)" by (cases "get_key env key s")
  with assms get_key_models [OF g] show ?thesis
    by (cases r) (auto simp: existing_prefix_def remove_binding_def split: if_split_asm)
qed

text \<open>The successful run of a publication without Redis, step by step.\<close>

lemma publish_memory_steps:
  assumes "we_binding_store env = None" "publish env key input s = (s', Inr snap)"
  obtains s1 s2 s3 ex p model u stored where
    "model = or_else (pi_virtual_model_id input) (Option.bind (ws_models s key) (\<lambda>m. m))"
    "Option.bind (ws_models s key) (\<lambda>m. m) = None \<or> pi_virtual_model_id input = None \<or>
       Option.bind (ws_models s key) (\<lambda>m. m) = pi_virtual_model_id input"
    "existing_prefix env key (bump wm_publish_attempts_update s) = (s1, Inr ex)"
    "publish_prefix env key p model s1 = (s2, Inr u)"
    "get_key env key (bind_model env key model s2) = (s3, Inr stored)"
    "ws_models s' = ws_models s3" "ps_virtual_model_id snap = model"
  using assms unfolding publish_def Let_def try_then_Inr
  apply (elim exE conjE)
  apply (auto simp: binding_for_def try_then_Inr lift_err_Inr to_snapshot_def split: option.split_asm)
  done

text \<open>With a store whose lookups change nothing, \<open>gone_keys\<close> drops the keys it reports.\<close>

definition lookup_pure :: "'s warm_env \<Rightarrow> (gateway_session_key \<Rightarrow> 's \<Rightarrow> session_error + session_prefix option) \<Rightarrow> bool" where
  "lookup_pure env look \<longleftrightarrow> (\<forall>g st rd. we_get_key env g st rd = ((st, rd), look g st))"

lemma get_pure:
  assumes "lookup_pure env look" "we_binding_store env = None"
  shows "ws_store (fst (get env k s)) = ws_store s" "ws_redis (fst (get env k s)) = ws_redis s"
    "\<forall>k'. k' \<noteq> k \<longrightarrow> ws_models (fst (get env k s)) k' = ws_models s k'"
    "(\<exists>p. look (gateway_key k) (ws_store s) = Inr (Some p)) \<longrightarrow> fst (get env k s) = s"
    "snd (get env k s) = None \<longleftrightarrow> \<not> (\<exists>p. look (gateway_key k) (ws_store s) = Inr (Some p))"
proof -
  have g: "get_key env k s = (s, look (gateway_key k) (ws_store s))"
    using assms(1) by (simp add: get_key_def store_call_def lookup_pure_def)
  show "ws_store (fst (get env k s)) = ws_store s" "ws_redis (fst (get env k s)) = ws_redis s"
    "\<forall>k'. k' \<noteq> k \<longrightarrow> ws_models (fst (get env k s)) k' = ws_models s k'"
    "(\<exists>p. look (gateway_key k) (ws_store s) = Inr (Some p)) \<longrightarrow> fst (get env k s) = s"
    "snd (get env k s) = None \<longleftrightarrow> \<not> (\<exists>p. look (gateway_key k) (ws_store s) = Inr (Some p))"
    using assms(2)
    by (auto simp: get_def g remove_binding_def binding_for_def split: sum.splits option.splits)
qed

lemma gone_keys_pure:
  assumes "lookup_pure env look" "we_binding_store env = None"
  shows "ws_store (fst (gone_keys env ks s)) = ws_store s \<and>
    set (snd (gone_keys env ks s)) = {k \<in> set ks. \<not> (\<exists>p. look (gateway_key k) (ws_store s) = Inr (Some p))} \<and>
    (\<forall>k. (k \<notin> set ks \<or> (\<exists>p. look (gateway_key k) (ws_store s) = Inr (Some p))) \<longrightarrow>
       ws_models (fst (gone_keys env ks s)) k = ws_models s k)"
proof (induction ks arbitrary: s)
  case Nil
  show ?case by simp
next
  case (Cons k ks)
  note gp = get_pure [OF assms, of k s]
  note ih = Cons.IH [of "fst (get env k s)", unfolded gp(1)]
  have keep: "(\<exists>p. look (gateway_key k') (ws_store s) = Inr (Some p)) \<Longrightarrow>
      ws_models (fst (get env k s)) k' = ws_models s k'" for k'
    using gp(3,4) by (cases "k' = k") auto
  show ?case
    using ih gp(3,5) keep by (auto simp: split_beta Let_def)
qed

lemma validate_virtual_model_Inr:
  assumes "validate_virtual_model env key m s = (s', Inr u)"
  shows "\<exists>b. binding_for env key True s = (s', Inr b) \<and> (b = None \<or> m = None \<or> b = m)"
  using assms by (auto simp: validate_virtual_model_def try_then_Inr split: if_splits)

lemma delta_checks_Inr:
  assumes "delta_checks env k snap ctx ms = Inr out"
  shows "out = sp_messages snap @ ms \<and> wx_epoch ctx = Some (int (sp_epoch snap)) \<and>
     wx_tail_start ctx = Some (unwrap_or (sp_message_count snap) (length (sp_messages snap))) \<and>
     we_validate_assembled env k out = Inr () \<and>
     (\<forall>h. wx_prefix_hash ctx = Some h \<longrightarrow> (\<exists>f. sp_fingerprint snap = Some f \<and>
        we_fingerprints_match env f \<lparr>fg_algorithm = [], fg_value = h\<rparr>))"
  using assms
  by (auto simp: delta_checks_def and_then_Inr Let_def split: option.split_asm)

section \<open>A small instance\<close>

text \<open>
  A gateway store that is a map, with an expiry test, no size limits and no Redis: the
  concrete input of the examples below.
\<close>

definition demo_env :: "(gateway_session_key \<Rightarrow> bool) \<Rightarrow> (gateway_session_key \<rightharpoonup> session_prefix) warm_env" where
  "demo_env gone =
     \<lparr>we_get_key = (\<lambda>k st rd. ((st, rd), if gone k then Inl Expired_Error else Inr (st k))),
      we_publish_key = (\<lambda>k p st rd. ((st(k \<mapsto> p), rd), Inr Created)),
      we_delete_key = (\<lambda>k st rd. ((st(k := None), rd), Inr ())),
      we_purge = (\<lambda>st rd. ((st, rd), Inr 0)),
      we_validate_prefix = (\<lambda>_ _. Inr ()), we_validate_tail = (\<lambda>_ _. Inr ()),
      we_validate_assembled = (\<lambda>_ _. Inr ()),
      we_fingerprints_match = (\<lambda>a b. fg_value a = fg_value b),
      we_storage_key = (\<lambda>k. gk_namespace k @ gk_session_id k),
      we_hash64 = (\<lambda>_. 0), we_to_string = (\<lambda>_. []), we_prefix_json = (\<lambda>_. []),
      we_binding_store = None, we_redis_key_prefix = [], we_redis_fault = None, we_now = 0,
      we_scan = (\<lambda>_. [])\<rparr>"

definition demo_key :: session_key where
  "demo_key = \<lparr>sk_project_id = ''p'', sk_api_key_id = ''a'', sk_session_id = ''s''\<rparr>"

definition demo_input :: "string option \<Rightarrow> publish_input" where
  "demo_input model = \<lparr>pi_epoch = 1, pi_message_count = 1, pi_messages = [Null], pi_pinned_boundary = 0,
     pi_prefix_hash = None, pi_virtual_model_id = model\<rparr>"

definition demo_prefix :: session_prefix where
  "demo_prefix = \<lparr>sp_epoch = 1, sp_messages = [Null], sp_pinned_boundary = Some 0, sp_fingerprint = None,
     sp_message_count = None\<rparr>"

definition demo_state :: "(gateway_session_key \<rightharpoonup> session_prefix) warm_state" where
  "demo_state = \<lparr>ws_store = [gateway_key demo_key \<mapsto> demo_prefix],
     ws_redis = \<lparr>rd_prefix = Map.empty, rd_binding = Map.empty\<rparr>,
     ws_models = [demo_key \<mapsto> Some ''m''], ws_metrics = warm_metrics_new\<rparr>"

definition demo_context :: warm_context where
  "demo_context = \<lparr>wx_session_id = Some ''s'', wx_epoch = Some 1, wx_delivery = Delta, wx_prefix_hash = None,
     wx_tail_start = Some 1, wx_request_id = None\<rparr>"

lemmas demo_defs = demo_env_def demo_state_def demo_prefix_def demo_context_def demo_input_def

lemma demo_fields [simp]:
  "we_binding_store (demo_env g) = None" "we_validate_prefix (demo_env g) k ms = Inr ()"
  "we_validate_tail (demo_env g) k ms = Inr ()" "we_validate_assembled (demo_env g) k ms = Inr ()"
  "we_publish_key (demo_env g) k p st rd = ((st(k \<mapsto> p), rd), Inr Created)"
  "we_purge (demo_env g) st rd = ((st, rd), Inr 0)"
  by (simp_all add: demo_env_def)

lemma demo_get_key [simp]:
  "get_key (demo_env gone) key s =
     (s, if gone (gateway_key key) then Inl Expired_Error else Inr (ws_store s (gateway_key key)))"
  by (cases s) (simp add: get_key_def store_call_def demo_env_def)

lemma demo_binding_for [simp]:
  "binding_for (demo_env gone) key b s = (s, Inr (Option.bind (ws_models s key) (\<lambda>m. m)))"
  by (simp add: binding_for_def demo_env_def)

lemma demo_model_id: "validate_virtual_model_id ''n'' = Inr ()"
  by code_simp

lemma demo_checks: "\<exists>h. publish_checks (demo_env gone) (demo_input None) = Inr h"
    "\<exists>h. publish_checks (demo_env gone) (demo_input (Some ''n'')) = Inr h"
  by (simp_all add: publish_checks_def and_then_def validate_publish_def demo_model_id demo_input_def
      Let_def guard_def)

section \<open>Properties\<close>

text \<open>
  C9. A delta is only ever appended to the prefix it was written against: an assembled
  request is the stored messages followed by the tail, the request named the stored
  epoch and the stored message count, its prefix hash, if any, matches the stored
  fingerprint, its Virtual Model agrees with the session's binding, and the assembled
  request passed the size limit.
\<close>

theorem assembled_delta_extends_the_stored_prefix:
  assumes "assemble_delta env key ctx ms model s = (s', Inr out)"
  shows "\<exists>s1 snap binding. get_key env key s = (s1, Inr (Some snap)) \<and> out = sp_messages snap @ ms \<and>
     wx_epoch ctx = Some (int (sp_epoch snap)) \<and>
     wx_tail_start ctx = Some (unwrap_or (sp_message_count snap) (length (sp_messages snap))) \<and>
     (\<forall>h. wx_prefix_hash ctx = Some h \<longrightarrow> (\<exists>f. sp_fingerprint snap = Some f \<and>
        we_fingerprints_match env f \<lparr>fg_algorithm = [], fg_value = h\<rparr>)) \<and>
     binding_for env key True s1 = (s', Inr binding) \<and> (binding = None \<or> model = None \<or> binding = model) \<and>
     we_validate_assembled env (gateway_key key) out = Inr ()"
proof -
  obtain s1 r where g: "get_key env key s = (s1, r)" by (cases "get_key env key s")
  from assms g obtain snap where r: "r = Inr (Some snap)"
    by (auto simp: assemble_delta_def split: sum.split_asm option.split_asm if_split_asm)
  with assms g have "try_then (validate_virtual_model env key model s1)
      (\<lambda>_ s. (s, delta_checks env (gateway_key key) snap ctx ms)) = (s', Inr out)"
    by (simp add: assemble_delta_def)
  then have v: "validate_virtual_model env key model s1 = (s', Inr ())"
    and d: "delta_checks env (gateway_key key) snap ctx ms = Inr out"
    by (auto simp: try_then_Inr)
  from validate_virtual_model_Inr [OF v] obtain b where
    "binding_for env key True s1 = (s', Inr b)" "b = None \<or> model = None \<or> b = model" by blast
  with g r delta_checks_Inr [OF d] show ?thesis by blast
qed

theorem assembled_delta_extends_the_stored_prefix_witness:
  "snd (assemble_delta (demo_env (\<lambda>_. False)) demo_key demo_context [Bool True] None demo_state) =
     Inr (sp_messages demo_prefix @ [Bool True])"
proof -
  have a: "assemble_delta (demo_env (\<lambda>_. False)) demo_key demo_context [Bool True] None demo_state =
      (demo_state, Inr [Null, Bool True])"
    by (simp add: assemble_delta_def validate_virtual_model_def delta_checks_def and_then_def guard_def
        demo_state_def demo_prefix_def demo_context_def)
  show ?thesis
    using assembled_delta_extends_the_stored_prefix [OF a] a by (auto simp: demo_state_def demo_prefix_def)
qed

text \<open>
  C10. The publish script protects a live session: a refusal changes nothing, the stored
  epoch never decreases, an epoch is never given two different prefixes, republishing the
  same epoch keeps the creation time the lifetime is counted from, a bound Virtual Model
  stays bound, and no other key is touched.
\<close>

theorem publish_script_protects_a_live_session:
  assumes "rd_prefix rd pk = Some row" "pr_epoch row = Some e" "\<not> script_expired now idle life (Some row)"
    and "publish_script pk bk n pj now idle life vm rd = (rd', r)"
  shows "(r < 0 \<longrightarrow> rd' = rd) \<and>
     (0 \<le> r \<longrightarrow> e \<le> n \<and> (n = e \<longrightarrow> pr_prefix row = Some pj) \<and>
        (\<exists>row'. rd_prefix rd' pk = Some row' \<and> pr_epoch row' = Some n \<and> pr_prefix row' = Some pj \<and>
           (n = e \<longrightarrow> pr_created_at row' = Some (unwrap_or (pr_created_at row) 0)))) \<and>
     (\<forall>m. Option.bind (rd_binding rd bk) br_model = Some m \<longrightarrow>
          Option.bind (rd_binding rd' bk) br_model = Some m) \<and>
     (\<forall>k. k \<noteq> pk \<longrightarrow> rd_prefix rd' k = rd_prefix rd k) \<and> (\<forall>k. k \<noteq> bk \<longrightarrow> rd_binding rd' k = rd_binding rd k)"
proof -
  note d = assms(4) [unfolded publish_script_def Let_def assms(1), simplified assms(2,3), simplified]
  show ?thesis
    using d assms(1,2)
    by (cases "rd_binding rd bk")
      (auto simp: hset_prefix_def hset_binding_def split: if_split_asm option.split_asm)
qed

theorem publish_script_protects_a_live_session_witness:
  "snd (publish_script ''p'' ''b'' 4 ''x'' 10 5 0 []
     \<lparr>rd_prefix = [''p'' \<mapsto> \<lparr>pr_epoch = Some 7, pr_prefix = Some ''y'', pr_created_at = Some 8,
        pr_accessed_at = Some 8, pr_ttl = None\<rparr>], rd_binding = Map.empty\<rparr>) < 0"
proof -
  let ?row = "\<lparr>pr_epoch = Some 7, pr_prefix = Some ''y'', pr_created_at = Some 8, pr_accessed_at = Some 8, pr_ttl = None\<rparr>"
  let ?rd = "\<lparr>rd_prefix = [''p'' \<mapsto> ?row], rd_binding = Map.empty\<rparr>"
  obtain rd' r where s: "publish_script ''p'' ''b'' 4 ''x'' 10 5 0 [] ?rd = (rd', r)" by fastforce
  have "(0 \<le> r \<longrightarrow> (7::nat) \<le> 4)"
    using publish_script_protects_a_live_session [OF _ _ _ s, of ?row 7] by (simp add: script_expired_def Let_def)
  then show ?thesis using s by simp
qed

text \<open>
  Without Redis a session's Virtual Model is settled by its first publication: a
  successful publication leaves the existing binding in place, or creates the one it
  asked for, and the bindings of other sessions do not change.
\<close>

theorem published_binding_is_sticky:
  assumes "we_binding_store env = None" "publish env key input s = (s', Inr snap)"
  shows "Option.bind (ws_models s' key) (\<lambda>m. m) =
       or_else (Option.bind (ws_models s key) (\<lambda>m. m)) (pi_virtual_model_id input) \<and>
     ps_virtual_model_id snap = Option.bind (ws_models s' key) (\<lambda>m. m) \<and>
     (\<forall>k. k \<noteq> key \<longrightarrow> ws_models s' k = ws_models s k)"
proof -
  obtain s1 s2 s3 ex p model u stored where st:
    "model = or_else (pi_virtual_model_id input) (Option.bind (ws_models s key) (\<lambda>m. m))"
    "Option.bind (ws_models s key) (\<lambda>m. m) = None \<or> pi_virtual_model_id input = None \<or>
       Option.bind (ws_models s key) (\<lambda>m. m) = pi_virtual_model_id input"
    "existing_prefix env key (bump wm_publish_attempts_update s) = (s1, Inr ex)"
    "publish_prefix env key p model s1 = (s2, Inr u)"
    "get_key env key (bind_model env key model s2) = (s3, Inr stored)"
    "ws_models s' = ws_models s3" "ps_virtual_model_id snap = model"
    using assms by (rule publish_memory_steps)
  have "ws_models s1 = ws_models s \<or> ws_models s1 = (ws_models s)(key := None)"
    using existing_prefix_models [OF st(3) assms(1)] by simp
  moreover have "ws_models s' = ws_models (bind_model env key model s2)" "ws_models s2 = ws_models s1"
    using get_key_models [OF st(5)] publish_prefix_models [OF st(4)] st(6) by simp_all
  ultimately show ?thesis using st(1,2,7) assms(1)
    by (cases "pi_virtual_model_id input"; cases "ws_models s key") (auto simp: bind_model_def split: option.splits)
qed

theorem published_binding_is_sticky_witness:
  "ws_models (fst (publish (demo_env (\<lambda>_. False)) demo_key (demo_input None) demo_state)) demo_key = Some (Some ''m'')"
proof -
  obtain s' r where p: "publish (demo_env (\<lambda>_. False)) demo_key (demo_input None) demo_state = (s', r)" by fastforce
  have "\<exists>snap. r = Inr snap"
    using p demo_checks(1) [of "\<lambda>_. False"]
    by (auto simp: publish_def existing_prefix_def publish_prefix_def store_call_def guard_def to_gateway_epoch_def
        lift_err_def demo_state_def demo_input_def bind_model_def or_else_def Let_def)
  then obtain snap where "r = Inr snap" ..
  with p have q: "publish (demo_env (\<lambda>_. False)) demo_key (demo_input None) demo_state = (s', Inr snap)" by simp
  have "Option.bind (ws_models s' demo_key) (\<lambda>m. m) = Some ''m''"
    using published_binding_is_sticky [OF _ q] by (simp add: demo_state_def)
  then show ?thesis using p by (cases "ws_models s' demo_key") auto
qed

text \<open>
  The counters balance: a publish request counts at most one attempt, and every
  counted attempt as exactly one success, answered 200, or one failure.
\<close>

theorem publish_attempts_are_accounted_for:
  fixes s :: "'s warm_state"
  defines "pending \<equiv> \<lambda>t :: 's warm_state.
    wm_publish_attempts (ws_metrics t) - wm_publish_successes (ws_metrics t) - wm_publish_failures (ws_metrics t)"
  assumes "publish_handler env authorize req_model pid kid sid req s = (s', status, body)"
  shows "pending s' = pending s \<and>
     (wm_publish_successes (ws_metrics s') = wm_publish_successes (ws_metrics s) + (if status = 200 then 1 else 0)) \<and>
     (wm_publish_attempts (ws_metrics s') = wm_publish_attempts (ws_metrics s) \<longrightarrow> ws_metrics s' = ws_metrics s)"
proof -
  have err: "warm_error_response st e = (status, body) \<Longrightarrow> status = st" for st e
    by (simp add: warm_error_response_def)
  have not200: "status_for e \<noteq> 200" for e by (cases e) simp_all
  show ?thesis
  proof (cases "(sid = [] \<or> 256 < length sid) \<or> (\<exists>resp. requested_model authorize req_model (pq_virtual_model req) = Inl resp)")
    case True
    then have "s' = s \<and> status \<noteq> 200"
      using assms(2) err
      by (fastforce simp: publish_handler_def requested_model_def split: if_splits option.splits sum.splits)
    then show ?thesis by simp
  next
    case False
    then obtain model where m: "requested_model authorize req_model (pq_virtual_model req) = Inr model"
      by (cases "requested_model authorize req_model (pq_virtual_model req)") auto
    let ?k = "\<lparr>sk_project_id = pid, sk_api_key_id = kid, sk_session_id = sid\<rparr>"
    let ?i = "\<lparr>pi_epoch = pq_epoch req, pi_message_count = pq_message_count req, pi_messages = pq_messages req,
       pi_pinned_boundary = pq_pinned_boundary req, pi_prefix_hash = pq_prefix_hash req, pi_virtual_model_id = model\<rparr>"
    obtain t r where p: "publish env ?k ?i s = (t, r)" by (cases "publish env ?k ?i s")
    have mt: "ws_metrics t = (let m = wm_publish_attempts_update (\<lambda>n. n + 1) (ws_metrics s)
      in case r of Inl _ \<Rightarrow> m | Inr _ \<Rightarrow> wm_publish_successes_update (\<lambda>n. n + 1) m)"
      using publish_metrics [of env ?k ?i s] p by simp
    show ?thesis
    proof (cases r)
      case (Inl e)
      then have "s' = record_publish_failure t" "status = status_for e"
        using assms(2) False m p err by (auto simp: publish_handler_def)
      then show ?thesis using mt Inl not200 by (simp add: record_publish_failure_def pending_def)
    next
      case (Inr snap)
      then have "s' = t" "status = 200"
        using assms(2) False m p by (auto simp: publish_handler_def publish_response_def)
      then show ?thesis using mt Inr by (simp add: pending_def)
    qed
  qed
qed

theorem publish_attempts_are_accounted_for_witness:
  "ws_metrics (fst (publish_handler (demo_env (\<lambda>_. False)) (\<lambda>_. Inr None) True ''p'' ''a'' ''s''
     \<lparr>pq_epoch = 1, pq_message_count = 0, pq_messages = [], pq_pinned_boundary = 0, pq_prefix_hash = None,
      pq_virtual_model = None\<rparr> demo_state)) = warm_metrics_new"
proof -
  let ?r = "\<lparr>pq_epoch = 1, pq_message_count = 0, pq_messages = [], pq_pinned_boundary = 0, pq_prefix_hash = None,
      pq_virtual_model = None\<rparr>"
  have h: "publish_handler (demo_env (\<lambda>_. False)) (\<lambda>_. Inr None) True ''p'' ''a'' ''s'' ?r demo_state =
     (demo_state, fst (warm_error_response 403 VirtualModelRequired), snd (warm_error_response 403 VirtualModelRequired))"
    by (simp add: publish_handler_def requested_model_def)
  show ?thesis using publish_attempts_are_accounted_for [OF h] h by (simp add: demo_state_def)
qed

text \<open>
  An expired session is hard to recreate: without Redis the binding of the expired
  session is read before it is dropped and refuses a publication for another Virtual
  Model; with Redis the binding lookup itself fails on the expired session, so that the
  publication is refused as expired and the branch that would recreate it never runs.
\<close>

theorem expired_session_refuses_publication:
  assumes "we_get_key env (gateway_key key) (ws_store s) (ws_redis s) = ((st, rd), Inl Expired_Error)"
    and "publish_checks env input = Inr h"
    and "we_binding_store env \<noteq> None \<or>
       (\<exists>m m'. ws_models s key = Some (Some m) \<and> pi_virtual_model_id input = Some m' \<and> m \<noteq> m')"
  shows "snd (publish env key input s) =
       Inl (if we_binding_store env = None then VirtualModelMismatch else SessionExpired) \<and>
     ws_redis (fst (publish env key input s)) = (if we_binding_store env = None then ws_redis s else rd)"
  using assms
  by (cases "we_binding_store env")
    (auto simp: publish_def binding_for_def get_key_def store_call_def lift_err_def guard_def)

theorem expired_session_refuses_publication_witness:
  "snd (publish (demo_env (\<lambda>_. True)) demo_key (demo_input (Some ''n'')) demo_state) = Inl VirtualModelMismatch"
proof -
  obtain h where h: "publish_checks (demo_env (\<lambda>_. True)) (demo_input (Some ''n'')) = Inr h"
    using demo_checks(2) by blast
  have g: "we_get_key (demo_env (\<lambda>_. True)) (gateway_key demo_key) (ws_store demo_state) (ws_redis demo_state) =
      ((ws_store demo_state, ws_redis demo_state), Inl Expired_Error)"
    by (simp add: demo_env_def)
  show ?thesis
    using expired_session_refuses_publication [OF g h] by (simp add: demo_state_def demo_input_def demo_env_def)
qed

text \<open>
  Cleanup drops the binding of a session exactly when the store no longer returns its
  prefix: a successful run without Redis keeps the binding of every session whose prefix
  the store still returns, and leaves no other.
\<close>

theorem purge_keeps_bindings_of_live_sessions:
  assumes "lookup_pure env look" "we_binding_store env = None" "set (keys (ws_models s)) = dom (ws_models s)"
    and "we_purge env (ws_store s) (ws_redis s) = ((st, rd), Inr n)"
    and "purge_expired env keys s = (s', r)"
  shows "r = Inr n \<and>
     (\<forall>k. ws_models s' k = (if \<exists>p. look (gateway_key k) st = Inr (Some p) then ws_models s k else None))"
proof -
  define t where "t = (bump wm_cleanup_runs_update s)\<lparr>ws_store := st, ws_redis := rd\<rparr>"
  obtain u gone where u: "gone_keys env (keys (ws_models s)) t = (u, gone)" by fastforce
  have "store_call (we_purge env) (bump wm_cleanup_runs_update s) = (t, Inr n)"
    using assms(4) by (simp add: store_call_def t_def)
  moreover have tm: "ws_models t = ws_models s" "ws_store t = st" by (simp_all add: t_def)
  ultimately have s': "s' = u\<lparr>ws_models := ws_models u |` (- set gone)\<rparr>" "r = Inr n"
    using assms(2,5) u by (simp_all add: purge_expired_def Let_def)
  note g = gone_keys_pure [OF assms(1,2), of "keys (ws_models s)" t, unfolded u tm, simplified]
  show ?thesis using g s' assms(3) by (auto simp: restrict_map_def)
qed

theorem purge_keeps_bindings_of_live_sessions_witness:
  "ws_models (fst (purge_expired (demo_env (\<lambda>_. True)) (\<lambda>_. [demo_key]) demo_state)) demo_key = None"
proof -
  obtain s' r where p: "purge_expired (demo_env (\<lambda>_. True)) (\<lambda>_. [demo_key]) demo_state = (s', r)" by fastforce
  have l: "lookup_pure (demo_env (\<lambda>_. True)) (\<lambda>_ _. Inl Expired_Error)"
    by (simp add: lookup_pure_def demo_env_def)
  show ?thesis
    using purge_keeps_bindings_of_live_sessions [OF l _ _ _ p] p by (simp add: demo_state_def)
qed

end
