(* ===== verification/Pipeline.thy ===== *)
theory Pipeline
  imports Shadow Budget Context_Slim Warm_Store Session
begin

text \<open>
  api/proxy.rs, stage by stage: model and pool of a request, quota reservation, prompt
  signals, context slimming, judge, session affinity, route hint, the recorded decision,
  metadata, the mapping of errors to responses, and the headers of an answer. Each stage
  is a function of the part of the state it reads; Proxy composes them. Answers of the
  database, the clock, JSON printing and the gateway library are arguments.
\<close>

section \<open>Responses\<close>

text \<open>The budget refusal keeps its numbers instead of their printed form.\<close>

datatype 'b resp_body = PlainBody string | JsonResp json | StreamResp 'b | BudgetBody bool f64 "f64 option"

record 'b response =
  rs_status :: nat
  rs_headers :: "string \<rightharpoonup> string"
  rs_body :: "'b resp_body"

definition plain :: "nat \<Rightarrow> string \<Rightarrow> 'b response" where
  "plain status text = \<lparr>rs_status = status, rs_headers = Map.empty, rs_body = PlainBody text\<rparr>"

text \<open>\<open>format!("{:.4}")\<close>: the exact value, rounded half to even at the fourth decimal.\<close>

definition fixed4 :: "f64 \<Rightarrow> string" where
  "fixed4 x = (let n = nat (round_even (\<bar>x\<bar> * 10000)); frac = show_nat (n mod 10000) in
     (if x < 0 then ''-'' else []) @ show_nat (n div 10000) @ ''.'' @ replicate (4 - length frac) (CHR ''0'') @ frac)"

definition budget_header_map :: "budget_outcome \<Rightarrow> f64 \<Rightarrow> f64 option \<Rightarrow> string \<rightharpoonup> string" where
  "budget_header_map b spent limit =
     (case budget_headers b spent limit of
        (status, None) \<Rightarrow> [''x-smartgate-budget-status'' \<mapsto> status]
      | (status, Some (used, remaining)) \<Rightarrow>
          [''x-smartgate-budget-status'' \<mapsto> status, ''x-smartgate-budget-used'' \<mapsto> fixed4 used,
           ''x-smartgate-budget-remaining'' \<mapsto> fixed4 remaining])"

definition budget_error_response :: "bool \<Rightarrow> budget_error \<Rightarrow> 'b response" where
  "budget_error_response include_detail e = (case e of
     SpendUnavailable \<Rightarrow> plain 503 ''Spend tracking temporarily unavailable''
   | SpendExceeded outcome spent limit \<Rightarrow>
       \<lparr>rs_status = 429, rs_headers = budget_header_map outcome spent limit,
        rs_body = BudgetBody include_detail spent limit\<rparr>)"

definition apply_budget_headers :: "budget_gate \<Rightarrow> 'b response \<Rightarrow> 'b response" where
  "apply_budget_headers gate r =
     r\<lparr>rs_headers := rs_headers r ++ budget_header_map (bg_outcome gate) (bg_spent gate) (bg_limit gate)\<rparr>"

definition warm_response :: "nat \<Rightarrow> warm_error \<Rightarrow> 'b response" where
  "warm_response status e = (case warm_error_response status e of (s, j) \<Rightarrow>
     \<lparr>rs_status = s, rs_headers = Map.empty, rs_body = JsonResp j\<rparr>)"

section \<open>Errors\<close>

fun warm_status :: "warm_error \<Rightarrow> nat" where
  "warm_status (InvalidContext _) = 400"
| "warm_status (InvalidPublish _) = 400"
| "warm_status SessionNotFound = 404"
| "warm_status SessionExpired = 404"
| "warm_status (StoreUnavailable _) = 503"
| "warm_status PrefixTooLarge = 413"
| "warm_status TailTooLarge = 413"
| "warm_status AssembledTooLarge = 413"
| "warm_status VirtualModelUnauthorized = 403"
| "warm_status VirtualModelRequired = 403"
| "warm_status EpochConflict = 409"
| "warm_status StaleEpoch = 409"
| "warm_status EpochMismatch = 409"
| "warm_status PrefixHashMismatch = 409"
| "warm_status (TailStartMismatch _ _) = 409"
| "warm_status VirtualModelMismatch = 409"

text \<open>\<open>parse::<usize>\<close>: no digits, or a value that does not fit, is no number.\<close>

definition parse_error_number :: "string \<Rightarrow> string \<Rightarrow> nat option" where
  "parse_error_number message marker = (case find_str message marker of
     None \<Rightarrow> None
   | Some i \<Rightarrow> parse_unsigned 10 (2 ^ 64 - 1)
       (takeWhile is_ascii_digit (drop (i + length marker) message)))"

definition warm_error_from_message :: "string \<Rightarrow> warm_error option" where
  "warm_error_from_message message =
     (let lower = to_ascii_lowercase message in
      if contains lower ''session not found'' then Some SessionNotFound
      else if contains lower ''session expired'' then Some SessionExpired
      else if contains lower ''epoch mismatch'' then Some EpochMismatch
      else if contains lower ''fingerprint mismatch'' then Some PrefixHashMismatch
      else if contains lower ''tail_start mismatch'' then
        Some (TailStartMismatch (unwrap_or (parse_error_number lower ''expected '') 0)
                (unwrap_or (parse_error_number lower ''got '') 0))
      else if contains lower ''tail too large'' then Some TailTooLarge
      else if contains lower ''assembled request too large'' \<or> contains lower ''assembled too large''
        then Some AssembledTooLarge
      else None)"

text \<open>The text of an error of the library is given.\<close>

definition host_error_response :: "(host_error \<Rightarrow> string) \<Rightarrow> host_error \<Rightarrow> 'b response" where
  "host_error_response show_error error = (case error of
     CoreInvalidRequest message \<Rightarrow> (case warm_error_from_message message of
         Some warm \<Rightarrow> warm_response (warm_status warm) warm
       | None \<Rightarrow> plain 400 (''Invalid request: '' @ message))
   | CorePoolNotFound _ \<Rightarrow> plain 404 (show_error error)
   | CoreEndpointNotFound _ \<Rightarrow> plain 404 (show_error error)
   | OtherHostError _ \<Rightarrow> plain 502 (''Upstream error: '' @ show_error error))"

section \<open>Model, pool, quota\<close>

record pool_context =
  pc_virtual_model :: virtual_model
  pc_pool :: "model_pool option"
  pc_strategy :: string

text \<open>The outcome of the three statements is \<open>exact_ok\<close>, \<open>fallback_ok\<close> and \<open>pool_ok\<close>.\<close>

definition resolve_pool_context ::
    "(string \<Rightarrow> string \<Rightarrow> ordering) \<Rightarrow> bool \<Rightarrow> bool \<Rightarrow> bool \<Rightarrow> catalog \<Rightarrow> auth_context \<Rightarrow> string
       \<Rightarrow> 'b response + pool_context" where
  "resolve_pool_context collate exact_ok fallback_ok pool_ok db auth requested =
     (case resolve_authorized_virtual_model collate exact_ok fallback_ok db requested
             (pj_id (au_project auth)) (ak_id (au_api_key auth)) of
        Inl _ \<Rightarrow> Inl (plain 500 ''Internal server error'')
      | Inr None \<Rightarrow> Inl (plain 403 ''Access to this model is not granted or model not found'')
      | Inr (Some vm) \<Rightarrow>
          if \<not> pool_ok then Inl (plain 500 ''Internal server error'')
          else let pool = find (\<lambda>p. mp_id p = vm_pool_id vm) (ct_model_pools db) in
            Inr \<lparr>pc_virtual_model = vm, pc_pool = pool,
                 pc_strategy = (case pool of Some p \<Rightarrow> canonicalize (mp_strategy p) | None \<Rightarrow> ''round_robin'')\<rparr>)"

definition quota_message :: "quota_reject \<Rightarrow> string" where
  "quota_message r = (case r of
     Rpm scope limit secs \<Rightarrow> ''Rate limit exceeded for '' @ scope_name scope @ '': '' @ show_nat (unat limit) @
       '' requests/minute. Retry after '' @ show_nat secs @ ''s''
   | Concurrency scope limit \<Rightarrow> ''Concurrency limit exceeded for '' @ scope_name scope @ '': '' @
       show_nat (unat limit) @ '' active requests'')"

text \<open>\<open>value as u32\<close> of a signed column wraps.\<close>

definition key_quota_limits :: "auth_context \<Rightarrow> quota_limits" where
  "key_quota_limits auth = \<lparr>rpm_limit = map_option u32_of_int (ak_rpm_limit (au_api_key auth)),
     concurrency_limit = map_option u32_of_int (ak_concurrency_limit (au_api_key auth))\<rparr>"

definition project_quota_limits :: "auth_context \<Rightarrow> quota_limits" where
  "project_quota_limits auth = \<lparr>rpm_limit = map_option u32_of_int (pj_rpm_limit (au_project auth)),
     concurrency_limit = map_option u32_of_int (pj_concurrency_limit (au_project auth))\<rparr>"

definition acquire_quota :: "quota_limiter \<Rightarrow> auth_context \<Rightarrow> nat \<Rightarrow> quota_limiter \<times> ('b response + quota_permit)" where
  "acquire_quota l auth now =
     (case try_acquire l (ak_id (au_api_key auth)) (pj_id (au_project auth)) (key_quota_limits auth)
             (project_quota_limits auth) now of
        (l', Inl reason) \<Rightarrow> (l', Inl \<lparr>rs_status = 429,
           rs_headers = (case Quota.retry_after_secs reason of
              Some secs \<Rightarrow> [''retry-after'' \<mapsto> show_nat secs] | None \<Rightarrow> Map.empty),
           rs_body = PlainBody (quota_message reason)\<rparr>)
      | (l', Inr _) \<Rightarrow> (l', Inr (quota_permit_new (ak_id (au_api_key auth)) (pj_id (au_project auth)))))"

section \<open>Signals, metadata, slimming\<close>

record request_signals =
  rg_prompt_text :: string
  rg_input_tokens :: u32
  rg_output_tokens :: u32
  rg_difficulty :: f64
  rg_has_tools :: bool
  rg_signals :: "string list"

definition request_signals :: "(json \<Rightarrow> string option) \<Rightarrow> json \<Rightarrow> request_signals" where
  "request_signals to_string payload =
     (let prompt_text = extract_openai_prompt_text to_string payload in
      \<lparr>rg_prompt_text = prompt_text, rg_input_tokens = estimate_tokens_from_text prompt_text,
       rg_output_tokens = expected_output_tokens payload 512,
       rg_difficulty = heuristic_difficulty to_string payload, rg_has_tools = request_has_tools payload,
       rg_signals = extract_complexity_signals to_string payload\<rparr>)"

definition core_metadata :: "auth_context \<Rightarrow> virtual_model \<Rightarrow> string \<Rightarrow> u32 \<Rightarrow> u32 \<Rightarrow> string \<rightharpoonup> string" where
  "core_metadata auth vm strategy input_tokens output_tokens =
     [''org_id'' \<mapsto> pj_org_id (au_project auth), ''project_id'' \<mapsto> pj_id (au_project auth),
      ''key_id'' \<mapsto> ak_id (au_api_key auth), ''virtual_model_id'' \<mapsto> vm_id vm, ''pool_id'' \<mapsto> vm_pool_id vm,
      ''routing_strategy'' \<mapsto> strategy, ''input_tokens_est'' \<mapsto> show_nat (unat input_tokens),
      ''output_tokens_est'' \<mapsto> show_nat (unat output_tokens)]"

record slim_stats =
  ss_tool_chars_before :: nat
  ss_slimmed_chars :: nat
  ss_tools_touched :: nat
  ss_dry_run :: bool

definition slim_config_of :: "model_pool \<Rightarrow> slim_config" where
  "slim_config_of pool = (let m = nat (max (mp_max_tool_chars pool) 256) in
     \<lparr>max_tool_chars = m, placeholder_after = min (m * 4) (2 ^ 64 - 1)\<rparr>)"

definition slim_request_context :: "json \<Rightarrow> bool \<Rightarrow> model_pool option \<Rightarrow> json \<times> slim_stats" where
  "slim_request_context payload warm_active pool_opt =
     (let stats = \<lparr>ss_tool_chars_before = tool_message_chars payload, ss_slimmed_chars = 0,
                   ss_tools_touched = 0, ss_dry_run = True\<rparr> in
      if warm_active then (payload, stats)
      else case pool_opt of
        None \<Rightarrow> (payload, stats)
      | Some pool \<Rightarrow>
          if mp_tool_trim_enabled pool = 0 then (payload, stats)
          else let result = slim_tool_messages payload (slim_config_of pool);
                   dry = (mp_tool_trim_dry_run pool \<noteq> 0)
               in (if \<not> dry \<and> sr_modified result then sr_body result else payload,
                   stats\<lparr>ss_slimmed_chars := sr_slimmed_chars result, ss_tools_touched := sr_tools_touched result,
                         ss_dry_run := dry\<rparr>))"

section \<open>Judge\<close>

text \<open>
  The judge is asked (\<open>ask\<close>, the call of Gateway) only when the pool enables it and the
  difficulty lies in the ambiguous band.
\<close>

definition judge_scope_of :: "auth_context \<Rightarrow> virtual_model \<Rightarrow> judge_scope" where
  "judge_scope_of auth vm =
     \<lparr>js_org_id = pj_org_id (au_project auth), js_project_id = pj_id (au_project auth),
      js_key_id = ak_id (au_api_key auth), js_virtual_model_id = vm_id vm, js_source_pool_id = vm_pool_id vm\<rparr>"

definition classify_borderline_difficulty ::
    "(string \<Rightarrow> string \<Rightarrow> judge_scope \<Rightarrow> 'st \<Rightarrow> 'st \<times> difficulty_tier option) \<Rightarrow> auth_context \<Rightarrow> model_pool option
       \<Rightarrow> virtual_model \<Rightarrow> string \<Rightarrow> f64 \<Rightarrow> 'st \<Rightarrow> 'st \<times> difficulty_tier option" where
  "classify_borderline_difficulty ask auth pool_opt vm prompt_text difficulty st = (case pool_opt of
     None \<Rightarrow> (st, None)
   | Some pool \<Rightarrow>
       if mp_judge_enabled pool = 0 then (st, None)
       else case mp_judge_endpoint_id pool of
         None \<Rightarrow> (st, None)
       | Some ep \<Rightarrow>
           if \<not> (JUDGE_TRIGGER_MIN \<le> difficulty \<and> difficulty \<le> JUDGE_TRIGGER_MAX) then (st, None)
           else ask ep prompt_text (judge_scope_of auth vm) st)"

section \<open>Session affinity\<close>

record warm_affinity =
  wa_session_id :: "string option"
  wa_context_epoch :: u32
  wa_prefix_hash :: "u64 option"
  wa_affinity_ttl_secs :: int
  wa_member_count :: nat
  wa_affinity_enabled :: bool
  wa_sticky_endpoint_id :: "string option"
  wa_affinity_applied :: bool
  wa_turn_index :: "u32 option"
  wa_is_prefix_stable :: "bool option"

definition affinity_session :: "headers \<Rightarrow> json \<Rightarrow> warm_context option \<Rightarrow> string option" where
  "affinity_session h payload ctx =
     or_else (Option.bind ctx wx_session_id) (extract_session_id h payload)"

text \<open>\<open>e.max(0) as u32\<close> truncates a 64-bit epoch.\<close>

definition affinity_epoch :: "headers \<Rightarrow> json \<Rightarrow> warm_context option \<Rightarrow> u32" where
  "affinity_epoch h payload ctx = (case Option.bind ctx wx_epoch of
     Some e \<Rightarrow> u32_of_int (max e 0) | None \<Rightarrow> extract_context_epoch h payload)"

definition warm_prefix_hash :: "warm_context option \<Rightarrow> u64 option" where
  "warm_prefix_hash ctx = Option.bind (Option.bind ctx wx_prefix_hash)
     (\<lambda>h. map_option of_nat (parse_unsigned 16 (2 ^ 64 - 1) (trim_start_0x h)))"

definition affinity_prefix_hash ::
    "(json list \<Rightarrow> string option) \<Rightarrow> headers \<Rightarrow> json \<Rightarrow> warm_context option \<Rightarrow> u64 option run" where
  "affinity_prefix_hash to_string h payload ctx = (case warm_prefix_hash ctx of
     Some hash \<Rightarrow> Returns (Some hash) | None \<Rightarrow> resolve_prefix_hash to_string h payload)"

text \<open>Every read of the session store happens here, at one moment.\<close>

definition session_facts ::
    "session_store \<Rightarrow> nat \<Rightarrow> string \<Rightarrow> string option \<Rightarrow> u32 \<Rightarrow> u64 option \<Rightarrow> int
       \<Rightarrow> session_store \<times> string option \<times> u32 option \<times> bool option" where
  "session_facts sessions now pool_id session_id epoch prefix_hash ttl_secs = (case session_id of
     None \<Rightarrow> (sessions, None, None, None)
   | Some sid \<Rightarrow>
       let key = (pool_id, sid, epoch) in
       case get_sticky_endpoint sessions now key ttl_secs of (s1, sticky) \<Rightarrow>
       case next_turn_index s1 now key prefix_hash ttl_secs of (s2, turn) \<Rightarrow>
         (s2, sticky, Some turn, prefix_stable s2 key prefix_hash))"

definition derive_warm_affinity ::
    "(json list \<Rightarrow> string option) \<Rightarrow> (string \<rightharpoonup> pool_endpoint_member list) \<Rightarrow> nat \<Rightarrow> headers \<Rightarrow> json \<Rightarrow> virtual_model
       \<Rightarrow> model_pool option \<Rightarrow> warm_context option \<Rightarrow> session_store \<Rightarrow> (session_store \<times> warm_affinity) run" where
  "derive_warm_affinity to_string members now h payload vm pool_opt ctx sessions =
     (let session_id = affinity_session h payload ctx;
          epoch = affinity_epoch h payload ctx;
          ttl_secs = (case pool_opt of Some p \<Rightarrow> mp_session_affinity_ttl_secs p | None \<Rightarrow> 3600);
          count = (case members (vm_pool_id vm) of Some m \<Rightarrow> length m | None \<Rightarrow> 0);
          enabled = ((case pool_opt of Some p \<Rightarrow> mp_session_affinity_enabled p \<noteq> 0 | None \<Rightarrow> False)
            \<and> session_id \<noteq> None \<and> 1 < count)
      in run_map (\<lambda>prefix_hash.
           case session_facts sessions now (vm_pool_id vm) session_id epoch prefix_hash ttl_secs of
             (s, sticky, turn, unchanged) \<Rightarrow>
               (s, \<lparr>wa_session_id = session_id, wa_context_epoch = epoch, wa_prefix_hash = prefix_hash,
                    wa_affinity_ttl_secs = ttl_secs, wa_member_count = count, wa_affinity_enabled = enabled,
                    wa_sticky_endpoint_id = sticky, wa_affinity_applied = (enabled \<and> sticky \<noteq> None),
                    wa_turn_index = turn, wa_is_prefix_stable = unchanged\<rparr>))
         (affinity_prefix_hash to_string h payload ctx))"

section \<open>Route hint and recorded decision\<close>

definition route_hint_of :: "request_signals \<Rightarrow> f64 \<Rightarrow> bool \<Rightarrow> string \<Rightarrow> warm_affinity \<Rightarrow> route_hint" where
  "route_hint_of sig difficulty downshift pool_id aff =
     \<lparr>hint_input_tokens = rg_input_tokens sig, hint_output_tokens = rg_output_tokens sig,
      hint_has_tools = rg_has_tools sig, hint_difficulty = difficulty, hint_downshift = downshift,
      hint_pool_id = pool_id, hint_affinity_enabled = wa_affinity_enabled aff,
      hint_sticky_endpoint_id = wa_sticky_endpoint_id aff\<rparr>"

definition install_route_hint ::
    "sync_state \<Rightarrow> nat \<Rightarrow> (string \<Rightarrow> nat) \<Rightarrow> virtual_model \<Rightarrow> string \<Rightarrow> route_hint
       \<Rightarrow> (string \<rightharpoonup> route_hint) \<Rightarrow> hint_slots \<Rightarrow> ((string \<rightharpoonup> route_hint) \<times> hint_slots) \<times> json list" where
  "install_route_hint tables now tie vm requested hint hints sl =
     (let sl1 = set_hint sl hint;
          hints1 = hints(vm_pool_id vm \<mapsto> hint, vm_id vm \<mapsto> hint, vm_name vm \<mapsto> hint, requested \<mapsto> hint)
      in ((hints1, sl1), explain (provider_of tables hints1) sl1 now tie (vm_pool_id vm) hint))"

definition u32_json :: "u32 \<Rightarrow> json" where "u32_json w = Number (IntN (int (unat w)))"
definition nat_json :: "nat \<Rightarrow> json" where "nat_json n = Number (IntN (int n))"
definition opt_json :: "('a \<Rightarrow> json) \<Rightarrow> 'a option \<Rightarrow> json" where
  "opt_json f v = (case v of None \<Rightarrow> Null | Some x \<Rightarrow> f x)"

definition slim_json :: "slim_stats \<Rightarrow> bool \<Rightarrow> json" where
  "slim_json slim warm_active = Object
     [(''tool_chars_before'', nat_json (ss_tool_chars_before slim)), (''slimmed_chars'', nat_json (ss_slimmed_chars slim)),
      (''tools_touched'', nat_json (ss_tools_touched slim)), (''dry_run'', Bool (ss_dry_run slim)),
      (''session_id_required'', Bool warm_active)]"

definition warming_json :: "warm_affinity \<Rightarrow> json" where
  "warming_json aff = Object
     [(''session_id'', opt_json String (wa_session_id aff)), (''context_epoch'', u32_json (wa_context_epoch aff)),
      (''turn_index'', opt_json u32_json (wa_turn_index aff)),
      (''prefix_hash'', opt_json (\<lambda>h. String (format_prefix_hash h)) (wa_prefix_hash aff)),
      (''affinity_enabled'', Bool (wa_affinity_enabled aff)), (''affinity_applied'', Bool (wa_affinity_applied aff)),
      (''affinity_hit'', Bool False), (''sticky_endpoint_id'', opt_json String (wa_sticky_endpoint_id aff)),
      (''member_count'', nat_json (wa_member_count aff)),
      (''prefix_stable'', opt_json Bool (wa_is_prefix_stable aff))]"

record decision_input =
  di_protocol :: chat_protocol
  di_strategy :: string
  di_signals :: request_signals
  di_difficulty :: f64
  di_difficulty_source :: string
  di_judge_used :: bool
  di_prompt_preview :: string
  di_budget :: budget_gate
  di_candidates :: "json list"
  di_slim :: slim_stats
  di_affinity :: warm_affinity
  di_warm_active :: bool

definition routing_decision :: "decision_input \<Rightarrow> json" where
  "routing_decision i = Object
     [(''product'', String ''smartgate''),
      (''protocol'', String (if di_protocol i = ChatAnthropic then ''anthropic_messages'' else ''openai_chat'')),
      (''strategy'', String (di_strategy i)),
      (''input_tokens_est'', u32_json (rg_input_tokens (di_signals i))),
      (''output_tokens_est'', u32_json (rg_output_tokens (di_signals i))),
      (''difficulty'', Number (FloatN (di_difficulty i))),
      (''difficulty_tier'', String (tier_as_str (difficulty_tier_of (di_difficulty i)))),
      (''difficulty_source'', String (di_difficulty_source i)),
      (''judge_used'', Bool (di_judge_used i)),
      (''prompt_preview'', String (di_prompt_preview i)),
      (''signals'', Array (map String (rg_signals (di_signals i)))),
      (''has_tools'', Bool (rg_has_tools (di_signals i))),
      (''downshift'', Bool (bg_downshift (di_budget i))),
      (''spent_today'', Number (FloatN (bg_spent (di_budget i)))),
      (''daily_limit'', float_json (bg_limit (di_budget i))),
      (''candidates'', Array (di_candidates i)),
      (''context_slim'', slim_json (di_slim i) (di_warm_active i)),
      (''warming'', warming_json (di_affinity i))]"

section \<open>Chat metadata\<close>

definition insert_opt :: "string \<Rightarrow> string option \<Rightarrow> (string \<rightharpoonup> string) \<Rightarrow> (string \<rightharpoonup> string)" where
  "insert_opt k v m = (case v of None \<Rightarrow> m | Some x \<Rightarrow> m(k \<mapsto> x))"

definition flag_text :: "bool \<Rightarrow> string" where "flag_text b = (if b then ''1'' else ''0'')"

definition warm_metadata :: "warm_context option \<Rightarrow> (string \<rightharpoonup> string) \<Rightarrow> (string \<rightharpoonup> string)" where
  "warm_metadata ctx m = (case ctx of
     None \<Rightarrow> m
   | Some c \<Rightarrow>
       insert_opt ''zene_request_id'' (wx_request_id c)
         (insert_opt ''zene_prefix_hash'' (wx_prefix_hash c)
           (insert_opt ''zene_context_epoch'' (map_option show_int (wx_epoch c))
             (m(''zene_session_id'' \<mapsto> unwrap_or (wx_session_id c) [],
                ''zene_delivery'' \<mapsto> (case wx_delivery c of Full \<Rightarrow> ''full'' | Delta \<Rightarrow> ''delta''))))))"

definition stamp_chat_metadata ::
    "(json \<Rightarrow> string) \<Rightarrow> warm_context option \<Rightarrow> warm_affinity \<Rightarrow> slim_stats \<Rightarrow> json \<Rightarrow> bool
       \<Rightarrow> (string \<rightharpoonup> string) \<Rightarrow> (string \<rightharpoonup> string)" where
  "stamp_chat_metadata show_json ctx aff slim decision downshift m0 =
     (let m1 = (warm_metadata ctx m0)
            (''routing_decision'' \<mapsto> show_json decision,
             ''tool_message_chars'' \<mapsto> show_nat (ss_tool_chars_before slim),
             ''trimmed_chars'' \<mapsto> show_nat (ss_slimmed_chars slim));
          m2 = insert_opt ''session_id'' (wa_session_id aff) m1;
          m3 = insert_opt ''turn_index'' (map_option (\<lambda>t. show_nat (unat t)) (wa_turn_index aff)) m2;
          m4 = insert_opt ''prefix_hash'' (map_option format_prefix_hash (wa_prefix_hash aff)) m3;
          m5 = m4(''context_epoch'' \<mapsto> show_nat (unat (wa_context_epoch aff)),
                  ''affinity_enabled'' \<mapsto> flag_text (wa_affinity_enabled aff),
                  ''affinity_applied'' \<mapsto> flag_text (wa_affinity_applied aff));
          m6 = insert_opt ''sticky_endpoint_id'' (wa_sticky_endpoint_id aff) m5;
          m7 = m6(''affinity_ttl_secs'' \<mapsto> show_int (wa_affinity_ttl_secs aff))
      in if downshift then m7(''budget_downshift'' \<mapsto> ''1'') else m7)"

section \<open>Lemmas\<close>

lemma warm_status_agrees: "warm_status e = status_for e"
  by (cases e) simp_all

lemma warm_status_range: "400 \<le> warm_status e"
  by (cases e) simp_all

lemma insert_opt_other [simp]: "k \<noteq> k' \<Longrightarrow> insert_opt k' v m k = m k"
  by (simp add: insert_opt_def split: option.splits)

lemma insert_opt_same [simp]: "insert_opt k v m k = or_else v (m k)"
  by (simp add: insert_opt_def split: option.splits)

text \<open>Metadata keys the chat stage leaves alone, and what it writes under the session keys.\<close>

lemma stamp_chat_metadata_keeps:
  assumes "k \<in> {''org_id'', ''project_id'', ''key_id'', ''virtual_model_id'', ''pool_id'', ''quota_release'',
    ''judge_request'', ''input_tokens_est'', ''output_tokens_est'', ''routing_strategy''}"
  shows "stamp_chat_metadata sj ctx aff slim d ds m k = m k"
  using assms by (elim insertE emptyE) (simp_all add: stamp_chat_metadata_def warm_metadata_def Let_def split: option.split)

lemma stamp_chat_metadata_session:
  "stamp_chat_metadata sj ctx aff slim d ds m ''session_id'' = or_else (wa_session_id aff) (m ''session_id'')"
  "stamp_chat_metadata sj ctx aff slim d ds m ''turn_index'' =
     or_else (map_option (\<lambda>t. show_nat (unat t)) (wa_turn_index aff)) (m ''turn_index'')"
  "stamp_chat_metadata sj ctx aff slim d ds m ''prefix_hash'' =
     or_else (map_option format_prefix_hash (wa_prefix_hash aff)) (m ''prefix_hash'')"
  "stamp_chat_metadata sj ctx aff slim d ds m ''context_epoch'' = Some (show_nat (unat (wa_context_epoch aff)))"
  "stamp_chat_metadata sj ctx aff slim d ds m ''affinity_enabled'' = Some (flag_text (wa_affinity_enabled aff))"
  "stamp_chat_metadata sj ctx aff slim d ds m ''affinity_applied'' = Some (flag_text (wa_affinity_applied aff))"
  "stamp_chat_metadata sj ctx aff slim d ds m ''affinity_ttl_secs'' = Some (show_int (wa_affinity_ttl_secs aff))"
  "stamp_chat_metadata sj ctx aff slim d ds m ''sticky_endpoint_id'' =
     or_else (wa_sticky_endpoint_id aff) (m ''sticky_endpoint_id'')"
  by (simp_all add: stamp_chat_metadata_def warm_metadata_def Let_def split: option.split)

lemma flag_text_1 [simp]: "flag_text b = ''1'' \<longleftrightarrow> b"
  by (simp add: flag_text_def)

section \<open>Properties\<close>

text \<open>
  A judge verdict survives as the recorded tier: when the judge answers, the request
  is routed on a difficulty whose tier is the judge's label and is attributed to the
  judge; without an answer, for a disabled judge, or outside the ambiguous band, the
  heuristic difficulty stands.
\<close>

theorem judge_verdict_is_the_recorded_tier:
  assumes "classify_borderline_difficulty ask auth pool vm prompt d st = (st', verdict)"
  shows "(\<forall>t. verdict = Some t \<longrightarrow> difficulty_tier_of (fst (judged_difficulty verdict d)) = t \<and>
        snd (judged_difficulty verdict d) = ''judge'' \<and> JUDGE_TRIGGER_MIN \<le> d \<and> d \<le> JUDGE_TRIGGER_MAX \<and>
        (\<exists>p ep. pool = Some p \<and> mp_judge_enabled p \<noteq> 0 \<and> mp_judge_endpoint_id p = Some ep \<and>
           ask ep prompt (judge_scope_of auth vm) st = (st', Some t))) \<and>
     (verdict = None \<longrightarrow> judged_difficulty verdict d = (d, ''heuristic''))"
  using assms
  by (auto simp: judged_difficulty_def tier_of_score classify_borderline_difficulty_def
      split: option.splits if_splits)

definition demo_auth :: auth_context where
  "demo_auth = \<lparr>au_project = (hd (ct_projects demo_catalog))\<lparr>pj_concurrency_limit := Some 3\<rparr>,
     au_api_key = (hd (ct_api_keys demo_catalog))\<lparr>ak_concurrency_limit := Some 2\<rparr>\<rparr>"

theorem judge_verdict_is_the_recorded_tier_witness:
  "difficulty_tier_of (fst (judged_difficulty (snd (classify_borderline_difficulty
     (\<lambda>_ _ _ s. (s, Some High)) demo_auth
     (Some (demo_pool\<lparr>mp_judge_enabled := 1, mp_judge_endpoint_id := Some ''j''\<rparr>)) (demo_model ''v1'' ''auto'') ''q''
     JUDGE_TRIGGER_MIN ())) JUDGE_TRIGGER_MIN)) = High"
proof -
  let ?r = "classify_borderline_difficulty (\<lambda>_ _ _ s. (s, Some High)) demo_auth
     (Some (demo_pool\<lparr>mp_judge_enabled := 1, mp_judge_endpoint_id := Some ''j''\<rparr>)) (demo_model ''v1'' ''auto'') ''q''
     JUDGE_TRIGGER_MIN ()"
  have "JUDGE_TRIGGER_MIN \<le> JUDGE_TRIGGER_MAX"
    unfolding JUDGE_TRIGGER_MIN_def JUDGE_TRIGGER_MAX_def by (rule rnd_mono) simp
  then have r: "?r = ((), Some High)"
    by (simp add: classify_borderline_difficulty_def)
  from judge_verdict_is_the_recorded_tier [OF r] show ?thesis
    unfolding r by simp
qed


definition demo_affinity :: warm_affinity where
  "demo_affinity = \<lparr>wa_session_id = Some ''s'', wa_context_epoch = 7, wa_prefix_hash = Some 255,
     wa_affinity_ttl_secs = 60, wa_member_count = 2, wa_affinity_enabled = True, wa_sticky_endpoint_id = None,
     wa_affinity_applied = False, wa_turn_index = Some 1, wa_is_prefix_stable = Some True\<rparr>"

definition demo_slim :: slim_stats where
  "demo_slim = \<lparr>ss_tool_chars_before = 0, ss_slimmed_chars = 0, ss_tools_touched = 0, ss_dry_run = True\<rparr>"

definition demo_metadata :: "string \<rightharpoonup> string" where
  "demo_metadata = stamp_chat_metadata (\<lambda>_. ''{}'') None demo_affinity demo_slim Null False [''pool_id'' \<mapsto> ''mp'']"

lemma demo_report_metadata [simp]: "rr_metadata (plain_report m) = m"
  by (simp add: plain_report_def)


text \<open>The same facts for a hook that binds the session.\<close>

lemma bind_session_stamped:
  assumes "rr_metadata r = stamp_chat_metadata sj ctx aff slim d ds m" "m ''pool_id'' = Some pool_id"
    and "status_of r = 200" "wa_session_id aff = Some sid" "wa_affinity_enabled aff"
    and "unat (wa_context_epoch aff) < 2 ^ 31"
    and "- (2 ^ 31) \<le> wa_affinity_ttl_secs aff" "wa_affinity_ttl_secs aff < 2 ^ 31"
  shows "\<exists>hash hit. bind_session st now r =
     record_success st now (pool_id, sid, wa_context_epoch aff) (rr_selected_endpoint_id r) hash hit
       (wa_affinity_ttl_secs aff)"
proof -
  have "rr_metadata r ''pool_id'' = Some pool_id"
    unfolding assms(1) using assms(2) by (simp add: stamp_chat_metadata_keeps)
  moreover have "u32_of_int (int (unat (wa_context_epoch aff))) = wa_context_epoch aff"
    by (simp add: u32_of_int_def)
  ultimately show ?thesis
    using assms(3-8)
    by (auto simp: bind_session_def session_fields_of_def meta_i32_def assms(1) stamp_chat_metadata_session
        parse_i32_show_nat parse_i32_show_int Let_def intro!: exI)
qed



text \<open>
  A request body is only ever slimmed for a pool that asks for it: the payload that is
  forwarded differs from the one received only when the pool is known, trimming is enabled
  and not a dry run, and the request is not a warm snapshot; a dry run reports the savings
  the trimming would have had.
\<close>

theorem only_opted_in_payloads_change:
  assumes "slim_request_context payload warm pool_opt = (payload', stats)"
  shows "(payload' \<noteq> payload \<longrightarrow> \<not> warm \<and> (\<exists>p. pool_opt = Some p \<and> mp_tool_trim_enabled p \<noteq> 0 \<and>
           mp_tool_trim_dry_run p = 0 \<and> payload' = sr_body (slim_tool_messages payload (slim_config_of p)))) \<and>
     (\<forall>p. pool_opt = Some p \<and> mp_tool_trim_enabled p \<noteq> 0 \<and> \<not> warm \<longrightarrow>
        ss_slimmed_chars stats = sr_slimmed_chars (slim_tool_messages payload (slim_config_of p))) \<and>
     256 \<le> max_tool_chars (slim_config_of p')"
proof -
  have "256 \<le> max_tool_chars (slim_config_of p')" by (simp add: slim_config_of_def Let_def)
  then show ?thesis
    using assms by (auto simp: slim_request_context_def Let_def split: option.splits if_splits)
qed

theorem only_opted_in_payloads_change_witness:
  "fst (slim_request_context Null True (Some demo_pool)) = Null"
  using only_opted_in_payloads_change [of Null True "Some demo_pool" Null
      "snd (slim_request_context Null True (Some demo_pool))"]
  by (simp add: slim_request_context_def Let_def)

text \<open>
  The recorded decision is the routing: the candidates written to the usage log are
  the trace the engine's feedback is computed from inside the dispatch, where the task
  carries the hint, whatever other requests have written to the shared hints by then.
\<close>

theorem recorded_candidates_are_the_routed_ones:
  assumes "install_route_hint tables now tie vm requested hint hints sl = ((hints1, sl1), candidates)"
    and "task_hint sl2 = Some hint"
  shows "candidates = map (explain_candidate (provider_of tables hints2))
       (snd (Routing.evaluate (provider_of tables hints2) sl2 now tie (vm_pool_id vm) None))
     \<and> feedback (provider_of tables hints2) sl2 now tie (vm_pool_id vm) =
       fst (Routing.evaluate (provider_of tables hints1) sl1 now tie (vm_pool_id vm) (Some hint))"
proof -
  have p: "provider_of tables hints2 = (provider_of tables hints1)\<lparr>fp_hints := hints2\<rparr>"
    by (simp add: provider_of_def)
  have "Routing.evaluate (provider_of tables hints1) sl1 now tie (vm_pool_id vm) (Some hint) =
      Routing.evaluate (provider_of tables hints2) sl2 now tie (vm_pool_id vm) None"
    unfolding p using assms(2) by (intro evaluate_hint_cong) (simp add: choose_hint_def get_task_hint_def)
  moreover have "explain_candidate (provider_of tables hints2) = explain_candidate (provider_of tables hints1)"
    by (intro ext) (simp add: explain_candidate_def provider_of_def)
  moreover have "candidates = explain (provider_of tables hints1) sl1 now tie (vm_pool_id vm) hint"
    using assms(1) by (auto simp: install_route_hint_def Let_def)
  ultimately show ?thesis by (simp add: explain_def feedback_def)
qed

definition demo_tables :: sync_state where
  "demo_tables = empty_sync\<lparr>ss_pools := [''mp'' \<mapsto> demo_pool],
     ss_pool_members := [''mp'' \<mapsto> [\<lparr>member_endpoint_id = ''e1'', member_priority = 0, member_weight = 1\<rparr>,
        \<lparr>member_endpoint_id = ''e2'', member_priority = 0, member_weight = 1\<rparr>]]\<rparr>"

theorem recorded_candidates_are_the_routed_ones_witness:
  "snd (install_route_hint demo_tables 5 (\<lambda>_. 0) (demo_model ''v1'' ''auto'') ''auto'' demo_hint Map.empty no_slots) =
   map (explain_candidate (provider_of demo_tables Map.empty))
     (snd (Routing.evaluate (provider_of demo_tables Map.empty) (no_slots\<lparr>task_hint := Some demo_hint\<rparr>) 5 (\<lambda>_. 0) ''mp'' None))"
proof -
  let ?i = "install_route_hint demo_tables 5 (\<lambda>_. 0) (demo_model ''v1'' ''auto'') ''auto'' demo_hint Map.empty no_slots"
  obtain h sl c where i: "?i = ((h, sl), c)" by (metis prod.collapse)
  have "vm_pool_id (demo_model ''v1'' ''auto'') = ''mp''" by (simp add: demo_model_def)
  with recorded_candidates_are_the_routed_ones [OF i, of "no_slots\<lparr>task_hint := Some demo_hint\<rparr>" Map.empty] i
  show ?thesis by simp
qed

text \<open>
  The responses endpoint is routed on another request's hint: it sets the process-wide slot
  only, and the hint a chat request left for the pool in the shared map is chosen before it.
\<close>

theorem responses_route_on_a_stale_hint:
  assumes "task_hint sl = None" "hints pool_id = Some stale"
  shows "choose_hint (provider_of tables hints) (set_hint sl own) pool_id None = Some stale"
  using assms by (simp add: choose_hint_def get_task_hint_def set_hint_def provider_of_def)

text \<open>
  A negative limit is read as a huge one: the column is cast to an unsigned number.
\<close>

theorem negative_limit_is_no_limit:
  assumes "ak_concurrency_limit (au_api_key auth) = Some (-1)"
  shows "concurrency_limit (key_quota_limits auth) = Some (2 ^ 32 - 1)"
  using assms by (simp add: key_quota_limits_def u32_of_int_def)

end
