(* ===== verification/Proxy.thy ===== *)
theory Proxy
  imports Pipeline
begin

text \<open>
  api/proxy.rs, the handlers: chat_proxy (chat completions and messages) and responses,
  from the parsed body to the answer, over the shared state of the server. The permit of a
  request is released when it is dropped unless the response disarmed it, and the route
  hint guard clears the shared slot on every exit after it was set. Content types axum adds
  by itself and log lines are left out.
\<close>

section \<open>State and environment\<close>

record 's app_state =
  st_tables :: sync_state
  st_quotas :: quota_limiter
  st_sessions :: session_store
  st_hints :: "string \<rightharpoonup> route_hint"
  st_slots :: hint_slots
  st_warm :: "'s warm_state"
  st_shadow_permits :: nat
  st_shadow_jobs :: "shadow_job list"

text \<open>
  What one request meets outside: tables of the database and which statements answer, the
  spend of the key, the moment, one random draw, and the functions of the libraries. The
  hooks of the gateway run inside \<open>px_dispatch\<close>, on the state.
\<close>

record ('s, 'r, 'b) proxy_env =
  px_db :: catalog
  px_collate :: "string \<Rightarrow> string \<Rightarrow> ordering"
  px_exact_ok :: bool
  px_fallback_ok :: bool
  px_pool_ok :: bool
  px_load_ok :: bool
  px_spend :: "unit + f64"
  px_now :: nat
  px_draw :: nat
  px_tie :: "string \<Rightarrow> nat"
  px_messages_text :: "json list \<Rightarrow> string option"
  px_value_text :: "json \<Rightarrow> string option"
  px_show_json :: "json \<Rightarrow> string"
  px_show_error :: "host_error \<Rightarrow> string"
  px_gw_field :: string
  px_warm :: "'s warm_env"
  px_default_retry :: retry_policy
  px_parse_chat :: "'r parser"
  px_parse_responses :: "json \<Rightarrow> string \<Rightarrow> string + 'r gateway_request"
  px_dispatch :: "('s app_state, 'r, 'b) dispatcher"
  px_responses :: "string \<Rightarrow> 'r gateway_request \<Rightarrow> 's app_state \<Rightarrow> 's app_state \<times> (string + nat \<times> 'b proto_body)"

section \<open>Dispatch\<close>

text \<open>The hint of the task is visible to the dispatch only.\<close>

definition scoped :: "route_hint \<Rightarrow> ('s app_state \<Rightarrow> 's app_state \<times> 'a) \<Rightarrow> 's app_state \<Rightarrow> 's app_state \<times> 'a" where
  "scoped hint f st =
     (case f (st\<lparr>st_slots := (st_slots st)\<lparr>task_hint := Some hint\<rparr>\<rparr>) of
        (st', r) \<Rightarrow> (st'\<lparr>st_slots := (st_slots st')\<lparr>task_hint := task_hint (st_slots st)\<rparr>\<rparr>, r))"

definition warm_key_of :: "auth_context \<Rightarrow> warm_context option \<Rightarrow> Warm_Context.session_key option" where
  "warm_key_of auth ctx = map_option (\<lambda>sid.
     \<lparr>sk_project_id = pj_id (au_project auth), sk_api_key_id = ak_id (au_api_key auth), sk_session_id = sid\<rparr>)
     (Option.bind ctx wx_session_id)"

definition dispatch_chat_request ::
    "('s, 'r, 'b) proxy_env \<Rightarrow> auth_context \<Rightarrow> warm_context option \<Rightarrow> virtual_model \<Rightarrow> chat_protocol \<Rightarrow> route_hint
       \<Rightarrow> 'r gateway_request \<Rightarrow> 's app_state
       \<Rightarrow> 's app_state \<times> ('b response + (host_error + 'b host_outcome))" where
  "dispatch_chat_request env auth ctx vm protocol hint rq st =
     (let warm_key = warm_key_of auth ctx in
      case install_session_gateway_context (px_gw_field env) (gr_extra rq) ctx of
        (extra, Inl e) \<Rightarrow> (st, Inl (warm_response (warm_status e) e))
      | (extra, Inr _) \<Rightarrow>
          (case (case warm_key of
                   None \<Rightarrow> (st_warm st, Inr ())
                 | Some key \<Rightarrow> validate_virtual_model (px_warm env) key (Some (vm_id vm)) (st_warm st)) of
             (w, Inl e) \<Rightarrow> (st\<lparr>st_warm := w\<rparr>, Inl (warm_response (warm_status e) e))
           | (w, Inr _) \<Rightarrow>
               (case scoped hint (px_dispatch env (ServiceTarget (vm_pool_id vm)) protocol
                         (rq\<lparr>gr_extra := extra\<rparr>) warm_key) (st\<lparr>st_warm := w\<rparr>) of
                  (st', r) \<Rightarrow> (st', Inr r))))"

section \<open>Mirroring\<close>

definition shadow_threshold :: "f64 \<Rightarrow> nat" where
  "shadow_threshold rate = nat \<lfloor>fmul (fclamp rate 0 1) 1000000\<rfloor>"

definition shadow_config :: "model_pool option \<Rightarrow> (string \<times> nat) option" where
  "shadow_config pool_opt = Option.bind pool_opt (\<lambda>p.
     if mp_shadow_enabled p = 0 then None
     else map_option (\<lambda>name. (name, shadow_threshold (mp_shadow_sample_rate p))) (mp_shadow_virtual_model_id p))"

text \<open>With no free permit the mirror is dropped; the job returns its permit when it ends.\<close>

definition spawn_shadow :: "shadow_job \<Rightarrow> 's app_state \<Rightarrow> 's app_state" where
  "spawn_shadow job st =
     (if 0 < st_shadow_permits st
      then st\<lparr>st_shadow_permits := st_shadow_permits st - 1, st_shadow_jobs := st_shadow_jobs st @ [job]\<rparr>
      else st)"

definition maybe_spawn_shadow ::
    "nat \<Rightarrow> model_pool option \<Rightarrow> 'b proto_body \<Rightarrow> auth_context \<Rightarrow> headers \<Rightarrow> json \<Rightarrow> string \<Rightarrow> bool
       \<Rightarrow> 's app_state \<Rightarrow> 's app_state" where
  "maybe_spawn_shadow draw pool_opt body auth h payload request_preview is_openai st =
     (case (body, shadow_config pool_opt) of
        (JsonBody j, Some (name, threshold)) \<Rightarrow>
          if draw mod 1000000 < threshold
          then spawn_shadow \<lparr>sj_auth = auth, sj_headers = h, sj_payload = payload, sj_shadow_model_name = name,
                 sj_request_preview = request_preview, sj_main_preview = extract_json_preview j,
                 sj_is_openai = is_openai\<rparr> st
          else st
      | _ \<Rightarrow> st)"

text \<open>A job that ends gives its permit back.\<close>

definition finish_shadow_job :: "'s app_state \<Rightarrow> 's app_state" where
  "finish_shadow_job st = (case st_shadow_jobs st of
     [] \<Rightarrow> st
   | _ # jobs \<Rightarrow> st\<lparr>st_shadow_permits := st_shadow_permits st + 1, st_shadow_jobs := jobs\<rparr>)"

section \<open>The answer\<close>

definition protocol_response_to_axum :: "nat \<Rightarrow> 'b proto_body \<Rightarrow> 'b response" where
  "protocol_response_to_axum status body = (case body of
     JsonBody j \<Rightarrow> \<lparr>rs_status = status, rs_headers = Map.empty, rs_body = JsonResp j\<rparr>
   | SseBody b \<Rightarrow> \<lparr>rs_status = status, rs_headers = [''content-type'' \<mapsto> ''text/event-stream'',
       ''cache-control'' \<mapsto> ''no-cache'', ''connection'' \<mapsto> ''keep-alive''], rs_body = StreamResp b\<rparr>)"

definition decorate_proxy_response :: "'b response \<Rightarrow> budget_gate \<Rightarrow> nat \<Rightarrow> 'b response" where
  "decorate_proxy_response r gate slimmed_chars =
     (let r1 = apply_budget_headers gate r;
          h1 = (if bg_downshift gate then (rs_headers r1)(''x-smartgate-budget'' \<mapsto> ''soft'') else rs_headers r1);
          h2 = (if 0 < slimmed_chars then h1(''x-smartgate-slim-chars'' \<mapsto> show_nat slimmed_chars) else h1)
      in r1\<lparr>rs_headers := h2\<rparr>)"

text \<open>A stream is answered with 200 whatever status the upstream gave (\<open>ok_sse\<close>).\<close>

definition chat_answer :: "nat \<Rightarrow> 'b proto_body \<Rightarrow> budget_gate \<Rightarrow> nat \<Rightarrow> 'b response" where
  "chat_answer status body gate slimmed_chars =
     decorate_proxy_response
       (protocol_response_to_axum (case body of JsonBody _ \<Rightarrow> status | SseBody _ \<Rightarrow> 200) body) gate slimmed_chars"

section \<open>Chat\<close>

definition is_delta :: "warm_context option \<Rightarrow> bool" where
  "is_delta ctx \<longleftrightarrow> (case ctx of Some c \<Rightarrow> wx_delivery c = Delta | None \<Rightarrow> False)"

definition count_delta_result :: "warm_context option \<Rightarrow> bool \<Rightarrow> 's app_state \<Rightarrow> 's app_state" where
  "count_delta_result ctx success st =
     (if is_delta ctx then st\<lparr>st_warm := record_delta_result success (st_warm st)\<rparr> else st)"

text \<open>The middle component: the permit was disarmed.\<close>

definition chat_outcome ::
    "('s, 'r, 'b) proxy_env \<Rightarrow> auth_context \<Rightarrow> headers \<Rightarrow> chat_protocol \<Rightarrow> pool_context \<Rightarrow> warm_context option
       \<Rightarrow> budget_gate \<Rightarrow> slim_stats \<Rightarrow> json \<Rightarrow> string \<Rightarrow> host_error + 'b host_outcome \<Rightarrow> 's app_state
       \<Rightarrow> 's app_state \<times> bool \<times> 'b response" where
  "chat_outcome env auth h protocol pc ctx gate slim payload preview outcome st = (case outcome of
     Inr (HostResponse status body) \<Rightarrow>
       (maybe_spawn_shadow (px_draw env) (pc_pool pc) body auth h payload preview (protocol = ChatOpenAi)
          (count_delta_result ctx True st),
        True, chat_answer status body gate (ss_slimmed_chars slim))
   | Inr PoolNotFound \<Rightarrow> (st, False, plain 404 ''Model pool not found'')
   | Inr OtherOutcome \<Rightarrow> (st, False, plain 502 ''Unsupported host dispatch outcome'')
   | Inl e \<Rightarrow> (count_delta_result ctx False st, False, host_error_response (px_show_error env) e))"

definition chat_hint :: "pool_context \<Rightarrow> budget_gate \<Rightarrow> request_signals \<Rightarrow> difficulty_tier option \<Rightarrow> warm_affinity \<Rightarrow> route_hint" where
  "chat_hint pc gate sig verdict aff =
     route_hint_of sig (fst (judged_difficulty verdict (rg_difficulty sig))) (bg_downshift gate)
       (vm_pool_id (pc_virtual_model pc)) aff"

definition chat_decision ::
    "chat_protocol \<Rightarrow> pool_context \<Rightarrow> warm_context option \<Rightarrow> budget_gate \<Rightarrow> slim_stats \<Rightarrow> string \<Rightarrow> request_signals
       \<Rightarrow> difficulty_tier option \<Rightarrow> warm_affinity \<Rightarrow> json list \<Rightarrow> json" where
  "chat_decision protocol pc ctx gate slim preview sig verdict aff candidates = routing_decision
     \<lparr>di_protocol = protocol, di_strategy = pc_strategy pc, di_signals = sig,
      di_difficulty = fst (judged_difficulty verdict (rg_difficulty sig)),
      di_difficulty_source = snd (judged_difficulty verdict (rg_difficulty sig)),
      di_judge_used = (verdict \<noteq> None), di_prompt_preview = preview, di_budget = gate,
      di_candidates = candidates, di_slim = slim, di_affinity = aff, di_warm_active = (ctx \<noteq> None)\<rparr>"

definition chat_request ::
    "(json \<Rightarrow> string) \<Rightarrow> auth_context \<Rightarrow> pool_context \<Rightarrow> warm_context option \<Rightarrow> budget_gate \<Rightarrow> slim_stats
       \<Rightarrow> request_signals \<Rightarrow> warm_affinity \<Rightarrow> json \<Rightarrow> 'r gateway_request \<Rightarrow> 'r gateway_request" where
  "chat_request show_json auth pc ctx gate slim sig aff decision rq =
     rq\<lparr>gr_metadata := stamp_chat_metadata show_json ctx aff slim decision (bg_downshift gate)
          (gr_metadata rq ++ core_metadata auth (pc_virtual_model pc) (pc_strategy pc) (rg_input_tokens sig)
             (rg_output_tokens sig))\<rparr>"

definition chat_send ::
    "('s, 'r, 'b) proxy_env \<Rightarrow> auth_context \<Rightarrow> headers \<Rightarrow> chat_protocol \<Rightarrow> pool_context \<Rightarrow> warm_context option
       \<Rightarrow> budget_gate \<Rightarrow> slim_stats \<Rightarrow> json \<Rightarrow> string \<Rightarrow> route_hint \<Rightarrow> 'r gateway_request \<Rightarrow> 's app_state
       \<Rightarrow> 's app_state \<times> bool \<times> 'b response" where
  "chat_send env auth h protocol pc ctx gate slim payload preview hint rq st =
     (case dispatch_chat_request env auth ctx (pc_virtual_model pc) protocol hint rq st of
        (st', Inl r) \<Rightarrow> (st', False, r)
      | (st', Inr outcome) \<Rightarrow> chat_outcome env auth h protocol pc ctx gate slim payload preview outcome st')"

definition clear_guard :: "'s app_state \<times> bool \<times> 'b response \<Rightarrow> 's app_state \<times> bool \<times> 'b response" where
  "clear_guard x = (case x of (st, disarmed, r) \<Rightarrow>
     (st\<lparr>st_slots := clear_hint (st_slots st)\<rparr>, disarmed, r))"

definition chat_routed ::
    "('s, 'r, 'b) proxy_env \<Rightarrow> auth_context \<Rightarrow> headers \<Rightarrow> chat_protocol \<Rightarrow> string \<Rightarrow> pool_context \<Rightarrow> warm_context option
       \<Rightarrow> budget_gate \<Rightarrow> slim_stats \<Rightarrow> json \<Rightarrow> request_signals \<Rightarrow> difficulty_tier option \<Rightarrow> warm_affinity
       \<Rightarrow> 's app_state \<Rightarrow> 's app_state \<times> bool \<times> 'b response" where
  "chat_routed env auth h protocol requested pc ctx gate slim payload sig verdict aff st =
     (let hint = chat_hint pc gate sig verdict aff;
          preview = extract_user_prompt_preview (px_value_text env) payload in
      case install_route_hint (st_tables st) (px_now env) (px_tie env) (pc_virtual_model pc) requested hint
             (st_hints st) (st_slots st) of
        ((hints, sl), candidates) \<Rightarrow>
          let st1 = st\<lparr>st_hints := hints, st_slots := sl\<rparr>;
              decision = chat_decision protocol pc ctx gate slim preview sig verdict aff candidates
          in clear_guard (case px_parse_chat env protocol payload requested of
               Inl message \<Rightarrow> (st1, False, plain 400 (''Invalid request: '' @ message))
             | Inr rq \<Rightarrow> chat_send env auth h protocol pc ctx gate slim payload preview hint
                 (chat_request (px_show_json env) auth pc ctx gate slim sig aff decision rq) st1))"

definition judge_note :: "difficulty_tier option \<Rightarrow> string list" where
  "judge_note verdict = (case verdict of
     None \<Rightarrow> [] | Some tier \<Rightarrow> [''Auxiliary Judge: '' @ to_ascii_uppercase (tier_as_str tier)])"

definition chat_admitted ::
    "('s, 'r, 'b) proxy_env \<Rightarrow> auth_context \<Rightarrow> headers \<Rightarrow> chat_protocol \<Rightarrow> string \<Rightarrow> pool_context \<Rightarrow> warm_context option
       \<Rightarrow> budget_gate \<Rightarrow> slim_stats \<Rightarrow> json \<Rightarrow> request_signals \<Rightarrow> 's app_state
       \<Rightarrow> 's app_state \<times> bool \<times> 'b response run" where
  "chat_admitted env auth h protocol requested pc ctx gate slim payload sig st =
     (case classify_borderline_difficulty
             (classify_with_judge (px_default_retry env) (px_parse_chat env) (px_dispatch env) (px_load_ok env)
                (px_db env))
             auth (pc_pool pc) (pc_virtual_model pc) (rg_prompt_text sig) (rg_difficulty sig) st of
        (st1, verdict) \<Rightarrow>
          (case derive_warm_affinity (px_messages_text env) (ss_pool_members (st_tables st1)) (px_now env) h payload
                  (pc_virtual_model pc) (pc_pool pc) ctx (st_sessions st1) of
             Panics \<Rightarrow> (st1, False, Panics)
           | Returns (sessions, aff) \<Rightarrow>
               (case chat_routed env auth h protocol requested pc ctx gate slim payload
                       (sig\<lparr>rg_signals := rg_signals sig @ judge_note verdict\<rparr>) verdict aff
                       (st1\<lparr>st_sessions := sessions\<rparr>) of
                  (st', disarmed, r) \<Rightarrow> (st', disarmed, Returns r))))"

definition drop_permit :: "quota_permit \<Rightarrow> bool \<Rightarrow> 's app_state \<Rightarrow> 's app_state" where
  "drop_permit permit disarmed st =
     st\<lparr>st_quotas := permit_drop (st_quotas st) (if disarmed then permit_disarm permit else permit)\<rparr>"

definition chat_metered ::
    "('s, 'r, 'b) proxy_env \<Rightarrow> auth_context \<Rightarrow> headers \<Rightarrow> chat_protocol \<Rightarrow> string \<Rightarrow> pool_context \<Rightarrow> warm_context option
       \<Rightarrow> json \<Rightarrow> 's app_state \<Rightarrow> 's app_state \<times> 'b response run" where
  "chat_metered env auth h protocol requested pc ctx payload0 st =
     (case enforce_spend_budget (ak_daily_spend_limit (au_api_key auth)) (pj_daily_spend_limit (au_project auth))
             (px_spend env) of
        Inl e \<Rightarrow> (st, Returns (budget_error_response True e))
      | Inr gate \<Rightarrow>
          (case slim_request_context payload0 (ctx \<noteq> None) (pc_pool pc) of (payload, slim) \<Rightarrow>
            (case acquire_quota (st_quotas st) auth (px_now env) of
               (l, Inl r) \<Rightarrow> (st\<lparr>st_quotas := l\<rparr>, Returns r)
             | (l, Inr permit) \<Rightarrow>
                 (case chat_admitted env auth h protocol requested pc ctx gate slim payload
                         (request_signals (px_value_text env) payload) (st\<lparr>st_quotas := l\<rparr>) of
                    (st', disarmed, r) \<Rightarrow> (drop_permit permit disarmed st', r)))))"

definition model_field :: "json \<Rightarrow> string" where
  "model_field payload = unwrap_or (jget_str ''model'' payload) []"

definition chat_proxy ::
    "('s, 'r, 'b) proxy_env \<Rightarrow> auth_context \<Rightarrow> headers \<Rightarrow> json \<Rightarrow> chat_protocol \<Rightarrow> 's app_state
       \<Rightarrow> 's app_state \<times> 'b response run" where
  "chat_proxy env auth h payload protocol st =
     (case resolve_pool_context (px_collate env) (px_exact_ok env) (px_fallback_ok env) (px_pool_ok env)
             (px_db env) auth (model_field payload) of
        Inl r \<Rightarrow> (st, Returns r)
      | Inr pc \<Rightarrow>
          (case parse_context_with_headers payload (Some h) of
             Inl e \<Rightarrow> (st, Returns (warm_response (warm_status e) e))
           | Inr ctx \<Rightarrow>
               let st1 = (case ctx of None \<Rightarrow> st
                     | Some c \<Rightarrow> st\<lparr>st_warm := record_delta_attempt (wx_delivery c) (st_warm st)\<rparr>);
                   payload1 = (case ctx of
                       Some c \<Rightarrow> if wx_delivery c = Full then strip_context payload else payload
                     | None \<Rightarrow> payload)
               in chat_metered env auth h protocol (model_field payload) pc ctx payload1 st1))"

section \<open>Entry points\<close>

text \<open>The extractor of the handlers authenticates first; its failure is the answer.\<close>

definition authenticated ::
    "(string \<Rightarrow> string) \<Rightarrow> bool \<Rightarrow> bool \<Rightarrow> catalog \<Rightarrow> headers
       \<Rightarrow> (auth_context \<Rightarrow> 's app_state \<Rightarrow> 's app_state \<times> 'b response run) \<Rightarrow> 's app_state
       \<Rightarrow> 's app_state \<times> 'b response run" where
  "authenticated hash_token key_ok project_ok db h handler st =
     (case authenticate hash_token key_ok project_ok db h of
        Inl (status, message) \<Rightarrow> (st, Returns (plain status message))
      | Inr auth \<Rightarrow> handler auth st)"

definition chat_completions ::
    "(string \<Rightarrow> string) \<Rightarrow> bool \<Rightarrow> bool \<Rightarrow> ('s, 'r, 'b) proxy_env \<Rightarrow> headers \<Rightarrow> json \<Rightarrow> 's app_state
       \<Rightarrow> 's app_state \<times> 'b response run" where
  "chat_completions hash_token key_ok project_ok env h payload st =
     authenticated hash_token key_ok project_ok (px_db env) h
       (\<lambda>auth. chat_proxy env auth h payload ChatOpenAi) st"

definition anthropic_messages ::
    "(string \<Rightarrow> string) \<Rightarrow> bool \<Rightarrow> bool \<Rightarrow> ('s, 'r, 'b) proxy_env \<Rightarrow> headers \<Rightarrow> json \<Rightarrow> 's app_state
       \<Rightarrow> 's app_state \<times> 'b response run" where
  "anthropic_messages hash_token key_ok project_ok env h payload st =
     authenticated hash_token key_ok project_ok (px_db env) h
       (\<lambda>auth. chat_proxy env auth h payload ChatAnthropic) st"

section \<open>Responses\<close>

definition responses_decision :: "request_signals \<Rightarrow> budget_gate \<Rightarrow> json" where
  "responses_decision sig gate = Object
     [(''product'', String ''smartgate''), (''protocol'', String ''responses''),
      (''input_tokens_est'', u32_json (rg_input_tokens sig)), (''output_tokens_est'', u32_json (rg_output_tokens sig)),
      (''difficulty'', Number (FloatN (rg_difficulty sig))),
      (''difficulty_tier'', String (tier_as_str (difficulty_tier_of (rg_difficulty sig)))),
      (''difficulty_source'', String ''heuristic''), (''judge_used'', Bool False),
      (''prompt_preview'', String (take_chars 200 (rg_prompt_text sig))),
      (''signals'', Array (map String (rg_signals sig))), (''has_tools'', Bool (rg_has_tools sig)),
      (''downshift'', Bool (bg_downshift gate)), (''spent_today'', Number (FloatN (bg_spent gate))),
      (''daily_limit'', float_json (bg_limit gate))]"

definition responses_hint :: "request_signals \<Rightarrow> budget_gate \<Rightarrow> virtual_model \<Rightarrow> route_hint" where
  "responses_hint sig gate vm =
     \<lparr>hint_input_tokens = rg_input_tokens sig, hint_output_tokens = rg_output_tokens sig,
      hint_has_tools = rg_has_tools sig, hint_difficulty = rg_difficulty sig, hint_downshift = bg_downshift gate,
      hint_pool_id = vm_pool_id vm, hint_affinity_enabled = False, hint_sticky_endpoint_id = None\<rparr>"

definition responses_admitted ::
    "('s, 'r, 'b) proxy_env \<Rightarrow> auth_context \<Rightarrow> string \<Rightarrow> pool_context \<Rightarrow> budget_gate \<Rightarrow> request_signals \<Rightarrow> json
       \<Rightarrow> 's app_state \<Rightarrow> 's app_state \<times> bool \<times> 'b response" where
  "responses_admitted env auth requested pc gate sig payload st =
     (let vm = pc_virtual_model pc in
      case px_parse_responses env payload requested of
        Inl message \<Rightarrow> (st, False, plain 400 (''Invalid request: '' @ message))
      | Inr rq \<Rightarrow>
          let rq1 = insert_metadata (core_metadata auth vm (pc_strategy pc) (rg_input_tokens sig)
                      (rg_output_tokens sig)) rq;
              rq2 = insert_metadata [''routing_decision'' \<mapsto> px_show_json env (responses_decision sig gate)] rq1
          in case px_responses env (vm_pool_id vm) rq2 st of
               (st', Inr (status, body)) \<Rightarrow>
                 (st', True, apply_budget_headers gate (protocol_response_to_axum status body))
             | (st', Inl e) \<Rightarrow> (st', False, plain 502 (''Upstream error: '' @ e)))"

definition responses ::
    "('s, 'r, 'b) proxy_env \<Rightarrow> auth_context \<Rightarrow> json \<Rightarrow> 's app_state \<Rightarrow> 's app_state \<times> 'b response" where
  "responses env auth payload st =
     (case resolve_pool_context (px_collate env) (px_exact_ok env) (px_fallback_ok env) (px_pool_ok env)
             (px_db env) auth (model_field payload) of
        Inl r \<Rightarrow> (st, r)
      | Inr pc \<Rightarrow>
          (case enforce_spend_budget (ak_daily_spend_limit (au_api_key auth))
                  (pj_daily_spend_limit (au_project auth)) (px_spend env) of
             Inl e \<Rightarrow> (st, budget_error_response False e)
           | Inr gate \<Rightarrow>
               let sig = request_signals (px_value_text env) payload;
                   st1 = st\<lparr>st_slots := set_hint (st_slots st) (responses_hint sig gate (pc_virtual_model pc))\<rparr>
               in case (case acquire_quota (st_quotas st1) auth (px_now env) of
                          (l, Inl r) \<Rightarrow> (st1\<lparr>st_quotas := l\<rparr>, r)
                        | (l, Inr permit) \<Rightarrow>
                            (case responses_admitted env auth (model_field payload) pc gate sig payload
                                    (st1\<lparr>st_quotas := l\<rparr>) of
                               (st', disarmed, r) \<Rightarrow> (drop_permit permit disarmed st', r))) of
                    (st', r) \<Rightarrow> (st'\<lparr>st_slots := clear_hint (st_slots st')\<rparr>, r)))"

section \<open>Lemmas\<close>

lemma core_metadata_keys:
  "core_metadata auth vm s i out ''key_id'' = Some (ak_id (au_api_key auth))"
  "core_metadata auth vm s i out ''project_id'' = Some (pj_id (au_project auth))"
  "core_metadata auth vm s i out ''pool_id'' = Some (vm_pool_id vm)"
  "core_metadata auth vm s i out ''quota_release'' = None"
  by (simp_all add: core_metadata_def)

text \<open>
  The hooks run once per answered dispatch: the quotas change by the release of one report
  that carries the metadata of the request, and not at all without an answer.
\<close>

definition reports_once :: "('s app_state, 'r, 'b) dispatcher \<Rightarrow> bool" where
  "reports_once d \<longleftrightarrow> (\<forall>t p rq k st. case d t p rq k st of
     (st', Inr (HostResponse _ _)) \<Rightarrow>
        \<exists>r. rr_metadata r = gr_metadata rq \<and> st_quotas st' = release_slots_of (st_quotas st) r
   | (st', _) \<Rightarrow> st_quotas st' = st_quotas st)"

definition plain_parser :: "'r parser \<Rightarrow> bool" where
  "plain_parser parse \<longleftrightarrow> (\<forall>p j m rq. parse p j m = Inr rq \<longrightarrow> gr_metadata rq ''quota_release'' = None)"

definition same_slots :: "quota_limiter \<Rightarrow> quota_limiter \<Rightarrow> bool" where
  "same_slots l l' \<longleftrightarrow> slots (key_concurrency l) = slots (key_concurrency l') \<and>
     slots (project_concurrency l) = slots (project_concurrency l')"

lemma reports_onceD:
  assumes "reports_once d" "d t p rq k st = (st', out)"
  shows "(\<exists>s b r. out = Inr (HostResponse s b) \<and> rr_metadata r = gr_metadata rq \<and>
            st_quotas st' = release_slots_of (st_quotas st) r) \<or>
         (\<nexists>s b. out = Inr (HostResponse s b)) \<and> st_quotas st' = st_quotas st"
  using assms(1) [unfolded reports_once_def, rule_format, where t = t and p = p and rq = rq and k = k and st = st] assms(2)
  by (auto split: sum.splits host_outcome.splits)

lemma judge_releases_nothing:
  assumes "reports_once d" "classify_with_judge dr parse d ok db ep prompt scope st = (st', v)"
  shows "st_quotas st' = st_quotas st"
proof -
  have "st_quotas st1 = st_quotas st" if "d t p (insert_metadata (judge_metadata scope prompt) rq) k st = (st1, out)"
    for t p rq k st1 out
    using reports_onceD [OF assms(1) that] judge_report_releases_nothing by metis
  then show ?thesis
    using assms(2) by (auto simp: classify_with_judge_def split: sum.splits option.splits prod.splits)
qed

lemma release_slots_of_chat:
  assumes "rr_metadata r = stamp_chat_metadata sj ctx aff slim dec ds (gr_metadata rq ++ core_metadata auth vm s i out)"
    and "gr_metadata rq ''quota_release'' = None"
  shows "release_slots_of l r = release l (ak_id (au_api_key auth)) (Some (pj_id (au_project auth)))"
  using assms by (simp add: release_slots_of_def stamp_chat_metadata_keeps core_metadata_keys map_add_def)

lemma spawn_quotas [simp]:
  "st_quotas (maybe_spawn_shadow dr pool body auth h payload pv openai st) = st_quotas st"
  by (simp add: maybe_spawn_shadow_def spawn_shadow_def split: proto_body.splits option.splits)

lemma count_delta_quotas [simp]: "st_quotas (count_delta_result ctx b st) = st_quotas st"
  by (simp add: count_delta_result_def)

text \<open>What a stage after the admission may do to the quotas, by whether the permit was disarmed.\<close>

definition settled :: "auth_context \<Rightarrow> quota_limiter \<Rightarrow> bool \<Rightarrow> quota_limiter \<Rightarrow> bool" where
  "settled auth l disarmed l' \<longleftrightarrow>
     l' = (if disarmed then release l (ak_id (au_api_key auth)) (Some (pj_id (au_project auth))) else l)"

lemma dispatch_quotas:
  assumes "reports_once (px_dispatch env)"
    and "dispatch_chat_request env auth ctx vm protocol hint rq st = (st', out)"
  shows "(\<exists>s b r. out = Inr (Inr (HostResponse s b)) \<and> rr_metadata r = gr_metadata rq \<and>
            st_quotas st' = release_slots_of (st_quotas st) r) \<or>
         (\<nexists>s b. out = Inr (Inr (HostResponse s b))) \<and> st_quotas st' = st_quotas st"
proof -
  have scoped: "\<exists>s1. st_quotas s1 = st_quotas st \<and>
      px_dispatch env t protocol (rq\<lparr>gr_extra := ex\<rparr>) k s1 = (s2, o2) \<and> st_quotas st' = st_quotas s2"
    if "st_quotas s0 = st_quotas st"
      "(case scoped hint (px_dispatch env t protocol (rq\<lparr>gr_extra := ex\<rparr>) k) s0 of (x, r) \<Rightarrow> (x, Inr r)) = (st', Inr o2)"
      "s2 = fst (px_dispatch env t protocol (rq\<lparr>gr_extra := ex\<rparr>) k (s0\<lparr>st_slots := (st_slots s0)\<lparr>task_hint := Some hint\<rparr>\<rparr>))"
    for t ex k s0 s2 o2
    using that by (auto simp: scoped_def split: prod.splits intro!: exI [of _ "s0\<lparr>st_slots := (st_slots s0)\<lparr>task_hint := Some hint\<rparr>\<rparr>"])
  show ?thesis
  proof (cases out)
    case (Inl r)
    then show ?thesis using assms(2)
      by (auto simp: dispatch_chat_request_def Let_def split: sum.splits prod.splits option.splits)
  next
    case (Inr o2)
    then obtain ex w where
      "(case scoped hint (px_dispatch env (ServiceTarget (vm_pool_id vm)) protocol (rq\<lparr>gr_extra := ex\<rparr>)
          (warm_key_of auth ctx)) (st\<lparr>st_warm := w\<rparr>) of (x, r) \<Rightarrow> (x, Inr r)) = (st', Inr o2 :: 'c response + _)"
      using assms(2) by (auto simp: dispatch_chat_request_def Let_def split: sum.splits prod.splits option.splits)
    from scoped [OF _ this refl] obtain s1 s2 where
      "st_quotas s1 = st_quotas st" "st_quotas st' = st_quotas s2"
      "px_dispatch env (ServiceTarget (vm_pool_id vm)) protocol (rq\<lparr>gr_extra := ex\<rparr>) (warm_key_of auth ctx) s1 = (s2, o2)"
      by auto
    with reports_onceD [OF assms(1) this(3)] Inr show ?thesis by auto
  qed
qed

lemma chat_outcome_settled:
  assumes "chat_outcome env auth h protocol pc ctx gate slim payload pv out st = (st', disarmed, r)"
  shows "st_quotas st' = st_quotas st \<and> (disarmed \<longleftrightarrow> (\<exists>s b. out = Inr (HostResponse s b)))"
  using assms by (auto simp: chat_outcome_def split: sum.splits host_outcome.splits)

lemma chat_send_settled:
  assumes "reports_once (px_dispatch env)"
    and "gr_metadata rq ''quota_release'' = None"
    and "chat_send env auth h protocol pc ctx gate slim payload pv hint
           (chat_request sj auth pc ctx gate slim sig aff decision rq) st = (st', disarmed, r)"
  shows "settled auth (st_quotas st) disarmed (st_quotas st')"
proof -
  let ?rq = "chat_request sj auth pc ctx gate slim sig aff decision rq"
  obtain st3 out where d: "dispatch_chat_request env auth ctx (pc_virtual_model pc) protocol hint ?rq st = (st3, out)"
    by fastforce
  note dq = dispatch_quotas [OF assms(1) d]
  show ?thesis
  proof (cases out)
    case (Inl r3)
    with assms(3) d dq show ?thesis by (auto simp: chat_send_def settled_def)
  next
    case (Inr o2)
    with assms(3) d have "chat_outcome env auth h protocol pc ctx gate slim payload pv o2 st3 = (st', disarmed, r)"
      by (simp add: chat_send_def)
    from chat_outcome_settled [OF this] have c: "st_quotas st' = st_quotas st3"
      "disarmed \<longleftrightarrow> (\<exists>s b. o2 = Inr (HostResponse s b))" by auto
    show ?thesis
    proof (cases disarmed)
      case True
      with c(2) Inr dq obtain rep where "rr_metadata rep = gr_metadata ?rq"
        "st_quotas st3 = release_slots_of (st_quotas st) rep" by auto
      with True c(1) release_slots_of_chat [OF _ assms(2)] show ?thesis
        by (auto simp: settled_def chat_request_def)
    next
      case False
      with c Inr dq show ?thesis by (auto simp: settled_def)
    qed
  qed
qed

lemma chat_routed_settled:
  assumes "reports_once (px_dispatch env)" "plain_parser (px_parse_chat env)"
    and "chat_routed env auth h protocol requested pc ctx gate slim payload sig verdict aff st = (st', disarmed, r)"
  shows "settled auth (st_quotas st) disarmed (st_quotas st')"
proof (cases "px_parse_chat env protocol payload requested")
  case (Inl message)
  then show ?thesis
    using assms(3) by (auto simp: chat_routed_def Let_def settled_def clear_guard_def split: prod.splits)
next
  case (Inr rq)
  with assms(2) have plain: "gr_metadata rq ''quota_release'' = None" unfolding plain_parser_def by blast
  obtain hint pv dec st1 s2 where send: "chat_send env auth h protocol pc ctx gate slim payload pv hint
      (chat_request (px_show_json env) auth pc ctx gate slim sig aff dec rq) st1 = (s2, disarmed, r)"
    and q: "st_quotas st1 = st_quotas st" "st_quotas st' = st_quotas s2"
  proof -
    obtain hints sl cands where i: "install_route_hint (st_tables st) (px_now env) (px_tie env) (pc_virtual_model pc)
        requested (chat_hint pc gate sig verdict aff) (st_hints st) (st_slots st) = ((hints, sl), cands)"
      by (metis prod.collapse)
    let ?pv = "extract_user_prompt_preview (px_value_text env) payload"
    let ?st1 = "st\<lparr>st_hints := hints, st_slots := sl\<rparr>"
    let ?send = "chat_send env auth h protocol pc ctx gate slim payload ?pv (chat_hint pc gate sig verdict aff)
      (chat_request (px_show_json env) auth pc ctx gate slim sig aff
         (chat_decision protocol pc ctx gate slim ?pv sig verdict aff cands) rq) ?st1"
    have "clear_guard ?send = (st', disarmed, r)"
      using assms(3) unfolding chat_routed_def Let_def i prod.case Inr sum.case .
    then obtain s2 where "?send = (s2, disarmed, r)" "st_quotas st' = st_quotas s2"
      by (auto simp: clear_guard_def split: prod.splits)
    then show thesis by (intro that [of ?pv _ _ ?st1 s2]) simp_all
  qed
  from chat_send_settled [OF assms(1) plain send] q show ?thesis by simp
qed

lemma chat_admitted_settled:
  assumes "reports_once (px_dispatch env)" "plain_parser (px_parse_chat env)"
    and "chat_admitted env auth h protocol requested pc ctx gate slim payload sig st = (st', disarmed, r)"
  shows "settled auth (st_quotas st) disarmed (st_quotas st')"
proof -
  let ?ask = "classify_with_judge (px_default_retry env) (px_parse_chat env) (px_dispatch env) (px_load_ok env) (px_db env)"
  obtain st1 verdict where j: "classify_borderline_difficulty ?ask auth (pc_pool pc) (pc_virtual_model pc)
      (rg_prompt_text sig) (rg_difficulty sig) st = (st1, verdict)" by fastforce
  have q1: "st_quotas st1 = st_quotas st"
    using j judge_releases_nothing [OF assms(1)]
    by (auto simp: classify_borderline_difficulty_def split: option.splits if_splits)
  show ?thesis
  proof (cases "derive_warm_affinity (px_messages_text env) (ss_pool_members (st_tables st1)) (px_now env) h payload
      (pc_virtual_model pc) (pc_pool pc) ctx (st_sessions st1)")
    case Panics
    with assms(3) j q1 show ?thesis by (auto simp: chat_admitted_def settled_def)
  next
    case (Returns x)
    obtain sessions aff where x: "x = (sessions, aff)" by fastforce
    obtain s2 dis r2 where rt: "chat_routed env auth h protocol requested pc ctx gate slim payload
        (sig\<lparr>rg_signals := rg_signals sig @ judge_note verdict\<rparr>) verdict aff (st1\<lparr>st_sessions := sessions\<rparr>) = (s2, dis, r2)"
      by (metis prod.collapse)
    with assms(3) j Returns x have "s2 = st'" "dis = disarmed" by (simp_all add: chat_admitted_def)
    with chat_routed_settled [OF assms(1,2) rt] q1 show ?thesis by simp
  qed
qed

lemma settled_drop:
  assumes "settled auth (st_quotas st) disarmed (st_quotas st')"
    and "permit = quota_permit_new (ak_id (au_api_key auth)) (pj_id (au_project auth))"
  shows "st_quotas (drop_permit permit disarmed st') =
    release (st_quotas st) (ak_id (au_api_key auth)) (Some (pj_id (au_project auth)))"
  using assms by (simp add: settled_def drop_permit_def permit_drop_def permit_disarm_def quota_permit_new_def)

lemma acquire_quota_cases:
  assumes "acquire_quota l auth now = (l', out)"
  obtains (refused) r where "out = Inl r" "rs_status r = 429" "same_slots l l'"
  | (admitted) "out = Inr (quota_permit_new (ak_id (au_api_key auth)) (pj_id (au_project auth)))"
      "try_acquire l (ak_id (au_api_key auth)) (pj_id (au_project auth)) (key_quota_limits auth)
         (project_quota_limits auth) now = (l', Inr ())"
proof (cases "snd (try_acquire l (ak_id (au_api_key auth)) (pj_id (au_project auth)) (key_quota_limits auth)
         (project_quota_limits auth) now)")
  case (Inl reason)
  then have t: "try_acquire l (ak_id (au_api_key auth)) (pj_id (au_project auth)) (key_quota_limits auth)
      (project_quota_limits auth) now = (l', Inl reason)"
    using assms by (auto simp: acquire_quota_def split: prod.splits sum.splits)
  then have "same_slots l l'"
    using try_acquire_slots_rejected [OF t] by (simp add: same_slots_def fun_eq_iff)
  then show thesis using assms t by (intro refused) (auto simp: acquire_quota_def)
next
  case (Inr u)
  then show thesis
    using assms by (intro admitted) (auto simp: acquire_quota_def split: prod.splits sum.splits)
qed

lemma same_slots_refl [simp]: "same_slots l l"
  by (simp add: same_slots_def)

lemma chat_metered_slots:
  fixes env :: "('s, 'r, 'b) proxy_env"
  assumes "reports_once (px_dispatch env)" "plain_parser (px_parse_chat env)"
    and "ak_concurrency_limit (au_api_key auth) \<noteq> None" "pj_concurrency_limit (au_project auth) \<noteq> None"
  shows "same_slots (st_quotas st) (st_quotas (fst (chat_metered env auth h protocol requested pc ctx payload st)))"
proof (cases "enforce_spend_budget (ak_daily_spend_limit (au_api_key auth)) (pj_daily_spend_limit (au_project auth))
    (px_spend env)")
  case (Inl e)
  then show ?thesis by (simp add: chat_metered_def)
next
  case (Inr gate)
  obtain payload1 slim where sl: "slim_request_context payload (ctx \<noteq> None) (pc_pool pc) = (payload1, slim)" by fastforce
  obtain l out where a: "acquire_quota (st_quotas st) auth (px_now env) = (l, out :: 'b response + quota_permit)" by fastforce
  then show ?thesis
  proof (cases rule: acquire_quota_cases)
    case (refused r)
    with Inr sl a show ?thesis by (simp add: chat_metered_def)
  next
    case admitted
    obtain st' dis r where run: "chat_admitted env auth h protocol requested pc ctx gate slim payload1
        (request_signals (px_value_text env) payload1) (st\<lparr>st_quotas := l\<rparr>) = (st', dis, r)"
      by (metis prod.collapse)
    have "fst (chat_metered env auth h protocol requested pc ctx payload st) =
        drop_permit (quota_permit_new (ak_id (au_api_key auth)) (pj_id (au_project auth))) dis st'"
      using Inr sl a admitted(1) run by (simp add: chat_metered_def)
    then have "st_quotas (fst (chat_metered env auth h protocol requested pc ctx payload st)) =
        release l (ak_id (au_api_key auth)) (Some (pj_id (au_project auth)))"
      using settled_drop [OF chat_admitted_settled [OF assms(1,2) run] refl] by simp
    then show ?thesis
      using acquire_then_release [OF admitted(2)] assms(3,4)
      by (simp add: same_slots_def key_quota_limits_def project_quota_limits_def)
  qed
qed

section \<open>Properties\<close>


text \<open>A server with one answering engine, which settles a report of each dispatch.\<close>

definition demo_dispatch :: "('s app_state, 'r, 'b) dispatcher" where
  "demo_dispatch target protocol rq key st =
     (st\<lparr>st_quotas := release_slots_of (st_quotas st) (plain_report (gr_metadata rq))\<rparr>,
      Inr (HostResponse 200 (JsonBody Null)))"

definition demo_parse :: "unit parser" where
  "demo_parse protocol payload model = Inr \<lparr>gr_metadata = Map.empty, gr_extra = Map.empty, gr_rest = ()\<rparr>"

definition demo_proxy :: "((gateway_session_key \<rightharpoonup> session_prefix), unit, unit) proxy_env" where
  "demo_proxy =
     \<lparr>px_db = demo_catalog, px_collate = byte_order, px_exact_ok = True, px_fallback_ok = True, px_pool_ok = True,
      px_load_ok = True, px_spend = Inr 0, px_now = 1, px_draw = 0, px_tie = (\<lambda>_. 0),
      px_messages_text = (\<lambda>_. None), px_value_text = (\<lambda>_. None), px_show_json = (\<lambda>_. ''{}''),
      px_show_error = (\<lambda>_. ''error''), px_gw_field = ''session'', px_warm = Warm_Store.demo_env (\<lambda>_. True),
      px_default_retry = \<lparr>rp_max_attempts = 3, rp_per_attempt_timeout_ms = None, rp_retry_on = [],
        rp_stop_after_stream_started = False\<rparr>,
      px_parse_chat = demo_parse, px_parse_responses = demo_parse ChatOpenAi, px_dispatch = demo_dispatch,
      px_responses = (\<lambda>_ _ st. (st, Inl ''down''))\<rparr>"

definition demo_server :: "(gateway_session_key \<rightharpoonup> session_prefix) app_state" where
  "demo_server = \<lparr>st_tables = demo_tables, st_quotas = quota_limiter_new, st_sessions = Map.empty,
     st_hints = Map.empty, st_slots = no_slots, st_warm = demo_state, st_shadow_permits = 4, st_shadow_jobs = []\<rparr>"

lemma demo_contracts: "reports_once demo_dispatch" "plain_parser demo_parse"
  by (auto simp: reports_once_def demo_dispatch_def plain_parser_def demo_parse_def intro!: exI)


lemma resolve_pool_context_refuses:
  "resolve_pool_context collate exact_ok fallback_ok pool_ok db auth requested = Inl r \<Longrightarrow> 400 \<le> rs_status r"
  by (auto simp: resolve_pool_context_def plain_def Let_def split: sum.splits option.splits if_splits)

text \<open>The budget or the quotas refuse.\<close>

definition meter_refuses :: "('s, 'r, 'b) proxy_env \<Rightarrow> auth_context \<Rightarrow> quota_limiter \<Rightarrow> bool" where
  "meter_refuses env auth l \<longleftrightarrow>
     (\<exists>e. enforce_spend_budget (ak_daily_spend_limit (au_api_key auth)) (pj_daily_spend_limit (au_project auth))
        (px_spend env) = Inl e) \<or>
     (\<exists>r :: 'b response. snd (acquire_quota l auth (px_now env)) = Inl r)"

lemma chat_metered_refused:
  assumes "meter_refuses env auth (st_quotas st)"
  shows "\<exists>r. chat_metered env auth h protocol m pc ctx p st =
        (fst (chat_metered env auth h protocol m pc ctx p st), Returns r) \<and> 400 \<le> rs_status r \<and>
      chat_metered (env\<lparr>px_dispatch := d, px_parse_chat := parse\<rparr>) auth h protocol m pc ctx p st =
        chat_metered env auth h protocol m pc ctx p st \<and>
      st_shadow_jobs (fst (chat_metered env auth h protocol m pc ctx p st)) = st_shadow_jobs st"
proof (cases "enforce_spend_budget (ak_daily_spend_limit (au_api_key auth)) (pj_daily_spend_limit (au_project auth))
      (px_spend env)")
  case (Inl e)
  then show ?thesis
    by (auto simp: chat_metered_def budget_error_response_def plain_def split: budget_error.splits)
next
  case (Inr gate)
  with assms obtain l and r :: "'c response" where a: "acquire_quota (st_quotas st) auth (px_now env) = (l, Inl r)"
    unfolding meter_refuses_def by (metis prod.collapse sum.distinct(1))
  have "rs_status r = 429"
    using a by (cases rule: acquire_quota_cases) auto
  with Inr a show ?thesis by (simp add: chat_metered_def split: prod.split)
qed

text \<open>
  C3. What is refused never reaches an upstream: a request that authorization, its warm
  context, the spend budget or the quotas refuse is answered with an error status, and
  neither the answer nor the state depends on the engine, so no dispatch took place, and
  no mirror was started.
\<close>

theorem refused_requests_never_reach_upstream:
  assumes "(\<exists>r :: 'b response. resolve_pool_context (px_collate env) (px_exact_ok env) (px_fallback_ok env) (px_pool_ok env)
             (px_db env) auth (model_field payload) = Inl r) \<or>
     (\<exists>e. parse_context_with_headers payload (Some h) = Inl e) \<or>
     meter_refuses (env :: ('s, 'r, 'b) proxy_env) auth (st_quotas st)"
  shows "\<exists>r :: 'b response. chat_proxy env auth h payload protocol st = (fst (chat_proxy env auth h payload protocol st), Returns r) \<and>
     400 \<le> rs_status r \<and>
     chat_proxy (env\<lparr>px_dispatch := d, px_parse_chat := parse\<rparr>) auth h payload protocol st =
       chat_proxy env auth h payload protocol st \<and>
     st_shadow_jobs (fst (chat_proxy env auth h payload protocol st)) = st_shadow_jobs st"
proof (cases "resolve_pool_context (px_collate env) (px_exact_ok env) (px_fallback_ok env) (px_pool_ok env)
    (px_db env) auth (model_field payload) :: 'b response + pool_context")
  case (Inl r)
  then show ?thesis by (simp add: chat_proxy_def resolve_pool_context_refuses)
next
  case resolved: (Inr pc)
  show ?thesis
  proof (cases "parse_context_with_headers payload (Some h)")
    case (Inl e)
    with resolved show ?thesis by (simp add: chat_proxy_def warm_response_def warm_error_response_def warm_status_range)
  next
    case (Inr ctx)
    define st1 where "st1 = (case ctx of None \<Rightarrow> st
      | Some c \<Rightarrow> st\<lparr>st_warm := record_delta_attempt (wx_delivery c) (st_warm st)\<rparr>)"
    have s1: "st_quotas st1 = st_quotas st" "st_shadow_jobs st1 = st_shadow_jobs st"
      by (simp_all add: st1_def split: option.split)
    have "meter_refuses env auth (st_quotas st1)" using assms resolved Inr s1 by auto
    from chat_metered_refused [OF this] show ?thesis
      by (simp add: chat_proxy_def resolved Inr Let_def s1 flip: st1_def)
  qed
qed

theorem refused_requests_never_reach_upstream_witness:
  "\<exists>r. snd (chat_proxy (demo_proxy\<lparr>px_spend := Inl ()\<rparr>) demo_auth Map.empty (Object [(''model'', String ''auto'')])
      ChatOpenAi demo_server) = Returns r \<and> 400 \<le> rs_status r"
proof -
  have "enforce_spend_budget (ak_daily_spend_limit (au_api_key demo_auth)) (pj_daily_spend_limit (au_project demo_auth))
      (px_spend (demo_proxy\<lparr>px_spend := Inl ()\<rparr>)) = Inl SpendUnavailable"
    by (simp add: enforce_spend_budget_def demo_proxy_def Let_def)
  then have "meter_refuses (demo_proxy\<lparr>px_spend := Inl ()\<rparr>) demo_auth (st_quotas demo_server)"
    unfolding meter_refuses_def by blast
  from refused_requests_never_reach_upstream [OF disjI2 [OF disjI2 [OF this]], where h = Map.empty
      and payload = "Object [(''model'', String ''auto'')]" and protocol = ChatOpenAi]
  show ?thesis by (metis snd_conv)
qed

text \<open>
  An engine that reports failed dispatches as well makes the proxy give the slot back
  twice: the hook releases it, and the permit, which only an answered dispatch disarms,
  releases it again when it is dropped, so a slot that another request holds is freed.
\<close>

theorem reported_failure_releases_twice:
  assumes "dispatch_chat_request env auth ctx (pc_virtual_model pc) protocol hint
       (chat_request sj auth pc ctx gate slim sig aff decision rq) st = (st1, Inr (Inl e))"
    and "st_quotas st1 = release_slots_of (st_quotas st) r"
    and "rr_metadata r = gr_metadata (chat_request sj auth pc ctx gate slim sig aff decision rq)"
    and "gr_metadata rq ''quota_release'' = None"
    and "permit = quota_permit_new (ak_id (au_api_key auth)) (pj_id (au_project auth))"
  shows "case chat_send env auth h protocol pc ctx gate slim payload pv hint
       (chat_request sj auth pc ctx gate slim sig aff decision rq) st of (st', disarmed, _) \<Rightarrow>
     st_quotas (drop_permit permit disarmed st') =
       release (release (st_quotas st) (ak_id (au_api_key auth)) (Some (pj_id (au_project auth))))
         (ak_id (au_api_key auth)) (Some (pj_id (au_project auth)))"
proof -
  have "release_slots_of (st_quotas st) r = release (st_quotas st) (ak_id (au_api_key auth)) (Some (pj_id (au_project auth)))"
    using assms(3,4) by (intro release_slots_of_chat) (simp_all add: chat_request_def)
  then show ?thesis
    using assms(2,5)
    by (simp add: chat_send_def assms(1) chat_outcome_def drop_permit_def permit_drop_def quota_permit_new_def)
qed

text \<open>
  Delta deliveries are not accounted for: an attempt is counted before the budget and the
  quotas are checked, and a refused request counts neither as success nor as failure.
\<close>

theorem refused_delta_is_never_settled:
  assumes "resolve_pool_context (px_collate env) (px_exact_ok env) (px_fallback_ok env) (px_pool_ok env)
       (px_db env) auth (model_field payload) = (Inr pc :: 'b response + _)"
    and "parse_context_with_headers payload (Some h) = Inr (Some c)" "wx_delivery c = Delta"
    and "px_spend env = Inl ()"
  shows "st_warm (fst (chat_proxy (env :: ('s, 'r, 'b) proxy_env) auth h payload protocol st)) =
     record_delta_attempt Delta (st_warm st)"
  using assms by (simp add: chat_proxy_def chat_metered_def enforce_spend_budget_def Let_def)

text \<open>Mirrors: permits and jobs.\<close>

definition mirrors :: "'s app_state \<Rightarrow> nat" where
  "mirrors st = st_shadow_permits st + length (st_shadow_jobs st)"

text \<open>
  Mirroring is bounded and sampled: starting or finishing a mirror keeps the number of
  permits and jobs together, so never more mirrors run than permits were given; a stream, a
  pool without a mirror model or a rate of 0 is never mirrored, and with a rate of 1 every
  JSON answer of an enabled pool is mirrored while a permit is free.
\<close>

theorem mirrors_are_bounded_and_sampled:
  "mirrors (maybe_spawn_shadow draw pool body auth h payload pv openai st) = mirrors st \<and>
   mirrors (finish_shadow_job st) = mirrors st \<and>
   (st_shadow_jobs (maybe_spawn_shadow draw pool body auth h payload pv openai st) \<noteq> st_shadow_jobs st \<longrightarrow>
      (\<exists>j p. body = JsonBody j \<and> pool = Some p \<and> mp_shadow_enabled p \<noteq> 0 \<and>
         mp_shadow_virtual_model_id p \<noteq> None \<and> 0 < mp_shadow_sample_rate p)) \<and>
   (body = JsonBody j \<and> pool = Some p \<and> mp_shadow_enabled p \<noteq> 0 \<and> mp_shadow_virtual_model_id p = Some m \<and>
      1 \<le> mp_shadow_sample_rate p \<and> 0 < st_shadow_permits st \<longrightarrow>
      length (st_shadow_jobs (maybe_spawn_shadow draw pool body auth h payload pv openai st)) =
        Suc (length (st_shadow_jobs st)))"
proof -
  have t0: "shadow_threshold r = 0" if "r \<le> 0" for r
    using that by (simp add: shadow_threshold_def fclamp_def fmul_def)
  have t1: "shadow_threshold r = 1000000" if "1 \<le> r" for r
  proof -
    have "fclamp r 0 1 = 1" using that by (simp add: fclamp_def)
    then show ?thesis using rnd_of_int [of 1000000] by (simp add: shadow_threshold_def fmul_def)
  qed
  have "mirrors (spawn_shadow job s) = mirrors s" for job and s :: "'a app_state"
    by (simp add: spawn_shadow_def mirrors_def)
  then have a: "mirrors (maybe_spawn_shadow draw pool body auth h payload pv openai st) = mirrors st"
    by (simp add: maybe_spawn_shadow_def split: proto_body.split option.split)
  have b: "mirrors (finish_shadow_job st) = mirrors st"
    by (simp add: finish_shadow_job_def mirrors_def split: list.split)
  have c: "\<exists>j p. body = JsonBody j \<and> pool = Some p \<and> mp_shadow_enabled p \<noteq> 0 \<and>
         mp_shadow_virtual_model_id p \<noteq> None \<and> 0 < mp_shadow_sample_rate p"
    if "st_shadow_jobs (maybe_spawn_shadow draw pool body auth h payload pv openai st) \<noteq> st_shadow_jobs st"
  proof -
    from that obtain j name th where body: "body = JsonBody j" and c: "shadow_config pool = Some (name, th)" "0 < th"
      by (auto simp: maybe_spawn_shadow_def split: proto_body.splits option.splits if_splits)
    from c obtain p where p: "pool = Some p" "mp_shadow_enabled p \<noteq> 0" "mp_shadow_virtual_model_id p = Some name"
      "th = shadow_threshold (mp_shadow_sample_rate p)"
      by (auto simp: shadow_config_def bind_eq_Some_conv split: if_splits)
    with c(2) t0 have "0 < mp_shadow_sample_rate p" by (metis less_irrefl not_less)
    with body p show ?thesis by blast
  qed
  show ?thesis
    using a b c t1 by (auto simp: maybe_spawn_shadow_def shadow_config_def spawn_shadow_def)
qed

theorem mirrors_are_bounded_and_sampled_witness:
  "length (st_shadow_jobs (maybe_spawn_shadow 7
     (Some (demo_pool\<lparr>mp_shadow_enabled := 1, mp_shadow_virtual_model_id := Some ''v1'', mp_shadow_sample_rate := 1\<rparr>))
     (JsonBody Null :: unit proto_body) demo_auth Map.empty Null [] True demo_server)) = 1"
  using mirrors_are_bounded_and_sampled [where draw = 7 and auth = demo_auth and h = Map.empty and payload = Null
      and pv = "[]" and openai = True and body = "JsonBody Null :: unit proto_body" and j = Null and st = demo_server
      and m = "''v1''" and p = "demo_pool\<lparr>mp_shadow_enabled := 1, mp_shadow_virtual_model_id := Some ''v1'', mp_shadow_sample_rate := 1\<rparr>"
      and pool = "Some (demo_pool\<lparr>mp_shadow_enabled := 1, mp_shadow_virtual_model_id := Some ''v1'', mp_shadow_sample_rate := 1\<rparr>)"]
  by (simp add: demo_server_def)

text \<open>When a prefix hash can be cut.\<close>

definition cuttable :: "string \<Rightarrow> bool" where
  "cuttable raw \<longleftrightarrow> ascii raw \<or> length (trim_start_0x (trim raw)) \<le> 16"

lemma ascii_subset: "ascii s \<Longrightarrow> set t \<subseteq> set s \<Longrightarrow> ascii t"
  by (auto simp: ascii_def list_all_iff)

lemma set_trim: "set (trim s) \<subseteq> set s"
proof -
  obtain as bs where "utf8_chars s = as @ trim_chars (utf8_chars s) @ bs"
    using trim_chars_sublist by blast
  then have "concat (utf8_chars s) = concat as @ trim s @ concat bs"
    unfolding trim_def by (metis concat_append)
  then have "s = concat as @ trim s @ concat bs" by simp
  then show ?thesis by (metis Un_upper1 Un_upper2 order.trans set_append)
qed

lemma set_trim_start: "set (trim_start_matches n s p) \<subseteq> set s"
proof (induction n s p rule: trim_start_matches.induct)
  case (2 n s p)
  then show ?case using set_drop_subset [of "length p" s] by auto
qed simp

lemma cuttable_returns: "cuttable raw \<Longrightarrow> parse_prefix_hash_hex raw \<noteq> Panics"
proof -
  assume c: "cuttable raw"
  let ?t = "trim_start_0x (trim raw)"
  have "set ?t \<subseteq> set raw"
    using set_trim_start [of "length (trim raw)" "trim raw" "''0x''"] set_trim [of raw]
    unfolding trim_start_0x_def by blast
  with c have "ascii ?t \<or> length ?t \<le> 16" unfolding cuttable_def using ascii_subset by blast
  then show ?thesis
    by (auto simp: parse_prefix_hash_hex_def Let_def slice_from_ascii run_map_def)
qed

lemma resolve_prefix_hash_returns:
  assumes "headers_ok h"
    and "\<And>s. Option.bind (context_field ''prefix_hash'' payload) as_str = Some s \<Longrightarrow> cuttable s"
  shows "resolve_prefix_hash to_string h payload \<noteq> Panics"
proof -
  have "cuttable s" if s: "header_str h PREFIX_HASH_HEADER = Some s" for s
  proof -
    obtain v where "h PREFIX_HASH_HEADER = Some v" "to_str v = Some s"
      using s by (auto simp: header_str_def bind_eq_Some_conv)
    then have "list_all is_visible s" using assms(1) by (cases v) (auto simp: headers_ok_def)
    then show ?thesis by (simp add: cuttable_def ascii_visible)
  qed
  then show ?thesis
    using assms(2) cuttable_returns
    by (auto simp: resolve_prefix_hash_def Let_def split: run.splits option.splits)
qed

lemma derive_returns:
  assumes "headers_ok h"
    and "\<And>s. Option.bind (context_field ''prefix_hash'' payload) as_str = Some s \<Longrightarrow> cuttable s"
  shows "derive_warm_affinity to_string members now h payload vm pool ctx sessions \<noteq> Panics"
  using resolve_prefix_hash_returns [OF assms]
  by (auto simp: derive_warm_affinity_def affinity_prefix_hash_def Let_def run_map_def split: run.splits option.splits)

lemma jget_jset_other: "k' \<noteq> k \<Longrightarrow> jget k' (jset k x v) = jget k' v"
  by (cases v) (simp_all add: jset_def map_of_alist_set)

lemma slimmed_context_field:
  "slim_request_context payload warm pool = (payload', stats) \<Longrightarrow> context_field k payload' = context_field k payload"
  by (auto simp: slim_request_context_def slim_tool_messages_def context_field_def jget_jset_other Let_def
      split: option.splits if_splits prod.splits)

lemma chat_metered_returns:
  assumes "headers_ok h"
    and "\<And>s. Option.bind (context_field ''prefix_hash'' payload) as_str = Some s \<Longrightarrow> cuttable s"
  shows "\<exists>r. snd (chat_metered env auth h protocol requested pc ctx payload st) = Returns r"
proof -
  obtain payload1 slim where sl: "slim_request_context payload (ctx \<noteq> None) (pc_pool pc) = (payload1, slim)" by fastforce
  have d: "derive_warm_affinity to_string members now h payload1 vm pool ctx sessions \<noteq> Panics"
    for to_string members now vm pool sessions
    using derive_returns [OF assms(1)] assms(2) slimmed_context_field [OF sl] by metis
  have "\<exists>r. b = Returns r"
    if "chat_admitted env auth h protocol requested pc ctx gate slim payload1 sig s = (x, a, b)"
    for gate sig s x a b
    using that d by (auto simp: chat_admitted_def split: prod.splits run.splits)
  then show ?thesis
    unfolding chat_metered_def sl prod.case
    by (auto split: sum.split prod.split)
qed



text \<open>Who may change anything.\<close>

definition presents :: "(string \<Rightarrow> string) \<Rightarrow> headers \<Rightarrow> api_key_row \<Rightarrow> bool" where
  "presents hash_token h k \<longleftrightarrow>
     (\<exists>token. header_str h ''authorization'' = Some (''Bearer '' @ token) \<and> ak_key_hash k = hash_token token)"


definition demo_headers :: headers where
  "demo_headers = [''authorization'' \<mapsto> Text ''Bearer x'', ''x-zene-session-id'' \<mapsto> Text ''s1'']"

lemma demo_delta_context:
  "parse_context_with_headers delta_payload (Some demo_headers) =
     Inr (Some \<lparr>wx_session_id = Some ''s1'', wx_epoch = None, wx_delivery = Delta, wx_prefix_hash = None,
       wx_tail_start = Some 3, wx_request_id = None\<rparr>)"
  by (simp add: parse_context_with_headers_def context_body_def resolve_context_def delta_payload_def and_then_def
      resolve_string_def resolve_integer_def resolve_pair_def string_field_def integer_field_def header_str_def
      Let_def demo_headers_def)

lemma demo_fallback:
  "resolve_authorized_virtual_model byte_order True True demo_catalog [] ''p'' ''k'' =
     Inr (Some (demo_model ''v1'' ''auto''))"
  by (simp add: resolve_authorized_virtual_model_def exact_models_def fallback_models_def granted_models_def
      demo_catalog_simps key_allows_def first_of_def sort_by_def fallback_rank_def cmp_of_def)


end
