(* ===== verification/Saas.thy ===== *)
theory Saas
  imports Auth Strategy
begin

text \<open>
  saas/mod.rs: what the handlers of the SaaS control plane share. The tables they
  read and write are one record, the rows of Models extended by the columns that only the
  SQL names (the organization of a pool and of a provider account). A statement that can
  fail is named in \<open>ok\<close>, the statements that answer; the text of a driver error is left out.
  A transaction keeps its effects only if it is committed: every early return of a
  handler drops it.
\<close>

section \<open>Tables\<close>

record saas_user =
  su_id :: string
  su_email :: string
  su_password_hash :: string
  su_status :: string

record saas_session =
  sx_id :: string
  sx_user_id :: string
  sx_token_hash :: string
  sx_expires_at :: nat
  sx_revoked_at :: "nat option"

record verification_row =
  vr_email :: string
  vr_code_hash :: string
  vr_attempts :: int
  vr_sent_at :: nat
  vr_expires_at :: nat
  vr_used_at :: "nat option"

record saas_db =
  sd_cat :: catalog
  sd_pool_org :: "string \<rightharpoonup> string"
  sd_account_org :: "string \<rightharpoonup> string"
  sd_users :: "saas_user list"
  sd_sessions :: "saas_session list"
  sd_verifications :: "verification_row list"
  sd_members :: "(string \<times> string \<times> nat) list"   \<comment> \<open>organization, user, created\<close>

type_synonym statements = "string \<Rightarrow> bool"

text \<open>An error answer is its status and message.\<close>

type_synonym 'a api = "(nat \<times> string) + 'a"

definition db_error :: "nat \<times> string" where
  "db_error = (500, ''Database error'')"

definition statement :: "bool \<Rightarrow> 'db \<Rightarrow> 'db \<Rightarrow> 'db \<times> unit api" where
  "statement answers db db' = (if answers then (db', Inr ()) else (db, Inl db_error))"

definition in_transaction :: "statements \<Rightarrow> ('db \<Rightarrow> 'db \<times> 'a api) \<Rightarrow> 'db \<Rightarrow> 'db \<times> 'a api" where
  "in_transaction ok body db =
     (if \<not> ok ''begin'' then (db, Inl db_error)
      else case body db of
        (_, Inl e) \<Rightarrow> (db, Inl e)
      | (db', Inr x) \<Rightarrow> if ok ''commit'' then (db', Inr x) else (db, Inl db_error))"

text \<open>The rows an insert or update would duplicate make the statement fail.\<close>

definition taken :: "('r \<Rightarrow> 'k) \<Rightarrow> 'k \<Rightarrow> 'r list \<Rightarrow> bool" where
  "taken key k rows \<longleftrightarrow> list_ex (\<lambda>r. key r = k) rows"

lemma taken_iff [simp]: "taken key k rows \<longleftrightarrow> k \<in> key ` set rows"
  by (auto simp: taken_def list_ex_iff)

lemma statement_Inr [simp]: "statement b db db' = (s, Inr u) \<longleftrightarrow> b \<and> s = db'"
  by (auto simp: statement_def)

lemma statement_Inl [simp]: "statement b db db' = (s, Inl e) \<longleftrightarrow> \<not> b \<and> s = db \<and> e = db_error"
  by (auto simp: statement_def)

text \<open>A transaction that answers an error has changed nothing.\<close>

lemma in_transaction_Inl: "in_transaction ok body db = (db', Inl e) \<Longrightarrow> db' = db"
  by (auto simp: in_transaction_def split: if_splits prod.splits sum.splits)

lemma in_transaction_Inr:
  "in_transaction ok body db = (db', Inr x) \<longleftrightarrow> body db = (db', Inr x) \<and> ok ''begin'' \<and> ok ''commit''"
  by (auto simp: in_transaction_def split: prod.splits sum.splits)

section \<open>The session of a request\<close>

definition SESSION_COOKIE :: string where "SESSION_COOKIE = ''smartgate_session''"

definition split_once :: "char \<Rightarrow> string \<Rightarrow> (string \<times> string) option" where
  "split_once c s = (if c \<in> set s
     then Some (takeWhile (\<lambda>x. x \<noteq> c) s, tl (dropWhile (\<lambda>x. x \<noteq> c) s)) else None)"

definition cookie_value :: "headers \<Rightarrow> string \<Rightarrow> string option" where
  "cookie_value h name = Option.bind (header_str h ''cookie'') (\<lambda>s.
     find_map (\<lambda>part. case split_once (CHR ''='') (trim part) of
         None \<Rightarrow> None
       | Some (k, v) \<Rightarrow> if k = name then Some v else None) (split_on (CHR '';'') s))"

record saas_context =
  cx_user :: saas_user
  cx_org_id :: string
  cx_project_id :: string

text \<open>Memberships joined with projects, oldest first; equal ages keep the order of the join.\<close>

definition workspaces :: "saas_db \<Rightarrow> string \<Rightarrow> (nat \<times> string \<times> string) list" where
  "workspaces db user_id = concat (map (\<lambda>(org, u, created).
     if u = user_id
     then map (\<lambda>p. (created, org, pj_id p)) (filter (\<lambda>p. pj_org_id p = org) (ct_projects (sd_cat db)))
     else []) (sd_members db))"

definition live_session :: "nat \<Rightarrow> saas_session \<Rightarrow> bool" where
  "live_session now s \<longleftrightarrow> sx_revoked_at s = None \<and> now < sx_expires_at s"

definition saas_context_of ::
    "(string \<Rightarrow> string) \<Rightarrow> statements \<Rightarrow> nat \<Rightarrow> headers \<Rightarrow> saas_db \<Rightarrow> saas_context api" where
  "saas_context_of hash_token ok now h db = (case cookie_value h SESSION_COOKIE of
     None \<Rightarrow> Inl (401, ''SaaS session required'')
   | Some token \<Rightarrow>
     if \<not> ok ''session'' then Inl db_error
     else (case find (\<lambda>s. sx_token_hash s = hash_token token \<and> live_session now s) (sd_sessions db) of
       None \<Rightarrow> Inl (401, ''SaaS session expired'')
     | Some s \<Rightarrow>
       if \<not> ok ''user'' then Inl db_error
       else (case find (\<lambda>u. su_id u = sx_user_id s \<and> su_status u = ''active'') (sd_users db) of
         None \<Rightarrow> Inl (401, ''SaaS account is disabled'')
       | Some u \<Rightarrow>
         if \<not> ok ''membership'' then Inl db_error
         else (case first_of (\<lambda>a b. cmp_of (fst a) (fst b)) (workspaces db (su_id u)) of
           None \<Rightarrow> Inl (403, ''SaaS workspace is not configured'')
         | Some (_, org, project) \<Rightarrow>
             Inr \<lparr>cx_user = u, cx_org_id = org, cx_project_id = project\<rparr>))))"

section \<open>Ranges and strategies\<close>

definition HOUR :: nat where "HOUR = 3600 * 1000000000"

text \<open>The start of a range may lie before the epoch.\<close>

definition range_since :: "nat \<Rightarrow> string \<Rightarrow> int option api" where
  "range_since now period =
     (if period = ''24h'' then Inr (Some (int now - int (24 * HOUR)))
      else if period = ''7d'' then Inr (Some (int now - int (7 * 24 * HOUR)))
      else if period = ''30d'' then Inr (Some (int now - int (30 * 24 * HOUR)))
      else if period = ''all'' then Inr None
      else Inl (400, ''range must be one of: 24h, 7d, 30d, all''))"

definition SAAS_STRATEGIES :: "string list" where
  "SAAS_STRATEGIES = [''cost_aware'', ''capability_aware'', ''load_aware'', ''round_robin'']"

definition saas_strategy :: "string \<Rightarrow> string api" where
  "saas_strategy raw =
     (let canonical = canonicalize (trim raw) in
      if canonical \<in> set SAAS_STRATEGIES then Inr canonical
      else Inl (400, ''Unsupported routing strategy''))"

section \<open>Lemmas\<close>

lemma find_map_Some: "find_map f xs = Some y \<Longrightarrow> \<exists>x \<in> set xs. f x = Some y"
  by (induction xs) (auto split: option.splits)

lemma workspaces_iff:
  "(t, org, p) \<in> set (workspaces db u) \<longleftrightarrow>
     (org, u, t) \<in> set (sd_members db) \<and> (\<exists>pr \<in> set (ct_projects (sd_cat db)). pj_id pr = p \<and> pj_org_id pr = org)"
  unfolding workspaces_def by (simp add: split_beta) (auto split: if_splits simp: image_iff intro!: bexI)

lemma saas_context_Inr:
  "saas_context_of hash_token ok now h db = Inr cx \<longleftrightarrow>
     (\<exists>token s. cookie_value h SESSION_COOKIE = Some token \<and> ok ''session'' \<and> ok ''user'' \<and> ok ''membership'' \<and>
        find (\<lambda>s. sx_token_hash s = hash_token token \<and> live_session now s) (sd_sessions db) = Some s \<and>
        find (\<lambda>u. su_id u = sx_user_id s \<and> su_status u = ''active'') (sd_users db) = Some (cx_user cx) \<and>
        (\<exists>t. first_of (\<lambda>a b. cmp_of (fst a) (fst b)) (workspaces db (su_id (cx_user cx))) =
           Some (t, cx_org_id cx, cx_project_id cx)))"
  by (cases cx) (auto simp: saas_context_of_def db_error_def first_of_def sort_by_def split: option.splits if_splits)

text \<open>The header a client sends back after \<open>Set-Cookie\<close>.\<close>

lemma split_on_none: "c \<notin> set s \<Longrightarrow> split_on c s = [s]"
  by (induction s) auto

lemma own_cookie:
  assumes "h ''cookie'' = Some (Text (SESSION_COOKIE @ ''='' @ token))"
    and "ascii token" "CHR '';'' \<notin> set token" "list_all (\<lambda>c. \<not> is_whitespace [c]) token"
  shows "cookie_value h SESSION_COOKIE = Some token"
proof -
  let ?s = "SESSION_COOKIE @ ''='' @ token"
  have "trim ?s = ?s"
    using assms(2,4) by (intro trim_ascii) (simp_all add: ascii_def byte_def is_whitespace_def SESSION_COOKIE_def Let_def)
  moreover have "split_once (CHR ''='') ?s = Some (SESSION_COOKIE, token)"
    by (simp add: split_once_def SESSION_COOKIE_def)
  moreover have "CHR '';'' \<notin> set ?s" using assms(3) by (simp add: SESSION_COOKIE_def)
  ultimately show ?thesis
    using assms(1) by (simp add: cookie_value_def header_str_def split_on_none)
qed

end
