(* ===== verification/Saas_Auth.thy ===== *)
theory Saas_Auth
  imports Saas Window
begin

text \<open>
  saas/auth.rs: registration with an emailed code, login and logout, the profile, and the
  in-process limiters that guard them. Hashing, the argon2 functions with their drawn salt,
  uuids, the mail service and the statements that answer are the environment of one
  request. A limiter reads one moment per call.
\<close>

section \<open>Limits\<close>

definition SECOND :: nat where "SECOND = 1000000000"
definition SESSION_DAYS :: nat where "SESSION_DAYS = 30"
definition VERIFICATION_CODE_TTL_MINUTES :: nat where "VERIFICATION_CODE_TTL_MINUTES = 10"
definition VERIFICATION_RESEND_SECONDS :: int where "VERIFICATION_RESEND_SECONDS = 60"
definition VERIFICATION_MAX_ATTEMPTS :: int where "VERIFICATION_MAX_ATTEMPTS = 5"
definition LOGIN_MAX_ATTEMPTS :: nat where "LOGIN_MAX_ATTEMPTS = 5"
definition LOGIN_WINDOW_SECONDS :: nat where "LOGIN_WINDOW_SECONDS = 300"
definition VERIFICATION_SEND_MAX_ATTEMPTS :: nat where "VERIFICATION_SEND_MAX_ATTEMPTS = 3"
definition VERIFICATION_SEND_WINDOW_SECONDS :: nat where "VERIFICATION_SEND_WINDOW_SECONDS = 600"

type_synonym limiter = "string \<rightharpoonup> nat list"

text \<open>An attempt exactly as old as the window still counts.\<close>

definition prune_attempts :: "nat \<Rightarrow> nat list \<Rightarrow> nat \<Rightarrow> nat list" where
  "prune_attempts window q now = dropWhile (\<lambda>t. t + window < now) q"

definition rate_limit_exceeded :: "limiter \<Rightarrow> string \<Rightarrow> nat \<Rightarrow> nat \<Rightarrow> nat \<Rightarrow> limiter \<times> bool" where
  "rate_limit_exceeded m key max_attempts window now =
     (let q = prune_attempts window (unwrap_or (m key) []) now in
      if max_attempts \<le> length q then (m(key \<mapsto> q), True)
      else (m(key \<mapsto> q @ [now]), False))"

lemma prune_attempts_live:
  assumes "sorted q" "\<forall>s \<in> set q. s \<le> now"
  shows "prune_attempts w q now = live (w + 1) q now"
proof -
  have "dropWhile (\<lambda>t. t + w < now) q = filter (\<lambda>t. \<not> t + w < now) q"
    using assms(1) by (intro filter_dropWhile_sorted) auto
  also have "\<dots> = live (w + 1) q now"
    unfolding live_def by (intro filter_cong) auto
  finally show ?thesis by (simp add: prune_attempts_def)
qed

interpretation login_win: sliding_window "LOGIN_WINDOW_SECONDS * SECOND + 1" "prune_attempts (LOGIN_WINDOW_SECONDS * SECOND)"
  by unfold_locales (simp_all add: prune_attempts_live)

interpretation send_win:
  sliding_window "VERIFICATION_SEND_WINDOW_SECONDS * SECOND + 1" "prune_attempts (VERIFICATION_SEND_WINDOW_SECONDS * SECOND)"
  by unfold_locales (simp_all add: prune_attempts_live)

section \<open>Requests and environment\<close>

record register_request =
  re_email :: string
  re_password :: string
  re_verification_code :: string

record login_request =
  lg_email :: string
  lg_password :: string

record update_profile_request =
  up_current_password :: string
  up_email :: "string option"
  up_new_password :: "string option"

record account_env =
  ae_ok :: statements
  ae_now :: nat
  ae_hash :: "string \<Rightarrow> string"
  ae_hash_password :: "string \<Rightarrow> string"
  ae_argon_verifies :: "string \<Rightarrow> string \<Rightarrow> bool"
  ae_uuid :: "string \<Rightarrow> string"
  ae_draw :: nat
  ae_mail :: "string \<Rightarrow> string \<Rightarrow> string \<Rightarrow> string \<Rightarrow> nat option"   \<comment> \<open>key, from, to, code; status\<close>
  ae_resend_api_key :: "string option"
  ae_resend_from_email :: "string option"
  ae_cookie_secure :: bool

record account_state =
  as_db :: saas_db
  as_login :: limiter
  as_send :: limiter

record session_answer =
  sa_status :: nat
  sa_data :: json
  sa_cookie :: string

section \<open>Checks of the input\<close>

definition conflict_error :: "string \<Rightarrow> nat \<times> string" where
  "conflict_error message = (409, message)"

definition verification_error :: "string \<Rightarrow> nat \<times> string" where
  "verification_error message = (400, message)"

definition email_service_error :: "nat \<times> string" where
  "email_service_error = (502, ''Unable to send the verification email'')"

definition normalize_email :: "string \<Rightarrow> string" where
  "normalize_email email = to_ascii_lowercase (trim email)"

definition validate_email :: "string \<Rightarrow> unit api" where
  "validate_email email =
     (if length email \<le> 254 \<and>
         (case split_once (CHR ''@'') email of
            None \<Rightarrow> False
          | Some (local_part, domain) \<Rightarrow>
              local_part \<noteq> [] \<and> domain \<noteq> [] \<and> \<not> starts_with domain ''.'' \<and> \<not> ends_with domain ''.'')
      then Inr () else Inl (400, ''Use a valid email address''))"

definition validate_credentials :: "string \<Rightarrow> string \<Rightarrow> unit api" where
  "validate_credentials email password = (case validate_email email of
     Inl e \<Rightarrow> Inl e
   | Inr _ \<Rightarrow> if length password < 10 \<or> 256 < length password
       then Inl (400, ''Use a valid email and a password of 10-256 characters'') else Inr ())"

definition validate_verification_code :: "string \<Rightarrow> unit api" where
  "validate_verification_code code =
     (if length code \<noteq> 6 \<or> \<not> list_all is_ascii_digit code
      then Inl (verification_error ''Enter the 6-digit verification code'') else Inr ())"

section \<open>Hashes\<close>

definition verification_code_hash :: "(string \<Rightarrow> string) \<Rightarrow> string \<Rightarrow> string \<Rightarrow> string" where
  "verification_code_hash hash_token email code =
     hash_token (''smartgate-email-verification-v1:'' @ email @ '':'' @ code)"

definition password_digest :: "(string \<Rightarrow> string) \<Rightarrow> string \<Rightarrow> string \<Rightarrow> string" where
  "password_digest hash_token password salt =
     hash_token (''smartgate-password-v1:'' @ salt @ '':'' @ password)"

text \<open>\<open>strip_prefix("sha256$")\<close> marks the legacy scheme; a third part is ignored.\<close>

definition verify_password :: "account_env \<Rightarrow> string \<Rightarrow> string \<Rightarrow> bool" where
  "verify_password env password stored =
     (if starts_with stored ''sha256$''
      then (case split_on (CHR ''$'') (drop 7 stored) of
              salt # digest # _ \<Rightarrow> password_digest (ae_hash env) password salt = digest
            | _ \<Rightarrow> False)
      else ae_argon_verifies env password stored)"

section \<open>Sessions\<close>

definition create_session :: "account_env \<Rightarrow> string \<Rightarrow> saas_db \<Rightarrow> saas_db \<times> string api" where
  "create_session env user_id db =
     (let token = ''sgs_'' @ ae_uuid env ''token'';
          row = \<lparr>sx_id = ae_uuid env ''session'', sx_user_id = user_id, sx_token_hash = ae_hash env token,
                 sx_expires_at = ae_now env + SESSION_DAYS * 24 * HOUR, sx_revoked_at = None\<rparr>
      in try_then (statement (ae_ok env ''insert session'' \<and> \<not> taken sx_id (sx_id row) (sd_sessions db) \<and>
                     \<not> taken sx_token_hash (sx_token_hash row) (sd_sessions db) \<and>
                     taken su_id user_id (sd_users db))
                   db (db\<lparr>sd_sessions := sd_sessions db @ [row]\<rparr>))
           (\<lambda>_ db. (db, Inr token)))"

definition session_cookie :: "bool \<Rightarrow> string \<Rightarrow> string" where
  "session_cookie secure token =
     SESSION_COOKIE @ ''='' @ token @ ''; Max-Age='' @ show_nat (SESSION_DAYS * 24 * 60 * 60) @
       ''; Path=/; HttpOnly; SameSite=Lax'' @ (if secure then ''; Secure'' else [])"

definition session_response :: "account_env \<Rightarrow> json \<Rightarrow> string \<Rightarrow> nat \<Rightarrow> session_answer" where
  "session_response env data token status =
     \<lparr>sa_status = status, sa_data = data, sa_cookie = session_cookie (ae_cookie_secure env) token\<rparr>"

section \<open>Registration\<close>

definition insert_user :: "account_env \<Rightarrow> saas_user \<Rightarrow> saas_db \<Rightarrow> saas_db \<times> unit api" where
  "insert_user env u db =
     (if \<not> ae_ok env ''insert user'' \<or> taken su_id (su_id u) (sd_users db) then (db, Inl db_error)
      else if taken su_email (su_email u) (sd_users db) then (db, Inl (conflict_error ''Email is already registered''))
      else (db\<lparr>sd_users := sd_users db @ [u]\<rparr>, Inr ()))"

definition update_verification :: "string \<Rightarrow> (verification_row \<Rightarrow> verification_row) \<Rightarrow> saas_db \<Rightarrow> saas_db" where
  "update_verification email f db =
     db\<lparr>sd_verifications := map (\<lambda>v. if vr_email v = email then f v else v) (sd_verifications db)\<rparr>"

definition new_workspace :: "account_env \<Rightarrow> string \<Rightarrow> string \<Rightarrow> saas_db \<Rightarrow> saas_db \<times> unit api" where
  "new_workspace env email user_id db0 =
     (let org_id = ae_uuid env ''org''; project_id = ae_uuid env ''project''; now = ae_now env;
          org = \<lparr>og_id = org_id, og_name = email @ [CHR 39] @ ''s workspace'',
                 og_description = Some ''Personal SmartGate workspace'', og_created_at = now, og_updated_at = now\<rparr>;
          project = \<lparr>pj_id = project_id, pj_org_id = org_id, pj_name = ''Personal project'',
                 pj_description = Some ''Default personal project'', pj_rpm_limit = None,
                 pj_concurrency_limit = None, pj_daily_spend_limit = None, pj_created_at = now, pj_updated_at = now\<rparr>
      in try_then (statement (ae_ok env ''insert org'' \<and> \<not> taken og_id org_id (ct_orgs (sd_cat db0))) db0
             (db0\<lparr>sd_cat := (sd_cat db0)\<lparr>ct_orgs := ct_orgs (sd_cat db0) @ [org]\<rparr>\<rparr>)) (\<lambda>_ db1.
         try_then (statement (ae_ok env ''insert project'' \<and> \<not> taken pj_id project_id (ct_projects (sd_cat db1))) db1
             (db1\<lparr>sd_cat := (sd_cat db1)\<lparr>ct_projects := ct_projects (sd_cat db1) @ [project]\<rparr>\<rparr>)) (\<lambda>_ db2.
         statement (ae_ok env ''insert membership'') db2
           (db2\<lparr>sd_members := sd_members db2 @ [(org_id, user_id, now)]\<rparr>))))"

definition invalid_code :: "nat \<times> string" where
  "invalid_code = verification_error ''The verification code is invalid or expired''"

text \<open>The body of the transaction: a wrong code is counted inside it.\<close>

definition register_tx :: "account_env \<Rightarrow> string \<Rightarrow> register_request \<Rightarrow> saas_db \<Rightarrow> saas_db \<times> unit api" where
  "register_tx env email input db0 =
     (if \<not> ae_ok env ''select verification'' then (db0, Inl db_error)
      else case find (\<lambda>v. vr_email v = email) (sd_verifications db0) of
        None \<Rightarrow> (db0, Inl (verification_error ''Request a verification code first''))
      | Some v \<Rightarrow>
        if vr_used_at v \<noteq> None \<or> vr_expires_at v \<le> ae_now env \<or> VERIFICATION_MAX_ATTEMPTS \<le> vr_attempts v
        then (db0, Inl invalid_code)
        else if vr_code_hash v \<noteq> verification_code_hash (ae_hash env) email (re_verification_code input)
        then try_then (statement (ae_ok env ''count attempt'') db0
               (update_verification email (\<lambda>v. v\<lparr>vr_attempts := vr_attempts v + 1\<rparr>) db0))
               (\<lambda>_ db. (db, Inl invalid_code))
        else try_then (statement (ae_ok env ''use code'') db0
               (update_verification email (\<lambda>v. v\<lparr>vr_used_at := Some (ae_now env)\<rparr>) db0)) (\<lambda>_ db.
             try_then (insert_user env \<lparr>su_id = ae_uuid env ''user'', su_email = email,
                 su_password_hash = ae_hash_password env (re_password input), su_status = ''active''\<rparr> db) (\<lambda>_ db.
             new_workspace env email (ae_uuid env ''user'') db)))"

definition workspace_json :: "string \<Rightarrow> json" where
  "workspace_json email = Object [(''email'', String email), (''workspace'', String ''Personal workspace'')]"

definition register :: "account_env \<Rightarrow> register_request \<Rightarrow> account_state \<Rightarrow> account_state \<times> session_answer api" where
  "register env input st =
     (let email = normalize_email (re_email input) in
      case validate_credentials email (re_password input) of
        Inl e \<Rightarrow> (st, Inl e)
      | Inr _ \<Rightarrow>
        (case validate_verification_code (re_verification_code input) of
           Inl e \<Rightarrow> (st, Inl e)
         | Inr _ \<Rightarrow>
           (case try_then (in_transaction (ae_ok env) (register_tx env email input) (as_db st))
                   (\<lambda>_ db. create_session env (ae_uuid env ''user'') db) of
              (db, Inl e) \<Rightarrow> (st\<lparr>as_db := db\<rparr>, Inl e)
            | (db, Inr token) \<Rightarrow> (st\<lparr>as_db := db\<rparr>, Inr (session_response env (workspace_json email) token 201)))))"

section \<open>Sending a code\<close>

text \<open>\<open>format!("{:06}", draw % 1_000_000)\<close>\<close>

definition six_digits :: "nat \<Rightarrow> string" where
  "six_digits draw = (let s = show_nat (draw mod 1000000) in replicate (6 - length s) (CHR ''0'') @ s)"

definition upsert_verification :: "verification_row \<Rightarrow> saas_db \<Rightarrow> saas_db" where
  "upsert_verification v db =
     (if taken vr_email (vr_email v) (sd_verifications db)
      then update_verification (vr_email v) (\<lambda>_. v) db
      else db\<lparr>sd_verifications := sd_verifications db @ [v]\<rparr>)"

definition sent_json :: json where
  "sent_json = Object [(''sent'', Bool True)]"

definition deliver_code :: "account_env \<Rightarrow> string \<Rightarrow> saas_db \<Rightarrow> saas_db \<times> json api" where
  "deliver_code env email db = (case (ae_resend_api_key env, ae_resend_from_email env) of
     (Some api_key, Some from_email) \<Rightarrow>
       (let code = six_digits (ae_draw env) in
        case ae_mail env api_key from_email email code of
          None \<Rightarrow> (db, Inl email_service_error)
        | Some status \<Rightarrow>
            if \<not> (200 \<le> status \<and> status < 300) then (db, Inl email_service_error)
            else try_then (statement (ae_ok env ''upsert verification'') db
                   (upsert_verification \<lparr>vr_email = email,
                      vr_code_hash = verification_code_hash (ae_hash env) email code, vr_attempts = 0,
                      vr_sent_at = ae_now env,
                      vr_expires_at = ae_now env + VERIFICATION_CODE_TTL_MINUTES * 60 * SECOND,
                      vr_used_at = None\<rparr> db))
                   (\<lambda>_ db. (db, Inr sent_json)))
   | _ \<Rightarrow> (db, Inl (503, ''Email verification is not configured'')))"

text \<open>At most one row per address, so the latest is the only one. Whole seconds, rounded down.\<close>

definition resent_too_soon :: "nat \<Rightarrow> verification_row \<Rightarrow> bool" where
  "resent_too_soon now v \<longleftrightarrow> (int now - int (vr_sent_at v)) div int SECOND < VERIFICATION_RESEND_SECONDS"

definition send_verification_code ::
    "account_env \<Rightarrow> string \<Rightarrow> account_state \<Rightarrow> account_state \<times> json api" where
  "send_verification_code env raw_email st =
     (let email = normalize_email raw_email in
      case validate_email email of
        Inl e \<Rightarrow> (st, Inl e)
      | Inr _ \<Rightarrow>
        (case rate_limit_exceeded (as_send st) email VERIFICATION_SEND_MAX_ATTEMPTS
                (VERIFICATION_SEND_WINDOW_SECONDS * SECOND) (ae_now env) of
           (m, True) \<Rightarrow> (st\<lparr>as_send := m\<rparr>,
             Inl (429, ''Too many verification codes requested. Please try again later.''))
         | (m, False) \<Rightarrow>
           let st1 = st\<lparr>as_send := m\<rparr>; db = as_db st in
           if \<not> ae_ok env ''select user'' then (st1, Inl db_error)
           else if taken su_email email (sd_users db) then (st1, Inr sent_json)
           else if \<not> ae_ok env ''select verification'' then (st1, Inl db_error)
           else if (case find (\<lambda>v. vr_email v = email) (sd_verifications db) of
                      Some v \<Rightarrow> resent_too_soon (ae_now env) v | None \<Rightarrow> False)
           then (st1, Inl (429, ''Please wait before requesting another code''))
           else (case deliver_code env email db of (db', r) \<Rightarrow> (st1\<lparr>as_db := db'\<rparr>, r))))"

section \<open>Login, logout, profile\<close>

definition update_user :: "string \<Rightarrow> (saas_user \<Rightarrow> saas_user) \<Rightarrow> saas_db \<Rightarrow> saas_db" where
  "update_user i f db = db\<lparr>sd_users := map (\<lambda>u. if su_id u = i then f u else u) (sd_users db)\<rparr>"

text \<open>\<open>last_login_at\<close> is a column no code reads: its update can only fail.\<close>

definition login_db :: "account_env \<Rightarrow> string \<Rightarrow> login_request \<Rightarrow> saas_db \<Rightarrow> saas_db \<times> (saas_user \<times> string) api" where
  "login_db env email input db0 =
     (if \<not> ae_ok env ''select user'' then (db0, Inl db_error)
      else case find (\<lambda>u. su_email u = email) (sd_users db0) of
        None \<Rightarrow> (db0, Inl (401, ''Invalid email or password''))
      | Some u \<Rightarrow>
        if \<not> (su_status u = ''active'' \<and> verify_password env (lg_password input) (su_password_hash u))
        then (db0, Inl (401, ''Invalid email or password''))
        else try_then (if starts_with (su_password_hash u) ''sha256$''
               then statement (ae_ok env ''upgrade hash'') db0
                      (update_user (su_id u) (\<lambda>u. u\<lparr>su_password_hash := ae_hash_password env (lg_password input)\<rparr>) db0)
               else (db0, Inr ())) (\<lambda>_ db.
             try_then (statement (ae_ok env ''last login'') db db) (\<lambda>_ db.
             try_then (create_session env (su_id u) db) (\<lambda>token db. (db, Inr (u, token))))))"

definition login :: "account_env \<Rightarrow> login_request \<Rightarrow> account_state \<Rightarrow> account_state \<times> session_answer api" where
  "login env input st =
     (let email = normalize_email (lg_email input) in
      case rate_limit_exceeded (as_login st) email LOGIN_MAX_ATTEMPTS (LOGIN_WINDOW_SECONDS * SECOND) (ae_now env) of
        (m, True) \<Rightarrow> (st\<lparr>as_login := m\<rparr>, Inl (429, ''Too many login attempts. Please try again in a few minutes.''))
      | (m, False) \<Rightarrow>
        (case login_db env email input (as_db st) of
           (db, Inl e) \<Rightarrow> (st\<lparr>as_login := m, as_db := db\<rparr>, Inl e)
         | (db, Inr (u, token)) \<Rightarrow> (st\<lparr>as_login := m, as_db := db\<rparr>,
             Inr (session_response env (workspace_json (su_email u)) token 200))))"

definition logout :: "account_env \<Rightarrow> headers \<Rightarrow> account_state \<Rightarrow> account_state \<times> session_answer api" where
  "logout env h st =
     (case (case cookie_value h SESSION_COOKIE of
              None \<Rightarrow> (as_db st, Inr ())
            | Some token \<Rightarrow> statement (ae_ok env ''revoke session'') (as_db st)
                ((as_db st)\<lparr>sd_sessions := map (\<lambda>s. if sx_token_hash s = ae_hash env token
                    then s\<lparr>sx_revoked_at := Some (ae_now env)\<rparr> else s) (sd_sessions (as_db st))\<rparr>)) of
        (db, Inl e) \<Rightarrow> (st\<lparr>as_db := db\<rparr>, Inl e)
      | (db, Inr _) \<Rightarrow> (st\<lparr>as_db := db\<rparr>, Inr \<lparr>sa_status = 200, sa_data = Object [(''logged_out'', Bool True)],
          sa_cookie = ''smartgate_session=; Max-Age=0; Path=/; HttpOnly; SameSite=Lax''\<rparr>))"

definition me :: "saas_context \<Rightarrow> json" where
  "me cx = Object [(''id'', String (su_id (cx_user cx))), (''email'', String (su_email (cx_user cx))),
     (''org_id'', String (cx_org_id cx)), (''project_id'', String (cx_project_id cx))]"

definition set_profile :: "string option \<Rightarrow> string option \<Rightarrow> saas_user \<Rightarrow> saas_user" where
  "set_profile email password_hash u =
     u\<lparr>su_email := unwrap_or email (su_email u), su_password_hash := unwrap_or password_hash (su_password_hash u)\<rparr>"

definition store_profile ::
    "account_env \<Rightarrow> saas_user \<Rightarrow> string option \<Rightarrow> string option \<Rightarrow> saas_db \<Rightarrow> saas_db \<times> unit api" where
  "store_profile env who email password_hash db =
     (if \<not> ae_ok env ''update user'' then (db, Inl db_error)
      else if (case email of None \<Rightarrow> False
                | Some e \<Rightarrow> (\<exists>u \<in> set (sd_users db). su_id u = su_id who) \<and>
                    list_ex (\<lambda>u. su_email u = e \<and> su_id u \<noteq> su_id who) (sd_users db))
      then (db, Inl (conflict_error ''Email is already registered''))
      else (update_user (su_id who) (set_profile email password_hash) db, Inr ()))"

definition update_profile ::
    "account_env \<Rightarrow> saas_context \<Rightarrow> update_profile_request \<Rightarrow> account_state \<Rightarrow> account_state \<times> json api" where
  "update_profile env cx input st =
     (if up_email input = None \<and> up_new_password input = None
      then (st, Inl (400, ''Provide an email or a new password to update''))
      else if \<not> verify_password env (up_current_password input) (su_password_hash (cx_user cx))
      then (st, Inl (401, ''Current password is incorrect''))
      else let email = map_option normalize_email (up_email input) in
        case (case email of None \<Rightarrow> Inr () | Some e \<Rightarrow> validate_email e) of
          Inl e \<Rightarrow> (st, Inl e)
        | Inr _ \<Rightarrow>
          if (case up_new_password input of None \<Rightarrow> False | Some p \<Rightarrow> length p < 10 \<or> 256 < length p)
          then (st, Inl (400, ''New password must be 10-256 characters''))
          else (case store_profile env (cx_user cx) email
                       (map_option (ae_hash_password env) (up_new_password input)) (as_db st) of
                  (db, Inl e) \<Rightarrow> (st\<lparr>as_db := db\<rparr>, Inl e)
                | (db, Inr _) \<Rightarrow> (st\<lparr>as_db := db\<rparr>, Inr (Object [(''id'', String (su_id (cx_user cx))),
                    (''email'', String (unwrap_or email (su_email (cx_user cx))))]))))"

section \<open>Steps\<close>

text \<open>Any operation of any client, in any environment.\<close>

inductive account_step :: "account_state \<Rightarrow> account_state \<Rightarrow> bool" where
  register_step: "register env input st = (st', r) \<Longrightarrow> account_step st st'"
| send_step: "send_verification_code env email st = (st', r') \<Longrightarrow> account_step st st'"
| login_step: "login env linput st = (st', r) \<Longrightarrow> account_step st st'"
| logout_step: "logout env h st = (st', r) \<Longrightarrow> account_step st st'"
| profile_step: "update_profile env cx pinput st = (st', r') \<Longrightarrow> account_step st st'"

text \<open>The uniqueness the tables promise.\<close>

definition accounts_ok :: "saas_db \<Rightarrow> bool" where
  "accounts_ok db \<longleftrightarrow> distinct (map su_id (sd_users db)) \<and> distinct (map su_email (sd_users db)) \<and>
     distinct (map sx_token_hash (sd_sessions db)) \<and> distinct (map vr_email (sd_verifications db)) \<and>
     sx_user_id ` set (sd_sessions db) \<subseteq> su_id ` set (sd_users db)"

text \<open>How the session table may grow: rows keep their token and user, and may be revoked; new tokens are fresh.\<close>

definition sessions_extend :: "saas_db \<Rightarrow> saas_db \<Rightarrow> bool" where
  "sessions_extend db db' \<longleftrightarrow> (\<exists>f new. sd_sessions db' = map f (sd_sessions db) @ new \<and>
     (\<forall>s. sx_token_hash (f s) = sx_token_hash s \<and> sx_user_id (f s) = sx_user_id s \<and>
          (sx_revoked_at s \<noteq> None \<longrightarrow> sx_revoked_at (f s) \<noteq> None)) \<and>
     distinct (map sx_token_hash new) \<and>
     (\<forall>s \<in> set new. sx_token_hash s \<notin> sx_token_hash ` set (sd_sessions db)))"

section \<open>Lemmas\<close>

lemma sessions_extend_same: "sd_sessions db' = sd_sessions db \<Longrightarrow> sessions_extend db db'"
  unfolding sessions_extend_def by (intro exI [of _ id] exI [of _ "[]"]) simp

lemma create_session_Inr:
  "create_session env u db = (db', Inr token) \<longleftrightarrow>
     ae_ok env ''insert session'' \<and> ae_uuid env ''session'' \<notin> sx_id ` set (sd_sessions db) \<and>
     ae_hash env token \<notin> sx_token_hash ` set (sd_sessions db) \<and> u \<in> su_id ` set (sd_users db) \<and>
     token = ''sgs_'' @ ae_uuid env ''token'' \<and>
     db' = db\<lparr>sd_sessions := sd_sessions db @ [\<lparr>sx_id = ae_uuid env ''session'', sx_user_id = u,
        sx_token_hash = ae_hash env token, sx_expires_at = ae_now env + SESSION_DAYS * 24 * HOUR,
        sx_revoked_at = None\<rparr>]\<rparr>"
  by (auto simp: create_session_def Let_def try_then_Inr)

lemma create_session_Inl: "create_session env u db = (db', Inl e) \<Longrightarrow> db' = db"
  by (auto simp: create_session_def Let_def try_then_Inl)

lemma create_session_keeps:
  assumes "create_session env u db = (db', r)"
  shows "sd_users db' = sd_users db" "sd_verifications db' = sd_verifications db" "sd_cat db' = sd_cat db"
    "sd_members db' = sd_members db" "sessions_extend db db'" "accounts_ok db \<Longrightarrow> accounts_ok db'"
proof -
  have "sd_users db' = sd_users db \<and> sd_verifications db' = sd_verifications db \<and> sd_cat db' = sd_cat db \<and>
      sd_members db' = sd_members db \<and> sessions_extend db db' \<and> (accounts_ok db \<longrightarrow> accounts_ok db')"
  proof (cases r)
    case (Inl e)
    then show ?thesis using assms create_session_Inl sessions_extend_same by blast
  next
    case (Inr token)
    with assms have c: "create_session env u db = (db', Inr token)" by simp
    then have "sessions_extend db db'"
      unfolding create_session_Inr sessions_extend_def by (intro exI [of _ id]) auto
    with c show ?thesis unfolding create_session_Inr by (auto simp: accounts_ok_def)
  qed
  then show "sd_users db' = sd_users db" "sd_verifications db' = sd_verifications db" "sd_cat db' = sd_cat db"
    "sd_members db' = sd_members db" "sessions_extend db db'" "accounts_ok db \<Longrightarrow> accounts_ok db'"
    by blast+
qed

lemma new_workspace_keeps:
  assumes "new_workspace env email u db = (db', r)"
  shows "sd_users db' = sd_users db" "sd_verifications db' = sd_verifications db" "sd_sessions db' = sd_sessions db"
  using assms by (cases r; auto simp: new_workspace_def Let_def try_then_Inr try_then_Inl)+

lemma insert_user_Inr:
  "insert_user env u db = (db', Inr ()) \<longleftrightarrow> ae_ok env ''insert user'' \<and> su_id u \<notin> su_id ` set (sd_users db) \<and>
     su_email u \<notin> su_email ` set (sd_users db) \<and> db' = db\<lparr>sd_users := sd_users db @ [u]\<rparr>"
  by (auto simp: insert_user_def)

lemma update_verification_emails [simp]:
  "(\<And>v. vr_email (f v) = vr_email v) \<Longrightarrow>
     map vr_email (sd_verifications (update_verification email f db)) = map vr_email (sd_verifications db)"
  by (simp add: update_verification_def)

lemma update_verification_others [simp]:
  "sd_users (update_verification email f db) = sd_users db"
  "sd_sessions (update_verification email f db) = sd_sessions db"
  "sd_cat (update_verification email f db) = sd_cat db"
  "sd_members (update_verification email f db) = sd_members db"
  by (simp_all add: update_verification_def)

lemma update_user_others [simp]:
  "sd_sessions (update_user i f db) = sd_sessions db" "sd_verifications (update_user i f db) = sd_verifications db"
  "sd_cat (update_user i f db) = sd_cat db" "sd_members (update_user i f db) = sd_members db"
  by (simp_all add: update_user_def)

lemma register_tx_Inr:
  assumes "register_tx env email input db = (db', Inr ())"
  shows "\<exists>v db1 db2. find (\<lambda>v. vr_email v = email) (sd_verifications db) = Some v \<and> vr_used_at v = None \<and>
     ae_now env < vr_expires_at v \<and> vr_attempts v < VERIFICATION_MAX_ATTEMPTS \<and>
     vr_code_hash v = verification_code_hash (ae_hash env) email (re_verification_code input) \<and>
     db1 = update_verification email (\<lambda>v. v\<lparr>vr_used_at := Some (ae_now env)\<rparr>) db \<and>
     insert_user env \<lparr>su_id = ae_uuid env ''user'', su_email = email,
       su_password_hash = ae_hash_password env (re_password input), su_status = ''active''\<rparr> db1 = (db2, Inr ()) \<and>
     new_workspace env email (ae_uuid env ''user'') db2 = (db', Inr ())"
  using assms
  by (auto simp: register_tx_def try_then_Inr not_le split: if_splits option.splits)

section \<open>What every operation keeps\<close>

text \<open>
  A relation between the tables before and after that holds for each kind of write the
  operations perform holds for every operation and every run of them.
\<close>

locale account_effect =
  fixes R :: "saas_db \<Rightarrow> saas_db \<Rightarrow> bool"
  assumes other: "\<lbrakk>sd_users db' = sd_users db; sd_sessions db' = sd_sessions db;
      map vr_email (sd_verifications db') = map vr_email (sd_verifications db)\<rbrakk> \<Longrightarrow> R db db'"
    and compose: "\<lbrakk>R a b; R b c\<rbrakk> \<Longrightarrow> R a c"
    and new_session: "create_session env i db = (db', Inr token) \<Longrightarrow> R db db'"
    and new_user: "insert_user env u db = (db', Inr ()) \<Longrightarrow> R db db'"
    and new_code: "vr_email v \<notin> vr_email ` set (sd_verifications db) \<Longrightarrow>
      R db (db\<lparr>sd_verifications := sd_verifications db @ [v]\<rparr>)"
    and rehash: "R db (update_user i (\<lambda>u. u\<lparr>su_password_hash := p\<rparr>) db)"
    and profile: "store_profile env who e q db = (db', Inr ()) \<Longrightarrow> R db db'"
    and revoke: "R db (db\<lparr>sd_sessions := map (\<lambda>s. if sx_token_hash s = h
      then s\<lparr>sx_revoked_at := Some now\<rparr> else s) (sd_sessions db)\<rparr>)"
begin

lemma unchanged: "R db db"
  by (rule other) simp_all

lemma session: "create_session env i db = (db', r) \<Longrightarrow> R db db'"
  using new_session create_session_Inl unchanged by (cases r) fastforce+

lemma registration:
  assumes "register_tx env email input db = (db', Inr ())"
  shows "R db db'"
proof -
  obtain db1 db2 where 1: "db1 = update_verification email (\<lambda>v. v\<lparr>vr_used_at := Some (ae_now env)\<rparr>) db"
    and 2: "insert_user env \<lparr>su_id = ae_uuid env ''user'', su_email = email,
       su_password_hash = ae_hash_password env (re_password input), su_status = ''active''\<rparr> db1 = (db2, Inr ())"
    and 3: "new_workspace env email (ae_uuid env ''user'') db2 = (db', Inr ())"
    using register_tx_Inr [OF assms] by blast
  have "R db db1" unfolding 1 by (rule other) simp_all
  moreover have "R db1 db2" using 2 by (rule new_user)
  moreover have "R db2 db'" using new_workspace_keeps [OF 3] by (intro other) simp_all
  ultimately show ?thesis by (blast intro: compose)
qed

lemma register: "register env input st = (st', r) \<Longrightarrow> R (as_db st) (as_db st')"
proof -
  assume reg: "register env input st = (st', r)"
  have tx: "R db db'" if "in_transaction ok (register_tx env email input) db = (db', Inr ())" for ok email db db'
    using that by (auto simp: in_transaction_Inr intro: registration)
  have fails: "R db db'" if "in_transaction ok (register_tx env email input) db = (db', Inl e)" for ok email db db' e
    using in_transaction_Inl [OF that] unchanged by simp
  have both: "R db db'"
    if "try_then (in_transaction ok (register_tx env email input) db) (\<lambda>_ db. create_session env i db) = (db', x)"
    for ok email db i db' x
    using that tx fails session compose by (cases x) (fastforce simp: try_then_Inr try_then_Inl)+
  show ?thesis
    using reg both unchanged
    by (auto simp: register_def Let_def split: sum.splits prod.splits)
qed

lemma upsert: "R db (upsert_verification v db)"
proof (cases "vr_email v \<in> vr_email ` set (sd_verifications db)")
  case True
  have "map vr_email (sd_verifications (update_verification (vr_email v) (\<lambda>_. v) db)) = map vr_email (sd_verifications db)"
    by (auto simp: update_verification_def)
  with True show ?thesis by (intro other) (simp_all add: upsert_verification_def)
qed (simp add: upsert_verification_def new_code)

lemma deliver: "deliver_code env email db = (db', r) \<Longrightarrow> R db db'"
  using upsert unchanged
  by (auto simp: deliver_code_def Let_def statement_def try_then_def split: option.splits if_splits)

lemma send: "send_verification_code env email st = (st', r) \<Longrightarrow> R (as_db st) (as_db st')"
  using deliver unchanged
  by (auto simp: send_verification_code_def Let_def split: sum.splits prod.splits bool.splits if_splits option.splits)

lemma login_tables:
  assumes "login_db env email input db = (db', r)"
  shows "R db db'"
proof -
  let ?tail = "\<lambda>u db0. try_then (statement (ae_ok env ''last login'') db0 db0)
     (\<lambda>_ db. try_then (create_session env (su_id u) db) (\<lambda>token db. (db, Inr (u, token))))"
  have tail: "R db0 db1" if "?tail u db0 = (db1, x)" for u db0 db1 x
    using that session unchanged by (cases x) (auto simp: try_then_Inr try_then_Inl)
  consider (same) "db' = db" | (plain) u where "?tail u db = (db', r)"
    | (upgraded) u p where "?tail u (update_user (su_id u) (\<lambda>u. u\<lparr>su_password_hash := p\<rparr>) db) = (db', r)"
    using assms by (fastforce simp: login_db_def statement_def split: option.splits if_splits)
  then show ?thesis
    using tail rehash compose unchanged by cases blast+
qed

lemma login: "login env input st = (st', r) \<Longrightarrow> R (as_db st) (as_db st')"
  using login_tables unchanged
  by (auto simp: login_def Let_def split: prod.splits bool.splits sum.splits)

lemma logout: "logout env h st = (st', r) \<Longrightarrow> R (as_db st) (as_db st')"
  using revoke unchanged
  by (auto simp: logout_def statement_def split: option.splits if_splits)

lemma stored: "store_profile env who e q db = (db', x) \<Longrightarrow> R db db'"
proof (cases x)
  case (Inl err)
  assume "store_profile env who e q db = (db', x)"
  with Inl have "db' = db" by (auto simp: store_profile_def split: if_splits)
  then show ?thesis using unchanged by simp
next
  case (Inr u)
  assume "store_profile env who e q db = (db', x)"
  with Inr show ?thesis using profile by simp
qed

lemma updated: "update_profile env cx input st = (st', r) \<Longrightarrow> R (as_db st) (as_db st')"
  using stored unchanged
  by (auto simp: update_profile_def Let_def split: sum.splits prod.splits if_splits)

lemma step: "account_step st st' \<Longrightarrow> R (as_db st) (as_db st')"
  by (cases rule: account_step.cases) (auto intro: register send login logout updated)

lemma steps: "account_step\<^sup>*\<^sup>* st st' \<Longrightarrow> R (as_db st) (as_db st')"
  by (induction rule: rtranclp_induct) (blast intro: unchanged step compose)+

end

lemma sessions_extend_trans:
  assumes "sessions_extend a b" "sessions_extend b c"
  shows "sessions_extend a c"
proof -
  obtain f new where f: "sd_sessions b = map f (sd_sessions a) @ new" "distinct (map sx_token_hash new)"
    "\<forall>s. sx_token_hash (f s) = sx_token_hash s \<and> sx_user_id (f s) = sx_user_id s \<and>
      (sx_revoked_at s \<noteq> None \<longrightarrow> sx_revoked_at (f s) \<noteq> None)"
    "\<forall>s \<in> set new. sx_token_hash s \<notin> sx_token_hash ` set (sd_sessions a)"
    using assms(1) unfolding sessions_extend_def by blast
  obtain g new' where g: "sd_sessions c = map g (sd_sessions b) @ new'" "distinct (map sx_token_hash new')"
    "\<forall>s. sx_token_hash (g s) = sx_token_hash s \<and> sx_user_id (g s) = sx_user_id s \<and>
      (sx_revoked_at s \<noteq> None \<longrightarrow> sx_revoked_at (g s) \<noteq> None)"
    "\<forall>s \<in> set new'. sx_token_hash s \<notin> sx_token_hash ` set (sd_sessions b)"
    using assms(2) unfolding sessions_extend_def by blast
  have m: "map sx_token_hash (map g new) = map sx_token_hash new" using g(3) by simp
  have "sx_token_hash ` set new \<inter> sx_token_hash ` set new' = {}"
  proof -
    have "set new \<subseteq> set (sd_sessions b)" by (simp add: f(1))
    then have "sx_token_hash s \<notin> sx_token_hash ` set new" if "s \<in> set new'" for s
      using g(4) that by (meson image_mono subset_iff)
    then show ?thesis by (intro Int_emptyI) (elim imageE, metis imageI)
  qed
  then have "distinct (map sx_token_hash new @ map sx_token_hash new')" using f(2) g(2) by simp
  then have "distinct (map sx_token_hash (map g new @ new'))" unfolding map_append m .
  moreover have "\<forall>s \<in> set (map g new @ new'). sx_token_hash s \<notin> sx_token_hash ` set (sd_sessions a)"
  proof
    fix s assume "s \<in> set (map g new @ new')"
    then consider (old) s0 where "s0 \<in> set new" "s = g s0" | (fresh) "s \<in> set new'" by auto
    then show "sx_token_hash s \<notin> sx_token_hash ` set (sd_sessions a)"
    proof cases
      case old
      then show ?thesis using f(4) g(3) by simp
    next
      case fresh
      have "sx_token_hash ` set (sd_sessions a) \<subseteq> sx_token_hash ` set (sd_sessions b)"
      proof (rule image_subsetI)
        fix x assume "x \<in> set (sd_sessions a)"
        then have "f x \<in> set (sd_sessions b)" by (simp add: f(1))
        then show "sx_token_hash x \<in> sx_token_hash ` set (sd_sessions b)" using f(3) by (metis imageI)
      qed
      then show ?thesis using fresh g(4) by blast
    qed
  qed
  moreover have "sd_sessions c = map (g \<circ> f) (sd_sessions a) @ (map g new @ new')" using f(1) g(1) by simp
  ultimately show ?thesis
    unfolding sessions_extend_def using f(3) g(3)
    by (intro exI [of _ "g \<circ> f"] exI [of _ "map g new @ new'"]) simp
qed

interpretation session_rows: account_effect sessions_extend
proof
  show "sessions_extend db (db\<lparr>sd_sessions := map (\<lambda>s. if sx_token_hash s = h
      then s\<lparr>sx_revoked_at := Some now\<rparr> else s) (sd_sessions db)\<rparr>)" for db h now
    unfolding sessions_extend_def
    by (intro exI [of _ "\<lambda>s. if sx_token_hash s = h then s\<lparr>sx_revoked_at := Some now\<rparr> else s"] exI [of _ "[]"]) simp
  show "sessions_extend db db'" if "store_profile env who e q db = (db', Inr ())" for env who e q db db'
    using that by (intro sessions_extend_same) (auto simp: store_profile_def split: if_splits)
qed (auto simp: create_session_keeps insert_user_Inr intro: sessions_extend_same sessions_extend_trans create_session_keeps(5))

lemma accounts_ok_keys:
  "\<lbrakk>map su_id (sd_users db') = map su_id (sd_users db); map su_email (sd_users db') = map su_email (sd_users db);
    map sx_token_hash (sd_sessions db') = map sx_token_hash (sd_sessions db);
    map sx_user_id (sd_sessions db') = map sx_user_id (sd_sessions db);
    map vr_email (sd_verifications db') = map vr_email (sd_verifications db)\<rbrakk>
   \<Longrightarrow> accounts_ok db \<Longrightarrow> accounts_ok db'"
  unfolding accounts_ok_def by (metis list.set_map)

lemma distinct_map_update:
  assumes "distinct (map key xs)" "k \<notin> key ` {x \<in> set xs. i x \<noteq> j}" "distinct (map i xs)"
    and "\<And>x. key (f x) = k"
  shows "distinct (map key (map (\<lambda>x. if i x = j then f x else x) xs))"
  using assms
proof (induction xs)
  case (Cons x xs)
  have IH: "distinct (map key (map (\<lambda>x. if i x = j then f x else x) xs))"
    using Cons.prems by (intro Cons.IH) auto
  show ?case
  proof (cases "i x = j")
    case True
    then have "\<forall>y \<in> set xs. i y \<noteq> j" using Cons.prems(3) by (auto simp: rev_image_eqI)
    with IH True Cons.prems show ?thesis by auto
  next
    case False
    then have "key x \<noteq> k" using Cons.prems(2) by auto
    moreover have "key x \<notin> key ` set xs" using Cons.prems(1) by simp
    ultimately have "\<forall>y \<in> set xs. key x \<noteq> key (if i y = j then f y else y)"
      using Cons.prems(4) by (auto simp: rev_image_eqI)
    with IH False show ?thesis by auto
  qed
qed simp

lemma store_profile_ok:
  assumes ok: "accounts_ok db" and s: "store_profile env who e q db = (db', Inr ())"
  shows "accounts_ok db'"
proof -
  have db': "db' = update_user (su_id who) (set_profile e q) db"
    and free: "e = Some x \<Longrightarrow> (\<exists>u \<in> set (sd_users db). su_id u = su_id who) \<Longrightarrow>
      \<forall>u \<in> set (sd_users db). su_email u = x \<longrightarrow> su_id u = su_id who" for x
    using s by (auto simp: store_profile_def list_ex_iff split: if_splits)
  have ids: "map su_id (sd_users db') = map su_id (sd_users db)"
    by (simp add: db' update_user_def set_profile_def)
  consider (no_email) "e = None" | (absent) x where "e = Some x" "\<forall>u \<in> set (sd_users db). su_id u \<noteq> su_id who"
    | (present) x where "e = Some x" "\<exists>u \<in> set (sd_users db). su_id u = su_id who" by fastforce
  then show ?thesis
  proof cases
    case no_email
    then show ?thesis
      by (intro accounts_ok_keys [OF _ _ _ _ _ ok]) (simp_all add: db' update_user_def set_profile_def)
  next
    case absent
    then have "sd_users db' = sd_users db" by (auto simp: db' update_user_def intro: map_idI)
    then show ?thesis by (intro accounts_ok_keys [OF _ _ _ _ _ ok]) (simp_all add: db')
  next
    case present
    have "x \<notin> su_email ` {u \<in> set (sd_users db). su_id u \<noteq> su_id who}" using free [OF present] by blast
    then have "distinct (map su_email (sd_users db'))"
      using ok present(1) distinct_map_update [where key = su_email and i = su_id and xs = "sd_users db" and k = x
          and j = "su_id who" and f = "set_profile (Some x) q"]
      unfolding db' present(1) by (simp add: update_user_def accounts_ok_def set_profile_def)
    with ok ids show ?thesis
      unfolding accounts_ok_def by (metis db' list.set_map update_user_others(1,2))
  qed
qed

interpretation account_tables: account_effect "\<lambda>db db'. accounts_ok db \<longrightarrow> accounts_ok db'"
proof
  show "accounts_ok db \<longrightarrow> accounts_ok (update_user i (\<lambda>u. u\<lparr>su_password_hash := p\<rparr>) db)" for db i p
    by (intro impI, erule accounts_ok_keys [rotated 5]) (simp_all add: update_user_def)
  show "accounts_ok db \<longrightarrow> accounts_ok (db\<lparr>sd_sessions := map (\<lambda>s. if sx_token_hash s = h
      then s\<lparr>sx_revoked_at := Some now\<rparr> else s) (sd_sessions db)\<rparr>)" for db h now
    by (intro impI, erule accounts_ok_keys [rotated 5]) simp_all
  show "accounts_ok db \<longrightarrow> accounts_ok db'"
    if "sd_users db' = sd_users db" "sd_sessions db' = sd_sessions db"
      "map vr_email (sd_verifications db') = map vr_email (sd_verifications db)" for db db'
    using that accounts_ok_keys [of db' db] by simp
  show "accounts_ok db \<longrightarrow> accounts_ok db'" if "insert_user env u db = (db', Inr ())" for env u db db'
    using that unfolding insert_user_Inr by (auto simp: accounts_ok_def)
  show "accounts_ok db \<longrightarrow> accounts_ok (db\<lparr>sd_verifications := sd_verifications db @ [v]\<rparr>)"
    if "vr_email v \<notin> vr_email ` set (sd_verifications db)" for v db
    using that by (auto simp: accounts_ok_def)
qed (use create_session_keeps(6) store_profile_ok in blast)+

definition revoked :: "string \<Rightarrow> saas_db \<Rightarrow> bool" where
  "revoked h db \<longleftrightarrow> h \<in> sx_token_hash ` set (sd_sessions db) \<and>
     (\<forall>s \<in> set (sd_sessions db). sx_token_hash s = h \<longrightarrow> sx_revoked_at s \<noteq> None)"

lemma revoked_extend:
  assumes "sessions_extend db db'" "revoked h db"
  shows "revoked h db'"
proof -
  obtain f new where f: "sd_sessions db' = map f (sd_sessions db) @ new"
    "\<And>s. sx_token_hash (f s) = sx_token_hash s" "\<And>s. sx_revoked_at s \<noteq> None \<Longrightarrow> sx_revoked_at (f s) \<noteq> None"
    "\<And>s. s \<in> set new \<Longrightarrow> sx_token_hash s \<notin> sx_token_hash ` set (sd_sessions db)"
    using assms(1) unfolding sessions_extend_def by blast
  obtain s where s: "s \<in> set (sd_sessions db)" "sx_token_hash s = h"
    and dead: "\<And>s. s \<in> set (sd_sessions db) \<Longrightarrow> sx_token_hash s = h \<Longrightarrow> sx_revoked_at s \<noteq> None"
    using assms(2) unfolding revoked_def by blast
  have "f s \<in> set (sd_sessions db')" using f(1) s(1) by simp
  then have "h \<in> sx_token_hash ` set (sd_sessions db')" using f(2) [of s] s(2) by (metis imageI)
  moreover have "sx_revoked_at x \<noteq> None" if x: "x \<in> set (sd_sessions db')" "sx_token_hash x = h" for x
  proof -
    consider (old) y where "y \<in> set (sd_sessions db)" "x = f y" | (fresh) "x \<in> set new" using x(1) f(1) by auto
    then show ?thesis
    proof cases
      case old
      then show ?thesis using f(2) [of y] f(3) [of y] dead [of y] x(2) by simp
    next
      case fresh
      then show ?thesis using f(4) s x(2) by (metis imageI)
    qed
  qed
  ultimately show ?thesis unfolding revoked_def by blast
qed

lemma revoke_revokes:
  assumes "h \<in> sx_token_hash ` set (sd_sessions db)"
  shows "revoked h (db\<lparr>sd_sessions := map (\<lambda>s. if sx_token_hash s = h
     then s\<lparr>sx_revoked_at := Some now\<rparr> else s) (sd_sessions db)\<rparr>)" (is "revoked h ?db")
proof -
  have "map sx_token_hash (sd_sessions ?db) = map sx_token_hash (sd_sessions db)" by simp
  then have "sx_token_hash ` set (sd_sessions ?db) = sx_token_hash ` set (sd_sessions db)" by (metis list.set_map)
  with assms show ?thesis unfolding revoked_def by auto
qed

lemma revoked_no_context:
  assumes "revoked (hash_token token) db" "cookie_value h SESSION_COOKIE = Some token"
  shows "\<exists>e. saas_context_of hash_token ok now h db = Inl e"
proof -
  have "find (\<lambda>s. sx_token_hash s = hash_token token \<and> live_session now s) (sd_sessions db) = None"
    using assms(1) by (auto simp: revoked_def live_session_def find_None_iff)
  with assms(2) show ?thesis by (simp add: saas_context_of_def)
qed

lemma create_session_find:
  assumes "create_session env i db = (db', Inr token)" "ae_now env \<le> now" "now < ae_now env + SESSION_DAYS * 24 * HOUR"
  shows "\<exists>s. find (\<lambda>s. sx_token_hash s = ae_hash env token \<and> live_session now s) (sd_sessions db') = Some s \<and>
     sx_user_id s = i"
proof -
  define row where "row = \<lparr>sx_id = ae_uuid env ''session'', sx_user_id = i,
      sx_token_hash = ae_hash env token, sx_expires_at = ae_now env + SESSION_DAYS * 24 * HOUR, sx_revoked_at = None\<rparr>"
  have row: "sx_token_hash row = ae_hash env token" "sx_user_id row = i" "live_session now row"
    using assms(3) by (simp_all add: row_def live_session_def)
  have db': "sd_sessions db' = sd_sessions db @ [row]" "ae_hash env token \<notin> sx_token_hash ` set (sd_sessions db)"
    using assms(1) unfolding create_session_Inr row_def by auto
  have "find (\<lambda>s. sx_token_hash s = ae_hash env token \<and> live_session now s) (sd_sessions db @ [row]) = Some row"
    using row db'(2) by (intro find_append_new) (auto simp: list_ex_iff rev_image_eqI)
  with row db' show ?thesis by auto
qed

lemma update_user_keeps_active:
  assumes "u \<in> set (sd_users db)" "\<And>x. su_id (f x) = su_id x \<and> su_status (f x) = su_status x"
  shows "\<exists>x \<in> set (sd_users (update_user i f db)). su_id x = su_id u \<and> su_status x = su_status u"
  using assms by (intro bexI [of _ "if su_id u = i then f u else u"]) (auto simp: update_user_def)

lemma find_SomeD: "find P xs = Some x \<Longrightarrow> x \<in> set xs \<and> P x"
  by (auto simp: find_Some_iff)

lemma login_db_Inr:
  assumes "login_db env email input db = (db', Inr (u, token))"
  shows "\<exists>db1. u \<in> set (sd_users db) \<and> su_email u = email \<and> su_status u = ''active'' \<and>
     verify_password env (lg_password input) (su_password_hash u) \<and>
     (db1 = db \<or> db1 = update_user (su_id u) (\<lambda>u. u\<lparr>su_password_hash := ae_hash_password env (lg_password input)\<rparr>) db) \<and>
     create_session env (su_id u) db1 = (db', Inr token)"
proof -
  have "find (\<lambda>u. su_email u = email) (sd_users db) = Some u \<and> su_status u = ''active'' \<and>
     verify_password env (lg_password input) (su_password_hash u) \<and>
     (\<exists>db1. (db1 = db \<or> db1 = update_user (su_id u) (\<lambda>u. u\<lparr>su_password_hash := ae_hash_password env (lg_password input)\<rparr>) db) \<and>
     create_session env (su_id u) db1 = (db', Inr token))"
    using assms by (auto simp: login_db_def try_then_Inr split: option.splits if_splits)
  then show ?thesis by (auto dest: find_SomeD)
qed

lemma login_context:
  assumes "login_db env email input db = (db', Inr (u, token))" "cookie_value h SESSION_COOKIE = Some token"
    and "ae_now env \<le> now" "now < ae_now env + SESSION_DAYS * 24 * HOUR" "workspaces db (su_id u) \<noteq> []"
  shows "\<exists>cx. saas_context_of (ae_hash env) (\<lambda>_. True) now h db' = Inr cx \<and> su_id (cx_user cx) = su_id u \<and>
     (\<exists>t. (cx_org_id cx, su_id u, t) \<in> set (sd_members db))"
proof -
  obtain db1 where u: "u \<in> set (sd_users db)" "su_status u = ''active''"
    and db1: "db1 = db \<or> db1 = update_user (su_id u)
      (\<lambda>u. u\<lparr>su_password_hash := ae_hash_password env (lg_password input)\<rparr>) db"
    and c: "create_session env (su_id u) db1 = (db', Inr token)"
    using login_db_Inr [OF assms(1)] by blast
  obtain s where s: "find (\<lambda>s. sx_token_hash s = ae_hash env token \<and> live_session now s) (sd_sessions db') = Some s"
    "sx_user_id s = su_id u"
    using create_session_find [OF c assms(3,4)] by blast
  note keeps = create_session_keeps(1,3,4) [OF c]
  have "\<exists>x \<in> set (sd_users db'). su_id x = su_id u \<and> su_status x = su_status u"
    using db1 u(1) unfolding keeps by (elim disjE) (auto intro: update_user_keeps_active)
  then have "find (\<lambda>x. su_id x = su_id u \<and> su_status x = ''active'') (sd_users db') \<noteq> None"
    using u(2) by (auto simp: find_None_iff)
  then obtain u' where u': "find (\<lambda>x. su_id x = su_id u \<and> su_status x = ''active'') (sd_users db') = Some u'" by blast
  have same: "sd_cat db' = sd_cat db" "sd_members db' = sd_members db" using db1 keeps by auto
  have ws: "workspaces db' i = workspaces db i" for i unfolding workspaces_def same ..
  obtain t org p where f: "first_of (\<lambda>a b. cmp_of (fst a) (fst b)) (workspaces db (su_id u)) = Some (t, org, p)"
    using assms(5) by (metis first_of_None option.exhaust prod_cases3)
  have "(org, su_id u, t) \<in> set (sd_members db)"
    using first_of_mem [OF f] by (simp add: workspaces_iff)
  moreover have "su_id u' = su_id u" using find_SomeD [OF u'] by simp
  moreover have "saas_context_of (ae_hash env) (\<lambda>_. True) now h db' =
      Inr \<lparr>cx_user = u', cx_org_id = org, cx_project_id = p\<rparr>"
    using assms(2) s u' f ws \<open>su_id u' = su_id u\<close> by (simp add: saas_context_of_def)
  ultimately show ?thesis by auto
qed

section \<open>Properties\<close>

text \<open>
  Whatever clients do, the account tables stay well formed: over any run of
  registrations, code requests, logins, logouts and profile updates, with any statements
  failing, user ids, addresses, session tokens and pending codes stay unique and every
  session belongs to an existing user.
\<close>

theorem account_tables_stay_well_formed:
  assumes "account_step\<^sup>*\<^sup>* st st'" "accounts_ok (as_db st)"
  shows "accounts_ok (as_db st')"
  using account_tables.steps [OF assms(1)] assms(2) by blast

definition empty_saas :: saas_db where
  "empty_saas = \<lparr>sd_cat = empty_catalog, sd_pool_org = Map.empty, sd_account_org = Map.empty, sd_users = [],
     sd_sessions = [], sd_verifications = [], sd_members = []\<rparr>"

definition demo_account_env :: account_env where
  "demo_account_env = \<lparr>ae_ok = (\<lambda>_. True), ae_now = 7, ae_hash = (\<lambda>t. t), ae_hash_password = (\<lambda>p. ''argon:'' @ p),
     ae_argon_verifies = (\<lambda>p h. h = ''argon:'' @ p), ae_uuid = (\<lambda>name. name), ae_draw = 123456,
     ae_mail = (\<lambda>_ _ _ _. Some 200), ae_resend_api_key = Some ''rk'', ae_resend_from_email = Some ''noreply@x.io'',
     ae_cookie_secure = True\<rparr>"

definition demo_user :: saas_user where
  "demo_user = \<lparr>su_id = ''u'', su_email = ''a@b.c'', su_password_hash = ''argon:0123456789'', su_status = ''active''\<rparr>"

definition demo_accounts :: account_state where
  "demo_accounts = \<lparr>as_db = empty_saas\<lparr>sd_users := [demo_user], sd_members := [(''o'', ''u'', 1)],
       sd_cat := demo_catalog\<rparr>, as_login = Map.empty, as_send = Map.empty\<rparr>"

lemmas demo_account_simps = demo_accounts_def demo_account_env_def demo_user_def empty_saas_def

lemma demo_accounts_ok: "accounts_ok (as_db demo_accounts)"
  by (simp add: accounts_ok_def demo_account_simps)

theorem account_tables_stay_well_formed_witness:
  "accounts_ok (as_db (fst (send_verification_code demo_account_env ''New@b.c'' demo_accounts)))"
proof (rule account_tables_stay_well_formed [OF _ demo_accounts_ok], rule r_into_rtranclp)
  show "account_step demo_accounts (fst (send_verification_code demo_account_env ''New@b.c'' demo_accounts))"
    by (rule send_step [of demo_account_env "''New@b.c''" _ _ "snd (send_verification_code demo_account_env ''New@b.c'' demo_accounts)"]) simp
qed

text \<open>
  C14. Logging out is final: once a client that held a valid session has logged out, no
  request that presents the token is ever authenticated again, at any time, whatever
  operations anyone performs in between.
\<close>

theorem logged_out_session_never_returns:
  assumes "saas_context_of (ae_hash env) ok now h (as_db st) = Inr cx" "logout env h st = (st1, Inr ans)"
    and "cookie_value h SESSION_COOKIE = Some token"
    and "account_step\<^sup>*\<^sup>* st1 st2" "cookie_value h' SESSION_COOKIE = Some token"
  shows "\<exists>e. saas_context_of (ae_hash env) ok' now' h' (as_db st2) = Inl e"
proof -
  have "ae_hash env token \<in> sx_token_hash ` set (sd_sessions (as_db st))"
    using assms(1,3) by (auto simp: saas_context_Inr rev_image_eqI dest!: find_SomeD)
  then have "revoked (ae_hash env token) (as_db st1)"
    using assms(2,3) revoke_revokes by (auto simp: logout_def statement_def split: if_splits)
  then have "revoked (ae_hash env token) (as_db st2)"
    using revoked_extend session_rows.steps [OF assms(4)] by blast
  then show ?thesis using revoked_no_context assms(5) by blast
qed

text \<open>
  C15. A login opens the user's own workspace: the cookie a successful login sets, sent
  back alone within thirty days, authenticates the user of the given address, active and
  with a checked password, and the workspace found is one of that user's memberships.
\<close>

theorem login_opens_own_workspace:
  assumes "login env input st = (st', Inr ans)"
    and "h ''cookie'' = Some (Text (takeWhile (\<lambda>c. c \<noteq> CHR '';'') (sa_cookie ans)))"
    and "ascii (ae_uuid env ''token'')" "CHR '';'' \<notin> set (ae_uuid env ''token'')"
      "list_all (\<lambda>c. \<not> is_whitespace [c]) (ae_uuid env ''token'')"
    and "ae_now env \<le> now" "now < ae_now env + 30 * 24 * HOUR"
    and "\<forall>u \<in> set (sd_users (as_db st)). workspaces (as_db st) (su_id u) \<noteq> []"
  shows "\<exists>u cx. u \<in> set (sd_users (as_db st)) \<and> su_email u = normalize_email (lg_email input) \<and>
     su_status u = ''active'' \<and> verify_password env (lg_password input) (su_password_hash u) \<and>
     saas_context_of (ae_hash env) (\<lambda>_. True) now h (as_db st') = Inr cx \<and> su_id (cx_user cx) = su_id u \<and>
     (\<exists>t. (cx_org_id cx, su_id u, t) \<in> set (sd_members (as_db st)))"
proof -
  obtain u token where l: "login_db env (normalize_email (lg_email input)) input (as_db st) = (as_db st', Inr (u, token))"
    and ans: "sa_cookie ans = session_cookie (ae_cookie_secure env) token"
    using assms(1) by (auto simp: login_def Let_def session_response_def split: prod.splits bool.splits sum.splits)
  have u: "u \<in> set (sd_users (as_db st))" "su_email u = normalize_email (lg_email input)" "su_status u = ''active''"
    "verify_password env (lg_password input) (su_password_hash u)" and token: "token = ''sgs_'' @ ae_uuid env ''token''"
    using login_db_Inr [OF l] by (auto simp: create_session_Inr)
  have cookie: "cookie_value h SESSION_COOKIE = Some token"
  proof (rule own_cookie)
    have "takeWhile (\<lambda>c. c \<noteq> CHR '';'') (sa_cookie ans) = SESSION_COOKIE @ ''='' @ token"
      using assms(4) by (simp add: ans session_cookie_def SESSION_COOKIE_def token takeWhile_append)
    with assms(2) show "h ''cookie'' = Some (Text (SESSION_COOKIE @ ''='' @ token))" by simp
  qed (use assms(3,4,5) in \<open>simp_all add: token ascii_def byte_def is_whitespace_def Let_def\<close>)
  have "workspaces (as_db st) (su_id u) \<noteq> []" using assms(8) u(1) by blast
  from login_context [OF l cookie assms(6) _ this] assms(7) u show ?thesis
    unfolding SESSION_DAYS_def by blast
qed

definition demo_login :: login_request where
  "demo_login = \<lparr>lg_email = '' a@b.c'', lg_password = ''0123456789''\<rparr>"

lemma demo_email: "normalize_email '' a@b.c'' = ''a@b.c''"
  by (simp add: normalize_email_def trim_def trim_chars_def is_whitespace_def is_cont_def byte_def to_ascii_lowercase_def is_ascii_upper_def Let_def)

lemma demo_login_runs:
  "\<exists>st' ans. login demo_account_env demo_login demo_accounts = (st', Inr ans)"
proof -
  have "\<exists>db' token. login_db demo_account_env ''a@b.c'' demo_login (as_db demo_accounts) = (db', Inr (demo_user, token))"
    by (simp add: login_db_def demo_account_simps demo_login_def verify_password_def starts_with_def
        create_session_def Let_def try_then_def statement_def)
  moreover have "rate_limit_exceeded (as_login demo_accounts) ''a@b.c'' LOGIN_MAX_ATTEMPTS
      (LOGIN_WINDOW_SECONDS * SECOND) (ae_now demo_account_env) = ([''a@b.c'' \<mapsto> [7]], False)"
    by (simp add: rate_limit_exceeded_def prune_attempts_def demo_account_simps LOGIN_MAX_ATTEMPTS_def Let_def)
  ultimately show ?thesis
    using demo_email by (auto simp: login_def demo_login_def Let_def)
qed

theorem login_opens_own_workspace_witness:
  "\<exists>st' ans cx. login demo_account_env demo_login demo_accounts = (st', Inr ans) \<and>
     saas_context_of (\<lambda>t. t) (\<lambda>_. True) 8
       [''cookie'' \<mapsto> Text (takeWhile (\<lambda>c. c \<noteq> CHR '';'') (sa_cookie ans))] (as_db st') = Inr cx"
proof -
  obtain st' ans where run: "login demo_account_env demo_login demo_accounts = (st', Inr ans)"
    using demo_login_runs by blast
  let ?h = "[''cookie'' \<mapsto> Text (takeWhile (\<lambda>c. c \<noteq> CHR '';'') (sa_cookie ans))]"
  have "\<exists>u cx. u \<in> set (sd_users (as_db demo_accounts)) \<and> su_email u = normalize_email (lg_email demo_login) \<and>
     su_status u = ''active'' \<and> verify_password demo_account_env (lg_password demo_login) (su_password_hash u) \<and>
     saas_context_of (ae_hash demo_account_env) (\<lambda>_. True) 8 ?h (as_db st') = Inr cx \<and> su_id (cx_user cx) = su_id u \<and>
     (\<exists>t. (cx_org_id cx, su_id u, t) \<in> set (sd_members (as_db demo_accounts)))"
  proof (rule login_opens_own_workspace [OF run])
    show "\<forall>u \<in> set (sd_users (as_db demo_accounts)). workspaces (as_db demo_accounts) (su_id u) \<noteq> []"
      by (simp add: demo_account_simps workspaces_def demo_catalog_simps)
  qed (simp_all add: demo_account_env_def ascii_def byte_def is_whitespace_def Let_def HOUR_def)
  then show ?thesis using run by (auto simp: demo_account_env_def)
qed

definition demo_signed_in :: account_state where
  "demo_signed_in = demo_accounts\<lparr>as_db := (as_db demo_accounts)\<lparr>sd_sessions :=
     [\<lparr>sx_id = ''s'', sx_user_id = ''u'', sx_token_hash = ''tok'', sx_expires_at = 100, sx_revoked_at = None\<rparr>]\<rparr>\<rparr>"

theorem logged_out_session_never_returns_witness:
  "\<exists>e. saas_context_of (\<lambda>t. t) (\<lambda>_. True) 9 [''cookie'' \<mapsto> Text ''smartgate_session=tok'']
     (as_db (fst (login demo_account_env demo_login
       (fst (logout demo_account_env [''cookie'' \<mapsto> Text ''smartgate_session=tok''] demo_signed_in))))) = Inl e"
proof -
  let ?h = "[''cookie'' \<mapsto> Text ''smartgate_session=tok'']"
  have cookie: "cookie_value ?h SESSION_COOKIE = Some ''tok''"
    by (rule own_cookie) (simp_all add: SESSION_COOKIE_def ascii_def byte_def is_whitespace_def Let_def)
  have cx: "\<exists>cx. saas_context_of (ae_hash demo_account_env) (\<lambda>_. True) 9 ?h (as_db demo_signed_in) = Inr cx"
    by (simp add: saas_context_of_def cookie demo_signed_in_def demo_account_simps live_session_def workspaces_def
        demo_catalog_simps first_of_def sort_by_def)
  obtain st1 ans where out: "logout demo_account_env ?h demo_signed_in = (st1, Inr ans)"
    by (simp add: logout_def cookie statement_def demo_account_env_def)
  have "account_step\<^sup>*\<^sup>* st1 (fst (login demo_account_env demo_login st1))"
    by (rule r_into_rtranclp, rule login_step [of demo_account_env demo_login st1 _ "snd (login demo_account_env demo_login st1)"]) simp
  with cx obtain cx0 where c: "saas_context_of (ae_hash demo_account_env) (\<lambda>_. True) 9 ?h (as_db demo_signed_in) = Inr cx0"
    and run: "account_step\<^sup>*\<^sup>* st1 (fst (login demo_account_env demo_login st1))" by blast
  have "\<exists>e. saas_context_of (ae_hash demo_account_env) (\<lambda>_. True) 9 ?h (as_db (fst (login demo_account_env demo_login st1))) = Inl e"
    by (rule logged_out_session_never_returns [OF c out cookie run cookie])
  moreover have "ae_hash demo_account_env = (\<lambda>t. t)" by (simp add: demo_account_env_def)
  ultimately show ?thesis by (simp only: out fst_conv)
qed

lemma rate_limit_is_admit:
  "rate_limit_exceeded m key L (LOGIN_WINDOW_SECONDS * SECOND) now = apsnd Not (login_win.admit m key L now)"
  by (simp add: rate_limit_exceeded_def login_win.admit_def Let_def)

text \<open>A run of login attempts; its result lists the attempts that were not turned away with 429.\<close>

fun login_run :: "account_state \<Rightarrow> (account_env \<times> login_request) list \<Rightarrow> (nat \<times> string) list" where
  "login_run st [] = []"
| "login_run st ((env, input) # as) = (case login env input st of (st', r) \<Rightarrow>
     (if (case r of Inl e \<Rightarrow> fst e = 429 | Inr _ \<Rightarrow> False) then []
      else [(ae_now env, normalize_email (lg_email input))]) @ login_run st' as)"

lemma login_db_status: "login_db env email input db = (db', Inl e) \<Longrightarrow> fst e \<noteq> 429"
  by (auto simp: login_db_def db_error_def try_then_Inl create_session_def Let_def split: option.splits if_splits)

lemma login_run_admits:
  "login_run st as = login_win.admit_run (as_login st) LOGIN_MAX_ATTEMPTS
     (map (\<lambda>(env, input). (ae_now env, normalize_email (lg_email input))) as)"
proof (induction as arbitrary: st)
  case (Cons a as)
  obtain env input where a: "a = (env, input)" by fastforce
  obtain st' r where l: "login env input st = (st', r)" by fastforce
  obtain m' ok where adm: "login_win.admit (as_login st) (normalize_email (lg_email input)) LOGIN_MAX_ATTEMPTS
      (ae_now env) = (m', ok)" by fastforce
  have "as_login st' = m' \<and> (case r of Inl e \<Rightarrow> fst e = 429 | Inr _ \<Rightarrow> False) = (\<not> ok)"
    using l adm
    by (cases ok) (auto simp: login_def rate_limit_is_admit Let_def dest: login_db_status split: prod.splits sum.splits)
  with Cons l adm a show ?case by simp
qed simp

text \<open>
  Passwords cannot be guessed in bulk: over any run of login attempts with a clock
  that does not run backwards, whatever the spelling of the address, at most five
  attempts for one account are checked within any 300 seconds.
\<close>

theorem login_attempts_are_limited:
  assumes "sorted (map (\<lambda>(env, _). ae_now env) as)" "as_login st email = None"
  shows "in_window (300 * 1000000000 + 1) (map fst (filter (\<lambda>a. snd a = email) (login_run st as))) t \<le> 5"
  unfolding login_run_admits
  using login_win.admit_run_bound [of "as_login st" email
      "map (\<lambda>(env, input). (ae_now env, normalize_email (lg_email input))) as" LOGIN_MAX_ATTEMPTS t] assms
  by (simp add: LOGIN_MAX_ATTEMPTS_def LOGIN_WINDOW_SECONDS_def SECOND_def split_def comp_def)

theorem login_attempts_are_limited_witness:
  "in_window (300 * 1000000000 + 1) (map fst (filter (\<lambda>a. snd a = ''a@b.c'')
     (login_run demo_accounts (replicate 6 (demo_account_env, demo_login))))) 7 \<le> 5"
  by (rule login_attempts_are_limited) (simp_all add: demo_accounts_def numeral_eq_Suc)

text \<open>
  C16. An account takes a proven address: a registration that succeeds was made with the
  unused, unexpired code of its address, uses it up, and creates an active user
  with that address whose workspace is a new project of a new organization
  it alone belongs to.
\<close>

theorem registration_uses_its_code:
  assumes "register env input st = (st', Inr ans)"
    and "\<forall>m \<in> set (sd_members (as_db st)). fst m \<in> og_id ` set (ct_orgs (sd_cat (as_db st)))"
  shows "\<exists>v u org p. v \<in> set (sd_verifications (as_db st)) \<and> vr_email v = normalize_email (re_email input) \<and>
     vr_used_at v = None \<and> ae_now env < vr_expires_at v \<and>
     vr_code_hash v = verification_code_hash (ae_hash env) (vr_email v) (re_verification_code input) \<and>
     (\<forall>v' \<in> set (sd_verifications (as_db st')). vr_email v' = vr_email v \<longrightarrow> vr_used_at v' \<noteq> None) \<and>
     u \<notin> set (sd_users (as_db st)) \<and> u \<in> set (sd_users (as_db st')) \<and> su_email u = vr_email v \<and>
     su_status u = ''active'' \<and> org \<notin> og_id ` set (ct_orgs (sd_cat (as_db st))) \<and>
     (org, su_id u, ae_now env) \<in> set (sd_members (as_db st')) \<and>
     (\<forall>m \<in> set (sd_members (as_db st')). fst m = org \<longrightarrow> fst (snd m) = su_id u) \<and>
     (ae_now env, org, p) \<in> set (workspaces (as_db st') (su_id u))"
proof -
  let ?email = "normalize_email (re_email input)" and ?uid = "ae_uuid env ''user''"
  obtain db token where tx: "register_tx env ?email input (as_db st) = (db, Inr ())"
    and c: "create_session env ?uid db = (as_db st', Inr token)"
    using assms(1)
    by (auto simp: register_def Let_def try_then_Inr in_transaction_Inr split: sum.splits prod.splits)
  obtain v db1 db2 where v: "find (\<lambda>v. vr_email v = ?email) (sd_verifications (as_db st)) = Some v"
      "vr_used_at v = None" "ae_now env < vr_expires_at v"
      "vr_code_hash v = verification_code_hash (ae_hash env) ?email (re_verification_code input)"
    and db1: "db1 = update_verification ?email (\<lambda>v. v\<lparr>vr_used_at := Some (ae_now env)\<rparr>) (as_db st)"
    and db2: "insert_user env \<lparr>su_id = ?uid, su_email = ?email,
       su_password_hash = ae_hash_password env (re_password input), su_status = ''active''\<rparr> db1 = (db2, Inr ())"
    and ws: "new_workspace env ?email ?uid db2 = (db, Inr ())"
    using register_tx_Inr [OF tx] by blast
  note keeps = create_session_keeps(1-4) [OF c] new_workspace_keeps [OF ws]
  have cat: "ct_orgs (sd_cat db2) = ct_orgs (sd_cat (as_db st))" "ct_projects (sd_cat db2) = ct_projects (sd_cat (as_db st))"
    and mem: "sd_members db2 = sd_members (as_db st)"
    using db2 by (auto simp: insert_user_Inr db1)
  have w: "ae_uuid env ''org'' \<notin> og_id ` set (ct_orgs (sd_cat (as_db st)))"
      "sd_members (as_db st') = sd_members (as_db st) @ [(ae_uuid env ''org'', ?uid, ae_now env)]"
      "\<exists>p \<in> set (ct_projects (sd_cat (as_db st'))). pj_id p = ae_uuid env ''project'' \<and> pj_org_id p = ae_uuid env ''org''"
    using ws cat mem unfolding keeps by (auto simp: new_workspace_def Let_def try_then_Inr)
  have u: "\<lparr>su_id = ?uid, su_email = ?email, su_password_hash = ae_hash_password env (re_password input),
      su_status = ''active''\<rparr> \<in> set (sd_users (as_db st'))" "?uid \<notin> su_id ` set (sd_users (as_db st))"
    using db2 unfolding keeps by (auto simp: insert_user_Inr db1)
  have used: "\<forall>v' \<in> set (sd_verifications (as_db st')). vr_email v' = ?email \<longrightarrow> vr_used_at v' \<noteq> None"
    using db2 unfolding keeps by (auto simp: insert_user_Inr db1 update_verification_def)
  show ?thesis
    using v find_SomeD [OF v(1)] u used w assms(2)
    by (intro exI [of _ v] exI [of _ "ae_uuid env ''org''"] exI [of _ "ae_uuid env ''project''"]
        exI [of _ "\<lparr>su_id = ?uid, su_email = ?email, su_password_hash = ae_hash_password env (re_password input),
          su_status = ''active''\<rparr>"]) (auto simp: workspaces_iff rev_image_eqI)
qed

definition demo_pending :: account_state where
  "demo_pending = demo_accounts\<lparr>as_db := (as_db demo_accounts)\<lparr>sd_members := [], sd_verifications :=
     [\<lparr>vr_email = ''n@b.c'', vr_code_hash = ''smartgate-email-verification-v1:n@b.c:123456'', vr_attempts = 0,
       vr_sent_at = 1, vr_expires_at = 100, vr_used_at = None\<rparr>]\<rparr>\<rparr>"

lemma demo_new_email: "normalize_email ''n@b.c'' = ''n@b.c''"
  by (simp add: normalize_email_def trim_def trim_chars_def is_whitespace_def is_cont_def byte_def
      to_ascii_lowercase_def is_ascii_upper_def Let_def)

theorem registration_uses_its_code_witness:
  "\<exists>st' ans. register demo_account_env \<lparr>re_email = ''n@b.c'', re_password = ''0123456789'', re_verification_code = ''123456''\<rparr>
     demo_pending = (st', Inr ans) \<and> (\<exists>u \<in> set (sd_users (as_db st')). su_email u = ''n@b.c'')"
proof -
  let ?in = "\<lparr>re_email = ''n@b.c'', re_password = ''0123456789'', re_verification_code = ''123456''\<rparr>"
  have valid: "validate_credentials ''n@b.c'' ''0123456789'' = Inr ()" "validate_verification_code ''123456'' = Inr ()"
    by (simp_all add: validate_credentials_def validate_email_def split_once_def starts_with_def ends_with_def
        validate_verification_code_def is_ascii_digit_def byte_def)
  obtain st' ans where run: "register demo_account_env ?in demo_pending = (st', Inr ans)"
    by (simp add: register_def demo_new_email valid register_tx_def demo_pending_def demo_account_simps Let_def
        verification_code_hash_def VERIFICATION_MAX_ATTEMPTS_def in_transaction_def try_then_def statement_def
        update_verification_def insert_user_def new_workspace_def create_session_def demo_catalog_simps)
  from registration_uses_its_code [OF this] run show ?thesis
    by (auto simp: demo_pending_def demo_new_email)
qed

text \<open>
  A wrong code is never counted: the increment is part of the transaction that the error
  answer drops, so the limit of five attempts never takes effect.
\<close>

theorem wrong_code_is_never_counted:
  assumes "register env input st = (st', Inl e)"
    and "find (\<lambda>v. vr_email v = normalize_email (re_email input)) (sd_verifications (as_db st)) = Some v"
    and "vr_code_hash v \<noteq> verification_code_hash (ae_hash env) (vr_email v) (re_verification_code input)"
  shows "st' = st"
proof -
  have "\<exists>db' x. register_tx env (normalize_email (re_email input)) input (as_db st) = (db', Inl x)"
    using assms(2,3) find_SomeD [OF assms(2)] by (auto simp: register_tx_def try_then_def statement_def)
  then have "\<exists>x. in_transaction (ae_ok env) (register_tx env (normalize_email (re_email input)) input) (as_db st) = (as_db st, Inl x)"
    by (auto simp: in_transaction_def)
  then show ?thesis
    using assms(1) by (auto simp: register_def Let_def try_then_def split: sum.splits)
qed

end
