(* ===== verification/Usage_Log.thy ===== *)
theory Usage_Log
  imports Pipeline Saas "HOL-Library.Product_Lexorder"
begin

text \<open>
  What the reporting handlers of saas/ and api/ share: the table \<open>usage_logs\<close>, whose
  rows are the ones Usage writes, each with the time it was inserted; the window and
  joins of the queries; \<open>BTreeMap\<close> as a list sorted by its keys; and the percentile.
  A SUM of doubles is rounded after every row, in the order of the table.
\<close>

section \<open>The table\<close>

type_synonym usage_log = "(nat \<times> usage_row) list"

definition row_ids :: "nat \<times> usage_row \<Rightarrow> usage_ids" where "row_ids r = fst (snd r)"
definition row_tokens :: "nat \<times> usage_row \<Rightarrow> usage_tokens" where "row_tokens r = fst (snd (snd r))"
definition row_settlement :: "nat \<times> usage_row \<Rightarrow> usage_settlement" where "row_settlement r = fst (snd (snd (snd r)))"
definition row_session :: "nat \<times> usage_row \<Rightarrow> usage_session" where "row_session r = snd (snd (snd (snd r)))"

text \<open>\<open>AND timestamp >= $n\<close>, left out when there is no bound.\<close>

definition within_range :: "int option \<Rightarrow> nat \<times> usage_row \<Rightarrow> bool" where
  "within_range since r = (case since of None \<Rightarrow> True | Some t \<Rightarrow> t \<le> int (fst r))"

text \<open>\<open>JOIN projects p ON p.id = u.project_id WHERE p.org_id = $1\<close>; the id of a project is its key.\<close>

definition of_org :: "catalog \<Rightarrow> string \<Rightarrow> nat \<times> usage_row \<Rightarrow> bool" where
  "of_org db org r = list_ex (\<lambda>p. ul_project_id (row_ids r) = Some (pj_id p) \<and> pj_org_id p = org) (ct_projects db)"

definition org_rows :: "catalog \<Rightarrow> string \<Rightarrow> int option \<Rightarrow> usage_log \<Rightarrow> usage_log" where
  "org_rows db org since logs = filter (\<lambda>r. of_org db org r \<and> within_range since r) logs"

text \<open>The LEFT JOINs: a row whose account, endpoint or model is gone is kept.\<close>

definition row_account :: "catalog \<Rightarrow> nat \<times> usage_row \<Rightarrow> provider_account option" where
  "row_account db r = find (\<lambda>a. ul_provider_account_id (row_ids r) = Some (pa_id a)) (ct_accounts db)"

definition row_endpoint :: "catalog \<Rightarrow> nat \<times> usage_row \<Rightarrow> endpoint_row option" where
  "row_endpoint db r = find (\<lambda>e. er_id e = ul_endpoint_id (row_ids r)) (ct_endpoints db)"

definition row_model :: "catalog \<Rightarrow> nat \<times> usage_row \<Rightarrow> virtual_model option" where
  "row_model db r = find (\<lambda>vm. ul_virtual_model_id (row_ids r) = Some (vm_id vm)) (ct_virtual_models db)"

definition newest_first :: "usage_log \<Rightarrow> usage_log" where
  "newest_first = sort_by (\<lambda>a b. cmp_of (fst b) (fst a))"

definition oldest_first :: "usage_log \<Rightarrow> usage_log" where
  "oldest_first = sort_by (\<lambda>a b. cmp_of (fst a) (fst b))"

definition sum_cost :: "usage_log \<Rightarrow> f64" where
  "sum_cost logs = foldl (\<lambda>c r. fadd c (ul_estimated_cost (row_settlement r))) 0 logs"

definition int_json :: "int \<Rightarrow> json" where "int_json i = Number (IntN i)"

definition f64_of_int :: "int \<Rightarrow> f64" where "f64_of_int i = rnd (of_int i)"

definition succeeded :: "int \<Rightarrow> bool" where "succeeded status \<longleftrightarrow> 200 \<le> status \<and> status < 300"

section \<open>Ordered maps\<close>

text \<open>\<open>entry(k).and_modify(f).or_insert(v)\<close>; \<open>or_default() += n\<close> is the case where \<open>v\<close> is \<open>f\<close> of the default.\<close>

fun entry :: "'k::linorder \<Rightarrow> ('v \<Rightarrow> 'v) \<Rightarrow> 'v \<Rightarrow> ('k \<times> 'v) list \<Rightarrow> ('k \<times> 'v) list" where
  "entry k f v [] = [(k, v)]"
| "entry k f v ((k', v') # m) =
     (if k = k' then (k', f v') # m else if k < k' then (k, v) # (k', v') # m else (k', v') # entry k f v m)"

definition count_entry :: "'k::linorder \<Rightarrow> ('k \<times> int) list \<Rightarrow> ('k \<times> int) list" where
  "count_entry k m = entry k (\<lambda>n. n + 1) 1 m"

definition sorted_keys :: "('k::linorder \<times> 'v) list \<Rightarrow> bool" where
  "sorted_keys m \<longleftrightarrow> sorted_wrt (<) (map fst m)"

lemma keys_entry: "fst ` set (entry k f v m) = insert k (fst ` set m)"
proof (induction m)
  case (Cons p m)
  then show ?case by (cases p) (simp add: insert_commute)
qed simp

lemma sorted_entry [simp]: "sorted_keys m \<Longrightarrow> sorted_keys (entry k f v m)"
proof (induction m)
  case (Cons p m)
  then show ?case using keys_entry [of k f v m] by (cases p) (auto simp: sorted_keys_def)
qed (simp add: sorted_keys_def)

lemma map_of_entry:
  "sorted_keys m \<Longrightarrow> map_of (entry k f v m) = (map_of m)(k \<mapsto> (case map_of m k of None \<Rightarrow> v | Some x \<Rightarrow> f x))"
proof (induction m)
  case (Cons p m)
  obtain k' v' where p: "p = (k', v')" by force
  have above: "k' < a" if "a \<in> fst ` set m" for a using Cons.prems that by (auto simp: sorted_keys_def p)
  have "map_of m k = None" if "k < k'" using above that by (auto simp: map_of_eq_None_iff dest: less_trans)
  with Cons show ?case by (auto simp: p sorted_keys_def fun_upd_twist)
qed (simp add: fun_eq_iff)

text \<open>A count added to one entry is added to the total.\<close>

lemma sum_entry:
  assumes "\<And>x. g (f x) = g x + (d :: 'a :: ab_group_add)" "g v = d"
  shows "sum_list (map (\<lambda>(_, x). g x) (entry k f v m)) = sum_list (map (\<lambda>(_, x). g x) m) + d"
  by (induction m) (auto simp: assms algebra_simps)

lemma sum_count_entry: "sum_list (map snd (count_entry k m)) = sum_list (map snd m) + 1"
  using sum_entry [of "\<lambda>n. n" "\<lambda>n. n + 1" 1 1 k m] by (simp add: count_entry_def case_prod_beta')

lemma sorted_count_entry [simp]: "sorted_keys m \<Longrightarrow> sorted_keys (count_entry k m)"
  by (simp add: count_entry_def)

lemma map_of_count_entry:
  "sorted_keys m \<Longrightarrow> map_of (count_entry k m) = (map_of m)(k \<mapsto> (case map_of m k of None \<Rightarrow> 1 | Some n \<Rightarrow> n + 1))"
  by (simp add: count_entry_def map_of_entry)

text \<open>A fold over the rows that counts them by a key is their histogram.\<close>

definition tally_of :: "('a \<Rightarrow> 'k::linorder) \<Rightarrow> 'a list \<Rightarrow> ('k \<times> int) list" where
  "tally_of key rows = foldl (\<lambda>m r. count_entry (key r) m) [] rows"

definition occurrences :: "('a \<Rightarrow> 'k) \<Rightarrow> 'k \<Rightarrow> 'a list \<Rightarrow> nat" where
  "occurrences key k rows = length (filter (\<lambda>r. key r = k) rows)"

definition histogram :: "('a \<Rightarrow> 'k::linorder) \<Rightarrow> 'a list \<Rightarrow> ('k \<times> int) list \<Rightarrow> bool" where
  "histogram key rows m \<longleftrightarrow> sorted_keys m \<and> sum_list (map snd m) = int (length rows) \<and>
     (\<forall>k. map_of m k = (if occurrences key k rows = 0 then None else Some (int (occurrences key k rows))))"

lemma histogram_snoc: "histogram key rows m \<Longrightarrow> histogram key (rows @ [r]) (count_entry (key r) m)"
  unfolding histogram_def occurrences_def by (simp add: sum_count_entry map_of_count_entry)

lemma histogram_tally_of: "histogram key rows (tally_of key rows)"
proof (induction rows rule: rev_induct)
  case Nil
  show ?case by (simp add: histogram_def tally_of_def sorted_keys_def occurrences_def)
next
  case (snoc r rows)
  then show ?case using histogram_snoc by (force simp: tally_of_def)
qed

text \<open>One component of a state a loop updates.\<close>

lemma foldl_component:
  assumes "\<And>g r. c (f g r) = h (c g) r"
  shows "c (foldl f g rows) = foldl h (c g) rows"
  by (induction rows arbitrary: g) (simp_all add: assms)

lemma foldl_plus: "foldl (\<lambda>n r. n + f r) (a :: 'b :: comm_monoid_add) rows = a + sum_list (map f rows)"
  by (induction rows arbitrary: a) (simp_all add: add.assoc)

lemma foldl_append: "foldl (\<lambda>xs r. xs @ [f r]) ys rows = ys @ map f rows"
  by (induction rows arbitrary: ys) simp_all

text \<open>The share of a part is between 0 and 1.\<close>

lemma share_bounds:
  assumes "0 \<le> a" "a \<le> n" "0 < n"
  shows "0 \<le> fdiv (f64_of_int a) (f64_of_int n) \<and> fdiv (f64_of_int a) (f64_of_int n) \<le> 1"
proof -
  have 1: "0 \<le> f64_of_int a" "f64_of_int a \<le> f64_of_int n"
    using assms by (simp_all add: f64_of_int_def rnd_nonneg rnd_mono)
  have "rnd 1 \<le> f64_of_int n" unfolding f64_of_int_def using assms by (intro rnd_mono) simp
  then have "0 < f64_of_int n" by (simp add: f64.one)
  then have "0 \<le> f64_of_int a / f64_of_int n" "f64_of_int a / f64_of_int n \<le> 1" using 1 by simp_all
  then show ?thesis unfolding fdiv_def using rnd_nonneg rnd_mono [of "f64_of_int a / f64_of_int n" 1] by (simp add: f64.one)
qed

section \<open>Percentiles\<close>

definition profile_percentile :: "int list \<Rightarrow> f64 \<Rightarrow> f64 option" where
  "profile_percentile values fraction =
     (if values = [] then None
      else let sorted = sort values;
               index = nat_of_f64 (fround (fmul (f64_of_nat (length sorted - 1)) fraction))
           in Some (f64_of_int (sorted ! min index (length sorted - 1))))"

lemma percentile_member:
  "profile_percentile values q = Some x \<Longrightarrow> \<exists>v \<in> set values. x = f64_of_int v"
proof -
  assume p: "profile_percentile values q = Some x"
  let ?s = "sort values"
  define i where "i = min (nat_of_f64 (fround (fmul (f64_of_nat (length ?s - 1)) q))) (length ?s - 1)"
  have ne: "values \<noteq> []" and x: "x = f64_of_int (?s ! i)"
    using p by (auto simp: profile_percentile_def i_def Let_def split: if_splits)
  then have "i < length ?s" by (simp add: i_def min_less_iff_disj)
  then have "?s ! i \<in> set ?s" by (rule nth_mem)
  then show ?thesis using x by auto
qed

lemma fround_mono: "x \<le> y \<Longrightarrow> fround x \<le> fround y"
proof -
  assume le: "x \<le> y"
  consider "0 \<le> x" | "x < 0" "0 \<le> y" | "y < 0" using le by linarith
  then show ?thesis
  proof cases
    case 1
    then show ?thesis using le by (simp add: fround_def floor_mono)
  next
    case 2
    have "0 \<le> \<lfloor>- x + 1 / 2\<rfloor>" "0 \<le> \<lfloor>y + 1 / 2\<rfloor>" using 2 by auto
    then have "- of_int \<lfloor>- x + 1 / 2\<rfloor> \<le> (0 :: rat)" "(0 :: rat) \<le> of_int \<lfloor>y + 1 / 2\<rfloor>" by simp_all
    then have "- of_int \<lfloor>- x + 1 / 2\<rfloor> \<le> (of_int \<lfloor>y + 1 / 2\<rfloor> :: rat)" by (rule order_trans)
    then show ?thesis unfolding fround_def using 2 by (simp del: of_int_minus)
  next
    case 3
    then have "\<lfloor>- y + 1 / 2\<rfloor> \<le> \<lfloor>- x + 1 / 2\<rfloor>" using le by (intro floor_mono) simp
    then show ?thesis using 3 le by (simp add: fround_def)
  qed
qed

lemma nat_of_f64_mono: "x \<le> y \<Longrightarrow> nat_of_f64 x \<le> nat_of_f64 y"
  by (auto simp: nat_of_f64_def intro!: nat_mono floor_mono)

lemma percentile_mono:
  assumes "profile_percentile values p = Some x" "profile_percentile values q = Some y" "p \<le> q"
  shows "x \<le> y"
proof -
  let ?s = "sort values" and ?i = "\<lambda>q. min (nat_of_f64 (fround (fmul (f64_of_nat (length values - 1)) q))) (length values - 1)"
  have ne: "values \<noteq> []" and xy: "x = f64_of_int (?s ! ?i p)" "y = f64_of_int (?s ! ?i q)"
    using assms(1,2) by (auto simp: profile_percentile_def Let_def split: if_splits)
  have "fmul (f64_of_nat n) p \<le> fmul (f64_of_nat n) q" for n
    unfolding fmul_def by (intro rnd_mono mult_left_mono assms(3)) simp
  then have "?i p \<le> ?i q" using nat_of_f64_mono [OF fround_mono] by (simp add: min_le_iff_disj)
  moreover have "?i q < length ?s" using ne by (simp add: min_less_iff_disj)
  ultimately have "?s ! ?i p \<le> ?s ! ?i q" by (intro sorted_nth_mono) simp_all
  then show ?thesis unfolding xy f64_of_int_def by (intro rnd_mono) simp
qed

section \<open>A row for the witnesses\<close>

definition demo_usage_row :: usage_row where
  "demo_usage_row =
     (\<lparr>ul_id = ''u1'', ul_org_id = Some ''o'', ul_project_id = Some ''p'', ul_key_id = Some ''k'', ul_virtual_model_id = Some ''v1'',
       ul_pool_id = Some ''mp'', ul_endpoint_id = ''e'', ul_provider_account_id = None\<rparr>,
      \<lparr>ul_prompt_tokens = 10, ul_completion_tokens = 5, ul_total_tokens = 15, ul_cache_hit_tokens = None,
       ul_cache_write_tokens = None, ul_latency_ms = 80, ul_ttft_ms = None, ul_cached_input_tokens = 0,
       ul_tool_message_chars = 0, ul_trimmed_chars = 0\<rparr>,
      \<lparr>ul_status_code = 200, ul_error_message = None, ul_metadata = ''x'', ul_estimated_cost = 0, ul_routing_strategy = None,
       ul_routing_decision = None, ul_usage_source = ''provider_reported'', ul_usage_confidence = ''high'',
       ul_pricing_source = ''unpriced'', ul_input_price_snapshot = 0, ul_output_price_snapshot = 0, ul_pricing_version = None\<rparr>,
      \<lparr>ul_session_id = None, ul_turn_index = None, ul_affinity_applied = 0, ul_affinity_hit = 0, ul_prefix_hash = None,
       ul_context_epoch = 0\<rparr>)"

end
