(* ===== verification/Api_Keys.thy ===== *)
theory Api_Keys
  imports Saas Judge
begin

text \<open>
  saas/api\_keys.rs: the API keys of a workspace and the usage profile of a key. The
  handlers run for a \<open>saas_context\<close>. Unicode lower case, the token hash, uuids, the text
  order of the database and the JSON parser are the environment; a parsed object lists
  its members in the order the parser's map iterates them.
\<close>

section \<open>Requests and environment\<close>

record create_key_request =
  kr_name :: string
  kr_model_service_ids :: "string list"
  kr_daily_spend_limit :: "f64 option"
  kr_rpm_limit :: "int option"
  kr_concurrency_limit :: "int option"

record key_env =
  ke_ok :: statements
  ke_now :: nat
  ke_hash :: "string \<Rightarrow> string"
  ke_uuid :: "string \<Rightarrow> string"
  ke_lower :: "string \<Rightarrow> string"
  ke_collate :: "string \<Rightarrow> string \<Rightarrow> ordering"

definition not_found :: "string \<Rightarrow> nat \<times> string" where
  "not_found message = (404, message)"

definition bad_request :: "string \<Rightarrow> nat \<times> string" where
  "bad_request message = (400, message)"

section \<open>Creating and updating a key\<close>

text \<open>\<open>sort\<close> and \<open>dedup\<close>: strings compare bytewise.\<close>

definition service_ids_of :: "create_key_request \<Rightarrow> string list" where
  "service_ids_of input = remdups_adj (sort (kr_model_service_ids input))"

text \<open>The rows of the counting join: Virtual Models of the organization's pools granted to the project.\<close>

definition matching_services :: "saas_db \<Rightarrow> saas_context \<Rightarrow> bool \<Rightarrow> string list \<Rightarrow> virtual_model list" where
  "matching_services db cx only_enabled ids =
     concat (map (\<lambda>vm. concat (map (\<lambda>mp. concat (map (\<lambda>(p, v).
        if mp_id mp = vm_pool_id vm \<and> v = vm_id vm \<and> sd_pool_org db (mp_id mp) = Some (cx_org_id cx) \<and>
           p = cx_project_id cx \<and> (only_enabled \<longrightarrow> vm_enabled vm) \<and> vm_id vm \<in> set ids then [vm] else [])
        (ct_project_grants (sd_cat db)))) (ct_model_pools (sd_cat db)))) (ct_virtual_models (sd_cat db)))"

text \<open>The checks both handlers share: a name, at least one service, every service available.\<close>

definition checked_input ::
    "key_env \<Rightarrow> saas_db \<Rightarrow> saas_context \<Rightarrow> bool \<Rightarrow> create_key_request \<Rightarrow> (string \<times> string list) api" where
  "checked_input env db cx only_enabled input =
     (let name = trim (kr_name input); ids = service_ids_of input in
      if name = [] then Inl (bad_request ''Key name is required'')
      else if kr_model_service_ids input = [] then Inl (bad_request ''Select at least one model service'')
      else if \<not> ke_ok env ''count services'' then Inl db_error
      else if length (matching_services db cx only_enabled ids) \<noteq> length ids
      then Inl (bad_request ''One or more selected model services are unavailable'')
      else Inr (name, ids))"

text \<open>\<open>idx_api_keys_project_name\<close>: unique on the project and the lower-case name.\<close>

definition name_taken :: "key_env \<Rightarrow> string \<Rightarrow> string \<Rightarrow> api_key_row list \<Rightarrow> bool" where
  "name_taken env project name rows \<longleftrightarrow>
     list_ex (\<lambda>k. ak_project_id k = project \<and> ke_lower env (ak_name k) = ke_lower env name) rows"

definition key_conflict :: "nat \<times> string" where
  "key_conflict = (409, ''An API key with this name already exists'')"

definition update_cat :: "(catalog \<Rightarrow> catalog) \<Rightarrow> saas_db \<Rightarrow> saas_db" where
  "update_cat f db = db\<lparr>sd_cat := f (sd_cat db)\<rparr>"

definition insert_key :: "key_env \<Rightarrow> api_key_row \<Rightarrow> saas_db \<Rightarrow> saas_db \<times> unit api" where
  "insert_key env k db =
     (let rows = ct_api_keys (sd_cat db) in
      if \<not> ke_ok env ''insert key'' \<or> taken ak_id (ak_id k) rows \<or> taken ak_key_hash (ak_key_hash k) rows \<or>
         \<not> taken pj_id (ak_project_id k) (ct_projects (sd_cat db)) then (db, Inl db_error)
      else if name_taken env (ak_project_id k) (ak_name k) rows then (db, Inl key_conflict)
      else (update_cat (\<lambda>c. c\<lparr>ct_api_keys := ct_api_keys c @ [k]\<rparr>) db, Inr ()))"

text \<open>One insert per service, with the primary key and the foreign keys of the grant table.\<close>

fun insert_grants :: "key_env \<Rightarrow> string \<Rightarrow> string list \<Rightarrow> saas_db \<Rightarrow> saas_db \<times> unit api" where
  "insert_grants env key_id [] db = (db, Inr ())"
| "insert_grants env key_id (v # vs) db = try_then
     (statement (ke_ok env (''grant '' @ v) \<and> (key_id, v) \<notin> set (ct_key_grants (sd_cat db)) \<and>
        taken ak_id key_id (ct_api_keys (sd_cat db)) \<and> taken vm_id v (ct_virtual_models (sd_cat db)))
        db (update_cat (\<lambda>c. c\<lparr>ct_key_grants := ct_key_grants c @ [(key_id, v)]\<rparr>) db))
     (\<lambda>_ db. insert_grants env key_id vs db)"

record created_key =
  ck_id :: string
  ck_name :: string
  ck_key :: string
  ck_prefix :: string
  ck_service_ids :: "string list"

text \<open>The token is ASCII, so its slices are on character boundaries.\<close>

definition token_prefix :: "string \<Rightarrow> string" where
  "token_prefix raw = take 7 raw @ ''...'' @ drop (length raw - 4) raw"

definition new_key_row :: "key_env \<Rightarrow> saas_context \<Rightarrow> create_key_request \<Rightarrow> string \<Rightarrow> string \<Rightarrow> api_key_row" where
  "new_key_row env cx input name raw =
     \<lparr>ak_id = ke_uuid env ''key'', ak_project_id = cx_project_id cx, ak_name = name,
      ak_key_hash = ke_hash env raw, ak_key_prefix = token_prefix raw, ak_enabled = True, ak_metadata = None,
      ak_rpm_limit = kr_rpm_limit input, ak_concurrency_limit = kr_concurrency_limit input,
      ak_daily_spend_limit = kr_daily_spend_limit input, ak_last_used_at = None,
      ak_created_at = ke_now env, ak_updated_at = ke_now env\<rparr>"

definition create_api_key ::
    "key_env \<Rightarrow> saas_context \<Rightarrow> create_key_request \<Rightarrow> saas_db \<Rightarrow> saas_db \<times> created_key api" where
  "create_api_key env cx input db = (case checked_input env db cx False input of
     Inl e \<Rightarrow> (db, Inl e)
   | Inr (name, ids) \<Rightarrow>
     let raw = ''pk_'' @ ke_uuid env ''token''; i = ke_uuid env ''key'' in
     in_transaction (ke_ok env) (\<lambda>db.
       try_then (insert_key env (new_key_row env cx input name raw) db) (\<lambda>_ db.
       try_then (insert_grants env i ids db) (\<lambda>_ db.
       (db, Inr \<lparr>ck_id = i, ck_name = name, ck_key = raw, ck_prefix = token_prefix raw, ck_service_ids = ids\<rparr>)))) db)"

definition update_keys :: "string \<Rightarrow> string \<Rightarrow> (api_key_row \<Rightarrow> api_key_row) \<Rightarrow> saas_db \<Rightarrow> saas_db" where
  "update_keys key_id project f = update_cat (\<lambda>c. c\<lparr>ct_api_keys :=
     map (\<lambda>k. if ak_id k = key_id \<and> ak_project_id k = project then f k else k) (ct_api_keys c)\<rparr>)"

definition own_keys :: "string \<Rightarrow> string \<Rightarrow> saas_db \<Rightarrow> api_key_row list" where
  "own_keys key_id project db =
     filter (\<lambda>k. ak_id k = key_id \<and> ak_project_id k = project) (ct_api_keys (sd_cat db))"

definition update_key_row ::
    "key_env \<Rightarrow> saas_context \<Rightarrow> string \<Rightarrow> create_key_request \<Rightarrow> string \<Rightarrow> saas_db \<Rightarrow> saas_db \<times> unit api" where
  "update_key_row env cx key_id input name db =
     (if \<not> ke_ok env ''update key'' then (db, Inl db_error)
      else if own_keys key_id (cx_project_id cx) db = [] then (db, Inl (not_found ''API key not found''))
      else if name_taken env (cx_project_id cx) name
                (filter (\<lambda>k. ak_id k \<noteq> key_id) (ct_api_keys (sd_cat db))) then (db, Inl key_conflict)
      else (update_keys key_id (cx_project_id cx) (\<lambda>k. k\<lparr>ak_name := name, ak_rpm_limit := kr_rpm_limit input,
              ak_concurrency_limit := kr_concurrency_limit input,
              ak_daily_spend_limit := kr_daily_spend_limit input, ak_updated_at := ke_now env\<rparr>) db, Inr ()))"

definition clear_grants :: "string \<Rightarrow> saas_db \<Rightarrow> saas_db" where
  "clear_grants key_id = update_cat (\<lambda>c. c\<lparr>ct_key_grants := filter (\<lambda>(k, _). k \<noteq> key_id) (ct_key_grants c)\<rparr>)"

definition update_api_key ::
    "key_env \<Rightarrow> saas_context \<Rightarrow> string \<Rightarrow> create_key_request \<Rightarrow> saas_db \<Rightarrow> saas_db \<times> string list api" where
  "update_api_key env cx key_id input db = (case checked_input env db cx True input of
     Inl e \<Rightarrow> (db, Inl e)
   | Inr (name, ids) \<Rightarrow>
     in_transaction (ke_ok env) (\<lambda>db.
       try_then (update_key_row env cx key_id input name db) (\<lambda>_ db.
       try_then (statement (ke_ok env ''delete grants'') db (clear_grants key_id db)) (\<lambda>_ db.
       try_then (insert_grants env key_id ids db) (\<lambda>_ db. (db, Inr ids))))) db)"

section \<open>Revoking, deleting, listing\<close>

definition revoke_api_key :: "key_env \<Rightarrow> saas_context \<Rightarrow> string \<Rightarrow> saas_db \<Rightarrow> saas_db \<times> json api" where
  "revoke_api_key env cx key_id db =
     (if \<not> ke_ok env ''revoke key'' then (db, Inl db_error)
      else if own_keys key_id (cx_project_id cx) db = [] then (db, Inl (not_found ''API key not found''))
      else (update_keys key_id (cx_project_id cx) (\<lambda>k. k\<lparr>ak_enabled := False, ak_updated_at := ke_now env\<rparr>) db,
            Inr (Object [(''revoked'', Bool True)])))"

text \<open>The grants of a deleted key go with it (ON DELETE CASCADE).\<close>

definition delete_api_key :: "key_env \<Rightarrow> saas_context \<Rightarrow> string \<Rightarrow> saas_db \<Rightarrow> saas_db \<times> json api" where
  "delete_api_key env cx key_id db =
     (if \<not> ke_ok env ''delete key'' then (db, Inl db_error)
      else if own_keys key_id (cx_project_id cx) db = [] then (db, Inl (not_found ''API key not found''))
      else (clear_grants key_id (update_cat (\<lambda>c. c\<lparr>ct_api_keys :=
              filter (\<lambda>k. \<not> (ak_id k = key_id \<and> ak_project_id k = cx_project_id cx)) (ct_api_keys c)\<rparr>) db),
            Inr (Object [(''deleted'', Bool True)])))"

definition key_services :: "key_env \<Rightarrow> saas_db \<Rightarrow> string \<Rightarrow> (string \<times> string) list" where
  "key_services env db key_id = sort_by (\<lambda>a b. ke_collate env (snd a) (snd b))
     (concat (map (\<lambda>(k, v). if k = key_id
        then map (\<lambda>vm. (vm_id vm, vm_name vm)) (filter (\<lambda>vm. vm_id vm = v) (ct_virtual_models (sd_cat db)))
        else []) (ct_key_grants (sd_cat db))))"

record listed_key =
  lk_id :: string
  lk_name :: string
  lk_prefix :: string
  lk_enabled :: bool
  lk_rpm_limit :: "int option"
  lk_concurrency_limit :: "int option"
  lk_daily_spend_limit :: "f64 option"
  lk_last_used_at :: "nat option"
  lk_created_at :: nat
  lk_model_services :: "(string \<times> string) list"

definition listed :: "key_env \<Rightarrow> saas_db \<Rightarrow> api_key_row \<Rightarrow> listed_key" where
  "listed env db k = \<lparr>lk_id = ak_id k, lk_name = ak_name k, lk_prefix = ak_key_prefix k, lk_enabled = ak_enabled k,
     lk_rpm_limit = ak_rpm_limit k, lk_concurrency_limit = ak_concurrency_limit k,
     lk_daily_spend_limit = ak_daily_spend_limit k, lk_last_used_at = ak_last_used_at k,
     lk_created_at = ak_created_at k, lk_model_services = key_services env db (ak_id k)\<rparr>"

text \<open>Newest first.\<close>

definition list_api_keys :: "key_env \<Rightarrow> saas_context \<Rightarrow> saas_db \<Rightarrow> listed_key list api" where
  "list_api_keys env cx db =
     (let rows = sort_by (\<lambda>a b. cmp_of (ak_created_at b) (ak_created_at a))
                   (filter (\<lambda>k. ak_project_id k = cx_project_id cx) (ct_api_keys (sd_cat db)))
      in if ke_ok env ''list keys'' \<and> list_all (\<lambda>k. ke_ok env (''services of '' @ ak_id k)) rows
         then Inr (map (listed env db) rows) else Inl db_error)"

section \<open>Any key operation\<close>

text \<open>The context, whether it succeeded, and the hash of a token it created.\<close>

inductive key_step :: "saas_context \<Rightarrow> saas_db \<Rightarrow> bool \<Rightarrow> string option \<Rightarrow> saas_db \<Rightarrow> bool" where
  create_step: "create_api_key env cx input db = (db', r) \<Longrightarrow>
     key_step cx db (\<not> isl r) (Some (ke_hash env (''pk_'' @ ke_uuid env ''token''))) db'"
| update_step: "update_api_key env cx i input db = (db', r') \<Longrightarrow> key_step cx db (\<not> isl r') None db'"
| revoke_step: "revoke_api_key env cx i db = (db', r'') \<Longrightarrow> key_step cx db (\<not> isl r'') None db'"
| delete_step: "delete_api_key env cx i db = (db', r'') \<Longrightarrow> key_step cx db (\<not> isl r'') None db'"

section \<open>Lemmas\<close>

lemma update_cat_simps [simp]:
  "sd_cat (update_cat f db) = f (sd_cat db)" "update_cat f (update_cat g db) = update_cat (\<lambda>c. f (g c)) db"
  "sd_pool_org (update_cat f db) = sd_pool_org db"
  by (simp_all add: update_cat_def)

lemma insert_grants_Inr:
  "insert_grants env i vs db = (db', Inr ()) \<Longrightarrow>
     db' = update_cat (\<lambda>c. c\<lparr>ct_key_grants := ct_key_grants c @ map (Pair i) vs\<rparr>) db"
proof (induction vs arbitrary: db)
  case Nil
  then show ?case by (simp add: update_cat_def)
next
  case (Cons v vs)
  then show ?case by (fastforce simp: try_then_Inr)
qed

lemma checked_input_Inr:
  "checked_input env db cx only_enabled input = Inr (name, ids) \<longleftrightarrow>
     name = trim (kr_name input) \<and> name \<noteq> [] \<and> kr_model_service_ids input \<noteq> [] \<and> ids = service_ids_of input \<and>
     ke_ok env ''count services'' \<and> length (matching_services db cx only_enabled ids) = length ids"
  by (auto simp: checked_input_def Let_def bad_request_def db_error_def)

lemma set_service_ids [simp]: "set (service_ids_of input) = set (kr_model_service_ids input)"
  by (simp add: service_ids_of_def)

lemma distinct_service_ids [simp]: "distinct (service_ids_of input)"
proof -
  have "sorted xs \<Longrightarrow> distinct (remdups_adj xs)" for xs :: "string list"
    by (induction xs rule: remdups_adj.induct) auto
  then show ?thesis by (simp add: service_ids_of_def)
qed

lemma create_api_key_Inr:
  assumes "create_api_key env cx input db = (db', Inr ck)"
  shows "\<exists>row. row = new_key_row env cx input (trim (kr_name input)) (ck_key ck) \<and> ck_key ck = ''pk_'' @ ke_uuid env ''token'' \<and>
     ck_id ck = ke_uuid env ''key'' \<and> ck_service_ids ck = service_ids_of input \<and>
     ak_id row \<notin> ak_id ` set (ct_api_keys (sd_cat db)) \<and>
     ak_key_hash row \<notin> ak_key_hash ` set (ct_api_keys (sd_cat db)) \<and>
     cx_project_id cx \<in> pj_id ` set (ct_projects (sd_cat db)) \<and>
     length (matching_services db cx False (service_ids_of input)) = length (service_ids_of input) \<and>
     db' = update_cat (\<lambda>c. c\<lparr>ct_api_keys := ct_api_keys c @ [row],
       ct_key_grants := ct_key_grants c @ map (Pair (ck_id ck)) (service_ids_of input)\<rparr>) db"
proof -
  obtain name ids where c: "checked_input env db cx False input = Inr (name, ids)"
    using assms by (auto simp: create_api_key_def split: sum.splits)
  then obtain db1 where 1: "insert_key env (new_key_row env cx input name (''pk_'' @ ke_uuid env ''token'')) db = (db1, Inr ())"
    and 2: "insert_grants env (ke_uuid env ''key'') ids db1 = (db', Inr ())"
    and ck: "ck = \<lparr>ck_id = ke_uuid env ''key'', ck_name = name, ck_key = ''pk_'' @ ke_uuid env ''token'',
      ck_prefix = token_prefix (''pk_'' @ ke_uuid env ''token''), ck_service_ids = ids\<rparr>"
    using assms by (auto simp: create_api_key_def Let_def in_transaction_Inr try_then_Inr)
  have "ids = service_ids_of input" "name = trim (kr_name input)"
    "length (matching_services db cx False (service_ids_of input)) = length (service_ids_of input)"
    using c by (auto simp: checked_input_Inr)
  with 1 insert_grants_Inr [OF 2] ck show ?thesis
    by (auto simp: insert_key_def Let_def new_key_row_def split: if_splits)
qed

lemma create_api_key_Inl: "create_api_key env cx input db = (db', Inl e) \<Longrightarrow> db' = db"
  by (auto simp: create_api_key_def Let_def dest: in_transaction_Inl split: sum.splits)

lemma update_api_key_Inl: "update_api_key env cx i input db = (db', Inl e) \<Longrightarrow> db' = db"
  by (auto simp: update_api_key_def Let_def dest: in_transaction_Inl split: sum.splits)

lemma update_api_key_Inr:
  assumes "update_api_key env cx i input db = (db', Inr ids)"
  shows "ids = service_ids_of input \<and> own_keys i (cx_project_id cx) db \<noteq> [] \<and>
     (\<exists>f. (\<forall>k. ak_id (f k) = ak_id k \<and> ak_project_id (f k) = ak_project_id k \<and> ak_key_hash (f k) = ak_key_hash k \<and>
            ak_enabled (f k) = ak_enabled k) \<and>
        db' = update_cat (\<lambda>c. c\<lparr>ct_key_grants := ct_key_grants c @ map (Pair i) ids\<rparr>)
          (clear_grants i (update_keys i (cx_project_id cx) f db)))"
proof -
  obtain name ids' where c: "checked_input env db cx True input = Inr (name, ids')"
    using assms by (auto simp: update_api_key_def split: sum.splits)
  then obtain db1 where 1: "update_key_row env cx i input name db = (db1, Inr ())"
    and 2: "insert_grants env i ids' (clear_grants i db1) = (db', Inr ())" and ids: "ids = ids'"
    using assms by (auto simp: update_api_key_def in_transaction_Inr try_then_Inr)
  have "ids' = service_ids_of input" using c by (simp add: checked_input_Inr)
  with 1 insert_grants_Inr [OF 2] ids show ?thesis
    by (auto simp: update_key_row_def not_found_def split: if_splits
        intro!: exI [of _ "\<lambda>k. k\<lparr>ak_name := name, ak_rpm_limit := kr_rpm_limit input,
              ak_concurrency_limit := kr_concurrency_limit input,
              ak_daily_spend_limit := kr_daily_spend_limit input, ak_updated_at := ke_now env\<rparr>"])
qed

section \<open>The tables stay well-formed\<close>

text \<open>
  What the primary keys, the unique hash and the grants promise: in particular every
  model a key is granted is granted to the key's project.
\<close>

definition keys_ok :: "saas_db \<Rightarrow> bool" where
  "keys_ok db \<longleftrightarrow> distinct (map vm_id (ct_virtual_models (sd_cat db))) \<and>
     distinct (map mp_id (ct_model_pools (sd_cat db))) \<and> distinct (ct_project_grants (sd_cat db)) \<and>
     distinct (map ak_id (ct_api_keys (sd_cat db))) \<and> distinct (map ak_key_hash (ct_api_keys (sd_cat db))) \<and>
     (\<forall>(k, v) \<in> set (ct_key_grants (sd_cat db)). \<exists>key \<in> set (ct_api_keys (sd_cat db)).
        ak_id key = k \<and> (ak_project_id key, v) \<in> set (ct_project_grants (sd_cat db)))"

lemma concat_map_unique:
  assumes "distinct (map key xs)"
  shows "concat (map (\<lambda>x. if key x = k \<and> P x then [y] else []) xs) =
     (if \<exists>x \<in> set xs. key x = k \<and> P x then [y] else [])"
  using assms
proof (induction xs)
  case (Cons x xs)
  show ?case
  proof (cases "key x = k")
    case True
    then have "\<forall>x' \<in> set xs. key x' \<noteq> k" using Cons.prems by (metis distinct.simps(2) image_eqI list.set_map list.simps(9))
    moreover from this have "concat (map (\<lambda>x. if key x = k \<and> P x then [y] else []) xs) = []" by simp
    ultimately show ?thesis using True by simp
  next
    case False
    then show ?thesis using Cons by simp
  qed
qed simp

definition grantable :: "saas_db \<Rightarrow> saas_context \<Rightarrow> bool \<Rightarrow> string list \<Rightarrow> virtual_model \<Rightarrow> bool" where
  "grantable db cx only_enabled ids vm \<longleftrightarrow>
     (\<exists>mp \<in> set (ct_model_pools (sd_cat db)). mp_id mp = vm_pool_id vm \<and>
        sd_pool_org db (mp_id mp) = Some (cx_org_id cx)) \<and>
     (cx_project_id cx, vm_id vm) \<in> set (ct_project_grants (sd_cat db)) \<and>
     (only_enabled \<longrightarrow> vm_enabled vm) \<and> vm_id vm \<in> set ids"

lemma filter_concat_singleton: "concat (map (\<lambda>x. if P x then [x] else []) xs) = filter P xs"
  by (induction xs) auto

lemma matching_services_filter:
  assumes "keys_ok db"
  shows "matching_services db cx en ids = filter (grantable db cx en ids) (ct_virtual_models (sd_cat db))"
proof -
  let ?G = "ct_project_grants (sd_cat db)" and ?P = "ct_model_pools (sd_cat db)"
  have "concat (map (\<lambda>(p, v). if mp_id mp = vm_pool_id vm \<and> v = vm_id vm \<and> sd_pool_org db (mp_id mp) = Some (cx_org_id cx) \<and>
           p = cx_project_id cx \<and> (en \<longrightarrow> vm_enabled vm) \<and> vm_id vm \<in> set ids then [vm] else []) ?G) =
     (if mp_id mp = vm_pool_id vm \<and> (sd_pool_org db (mp_id mp) = Some (cx_org_id cx) \<and>
        (cx_project_id cx, vm_id vm) \<in> set ?G \<and> (en \<longrightarrow> vm_enabled vm) \<and> vm_id vm \<in> set ids) then [vm] else [])" for mp :: model_pool and vm :: virtual_model
  proof -
    let ?P = "mp_id mp = vm_pool_id vm \<and> sd_pool_org db (mp_id mp) = Some (cx_org_id cx) \<and>
      (en \<longrightarrow> vm_enabled vm) \<and> vm_id vm \<in> set ids"
    have "(\<lambda>(p, v). if mp_id mp = vm_pool_id vm \<and> v = vm_id vm \<and> sd_pool_org db (mp_id mp) = Some (cx_org_id cx) \<and>
        p = cx_project_id cx \<and> (en \<longrightarrow> vm_enabled vm) \<and> vm_id vm \<in> set ids then [vm] else []) =
      (\<lambda>x. if x = (cx_project_id cx, vm_id vm) \<and> ?P then [vm] else [])"
      by (auto simp: fun_eq_iff)
    then show ?thesis
      using concat_map_unique [of "\<lambda>x. x" ?G "(cx_project_id cx, vm_id vm)" "\<lambda>_. ?P" vm] assms
      by (auto simp: keys_ok_def)
  qed
  then have "matching_services db cx en ids = concat (map (\<lambda>vm. concat (map (\<lambda>mp.
      if mp_id mp = vm_pool_id vm \<and> (sd_pool_org db (mp_id mp) = Some (cx_org_id cx) \<and>
        (cx_project_id cx, vm_id vm) \<in> set ?G \<and> (en \<longrightarrow> vm_enabled vm) \<and> vm_id vm \<in> set ids) then [vm] else []) ?P))
      (ct_virtual_models (sd_cat db)))"
    unfolding matching_services_def by (simp only:)
  moreover have "concat (map (\<lambda>mp. if mp_id mp = vm_pool_id vm \<and> (sd_pool_org db (mp_id mp) = Some (cx_org_id cx) \<and>
        (cx_project_id cx, vm_id vm) \<in> set ?G \<and> (en \<longrightarrow> vm_enabled vm) \<and> vm_id vm \<in> set ids) then [vm] else []) ?P) =
      (if grantable db cx en ids vm then [vm] else [])" for vm :: virtual_model
    using assms by (subst concat_map_unique) (auto simp: keys_ok_def grantable_def)
  ultimately show ?thesis by (simp add: filter_concat_singleton)
qed

lemma checked_services_are_granted:
  assumes "keys_ok db" "checked_input env db cx en input = Inr (name, ids)" "v \<in> set ids"
  shows "\<exists>vm \<in> set (ct_virtual_models (sd_cat db)). vm_id vm = v \<and> grantable db cx en ids vm"
proof -
  let ?M = "matching_services db cx en ids"
  have len: "length ?M = length ids" and ids: "distinct ids" using assms(2) by (auto simp: checked_input_Inr)
  have M: "?M = filter (grantable db cx en ids) (ct_virtual_models (sd_cat db))"
    using assms(1) by (rule matching_services_filter)
  have "distinct (map vm_id ?M)" using assms(1) by (auto simp: M keys_ok_def distinct_map inj_on_def)
  then have "card (set (map vm_id ?M)) = card (set ids)" using len ids by (metis distinct_card length_map)
  moreover have "set (map vm_id ?M) \<subseteq> set ids" by (auto simp: M grantable_def)
  ultimately have "set (map vm_id ?M) = set ids" by (simp add: card_subset_eq)
  with assms(3) obtain vm where "vm \<in> set ?M" "vm_id vm = v" by (metis imageE list.set_map)
  then show ?thesis by (auto simp: M)
qed

section \<open>What a key operation can change\<close>

definition set_keys :: "api_key_row list \<Rightarrow> (string \<times> string) list \<Rightarrow> saas_db \<Rightarrow> saas_db" where
  "set_keys ks gs = update_cat (\<lambda>c. c\<lparr>ct_api_keys := ks, ct_key_grants := gs\<rparr>)"

lemma set_keys_simps [simp]:
  "ct_api_keys (sd_cat (set_keys ks gs db)) = ks" "ct_key_grants (sd_cat (set_keys ks gs db)) = gs"
  "ct_projects (sd_cat (set_keys ks gs db)) = ct_projects (sd_cat db)"
  "ct_virtual_models (sd_cat (set_keys ks gs db)) = ct_virtual_models (sd_cat db)"
  "ct_model_pools (sd_cat (set_keys ks gs db)) = ct_model_pools (sd_cat db)"
  "ct_project_grants (sd_cat (set_keys ks gs db)) = ct_project_grants (sd_cat db)"
  by (simp_all add: set_keys_def)

lemma set_keys_eq:
  "update_cat (\<lambda>c. c\<lparr>ct_api_keys := f c, ct_key_grants := g c\<rparr>) db = set_keys (f (sd_cat db)) (g (sd_cat db)) db"
  "update_cat (\<lambda>c. c\<lparr>ct_api_keys := f c\<rparr>) db = set_keys (f (sd_cat db)) (ct_key_grants (sd_cat db)) db"
  "update_cat (\<lambda>c. c\<lparr>ct_key_grants := g c\<rparr>) db = set_keys (ct_api_keys (sd_cat db)) (g (sd_cat db)) db"
  "set_keys ks gs (set_keys ks' gs' db) = set_keys ks gs db"
  by (simp_all add: set_keys_def update_cat_def)

lemma same_keys: "set_keys (ct_api_keys (sd_cat db)) (ct_key_grants (sd_cat db)) db = db"
  by (simp add: set_keys_def update_cat_def)

text \<open>
  The four effects: nothing, one new enabled key, one own key changed without being
  enabled again, one own key gone; \<open>vs\<close> are services of the project.
\<close>

definition own :: "string \<Rightarrow> saas_context \<Rightarrow> api_key_row \<Rightarrow> bool" where
  "own i cx k \<longleftrightarrow> ak_id k = i \<and> ak_project_id k = cx_project_id cx"

definition grants_but :: "string \<Rightarrow> saas_db \<Rightarrow> (string \<times> string) list" where
  "grants_but i db = filter (\<lambda>(k, _). k \<noteq> i) (ct_key_grants (sd_cat db))"

definition services :: "saas_db \<Rightarrow> saas_context \<Rightarrow> string list \<Rightarrow> bool" where
  "services db cx vs \<longleftrightarrow> (\<forall>v \<in> set vs. (cx_project_id cx, v) \<in> set (ct_project_grants (sd_cat db)))"

lemma revoke_api_key_cases:
  assumes "revoke_api_key env cx i db = (db', r)"
  obtains "isl r" "db' = db"
  | "\<not> isl r" "own_keys i (cx_project_id cx) db \<noteq> []"
    "db' = set_keys (map (\<lambda>k. if own i cx k then k\<lparr>ak_enabled := False, ak_updated_at := ke_now env\<rparr> else k)
       (ct_api_keys (sd_cat db))) (ct_key_grants (sd_cat db)) db"
proof (cases "ke_ok env ''revoke key'' \<and> own_keys i (cx_project_id cx) db \<noteq> []")
  case True
  then have "r = Inr (Object [(''revoked'', Bool True)])"
    "db' = update_keys i (cx_project_id cx) (\<lambda>k. k\<lparr>ak_enabled := False, ak_updated_at := ke_now env\<rparr>) db"
    using assms by (simp_all add: revoke_api_key_def)
  then show ?thesis using that(2) True by (simp add: update_keys_def set_keys_eq own_def)
next
  case False
  then show ?thesis using assms that(1) by (auto simp: revoke_api_key_def split: if_splits)
qed

lemma delete_api_key_cases:
  assumes "delete_api_key env cx i db = (db', r)"
  obtains "isl r" "db' = db"
  | "\<not> isl r" "own_keys i (cx_project_id cx) db \<noteq> []"
    "db' = set_keys (filter (\<lambda>k. \<not> own i cx k) (ct_api_keys (sd_cat db))) (grants_but i db) db"
proof (cases "ke_ok env ''delete key'' \<and> own_keys i (cx_project_id cx) db \<noteq> []")
  case True
  then have "r = Inr (Object [(''deleted'', Bool True)])"
    "db' = clear_grants i (update_cat (\<lambda>c. c\<lparr>ct_api_keys :=
              filter (\<lambda>k. \<not> (ak_id k = i \<and> ak_project_id k = cx_project_id cx)) (ct_api_keys c)\<rparr>) db)"
    using assms by (simp_all add: delete_api_key_def)
  then show ?thesis using that(2) True by (simp add: clear_grants_def set_keys_eq own_def grants_but_def)
next
  case False
  then show ?thesis using assms that(1) by (auto simp: delete_api_key_def split: if_splits)
qed

lemma key_step_effect:
  assumes "key_step cx db ok created db'" "keys_ok db"
  obtains (unchanged) "\<not> ok" "db' = db"
  | (created) row vs where "ok" "created = Some (ak_key_hash row)" "ak_project_id row = cx_project_id cx"
      "ak_enabled row" "ak_id row \<notin> ak_id ` set (ct_api_keys (sd_cat db))"
      "ak_key_hash row \<notin> ak_key_hash ` set (ct_api_keys (sd_cat db))" "services db cx vs"
      "db' = set_keys (ct_api_keys (sd_cat db) @ [row]) (ct_key_grants (sd_cat db) @ map (Pair (ak_id row)) vs) db"
  | (changed) i f gs where "ok" "created = None" "\<exists>k \<in> set (ct_api_keys (sd_cat db)). own i cx k"
      "\<And>k. ak_id (f k) = ak_id k \<and> ak_project_id (f k) = ak_project_id k \<and> ak_key_hash (f k) = ak_key_hash k \<and>
        (ak_enabled (f k) \<longrightarrow> ak_enabled k)"
      "gs = ct_key_grants (sd_cat db) \<or> (\<exists>vs. services db cx vs \<and> gs = grants_but i db @ map (Pair i) vs)"
      "db' = set_keys (map (\<lambda>k. if own i cx k then f k else k) (ct_api_keys (sd_cat db))) gs db"
  | (deleted) i where "ok" "created = None" "\<exists>k \<in> set (ct_api_keys (sd_cat db)). own i cx k"
      "db' = set_keys (filter (\<lambda>k. \<not> own i cx k) (ct_api_keys (sd_cat db))) (grants_but i db) db"
proof -
  have own: "own_keys i (cx_project_id cx) db \<noteq> [] \<Longrightarrow> \<exists>k \<in> set (ct_api_keys (sd_cat db)). own i cx k" for i
    by (auto simp: own_keys_def own_def filter_empty_conv)
  show thesis using assms(1)
  proof (cases rule: key_step.cases)
    case (create_step env input r)
    show ?thesis
    proof (cases r)
      case (Inl e)
      then have "db' = db" using create_step(3) create_api_key_Inl by simp
      then show ?thesis using unchanged create_step Inl by simp
    next
      case (Inr ck)
      have c: "create_api_key env cx input db = (db', Inr ck)" using create_step(3) Inr by simp
      let ?row = "new_key_row env cx input (trim (kr_name input)) (ck_key ck)"
      have "services db cx (service_ids_of input)"
        using c checked_services_are_granted [OF assms(2)]
        by (fastforce simp: create_api_key_def services_def grantable_def checked_input_Inr split: sum.splits)
      moreover have "ok" using create_step(1) Inr by simp
      moreover have "ck_key ck = ''pk_'' @ ke_uuid env ''token''" "ak_id ?row \<notin> ak_id ` set (ct_api_keys (sd_cat db))"
        "ak_key_hash ?row \<notin> ak_key_hash ` set (ct_api_keys (sd_cat db))" "ck_id ck = ak_id ?row"
        "db' = update_cat (\<lambda>c. c\<lparr>ct_api_keys := ct_api_keys c @ [?row],
           ct_key_grants := ct_key_grants c @ map (Pair (ck_id ck)) (service_ids_of input)\<rparr>) db"
        using create_api_key_Inr [OF c] by (auto simp: new_key_row_def)
      moreover from this have "created = Some (ak_key_hash ?row)" using create_step(2) by (simp add: new_key_row_def)
      moreover have "ak_project_id ?row = cx_project_id cx" "ak_enabled ?row" by (simp_all add: new_key_row_def)
      ultimately show ?thesis
        by (intro created [of ?row "service_ids_of input"]) (simp_all only: set_keys_eq not_False_eq_True)
    qed
  next
    case (update_step env i input r)
    show ?thesis
    proof (cases r)
      case (Inl e)
      then have "db' = db" using update_step(3) update_api_key_Inl by simp
      then show ?thesis using unchanged update_step Inl by simp
    next
      case (Inr ids)
      have u: "update_api_key env cx i input db = (db', Inr ids)" using update_step Inr by simp
      have "services db cx (service_ids_of input)"
        using u checked_services_are_granted [OF assms(2)]
        by (fastforce simp: update_api_key_def services_def grantable_def checked_input_Inr split: sum.splits)
      moreover obtain f where f: "\<forall>k. ak_id (f k) = ak_id k \<and> ak_project_id (f k) = ak_project_id k \<and>
          ak_key_hash (f k) = ak_key_hash k \<and> ak_enabled (f k) = ak_enabled k"
        and db': "db' = update_cat (\<lambda>c. c\<lparr>ct_key_grants := ct_key_grants c @ map (Pair i) (service_ids_of input)\<rparr>)
          (clear_grants i (update_keys i (cx_project_id cx) f db))"
        and "own_keys i (cx_project_id cx) db \<noteq> []"
        using update_api_key_Inr [OF u] by blast
      moreover have "db' = set_keys (map (\<lambda>k. if own i cx k then f k else k) (ct_api_keys (sd_cat db)))
          (grants_but i db @ map (Pair i) (service_ids_of input)) db"
        unfolding db' by (simp add: set_keys_eq clear_grants_def update_keys_def own_def grants_but_def)
      moreover have "ok" "created = None" using update_step(1,2) Inr by simp_all
      ultimately show ?thesis
        using changed [of i f "grants_but i db @ map (Pair i) (service_ids_of input)"] own by blast
    qed
  next
    case (revoke_step env i r)
    then show ?thesis
    proof (cases rule: revoke_api_key_cases [OF revoke_step(3)])
      case 2
      then show ?thesis
        using changed [of i "\<lambda>k. k\<lparr>ak_enabled := False, ak_updated_at := ke_now env\<rparr>" "ct_key_grants (sd_cat db)"]
          revoke_step own by simp
    qed (use unchanged revoke_step in simp)
  next
    case (delete_step env i r)
    then show ?thesis
    proof (cases rule: delete_api_key_cases [OF delete_step(3)])
      case 2
      then show ?thesis using deleted [of i] delete_step own by simp
    qed (use unchanged delete_step in simp)
  qed
qed

section \<open>Properties\<close>

lemma keys_ok_unique:
  assumes "keys_ok db"
  shows "\<lbrakk>k \<in> set (ct_api_keys (sd_cat db)); k' \<in> set (ct_api_keys (sd_cat db)); ak_id k = ak_id k'\<rbrakk> \<Longrightarrow> k = k'"
    "\<lbrakk>k \<in> set (ct_api_keys (sd_cat db)); k' \<in> set (ct_api_keys (sd_cat db)); ak_key_hash k = ak_key_hash k'\<rbrakk> \<Longrightarrow> k = k'"
    "\<lbrakk>vm \<in> set (ct_virtual_models (sd_cat db)); vm' \<in> set (ct_virtual_models (sd_cat db)); vm_id vm = vm_id vm'\<rbrakk>
      \<Longrightarrow> vm = vm'"
  using assms by (simp_all add: keys_ok_def distinct_map inj_on_def)

lemma key_grants_have_keys:
  "keys_ok db \<Longrightarrow> (k, v) \<in> set (ct_key_grants (sd_cat db)) \<Longrightarrow>
     \<exists>key \<in> set (ct_api_keys (sd_cat db)). ak_id key = k \<and> (ak_project_id key, v) \<in> set (ct_project_grants (sd_cat db))"
  by (auto simp: keys_ok_def)

text \<open>The grants of an updated key list are those of its unchanged keys and the services just checked.\<close>

lemma keys_ok_set_keys:
  assumes "keys_ok db" "distinct (map ak_id ks)" "distinct (map ak_key_hash ks)"
    and "\<And>k v. (k, v) \<in> set gs \<Longrightarrow>
      \<exists>key \<in> set ks. ak_id key = k \<and> (ak_project_id key, v) \<in> set (ct_project_grants (sd_cat db))"
  shows "keys_ok (set_keys ks gs db)"
  using assms by (auto simp: keys_ok_def)

lemma keys_ok_step:
  assumes "key_step cx db ok c db'" "keys_ok db"
  shows "keys_ok db'"
  using assms
proof (cases rule: key_step_effect)
  case (created row vs)
  show ?thesis unfolding created
  proof (rule keys_ok_set_keys [OF assms(2)])
    fix k v
    assume "(k, v) \<in> set (ct_key_grants (sd_cat db) @ map (Pair (ak_id row)) vs)"
    then show "\<exists>key \<in> set (ct_api_keys (sd_cat db) @ [row]). ak_id key = k \<and>
        (ak_project_id key, v) \<in> set (ct_project_grants (sd_cat db))"
      using key_grants_have_keys [OF assms(2), of k v] created by (auto simp: services_def)
  qed (use assms(2) created in \<open>auto simp: keys_ok_def\<close>)
next
  case (changed i f gs)
  let ?ks = "map (\<lambda>k. if own i cx k then f k else k) (ct_api_keys (sd_cat db))"
  have same: "ak_id (if own i cx k then f k else k) = ak_id k" "ak_project_id (if own i cx k then f k else k) = ak_project_id k"
    "ak_key_hash (if own i cx k then f k else k) = ak_key_hash k" for k
    using changed(4) by auto
  show ?thesis unfolding changed(6)
  proof (rule keys_ok_set_keys [OF assms(2)])
    fix k v
    assume g: "(k, v) \<in> set gs"
    have "\<exists>key \<in> set (ct_api_keys (sd_cat db)). ak_id key = k \<and> (ak_project_id key, v) \<in> set (ct_project_grants (sd_cat db))"
    proof (cases "(k, v) \<in> set (ct_key_grants (sd_cat db))")
      case True
      then show ?thesis by (rule key_grants_have_keys [OF assms(2)])
    next
      case False
      with g changed(5) have "k = i" "(cx_project_id cx, v) \<in> set (ct_project_grants (sd_cat db))"
        by (auto simp: grants_but_def services_def)
      then show ?thesis using changed(3) by (auto simp: own_def)
    qed
    then show "\<exists>key \<in> set ?ks. ak_id key = k \<and> (ak_project_id key, v) \<in> set (ct_project_grants (sd_cat db))"
      using same(1,2) by (metis (no_types, lifting) image_eqI list.set_map)
  qed (use assms(2) in \<open>simp_all add: keys_ok_def same comp_def\<close>)
next
  case (deleted i)
  show ?thesis unfolding deleted
  proof (rule keys_ok_set_keys [OF assms(2)])
    fix k v
    assume "(k, v) \<in> set (grants_but i db)"
    then show "\<exists>key \<in> set (filter (\<lambda>k. \<not> own i cx k) (ct_api_keys (sd_cat db))). ak_id key = k \<and>
        (ak_project_id key, v) \<in> set (ct_project_grants (sd_cat db))"
      using key_grants_have_keys [OF assms(2), of k v] by (auto simp: grants_but_def own_def)
  qed (use assms(2) in \<open>auto simp: keys_ok_def distinct_map_filter\<close>)
qed (use assms in simp)

text \<open>
  The key tables stay well-formed: whatever key operation runs for whatever
  workspace, ids and hashes stay unique and every model granted to a key stays granted
  to the project the key belongs to, so a key never reaches past its workspace.
\<close>

theorem key_tables_stay_well_formed:
  assumes "(\<lambda>db db'. \<exists>cx ok c. key_step cx db ok c db')\<^sup>*\<^sup>* db db'" "keys_ok db"
  shows "keys_ok db'"
  using assms by (induction rule: rtranclp_induct) (auto intro: keys_ok_step)

text \<open>
  C13. Key administration is confined to the workspace of the caller: an operation that
  fails changes nothing; one that succeeds keeps every key of every other project with
  its grants, and touches no table but the keys and their grants.
\<close>

theorem key_administration_is_confined:
  assumes "key_step cx db ok c db'" "keys_ok db"
  shows "(\<not> ok \<longrightarrow> db' = db) \<and>
     filter (\<lambda>k. ak_project_id k \<noteq> cx_project_id cx) (ct_api_keys (sd_cat db')) =
       filter (\<lambda>k. ak_project_id k \<noteq> cx_project_id cx) (ct_api_keys (sd_cat db)) \<and>
     (\<forall>k \<in> set (ct_api_keys (sd_cat db)). ak_project_id k \<noteq> cx_project_id cx \<longrightarrow>
        filter (\<lambda>(i, _). i = ak_id k) (ct_key_grants (sd_cat db')) =
        filter (\<lambda>(i, _). i = ak_id k) (ct_key_grants (sd_cat db))) \<and>
     db' = set_keys (ct_api_keys (sd_cat db')) (ct_key_grants (sd_cat db')) db"
  using assms
proof (cases rule: key_step_effect)
  case unchanged
  then show ?thesis by (simp add: same_keys)
next
  case (created row vs)
  have "filter (\<lambda>(i, _). i = ak_id k) (map (Pair (ak_id row)) vs) = []"
    if "k \<in> set (ct_api_keys (sd_cat db))" for k
    using created(5) that by (auto simp: filter_empty_conv)
  with created show ?thesis by simp
next
  case (changed i f gs)
  have other: "ak_id k \<noteq> i" if "k \<in> set (ct_api_keys (sd_cat db))" "ak_project_id k \<noteq> cx_project_id cx" for k
    using changed(3) that assms(2) by (auto simp: own_def keys_ok_def distinct_map dest: inj_onD)
  have "filter (\<lambda>(j, _). j = ak_id k) gs = filter (\<lambda>(j, _). j = ak_id k) (ct_key_grants (sd_cat db))"
    if "ak_id k \<noteq> i" for k :: api_key_row
  proof -
    have "filter (\<lambda>(j, _). j = ak_id k) (map (Pair i) vs) = []" for vs :: "string list"
      using that by (simp add: filter_empty_conv)
    moreover have "filter (\<lambda>(j, _). j = ak_id k) (grants_but i db) =
        filter (\<lambda>(j, _). j = ak_id k) (ct_key_grants (sd_cat db))"
      using that by (auto simp: grants_but_def intro: filter_cong)
    ultimately show ?thesis using changed(5) by auto
  qed
  moreover have "filter (\<lambda>k. ak_project_id k \<noteq> cx_project_id cx) (map (\<lambda>k. if own i cx k then f k else k) ks) =
      filter (\<lambda>k. ak_project_id k \<noteq> cx_project_id cx) ks" for ks
    using changed(4) by (induction ks) (auto simp: own_def)
  ultimately show ?thesis using changed other by simp
next
  case (deleted i)
  have other: "ak_id k \<noteq> i" if "k \<in> set (ct_api_keys (sd_cat db))" "ak_project_id k \<noteq> cx_project_id cx" for k
    using deleted(3) that assms(2) by (auto simp: own_def keys_ok_def distinct_map dest: inj_onD)
  then have "filter (\<lambda>(j, _). j = ak_id k) (grants_but i db) = filter (\<lambda>(j, _). j = ak_id k) (ct_key_grants (sd_cat db))"
    if "k \<in> set (ct_api_keys (sd_cat db))" "ak_project_id k \<noteq> cx_project_id cx" for k
    using that by (auto simp: grants_but_def intro: filter_cong)
  then show ?thesis using deleted by (auto simp: own_def intro!: filter_cong)
qed

definition dead :: "string \<Rightarrow> saas_db \<Rightarrow> bool" where
  "dead h db \<longleftrightarrow> (\<forall>k \<in> set (ct_api_keys (sd_cat db)). ak_key_hash k = h \<longrightarrow> \<not> ak_enabled k)"

lemma dead_step:
  assumes "key_step cx db ok c db'" "keys_ok db" "dead h db" "c \<noteq> Some h"
  shows "dead h db'"
  using assms(1,2)
proof (cases rule: key_step_effect)
  case (changed i f gs)
  then show ?thesis using assms(3) unfolding dead_def by (auto split: if_splits)
qed (use assms(3,4) in \<open>auto simp: dead_def\<close>)

lemma dead_authenticates_never: "dead (hash token) db \<Longrightarrow> header_str h ''authorization'' = Some (''Bearer '' @ token) \<Longrightarrow>
    \<exists>e. authenticate hash ok ok' (sd_cat db) h = Inl e"
  by (auto simp: authenticate_def dead_def starts_with_def find_Some_iff split: option.splits)

text \<open>
  C12. A revoked or deleted key never authenticates again: once the key of a request is
  revoked or deleted by its workspace, the same bearer token is refused after any
  sequence of key operations of any workspace, unless one of them issues a new key
  whose token has the same hash.
\<close>

theorem revoked_key_never_authenticates:
  assumes "authenticate (ke_hash env) True True (sd_cat db) h = Inr au" "keys_ok db"
    and "header_str h ''authorization'' = Some (''Bearer '' @ token)"
    and "revoke_api_key env cx (ak_id (au_api_key au)) db = (db1, Inr r) \<or>
      delete_api_key env cx (ak_id (au_api_key au)) db = (db1, Inr r)"
    and "(\<lambda>db db'. \<exists>cx ok c. key_step cx db ok c db' \<and> c \<noteq> Some (ke_hash env token))\<^sup>*\<^sup>* db1 db2"
  shows "\<exists>e. authenticate (ke_hash env) ok ok' (sd_cat db2) h = Inl e"
proof -
  let ?k = "au_api_key au" and ?ks = "ct_api_keys (sd_cat db)"
  have k: "?k \<in> set ?ks" "ak_key_hash ?k = ke_hash env token"
    using authenticated_key_is_enabled [OF assms(1)] assms(3) by auto
  have only: "ak_id k = ak_id ?k" if "k \<in> set ?ks" "ak_key_hash k = ke_hash env token" for k
    using that k keys_ok_unique(2) [OF assms(2)] by metis
  have same: "k = ?k" if "k \<in> set ?ks" "ak_id k = ak_id ?k" for k
    using that k keys_ok_unique(1) [OF assms(2)] by metis
  obtain k' where k': "k' \<in> set ?ks" "own (ak_id ?k) cx k'"
    and db1: "db1 = set_keys (map (\<lambda>k. if own (ak_id ?k) cx k then k\<lparr>ak_enabled := False, ak_updated_at := ke_now env\<rparr> else k) ?ks)
       (ct_key_grants (sd_cat db)) db \<or> db1 = set_keys (filter (\<lambda>k. \<not> own (ak_id ?k) cx k) ?ks) (grants_but (ak_id ?k) db) db"
    using assms(4)
    by (auto simp: own_keys_def own_def filter_empty_conv elim!: revoke_api_key_cases delete_api_key_cases)
  have "own (ak_id ?k) cx ?k" using k' same by (auto simp: own_def)
  then have "own (ak_id ?k) cx k" if "k \<in> set ?ks" "ak_key_hash k = ke_hash env token" for k
    using same [OF that(1) only [OF that]] by simp
  then have dead: "dead (ke_hash env token) db1" using db1 unfolding dead_def by (auto split: if_splits)
  have "keys_ok db1"
    using assms(2,4) by (meson keys_ok_step key_step.delete_step key_step.revoke_step)
  with assms(5) dead have "dead (ke_hash env token) db2 \<and> keys_ok db2"
    by (induction rule: rtranclp_induct) (auto 0 4 intro: keys_ok_step dead_step)
  then show ?thesis using dead_authenticates_never assms(3) by blast
qed

lemma created_key_row:
  assumes "create_api_key env cx input db = (db', Inr ck)"
  obtains row where "ak_id row = ck_id ck" "ak_key_hash row = ke_hash env (ck_key ck)" "ak_enabled row"
    "ak_project_id row = cx_project_id cx" "ak_rpm_limit row = kr_rpm_limit input"
    "ak_concurrency_limit row = kr_concurrency_limit input" "ak_daily_spend_limit row = kr_daily_spend_limit input"
    "ck_id ck \<notin> ak_id ` set (ct_api_keys (sd_cat db))"
    "ke_hash env (ck_key ck) \<notin> ak_key_hash ` set (ct_api_keys (sd_cat db))"
    "cx_project_id cx \<in> pj_id ` set (ct_projects (sd_cat db))"
    "db' = set_keys (ct_api_keys (sd_cat db) @ [row])
       (ct_key_grants (sd_cat db) @ map (Pair (ck_id ck)) (service_ids_of input)) db"
proof -
  from create_api_key_Inr [OF assms] show ?thesis
    unfolding set_keys_eq
  proof (elim exE conjE)
    fix row
    assume row: "row = new_key_row env cx input (trim (kr_name input)) (ck_key ck)" "ck_id ck = ke_uuid env ''key''"
    then have id: "ak_id row = ck_id ck" "ak_key_hash row = ke_hash env (ck_key ck)" by (simp_all add: new_key_row_def)
    assume I: "ak_id row \<notin> ak_id ` set (ct_api_keys (sd_cat db))"
      "ak_key_hash row \<notin> ak_key_hash ` set (ct_api_keys (sd_cat db))"
      "cx_project_id cx \<in> pj_id ` set (ct_projects (sd_cat db))"
      "db' = set_keys (ct_api_keys (sd_cat db) @ [row])
         (ct_key_grants (sd_cat db) @ map (Pair (ck_id ck)) (service_ids_of input)) db"
    show ?thesis
      by (rule that [OF id _ _ _ _ _ I(1) [unfolded id] I(2) [unfolded id] I(3,4)]) (simp_all add: row(1) new_key_row_def)
  qed
qed

lemma authenticate_bearer:
  assumes "header_str h ''authorization'' = Some (''Bearer '' @ token)"
    and "find (\<lambda>k. ak_key_hash k = hash_token token \<and> ak_enabled k) (ct_api_keys db) = Some k"
    and "find (\<lambda>p. pj_id p = ak_project_id k) (ct_projects db) = Some p"
  shows "authenticate hash_token True True db h = Inr \<lparr>au_project = p, au_api_key = k\<rparr>"
  using assms by (simp add: authenticate_def starts_with_def)

lemma created_key_authenticates:
  assumes "create_api_key env cx input db = (db', Inr ck)"
    and "header_str h ''authorization'' = Some (''Bearer '' @ ck_key ck)"
  shows "\<exists>au. authenticate (ke_hash env) True True (sd_cat db') h = Inr au \<and>
       ak_id (au_api_key au) = ck_id ck \<and> pj_id (au_project au) = cx_project_id cx \<and>
       ak_rpm_limit (au_api_key au) = kr_rpm_limit input \<and>
       ak_concurrency_limit (au_api_key au) = kr_concurrency_limit input \<and>
       ak_daily_spend_limit (au_api_key au) = kr_daily_spend_limit input"
proof -
  obtain row where row: "ak_id row = ck_id ck" "ak_key_hash row = ke_hash env (ck_key ck)" "ak_enabled row"
    "ak_project_id row = cx_project_id cx" "ak_rpm_limit row = kr_rpm_limit input"
    "ak_concurrency_limit row = kr_concurrency_limit input" "ak_daily_spend_limit row = kr_daily_spend_limit input"
    and "ck_id ck \<notin> ak_id ` set (ct_api_keys (sd_cat db))"
    and fresh: "ke_hash env (ck_key ck) \<notin> ak_key_hash ` set (ct_api_keys (sd_cat db))"
    and project: "cx_project_id cx \<in> pj_id ` set (ct_projects (sd_cat db))"
    and db': "db' = set_keys (ct_api_keys (sd_cat db) @ [row])
       (ct_key_grants (sd_cat db) @ map (Pair (ck_id ck)) (service_ids_of input)) db"
    by (rule created_key_row [OF assms(1)])
  have "\<not> list_ex (\<lambda>k. ak_key_hash k = ke_hash env (ck_key ck) \<and> ak_enabled k) (ct_api_keys (sd_cat db))"
    using fresh by (auto simp: list_ex_iff image_iff)
  then have "find (\<lambda>k. ak_key_hash k = ke_hash env (ck_key ck) \<and> ak_enabled k) (ct_api_keys (sd_cat db')) = Some row"
    unfolding db' set_keys_simps by (rule find_append_new) (simp add: row)
  moreover obtain p where "find (\<lambda>p. pj_id p = ak_project_id row) (ct_projects (sd_cat db')) = Some p" "pj_id p = cx_project_id cx"
  proof (cases "find (\<lambda>p. pj_id p = cx_project_id cx) (ct_projects (sd_cat db'))")
    case None
    then show ?thesis using project by (auto simp: db' find_None_iff)
  next
    case (Some p)
    then show ?thesis using that row(4) by (auto simp: find_Some_iff)
  qed
  ultimately have "authenticate (ke_hash env) True True (sd_cat db') h = Inr \<lparr>au_project = p, au_api_key = row\<rparr>"
    using authenticate_bearer [OF assms(2)] by blast
  with \<open>pj_id p = cx_project_id cx\<close> row show ?thesis by auto
qed

lemma created_key_allows:
  assumes "create_api_key env cx input db = (db', Inr ck)" "keys_ok db"
  shows "key_allows (sd_cat db') (ck_id ck) v \<longleftrightarrow> v \<in> set (kr_model_service_ids input)"
proof -
  obtain row where fresh: "ck_id ck \<notin> ak_id ` set (ct_api_keys (sd_cat db))"
    and db': "db' = set_keys (ct_api_keys (sd_cat db) @ [row])
       (ct_key_grants (sd_cat db) @ map (Pair (ck_id ck)) (service_ids_of input)) db"
    by (rule created_key_row [OF assms(1)]) blast
  have "(ck_id ck, v) \<notin> set (ct_key_grants (sd_cat db))" for v
    using key_grants_have_keys [OF assms(2), of "ck_id ck" v] fresh by force
  moreover obtain w where "w \<in> set (kr_model_service_ids input)"
    using assms(1) by (cases "kr_model_service_ids input") (auto simp: create_api_key_def checked_input_Inr split: sum.splits)
  ultimately show ?thesis by (auto simp: key_allows_def db' list_ex_iff)
qed

lemma created_key_serves:
  assumes "create_api_key env cx input db = (db', Inr ck)" "keys_ok db"
    and "vm \<in> set (ct_virtual_models (sd_cat db))" "vm_enabled vm" "vm_id vm \<in> set (kr_model_service_ids input)"
  shows "vm \<in> set (exact_models (sd_cat db') (vm_id vm) (cx_project_id cx) (ck_id ck))"
proof -
  obtain row gs where db': "db' = set_keys (ct_api_keys (sd_cat db) @ [row]) gs db"
    by (rule created_key_row [OF assms(1)]) blast
  obtain name where "checked_input env db cx False input = Inr (name, service_ids_of input)"
    using assms(1) by (auto simp: create_api_key_def checked_input_Inr split: sum.splits)
  from checked_services_are_granted [OF assms(2) this, of "vm_id vm"] assms(5)
  obtain vm0 where vm0: "vm0 \<in> set (ct_virtual_models (sd_cat db))" "vm_id vm0 = vm_id vm"
    "grantable db cx False (service_ids_of input) vm0" by auto
  then have "vm0 = vm" using assms(3) keys_ok_unique(3) [OF assms(2)] by metis
  then show ?thesis
    using vm0 assms(3-5) created_key_allows [OF assms(1,2), of "vm_id vm"]
    by (auto simp: exact_models_def granted_models_iff grantable_def db')
qed

lemma exact_model_is_resolved:
  assumes "vm \<in> set (exact_models db (vm_id vm) p k)"
  shows "\<exists>vm'. resolve_authorized_virtual_model collate True b db (vm_id vm) p k = Inr (Some vm') \<and> vm_id vm' = vm_id vm"
proof -
  obtain vm' where "first_of (exact_cmp collate (vm_id vm)) (exact_models db (vm_id vm) p k) = Some vm'"
    using assms by (metis empty_iff first_of_None list.set(1) not_None_eq)
  then have r: "resolve_authorized_virtual_model collate True b db (vm_id vm) p k = Inr (Some vm')"
    by (simp add: resolve_authorized_virtual_model_def)
  from requested_model_wins_over_aliases [OF r assms] r show ?thesis by simp
qed

text \<open>
  C11. A created key works and reaches what it was created for: the token answered
  authenticates as the new key of the caller's project with the limits asked for;
  every model a request with it is resolved to is one of the selected services; and
  a selected service that is enabled is resolved by its id.
\<close>

theorem created_key_works:
  assumes "create_api_key env cx input db = (db', Inr ck)" "keys_ok db"
    and "header_str h ''authorization'' = Some (''Bearer '' @ ck_key ck)"
  shows "(\<exists>au. authenticate (ke_hash env) True True (sd_cat db') h = Inr au \<and>
       ak_id (au_api_key au) = ck_id ck \<and> pj_id (au_project au) = cx_project_id cx \<and>
       ak_rpm_limit (au_api_key au) = kr_rpm_limit input \<and>
       ak_concurrency_limit (au_api_key au) = kr_concurrency_limit input \<and>
       ak_daily_spend_limit (au_api_key au) = kr_daily_spend_limit input) \<and>
     (\<forall>collate a b requested vm.
        resolve_authorized_virtual_model collate a b (sd_cat db') requested (cx_project_id cx) (ck_id ck) = Inr (Some vm)
          \<longrightarrow> vm_id vm \<in> set (kr_model_service_ids input)) \<and>
     (\<forall>collate b. \<forall>vm \<in> set (ct_virtual_models (sd_cat db)). vm_enabled vm \<and> vm_id vm \<in> set (kr_model_service_ids input)
        \<longrightarrow> (\<exists>vm'. resolve_authorized_virtual_model collate True b (sd_cat db') (vm_id vm) (cx_project_id cx) (ck_id ck)
               = Inr (Some vm') \<and> vm_id vm' = vm_id vm))"
  using created_key_authenticates [OF assms(1,3)] resolved_model_granted created_key_allows [OF assms(1,2)]
    exact_model_is_resolved created_key_serves [OF assms(1,2)]
  by (intro conjI) blast+

section \<open>Witnesses\<close>

definition demo_key_db :: saas_db where
  "demo_key_db = \<lparr>sd_cat = demo_catalog, sd_pool_org = [''mp'' \<mapsto> ''o''], sd_account_org = Map.empty, sd_users = [],
     sd_sessions = [], sd_verifications = [], sd_members = []\<rparr>"

definition demo_key_env :: key_env where
  "demo_key_env = \<lparr>ke_ok = (\<lambda>_. True), ke_now = 7, ke_hash = (\<lambda>t. t), ke_uuid = (\<lambda>n. n), ke_lower = (\<lambda>s. s),
     ke_collate = byte_order\<rparr>"

definition demo_cx :: saas_context where
  "demo_cx = \<lparr>cx_user = \<lparr>su_id = ''u'', su_email = ''a@b.c'', su_password_hash = ''x'', su_status = ''active''\<rparr>,
     cx_org_id = ''o'', cx_project_id = ''p''\<rparr>"

definition demo_key_request :: create_key_request where
  "demo_key_request = \<lparr>kr_name = ''ci'', kr_model_service_ids = [''v2'', ''v2''], kr_daily_spend_limit = None,
     kr_rpm_limit = Some 5, kr_concurrency_limit = None\<rparr>"

lemmas demo_key_simps = demo_key_db_def demo_key_env_def demo_cx_def demo_key_request_def

lemma demo_keys_ok: "keys_ok demo_key_db"
  by (simp add: keys_ok_def demo_key_db_def demo_catalog_simps)

lemma demo_created:
  "create_api_key demo_key_env demo_cx demo_key_request demo_key_db =
     (set_keys (ct_api_keys demo_catalog @ [new_key_row demo_key_env demo_cx demo_key_request ''ci'' ''pk_token''])
        [(''key'', ''v2'')] demo_key_db,
      Inr \<lparr>ck_id = ''key'', ck_name = ''ci'', ck_key = ''pk_token'', ck_prefix = token_prefix ''pk_token'',
        ck_service_ids = [''v2'']\<rparr>)"
proof -
  have name: "trim (kr_name demo_key_request) = ''ci''"
    by (simp add: demo_key_request_def trim_ascii ascii_def byte_def is_whitespace_def Let_def)
  have "service_ids_of demo_key_request = [''v2'']"
    by (simp add: service_ids_of_def demo_key_request_def)
  moreover have "length (matching_services demo_key_db demo_cx False [''v2'']) = 1"
    by (simp add: matching_services_def demo_key_simps demo_catalog_simps)
  ultimately have c: "checked_input demo_key_env demo_key_db demo_cx False demo_key_request = Inr (''ci'', [''v2''])"
    unfolding checked_input_Inr name by (simp add: demo_key_simps)
  let ?row = "new_key_row demo_key_env demo_cx demo_key_request ''ci'' ''pk_token''"
  have row: "ak_id ?row = ''key''" "ak_key_hash ?row = ''pk_token''" "ak_project_id ?row = ''p''" "ak_name ?row = ''ci''"
    by (simp_all add: new_key_row_def demo_key_simps)
  have env: "ke_ok demo_key_env s" "ke_uuid demo_key_env n = n" "ke_lower demo_key_env n = n" for s n
    by (simp_all add: demo_key_env_def)
  have cat: "sd_cat demo_key_db = demo_catalog" by (simp add: demo_key_db_def)
  have "insert_key demo_key_env ?row demo_key_db =
      (set_keys (ct_api_keys demo_catalog @ [?row]) (ct_key_grants demo_catalog) demo_key_db, Inr ())"
    unfolding insert_key_def row name_taken_def env cat
    by (simp add: env taken_def demo_catalog_simps set_keys_def update_cat_def demo_key_db_def)
  moreover have "insert_grants demo_key_env ''key'' [''v2'']
      (set_keys (ct_api_keys demo_catalog @ [?row]) (ct_key_grants demo_catalog) demo_key_db) =
      (set_keys (ct_api_keys demo_catalog @ [?row]) [(''key'', ''v2'')] demo_key_db, Inr ())"
    by (simp add: try_then_def statement_def taken_def row env cat set_keys_eq)
       (simp add: demo_catalog_simps)
  ultimately have "in_transaction (ke_ok demo_key_env) (\<lambda>db. try_then (insert_key demo_key_env ?row db) (\<lambda>_ db.
      try_then (insert_grants demo_key_env ''key'' [''v2''] db) (\<lambda>_ db. (db, Inr x)))) demo_key_db =
      (set_keys (ct_api_keys demo_catalog @ [?row]) [(''key'', ''v2'')] demo_key_db, Inr x)" for x :: created_key
    by (simp del: insert_grants.simps add: in_transaction_Inr try_then_Inr env)
  then show ?thesis unfolding create_api_key_def c by (simp add: Let_def env del: insert_grants.simps)
qed

theorem key_tables_stay_well_formed_witness:
  "keys_ok (fst (create_api_key demo_key_env demo_cx demo_key_request demo_key_db))"
proof (rule key_tables_stay_well_formed [OF _ demo_keys_ok], rule r_into_rtranclp)
  show "\<exists>cx ok c. key_step cx demo_key_db ok c (fst (create_api_key demo_key_env demo_cx demo_key_request demo_key_db))"
    by (intro exI, rule create_step [where r = "snd (create_api_key demo_key_env demo_cx demo_key_request demo_key_db)"]) simp
qed

theorem key_administration_is_confined_witness:
  "fst (revoke_api_key demo_key_env (demo_cx\<lparr>cx_project_id := ''q''\<rparr>) ''k'' demo_key_db) = demo_key_db"
proof -
  let ?cx = "demo_cx\<lparr>cx_project_id := ''q''\<rparr>"
  have r: "revoke_api_key demo_key_env ?cx ''k'' demo_key_db = (demo_key_db, Inl (not_found ''API key not found''))"
    by (simp add: revoke_api_key_def own_keys_def demo_key_simps demo_catalog_simps)
  from key_administration_is_confined [OF revoke_step [OF r] demo_keys_ok] show ?thesis by (simp add: r)
qed

lemma demo_authenticated:
  "authenticate (ke_hash demo_key_env) True True (sd_cat demo_key_db) [''authorization'' \<mapsto> Text ''Bearer h''] =
     Inr \<lparr>au_project = hd (ct_projects demo_catalog), au_api_key = hd (ct_api_keys demo_catalog)\<rparr>"
  by (simp add: authenticate_def header_str_def starts_with_def demo_key_simps demo_catalog_simps)

theorem revoked_key_never_authenticates_witness:
  "\<exists>e. authenticate (\<lambda>t. t) True True (sd_cat (fst (create_api_key demo_key_env demo_cx demo_key_request
     (fst (revoke_api_key demo_key_env demo_cx ''k'' demo_key_db))))) [''authorization'' \<mapsto> Text ''Bearer h''] = Inl e"
proof -
  let ?db1 = "fst (revoke_api_key demo_key_env demo_cx ''k'' demo_key_db)"
  let ?db2 = "fst (create_api_key demo_key_env demo_cx demo_key_request ?db1)"
  have id: "ke_hash demo_key_env = (\<lambda>t. t)" "ke_uuid demo_key_env = (\<lambda>t. t)" by (simp_all add: demo_key_env_def)
  have "key_step demo_cx ?db1 (\<not> isl (snd (create_api_key demo_key_env demo_cx demo_key_request ?db1)))
      (Some (ke_hash demo_key_env (''pk_'' @ ke_uuid demo_key_env ''token''))) ?db2"
    by (rule create_step) simp
  then have step: "(\<lambda>db db'. \<exists>cx ok c. key_step cx db ok c db' \<and> c \<noteq> Some (ke_hash demo_key_env ''h''))\<^sup>*\<^sup>* ?db1 ?db2"
    by (intro r_into_rtranclp exI conjI) (auto simp: id)
  have "au_api_key \<lparr>au_project = hd (ct_projects demo_catalog), au_api_key = hd (ct_api_keys demo_catalog)\<rparr> = hd (ct_api_keys demo_catalog)"
    "ak_id (hd (ct_api_keys demo_catalog)) = ''k''" by (simp_all add: demo_catalog_simps)
  moreover have "revoke_api_key demo_key_env demo_cx ''k'' demo_key_db = (?db1, Inr (Object [(''revoked'', Bool True)]))"
    by (simp add: revoke_api_key_def own_keys_def demo_key_simps demo_catalog_simps)
  ultimately have "revoke_api_key demo_key_env demo_cx (ak_id (au_api_key \<lparr>au_project = hd (ct_projects demo_catalog),
      au_api_key = hd (ct_api_keys demo_catalog)\<rparr>)) demo_key_db = (?db1, Inr (Object [(''revoked'', Bool True)]))"
    by simp
  from revoked_key_never_authenticates [OF demo_authenticated demo_keys_ok _ disjI1 [OF this] step]
  have "\<exists>e. authenticate (ke_hash demo_key_env) True True (sd_cat ?db2) [''authorization'' \<mapsto> Text ''Bearer h''] = Inl e"
    by (simp add: header_str_def)
  then show ?thesis by (simp only: id)
qed

theorem created_key_works_witness:
  "\<exists>au. authenticate (\<lambda>t. t) True True (sd_cat (fst (create_api_key demo_key_env demo_cx demo_key_request demo_key_db)))
     [''authorization'' \<mapsto> Text ''Bearer pk_token''] = Inr au \<and> ak_id (au_api_key au) = ''key''"
proof -
  have "ke_hash demo_key_env = (\<lambda>t. t)" by (simp add: demo_key_env_def)
  moreover have "header_str [''authorization'' \<mapsto> Text ''Bearer pk_token''] ''authorization'' =
      Some (''Bearer '' @ ck_key \<lparr>ck_id = ''key'', ck_name = ''ci'', ck_key = ''pk_token'', ck_prefix = token_prefix ''pk_token'',
        ck_service_ids = [''v2'']\<rparr>)"
    by (simp add: header_str_def)
  from created_key_works [OF demo_created demo_keys_ok this]
  have "\<exists>au. authenticate (ke_hash demo_key_env) True True (sd_cat (fst (create_api_key demo_key_env demo_cx demo_key_request demo_key_db)))
     [''authorization'' \<mapsto> Text ''Bearer pk_token''] = Inr au \<and> ak_id (au_api_key au) = ''key''"
    unfolding demo_created fst_conv by auto
  ultimately show ?thesis by (simp only:)
qed

end
