(* ===== verification/Usage_Overview.thy ===== *)
theory Usage_Overview
  imports Usage_Log Api_Keys
begin

text \<open>
  saas/analytics.rs, get\_usage: the totals of an organization's usage in a window, broken
  down by provider and model, with the coverage of token counts and prices. The answer is
  a record of what the handler puts in its JSON; its fixed texts are left out, the
  conditions that select them are kept.
\<close>

section \<open>The aggregate query\<close>

text \<open>COUNT and SUM over the rows; the average latency is divided exactly, then rounded.\<close>

record usage_summary =
  um_requests :: int
  um_prompt :: int
  um_completion :: int
  um_total :: int
  um_cost :: f64
  um_average_latency :: f64
  um_successful :: int
  um_trimmed :: int
  um_hit_tokens :: int
  um_hit_requests :: int
  um_hit_reported :: int
  um_hit_input :: int
  um_write_tokens :: int
  um_write_requests :: int
  um_write_reported :: int

definition count_rows :: "(nat \<times> usage_row \<Rightarrow> bool) \<Rightarrow> usage_log \<Rightarrow> int" where
  "count_rows P rows = int (length (filter P rows))"

definition sum_rows :: "(nat \<times> usage_row \<Rightarrow> int) \<Rightarrow> usage_log \<Rightarrow> int" where
  "sum_rows f rows = sum_list (map f rows)"

definition hit_tokens :: "nat \<times> usage_row \<Rightarrow> int option" where "hit_tokens r = ul_cache_hit_tokens (row_tokens r)"
definition write_tokens :: "nat \<times> usage_row \<Rightarrow> int option" where "write_tokens r = ul_cache_write_tokens (row_tokens r)"

definition positive :: "int option \<Rightarrow> bool" where
  "positive n = (case n of None \<Rightarrow> False | Some i \<Rightarrow> 0 < i)"

definition summarise :: "usage_log \<Rightarrow> usage_summary" where
  "summarise rows = \<lparr>um_requests = int (length rows),
     um_prompt = sum_rows (\<lambda>r. ul_prompt_tokens (row_tokens r)) rows,
     um_completion = sum_rows (\<lambda>r. ul_completion_tokens (row_tokens r)) rows,
     um_total = sum_rows (\<lambda>r. ul_total_tokens (row_tokens r)) rows,
     um_cost = sum_cost rows,
     um_average_latency = (if rows = [] then 0
        else rnd (of_int (sum_rows (\<lambda>r. ul_latency_ms (row_tokens r)) rows) / of_nat (length rows))),
     um_successful = count_rows (\<lambda>r. succeeded (ul_status_code (row_settlement r))) rows,
     um_trimmed = sum_rows (\<lambda>r. ul_trimmed_chars (row_tokens r)) rows,
     um_hit_tokens = sum_rows (\<lambda>r. unwrap_or (hit_tokens r) 0) rows,
     um_hit_requests = count_rows (\<lambda>r. positive (hit_tokens r)) rows,
     um_hit_reported = count_rows (\<lambda>r. hit_tokens r \<noteq> None) rows,
     um_hit_input = sum_rows (\<lambda>r. if hit_tokens r \<noteq> None then ul_prompt_tokens (row_tokens r) else 0) rows,
     um_write_tokens = sum_rows (\<lambda>r. unwrap_or (write_tokens r) 0) rows,
     um_write_requests = count_rows (\<lambda>r. positive (write_tokens r)) rows,
     um_write_reported = count_rows (\<lambda>r. write_tokens r \<noteq> None) rows\<rparr>"

section \<open>The breakdown query\<close>

text \<open>GROUP BY the provider and the model, both of which may be missing; the order of the groups is not fixed.\<close>

record breakdown_row =
  bd_provider :: string
  bd_model :: string
  bd_requests :: int
  bd_prompt :: int
  bd_completion :: int
  bd_total :: int
  bd_cost :: f64
  bd_cache_hit :: int
  bd_cache_write :: int
  bd_reported :: int
  bd_priced :: int
  bd_missing :: int
  bd_local_estimate :: int
  bd_unavailable :: int

definition group_of :: "catalog \<Rightarrow> nat \<times> usage_row \<Rightarrow> string option \<times> string option" where
  "group_of db r = (map_option pa_provider_type (row_account db r), map_option er_upstream_model_id (row_endpoint db r))"

definition usage_source :: "nat \<times> usage_row \<Rightarrow> string" where "usage_source r = ul_usage_source (row_settlement r)"

definition breakdown_row_of :: "string option \<times> string option \<Rightarrow> usage_log \<Rightarrow> breakdown_row" where
  "breakdown_row_of g rows = \<lparr>bd_provider = unwrap_or (fst g) ''unknown'', bd_model = unwrap_or (snd g) ''unknown'',
     bd_requests = int (length rows),
     bd_prompt = sum_rows (\<lambda>r. ul_prompt_tokens (row_tokens r)) rows,
     bd_completion = sum_rows (\<lambda>r. ul_completion_tokens (row_tokens r)) rows,
     bd_total = sum_rows (\<lambda>r. ul_total_tokens (row_tokens r)) rows,
     bd_cost = sum_cost rows,
     bd_cache_hit = sum_rows (\<lambda>r. unwrap_or (hit_tokens r) 0) rows,
     bd_cache_write = sum_rows (\<lambda>r. unwrap_or (write_tokens r) 0) rows,
     bd_reported = count_rows (\<lambda>r. usage_source r = ''provider_reported'') rows,
     bd_priced = count_rows (\<lambda>r. ul_pricing_source (row_settlement r) \<noteq> ''unpriced'') rows,
     bd_missing = count_rows (\<lambda>r. usage_source r \<noteq> ''provider_reported'') rows,
     bd_local_estimate = count_rows (\<lambda>r. usage_source r = ''local_estimate'') rows,
     bd_unavailable = count_rows (\<lambda>r. usage_source r = ''unavailable'') rows\<rparr>"

definition breakdown_rows :: "catalog \<Rightarrow> usage_log \<Rightarrow> breakdown_row list" where
  "breakdown_rows db rows = map (\<lambda>g. breakdown_row_of g (filter (\<lambda>r. group_of db r = g) rows)) (remdups (map (group_of db) rows))"

section \<open>The loop over the groups\<close>

record usage_totals =
  ut_requests :: int
  ut_prompt :: int
  ut_completion :: int
  ut_total :: int
  ut_cost :: f64
  ut_cache_hit :: int
  ut_cache_write :: int

definition no_totals :: usage_totals where
  "no_totals = \<lparr>ut_requests = 0, ut_prompt = 0, ut_completion = 0, ut_total = 0, ut_cost = 0, ut_cache_hit = 0, ut_cache_write = 0\<rparr>"

definition add_totals :: "breakdown_row \<Rightarrow> usage_totals \<Rightarrow> usage_totals" where
  "add_totals b t = \<lparr>ut_requests = ut_requests t + bd_requests b, ut_prompt = ut_prompt t + bd_prompt b,
     ut_completion = ut_completion t + bd_completion b, ut_total = ut_total t + bd_total b,
     ut_cost = fadd (ut_cost t) (bd_cost b), ut_cache_hit = ut_cache_hit t + bd_cache_hit b,
     ut_cache_write = ut_cache_write t + bd_cache_write b\<rparr>"

record usage_groups =
  ug_providers :: "(string \<times> usage_totals) list"
  ug_models :: "((string \<times> string) \<times> usage_totals) list"
  ug_reported :: int
  ug_priced :: int
  ug_missing :: "((string \<times> string) \<times> int \<times> int \<times> int) list"

definition add_missing :: "breakdown_row \<Rightarrow> int \<times> int \<times> int \<Rightarrow> int \<times> int \<times> int" where
  "add_missing b = (\<lambda>(m, l, u). (m + bd_missing b, l + bd_local_estimate b, u + bd_unavailable b))"

definition add_group :: "usage_groups \<Rightarrow> breakdown_row \<Rightarrow> usage_groups" where
  "add_group g b =
     \<lparr>ug_providers = entry (bd_provider b) (add_totals b) (add_totals b no_totals) (ug_providers g),
      ug_models = entry (bd_provider b, bd_model b) (add_totals b) (add_totals b no_totals) (ug_models g),
      ug_reported = ug_reported g + bd_reported b, ug_priced = ug_priced g + bd_priced b,
      ug_missing = (if 0 < bd_missing b
         then entry (bd_provider b, bd_model b) (add_missing b) (bd_missing b, bd_local_estimate b, bd_unavailable b) (ug_missing g)
         else ug_missing g)\<rparr>"

definition no_groups :: usage_groups where
  "no_groups = \<lparr>ug_providers = [], ug_models = [], ug_reported = 0, ug_priced = 0, ug_missing = []\<rparr>"

definition group_usage :: "breakdown_row list \<Rightarrow> usage_groups" where
  "group_usage bs = foldl add_group no_groups bs"

section \<open>The handler\<close>

definition share_of :: "int \<Rightarrow> int \<Rightarrow> f64" where
  "share_of n d = (if 0 < d then fdiv (f64_of_int n) (f64_of_int d) else 0)"

record usage_budget =
  bu_spent_today :: f64
  bu_daily_limit :: "f64 option"
  bu_remaining_today :: "f64 option"
  bu_status :: budget_outcome

record usage_overview =
  uo_range :: string
  uo_summary :: usage_summary
  uo_success_rate :: f64
  uo_hit_rate :: f64
  uo_write_rate :: f64
  uo_budget :: usage_budget
  uo_usage_coverage :: f64
  uo_pricing_coverage :: f64
  uo_missing_usage_requests :: int
  uo_groups :: usage_groups
  uo_notes :: "bool \<times> bool \<times> bool"   \<comment> \<open>usage, pricing, cache figures incomplete\<close>

text \<open>What the answer is given: the statements that answer, the clock, and the start of the database's day.\<close>

record report_env =
  rn_ok :: statements
  rn_now :: nat
  rn_day :: nat

definition usage_budget_of :: "f64 option \<Rightarrow> f64 \<Rightarrow> usage_budget" where
  "usage_budget_of limit spent = \<lparr>bu_spent_today = spent, bu_daily_limit = limit,
     bu_remaining_today = map_option (\<lambda>l. max (fsub l spent) 0) limit, bu_status = Budget.evaluate spent limit\<rparr>"

definition overview_of :: "catalog \<Rightarrow> string \<Rightarrow> usage_log \<Rightarrow> usage_budget \<Rightarrow> usage_overview" where
  "overview_of db period rows budget = (let m = summarise rows; g = group_usage (breakdown_rows db rows);
      usage = share_of (ug_reported g) (um_requests m); pricing = share_of (ug_priced g) (um_requests m) in
    \<lparr>uo_range = period, uo_summary = m, uo_success_rate = share_of (um_successful m) (um_requests m),
     uo_hit_rate = share_of (um_hit_tokens m) (um_hit_input m), uo_write_rate = share_of (um_write_tokens m) (um_prompt m),
     uo_budget = budget, uo_usage_coverage = usage, uo_pricing_coverage = pricing,
     uo_missing_usage_requests = um_requests m - ug_reported g, uo_groups = g,
     uo_notes = (usage < 1, pricing < 1, um_hit_reported m = 0)\<rparr>)"

definition get_usage :: "report_env \<Rightarrow> saas_context \<Rightarrow> string option \<Rightarrow> saas_db \<Rightarrow> usage_log \<Rightarrow> usage_overview api" where
  "get_usage env cx query db logs =
     (let period = unwrap_or query ''24h''; cat = sd_cat db in
      case range_since (rn_now env) period of Inl e \<Rightarrow> Inl e | Inr since \<Rightarrow>
      if \<not> rn_ok env ''summary'' then Inl db_error
      else if \<not> rn_ok env ''limit'' then Inl db_error
      else let limit = Option.bind (find (\<lambda>p. pj_id p = cx_project_id cx) (ct_projects cat)) pj_daily_spend_limit in
      if \<not> rn_ok env ''spent today'' then Inl db_error
      else let spent = sum_cost (org_rows cat (cx_org_id cx) (Some (int (rn_day env))) logs) in
      if \<not> rn_ok env ''breakdown'' then Inl db_error
      else Inr (overview_of cat period (org_rows cat (cx_org_id cx) since logs) (usage_budget_of limit spent)))"

section \<open>Lemmas\<close>

lemma count_rows_sum: "count_rows P rows = sum_rows (\<lambda>r. if P r then 1 else 0) rows"
  by (induction rows) (simp_all add: count_rows_def sum_rows_def)

lemma length_sum: "int (length rows) = sum_rows (\<lambda>_. 1) rows"
  by (induction rows) (simp_all add: sum_rows_def)

text \<open>What is summed group by group is summed over all rows.\<close>

lemma sum_groups:
  "(\<Sum>g\<leftarrow>remdups (map key rows). sum_rows f (filter (\<lambda>r. key r = g) rows)) = sum_rows f rows"
proof -
  have "(\<Sum>g\<leftarrow>gs. sum_rows f (filter (\<lambda>r. key r = g) rows)) = sum_rows f (filter (\<lambda>r. key r \<in> set gs) rows)"
    if "distinct gs" for gs
    using that
  proof (induction gs)
    case (Cons g gs)
    have "sum_rows f (filter (\<lambda>r. key r \<in> set (g # gs)) rows) =
        sum_rows f (filter (\<lambda>r. key r = g) rows) + sum_rows f (filter (\<lambda>r. key r \<in> set gs) rows)"
      using Cons.prems by (induction rows) (auto simp: sum_rows_def)
    with Cons show ?case by simp
  qed (simp add: sum_rows_def)
  from this [of "remdups (map key rows)"] show ?thesis by simp
qed

lemma breakdown_sums:
  "(\<Sum>b\<leftarrow>breakdown_rows db rows. bd_requests b) = int (length rows)"
  "(\<Sum>b\<leftarrow>breakdown_rows db rows. bd_prompt b) = sum_rows (\<lambda>r. ul_prompt_tokens (row_tokens r)) rows"
  "(\<Sum>b\<leftarrow>breakdown_rows db rows. bd_completion b) = sum_rows (\<lambda>r. ul_completion_tokens (row_tokens r)) rows"
  "(\<Sum>b\<leftarrow>breakdown_rows db rows. bd_total b) = sum_rows (\<lambda>r. ul_total_tokens (row_tokens r)) rows"
  "(\<Sum>b\<leftarrow>breakdown_rows db rows. bd_cache_hit b) = sum_rows (\<lambda>r. unwrap_or (hit_tokens r) 0) rows"
  "(\<Sum>b\<leftarrow>breakdown_rows db rows. bd_cache_write b) = sum_rows (\<lambda>r. unwrap_or (write_tokens r) 0) rows"
  "(\<Sum>b\<leftarrow>breakdown_rows db rows. bd_reported b) = count_rows (\<lambda>r. usage_source r = ''provider_reported'') rows"
  "(\<Sum>b\<leftarrow>breakdown_rows db rows. bd_priced b) = count_rows (\<lambda>r. ul_pricing_source (row_settlement r) \<noteq> ''unpriced'') rows"
  "(\<Sum>b\<leftarrow>breakdown_rows db rows. bd_missing b) = count_rows (\<lambda>r. usage_source r \<noteq> ''provider_reported'') rows"
  unfolding breakdown_rows_def breakdown_row_of_def map_map o_def
  by (simp_all add: count_rows_sum length_sum sum_groups)

lemma group_usage_sorted:
  "sorted_keys (ug_providers g) \<Longrightarrow> sorted_keys (ug_models g) \<Longrightarrow> sorted_keys (ug_missing g) \<Longrightarrow>
   sorted_keys (ug_providers (foldl add_group g bs)) \<and> sorted_keys (ug_models (foldl add_group g bs)) \<and>
   sorted_keys (ug_missing (foldl add_group g bs))"
  by (induction bs arbitrary: g) (simp_all add: add_group_def)

lemma group_usage_sums:
  fixes f :: "usage_totals \<Rightarrow> int"
  assumes "\<And>b t. f (add_totals b t) = f t + d b" "f no_totals = 0"
  shows "(\<Sum>(_, t)\<leftarrow>ug_providers (group_usage bs). f t) = (\<Sum>b\<leftarrow>bs. d b)"
    "(\<Sum>(_, t)\<leftarrow>ug_models (group_usage bs). f t) = (\<Sum>b\<leftarrow>bs. d b)"
proof -
  have "(\<Sum>(_, t)\<leftarrow>ug_providers (foldl add_group g bs). f t) = (\<Sum>(_, t)\<leftarrow>ug_providers g. f t) + (\<Sum>b\<leftarrow>bs. d b) \<and>
      (\<Sum>(_, t)\<leftarrow>ug_models (foldl add_group g bs). f t) = (\<Sum>(_, t)\<leftarrow>ug_models g. f t) + (\<Sum>b\<leftarrow>bs. d b)" for g
    by (induction bs arbitrary: g) (simp_all add: add_group_def sum_entry [where g = f and d = "d _", OF assms(1)] assms)
  from this [of no_groups] show
    "(\<Sum>(_, t)\<leftarrow>ug_providers (group_usage bs). f t) = (\<Sum>b\<leftarrow>bs. d b)"
    "(\<Sum>(_, t)\<leftarrow>ug_models (group_usage bs). f t) = (\<Sum>b\<leftarrow>bs. d b)"
    by (simp_all add: group_usage_def no_groups_def)
qed

lemma group_usage_counts:
  assumes "\<And>b. b \<in> set bs \<Longrightarrow> 0 \<le> bd_missing b"
  shows "ug_reported (group_usage bs) = (\<Sum>b\<leftarrow>bs. bd_reported b)" "ug_priced (group_usage bs) = (\<Sum>b\<leftarrow>bs. bd_priced b)"
    "(\<Sum>(_, m, _)\<leftarrow>ug_missing (group_usage bs). m) = (\<Sum>b\<leftarrow>bs. bd_missing b)"
proof -
  have missing: "(\<Sum>(_, m, _)\<leftarrow>entry k (add_missing b) (bd_missing b, l, u) xs. m) = (\<Sum>(_, m, _)\<leftarrow>xs. m) + bd_missing b"
    for k :: "string \<times> string" and b l u xs
    using sum_entry [of fst "add_missing b" "bd_missing b" "(bd_missing b, l, u)" k xs]
    by (simp add: add_missing_def case_prod_beta')
  have "ug_reported (foldl add_group g bs) = ug_reported g + (\<Sum>b\<leftarrow>bs. bd_reported b) \<and>
      ug_priced (foldl add_group g bs) = ug_priced g + (\<Sum>b\<leftarrow>bs. bd_priced b) \<and>
      (\<Sum>(_, m, _)\<leftarrow>ug_missing (foldl add_group g bs). m) = (\<Sum>(_, m, _)\<leftarrow>ug_missing g. m) + (\<Sum>b\<leftarrow>bs. bd_missing b)" for g
    using assms
  proof (induction bs arbitrary: g)
    case (Cons b bs)
    have "bd_missing b = 0" if "\<not> 0 < bd_missing b" using that Cons.prems [of b] by simp
    with Cons.IH [of "add_group g b"] Cons.prems show ?case by (simp add: add_group_def missing)
  qed simp
  from this [of no_groups] show "ug_reported (group_usage bs) = (\<Sum>b\<leftarrow>bs. bd_reported b)"
    "ug_priced (group_usage bs) = (\<Sum>b\<leftarrow>bs. bd_priced b)" "(\<Sum>(_, m, _)\<leftarrow>ug_missing (group_usage bs). m) = (\<Sum>b\<leftarrow>bs. bd_missing b)"
    by (simp_all add: group_usage_def no_groups_def)
qed

lemma share_of_bounds: "0 \<le> a \<Longrightarrow> a \<le> n \<Longrightarrow> 0 \<le> share_of a n \<and> share_of a n \<le> 1"
  using share_bounds by (simp add: share_of_def)

lemma count_rows_bounds: "0 \<le> count_rows P rows \<and> count_rows P rows \<le> int (length rows)"
  by (simp add: count_rows_def)

lemma count_rows_not: "count_rows (\<lambda>r. \<not> P r) rows = int (length rows) - count_rows P rows"
  by (induction rows) (simp_all add: count_rows_def)

definition total_of :: "(usage_totals \<Rightarrow> int) \<Rightarrow> ('k \<times> usage_totals) list \<Rightarrow> int" where
  "total_of f groups = (\<Sum>(_, t)\<leftarrow>groups. f t)"

text \<open>
  C25. The usage overview reconciles: over the rows of the organization in the window, the
  requests, the prompt, completion and total tokens and the cache tokens of the provider
  breakdown and of the model breakdown add up to the totals of the summary, each breakdown
  listing a provider or a provider and model once; the requests without reported usage are the
  rows that lack it and their breakdown adds up to them; and every rate of requests
  is between 0 and 1.
\<close>

theorem usage_overview_reconciles:
  assumes "get_usage env cx query db logs = Inr v"
  shows "\<exists>since rows. range_since (rn_now env) (unwrap_or query ''24h'') = Inr since \<and>
     rows = org_rows (sd_cat db) (cx_org_id cx) since logs \<and> um_requests (uo_summary v) = int (length rows) \<and>
     sorted_keys (ug_providers (uo_groups v)) \<and> sorted_keys (ug_models (uo_groups v)) \<and>
     (\<forall>(f, total) \<in> {(ut_requests, um_requests), (ut_prompt, um_prompt), (ut_completion, um_completion), (ut_total, um_total),
          (ut_cache_hit, um_hit_tokens), (ut_cache_write, um_write_tokens)}.
        total_of f (ug_providers (uo_groups v)) = total (uo_summary v) \<and>
        total_of f (ug_models (uo_groups v)) = total (uo_summary v)) \<and>
     uo_missing_usage_requests v = count_rows (\<lambda>r. usage_source r \<noteq> ''provider_reported'') rows \<and>
     (\<Sum>(_, m, _)\<leftarrow>ug_missing (uo_groups v). m) = uo_missing_usage_requests v \<and>
     (\<forall>x \<in> {uo_success_rate v, uo_usage_coverage v, uo_pricing_coverage v}. 0 \<le> x \<and> x \<le> 1)"
proof -
  obtain since budget where since: "range_since (rn_now env) (unwrap_or query ''24h'') = Inr since"
    and v: "v = overview_of (sd_cat db) (unwrap_or query ''24h'') (org_rows (sd_cat db) (cx_org_id cx) since logs) budget"
    using assms unfolding get_usage_def Let_def by (auto split: sum.splits if_splits)
  let ?rows = "org_rows (sd_cat db) (cx_org_id cx) since logs"
  let ?bs = "breakdown_rows (sd_cat db) ?rows" and ?m = "summarise ?rows"
  let ?g = "group_usage ?bs"
  have missing: "0 \<le> bd_missing b" if "b \<in> set ?bs" for b
    using that by (auto simp: breakdown_rows_def breakdown_row_of_def count_rows_bounds)
  have counts: "ug_reported ?g = count_rows (\<lambda>r. usage_source r = ''provider_reported'') ?rows"
    "ug_priced ?g = count_rows (\<lambda>r. ul_pricing_source (row_settlement r) \<noteq> ''unpriced'') ?rows"
    "(\<Sum>(_, m, _)\<leftarrow>ug_missing ?g. m) = count_rows (\<lambda>r. usage_source r \<noteq> ''provider_reported'') ?rows"
    using group_usage_counts [of ?bs] missing unfolding breakdown_sums by blast+
  have fields: "uo_summary v = ?m" "uo_groups v = ?g" "uo_success_rate v = share_of (um_successful ?m) (um_requests ?m)"
    "uo_usage_coverage v = share_of (ug_reported ?g) (um_requests ?m)" "uo_pricing_coverage v = share_of (ug_priced ?g) (um_requests ?m)"
    "uo_missing_usage_requests v = um_requests ?m - ug_reported ?g"
    by (simp_all add: v overview_of_def Let_def)
  have totals: "um_requests ?m = (\<Sum>b\<leftarrow>?bs. bd_requests b)" "um_prompt ?m = (\<Sum>b\<leftarrow>?bs. bd_prompt b)"
    "um_completion ?m = (\<Sum>b\<leftarrow>?bs. bd_completion b)" "um_total ?m = (\<Sum>b\<leftarrow>?bs. bd_total b)"
    "um_hit_tokens ?m = (\<Sum>b\<leftarrow>?bs. bd_cache_hit b)" "um_write_tokens ?m = (\<Sum>b\<leftarrow>?bs. bd_cache_write b)"
    unfolding breakdown_sums by (simp_all add: summarise_def)
  have n: "um_requests ?m = int (length ?rows)" "um_successful ?m = count_rows (\<lambda>r. succeeded (ul_status_code (row_settlement r))) ?rows"
    by (simp_all add: summarise_def)
  have groups: "total_of f (ug_providers ?g) = (\<Sum>b\<leftarrow>?bs. d b) \<and> total_of f (ug_models ?g) = (\<Sum>b\<leftarrow>?bs. d b)"
    if "\<And>b t. f (add_totals b t) = f t + d b" "f no_totals = 0" for f :: "usage_totals \<Rightarrow> int" and d
    unfolding total_of_def using group_usage_sums [of f d ?bs, OF that] by blast
  have "\<forall>(f, total) \<in> {(ut_requests, um_requests), (ut_prompt, um_prompt), (ut_completion, um_completion), (ut_total, um_total),
          (ut_cache_hit, um_hit_tokens), (ut_cache_write, um_write_tokens)}.
        total_of f (ug_providers ?g) = total ?m \<and> total_of f (ug_models ?g) = total ?m"
    unfolding ball_simps prod.case totals
    by (intro conjI TrueI groups [THEN conjunct1] groups [THEN conjunct2]; simp add: add_totals_def no_totals_def)
  moreover have "\<forall>x \<in> {uo_success_rate v, uo_usage_coverage v, uo_pricing_coverage v}. 0 \<le> x \<and> x \<le> 1"
    unfolding fields counts n using share_of_bounds count_rows_bounds by blast
  moreover have "uo_missing_usage_requests v = count_rows (\<lambda>r. usage_source r \<noteq> ''provider_reported'') ?rows"
    unfolding fields counts n count_rows_not by simp
  moreover have "sorted_keys (ug_providers ?g) \<and> sorted_keys (ug_models ?g)"
    using group_usage_sorted [of no_groups] by (simp add: group_usage_def no_groups_def sorted_keys_def)
  ultimately show ?thesis
    unfolding fields(1,2)
    by (intro exI [of _ since] exI [of _ ?rows]) (simp only: since n counts(3) refl simp_thms)
qed

definition demo_report_env :: report_env where
  "demo_report_env = \<lparr>rn_ok = (\<lambda>_. True), rn_now = 9, rn_day = 0\<rparr>"

theorem usage_overview_reconciles_witness:
  "\<exists>v. get_usage demo_report_env demo_cx (Some ''all'') demo_key_db [(3, demo_usage_row)] = Inr v \<and>
     um_requests (uo_summary v) = 1 \<and> total_of ut_total (ug_models (uo_groups v)) = 15"
proof -
  let ?rows = "org_rows (sd_cat demo_key_db) (cx_org_id demo_cx) None [(3, demo_usage_row)]"
  have rows: "?rows = [(3, demo_usage_row)]"
    by (simp add: org_rows_def of_org_def within_range_def row_ids_def demo_usage_row_def demo_key_simps demo_catalog_simps)
  obtain v where v: "get_usage demo_report_env demo_cx (Some ''all'') demo_key_db [(3, demo_usage_row)] = Inr v"
    by (simp add: get_usage_def range_since_def demo_report_env_def Let_def)
  have "range_since (rn_now demo_report_env) (unwrap_or (Some ''all'') ''24h'') = Inr None" by (simp add: range_since_def)
  with usage_overview_reconciles [OF v] have "um_requests (uo_summary v) = int (length ?rows) \<and>
      total_of ut_total (ug_models (uo_groups v)) = um_total (uo_summary v)" by fastforce
  moreover have "um_total (uo_summary v) = sum_rows (\<lambda>r. ul_total_tokens (row_tokens r)) ?rows"
    using v by (auto simp: get_usage_def range_since_def demo_report_env_def Let_def overview_of_def summarise_def)
  ultimately show ?thesis using v unfolding rows by (simp add: sum_rows_def row_tokens_def demo_usage_row_def)
qed

end
