(* ===== verification/Service_Tables.thy ===== *)
theory Service_Tables
  imports Api_Keys Pricing
begin

text \<open>
  The statements on provider accounts, endpoints, pools and Virtual Models that the
  handlers of saas/model\_services and saas/providers.rs share, with the primary keys, the
  foreign keys and the cascades of the migrations, and what each of them keeps of
  the separation of workspaces. A pool and an account belong to one organization
  (\<open>sd_pool_org\<close>, \<open>sd_account_org\<close>).
\<close>

section \<open>Environment\<close>

text \<open>Which statements answer, the clock, and the n-th identifier drawn for a table.\<close>

record service_env =
  sn_ok :: statements
  sn_now :: nat
  sn_uuid :: "string \<Rightarrow> nat \<Rightarrow> string"

section \<open>Inserts\<close>

definition insert_account :: "bool \<Rightarrow> string \<Rightarrow> provider_account \<Rightarrow> saas_db \<Rightarrow> saas_db \<times> unit api" where
  "insert_account answers org a db = statement
     (answers \<and> \<not> taken pa_id (pa_id a) (ct_accounts (sd_cat db)) \<and> taken og_id org (ct_orgs (sd_cat db))) db
     ((update_cat (\<lambda>c. c\<lparr>ct_accounts := ct_accounts c @ [a]\<rparr>) db)
        \<lparr>sd_account_org := (sd_account_org db)(pa_id a \<mapsto> org)\<rparr>)"

definition insert_endpoint :: "bool \<Rightarrow> endpoint_row \<Rightarrow> saas_db \<Rightarrow> saas_db \<times> unit api" where
  "insert_endpoint answers e db = statement
     (answers \<and> \<not> taken er_id (er_id e) (ct_endpoints (sd_cat db)) \<and>
      taken pa_id (er_account_id e) (ct_accounts (sd_cat db))) db
     (update_cat (\<lambda>c. c\<lparr>ct_endpoints := ct_endpoints c @ [e]\<rparr>) db)"

definition insert_link :: "bool \<Rightarrow> string \<Rightarrow> string \<Rightarrow> saas_db \<Rightarrow> saas_db \<times> unit api" where
  "insert_link answers pool_id endpoint_id db = statement
     (answers \<and> \<not> list_ex (\<lambda>(p, e, _). p = pool_id \<and> e = endpoint_id) (ct_pool_endpoints (sd_cat db)) \<and>
      taken mp_id pool_id (ct_model_pools (sd_cat db)) \<and> taken er_id endpoint_id (ct_endpoints (sd_cat db))) db
     (update_cat (\<lambda>c. c\<lparr>ct_pool_endpoints := ct_pool_endpoints c @ [(pool_id, endpoint_id, 1, 1)]\<rparr>) db)"

definition insert_pool :: "bool \<Rightarrow> string \<Rightarrow> model_pool \<Rightarrow> saas_db \<Rightarrow> saas_db \<times> unit api" where
  "insert_pool answers org mp db = statement
     (answers \<and> \<not> taken mp_id (mp_id mp) (ct_model_pools (sd_cat db)) \<and> taken og_id org (ct_orgs (sd_cat db))) db
     ((update_cat (\<lambda>c. c\<lparr>ct_model_pools := ct_model_pools c @ [mp]\<rparr>) db)
        \<lparr>sd_pool_org := (sd_pool_org db)(mp_id mp \<mapsto> org)\<rparr>)"

text \<open>The name of a Virtual Model is unique; the handlers answer any failure as a conflict.\<close>

definition name_conflict :: "nat \<times> string" where
  "name_conflict = (409, ''Model name is already in use'')"

definition insert_virtual_model :: "bool \<Rightarrow> virtual_model \<Rightarrow> saas_db \<Rightarrow> saas_db \<times> unit api" where
  "insert_virtual_model answers vm db = apsnd (map_err (\<lambda>_. name_conflict)) (statement
     (answers \<and> \<not> taken vm_id (vm_id vm) (ct_virtual_models (sd_cat db)) \<and>
      \<not> taken vm_name (vm_name vm) (ct_virtual_models (sd_cat db)) \<and>
      taken mp_id (vm_pool_id vm) (ct_model_pools (sd_cat db))) db
     (update_cat (\<lambda>c. c\<lparr>ct_virtual_models := ct_virtual_models c @ [vm]\<rparr>) db))"

definition insert_project_grant :: "bool \<Rightarrow> string \<Rightarrow> string \<Rightarrow> saas_db \<Rightarrow> saas_db \<times> unit api" where
  "insert_project_grant answers project v db = statement
     (answers \<and> (project, v) \<notin> set (ct_project_grants (sd_cat db)) \<and>
      taken pj_id project (ct_projects (sd_cat db)) \<and> taken vm_id v (ct_virtual_models (sd_cat db))) db
     (update_cat (\<lambda>c. c\<lparr>ct_project_grants := ct_project_grants c @ [(project, v)]\<rparr>) db)"

section \<open>Updates\<close>

definition update_where :: "('r \<Rightarrow> bool) \<Rightarrow> ('r \<Rightarrow> 'r) \<Rightarrow> 'r list \<Rightarrow> 'r list" where
  "update_where P f rows = map (\<lambda>r. if P r then f r else r) rows"

definition update_pool :: "string \<Rightarrow> (model_pool \<Rightarrow> model_pool) \<Rightarrow> saas_db \<Rightarrow> saas_db" where
  "update_pool i f = update_cat (\<lambda>c. c\<lparr>ct_model_pools :=
     update_where (\<lambda>mp. mp_id mp = i) f (ct_model_pools c)\<rparr>)"

definition update_account :: "string \<Rightarrow> (provider_account \<Rightarrow> provider_account) \<Rightarrow> saas_db \<Rightarrow> saas_db" where
  "update_account i f = update_cat (\<lambda>c. c\<lparr>ct_accounts :=
     update_where (\<lambda>a. pa_id a = i) f (ct_accounts c)\<rparr>)"

definition update_endpoint :: "string \<Rightarrow> (endpoint_row \<Rightarrow> endpoint_row) \<Rightarrow> saas_db \<Rightarrow> saas_db" where
  "update_endpoint i f = update_cat (\<lambda>c. c\<lparr>ct_endpoints :=
     update_where (\<lambda>e. er_id e = i) f (ct_endpoints c)\<rparr>)"

definition rename_virtual_model :: "bool \<Rightarrow> string \<Rightarrow> string \<Rightarrow> saas_db \<Rightarrow> saas_db \<times> unit api" where
  "rename_virtual_model answers i name db = apsnd (map_err (\<lambda>_. name_conflict)) (statement
     (answers \<and> \<not> taken vm_name name (filter (\<lambda>vm. vm_id vm \<noteq> i) (ct_virtual_models (sd_cat db)))) db
     (update_cat (\<lambda>c. c\<lparr>ct_virtual_models :=
        update_where (\<lambda>vm. vm_id vm = i) (\<lambda>vm. vm\<lparr>vm_name := name\<rparr>) (ct_virtual_models c)\<rparr>) db))"

section \<open>Deletions and their cascades\<close>

text \<open>The grants of a deleted Virtual Model go with it.\<close>

definition delete_virtual_models :: "(virtual_model \<Rightarrow> bool) \<Rightarrow> saas_db \<Rightarrow> saas_db" where
  "delete_virtual_models P db =
     (let gone = vm_id ` {vm \<in> set (ct_virtual_models (sd_cat db)). P vm} in
      update_cat (\<lambda>c. c\<lparr>ct_virtual_models := filter (\<lambda>vm. \<not> P vm) (ct_virtual_models c),
        ct_project_grants := filter (\<lambda>(_, v). v \<notin> gone) (ct_project_grants c),
        ct_key_grants := filter (\<lambda>(_, v). v \<notin> gone) (ct_key_grants c)\<rparr>) db)"

definition delete_links :: "(string \<Rightarrow> string \<Rightarrow> bool) \<Rightarrow> saas_db \<Rightarrow> saas_db" where
  "delete_links P = update_cat (\<lambda>c. c\<lparr>ct_pool_endpoints := filter (\<lambda>(p, e, _). \<not> P p e) (ct_pool_endpoints c)\<rparr>)"

definition delete_pool :: "string \<Rightarrow> saas_db \<Rightarrow> saas_db" where
  "delete_pool i db =
     (let db = delete_links (\<lambda>p _. p = i) (delete_virtual_models (\<lambda>vm. vm_pool_id vm = i) db) in
      (update_cat (\<lambda>c. c\<lparr>ct_model_pools := filter (\<lambda>mp. mp_id mp \<noteq> i) (ct_model_pools c)\<rparr>) db)
        \<lparr>sd_pool_org := (sd_pool_org db)(i := None)\<rparr>)"

definition delete_endpoint :: "string \<Rightarrow> saas_db \<Rightarrow> saas_db" where
  "delete_endpoint i db = update_cat (\<lambda>c. c\<lparr>ct_endpoints := filter (\<lambda>e. er_id e \<noteq> i) (ct_endpoints c)\<rparr>)
     (delete_links (\<lambda>_ e. e = i) db)"

text \<open>An account is only ever deleted when no endpoint refers to it, so this cascades to nothing.\<close>

definition delete_account :: "string \<Rightarrow> saas_db \<Rightarrow> saas_db" where
  "delete_account i db =
     (update_cat (\<lambda>c. c\<lparr>ct_accounts := filter (\<lambda>a. pa_id a \<noteq> i) (ct_accounts c)\<rparr>) db)
        \<lparr>sd_account_org := (sd_account_org db)(i := None)\<rparr>"

definition delete_account_if_unreferenced :: "string \<Rightarrow> saas_db \<Rightarrow> saas_db" where
  "delete_account_if_unreferenced i db =
     (if list_ex (\<lambda>e. er_account_id e = i) (ct_endpoints (sd_cat db)) then db else delete_account i db)"

section \<open>The separation of workspaces\<close>

definition keys_distinct :: "saas_db \<Rightarrow> bool" where
  "keys_distinct db \<longleftrightarrow> distinct (map pa_id (ct_accounts (sd_cat db))) \<and> distinct (map er_id (ct_endpoints (sd_cat db))) \<and>
     distinct (map mp_id (ct_model_pools (sd_cat db))) \<and> distinct (map vm_id (ct_virtual_models (sd_cat db))) \<and>
     distinct (map vm_name (ct_virtual_models (sd_cat db)))"

definition parents_exist :: "saas_db \<Rightarrow> bool" where
  "parents_exist db \<longleftrightarrow> dom (sd_pool_org db) \<subseteq> mp_id ` set (ct_model_pools (sd_cat db)) \<and>
     dom (sd_account_org db) \<subseteq> pa_id ` set (ct_accounts (sd_cat db)) \<and>
     er_account_id ` set (ct_endpoints (sd_cat db)) \<subseteq> pa_id ` set (ct_accounts (sd_cat db)) \<and>
     vm_pool_id ` set (ct_virtual_models (sd_cat db)) \<subseteq> mp_id ` set (ct_model_pools (sd_cat db)) \<and>
     fst ` set (ct_pool_endpoints (sd_cat db)) \<subseteq> mp_id ` set (ct_model_pools (sd_cat db)) \<and>
     snd ` set (ct_key_grants (sd_cat db)) \<subseteq> vm_id ` set (ct_virtual_models (sd_cat db))"

text \<open>A pool holds endpoints of its own organization, and is granted to projects of it.\<close>

definition links_within :: "saas_db \<Rightarrow> bool" where
  "links_within db \<longleftrightarrow> (\<forall>x \<in> set (ct_pool_endpoints (sd_cat db)). \<exists>ep \<in> set (ct_endpoints (sd_cat db)).
     er_id ep = fst (snd x) \<and> sd_account_org db (er_account_id ep) = sd_pool_org db (fst x))"

definition grants_within :: "saas_db \<Rightarrow> bool" where
  "grants_within db \<longleftrightarrow> (\<forall>x \<in> set (ct_project_grants (sd_cat db)). \<exists>vm \<in> set (ct_virtual_models (sd_cat db)).
     vm_id vm = snd x \<and> (\<exists>pj \<in> set (ct_projects (sd_cat db)). pj_id pj = fst x \<and>
       sd_pool_org db (vm_pool_id vm) = Some (pj_org_id pj)))"

definition tenants_ok :: "saas_db \<Rightarrow> bool" where
  "tenants_ok db \<longleftrightarrow> keys_distinct db \<and> parents_exist db \<and> links_within db \<and> grants_within db"

text \<open>What the workspaces of the other organizations see, and every table the handlers leave alone.\<close>

definition own_models :: "string \<Rightarrow> saas_db \<Rightarrow> string set" where
  "own_models org db = vm_id ` {vm \<in> set (ct_virtual_models (sd_cat db)). sd_pool_org db (vm_pool_id vm) = Some org}"

definition others :: "string \<Rightarrow> (string \<rightharpoonup> string) \<Rightarrow> string \<rightharpoonup> string" where
  "others org m x = (if m x = Some org then None else m x)"

definition same_outside :: "string \<Rightarrow> saas_db \<Rightarrow> saas_db \<Rightarrow> bool" where
  "same_outside org db db' \<longleftrightarrow>
     filter (\<lambda>a. sd_account_org db' (pa_id a) \<noteq> Some org) (ct_accounts (sd_cat db')) =
       filter (\<lambda>a. sd_account_org db (pa_id a) \<noteq> Some org) (ct_accounts (sd_cat db)) \<and>
     filter (\<lambda>e. sd_account_org db' (er_account_id e) \<noteq> Some org) (ct_endpoints (sd_cat db')) =
       filter (\<lambda>e. sd_account_org db (er_account_id e) \<noteq> Some org) (ct_endpoints (sd_cat db)) \<and>
     filter (\<lambda>mp. sd_pool_org db' (mp_id mp) \<noteq> Some org) (ct_model_pools (sd_cat db')) =
       filter (\<lambda>mp. sd_pool_org db (mp_id mp) \<noteq> Some org) (ct_model_pools (sd_cat db)) \<and>
     filter (\<lambda>vm. sd_pool_org db' (vm_pool_id vm) \<noteq> Some org) (ct_virtual_models (sd_cat db')) =
       filter (\<lambda>vm. sd_pool_org db (vm_pool_id vm) \<noteq> Some org) (ct_virtual_models (sd_cat db)) \<and>
     filter (\<lambda>(p, _). sd_pool_org db' p \<noteq> Some org) (ct_pool_endpoints (sd_cat db')) =
       filter (\<lambda>(p, _). sd_pool_org db p \<noteq> Some org) (ct_pool_endpoints (sd_cat db)) \<and>
     filter (\<lambda>(_, v). v \<notin> own_models org db') (ct_project_grants (sd_cat db')) =
       filter (\<lambda>(_, v). v \<notin> own_models org db) (ct_project_grants (sd_cat db)) \<and>
     filter (\<lambda>(_, v). v \<notin> own_models org db') (ct_key_grants (sd_cat db')) =
       filter (\<lambda>(_, v). v \<notin> own_models org db) (ct_key_grants (sd_cat db)) \<and>
     others org (sd_pool_org db') = others org (sd_pool_org db) \<and>
     others org (sd_account_org db') = others org (sd_account_org db) \<and>
     ct_orgs (sd_cat db') = ct_orgs (sd_cat db) \<and> ct_projects (sd_cat db') = ct_projects (sd_cat db) \<and>
     ct_api_keys (sd_cat db') = ct_api_keys (sd_cat db) \<and> sd_users db' = sd_users db \<and>
     sd_sessions db' = sd_sessions db \<and> sd_verifications db' = sd_verifications db \<and> sd_members db' = sd_members db"

definition effect :: "string \<Rightarrow> saas_db \<Rightarrow> saas_db \<Rightarrow> bool" where
  "effect org db db' \<longleftrightarrow> (tenants_ok db \<longrightarrow> tenants_ok db' \<and> same_outside org db db')"

lemma effect_refl [simp]: "effect org db db"
  by (simp add: effect_def same_outside_def)

lemma same_outside_trans: "same_outside org a b \<Longrightarrow> same_outside org b c \<Longrightarrow> same_outside org a c"
  unfolding same_outside_def by simp

lemma effect_trans [trans]: "effect org a b \<Longrightarrow> effect org b c \<Longrightarrow> effect org a c"
  unfolding effect_def using same_outside_trans by blast

lemma effectI:
  assumes "tenants_ok db \<Longrightarrow> keys_distinct db' \<and> parents_exist db' \<and> links_within db' \<and> grants_within db'"
    and "tenants_ok db \<Longrightarrow> same_outside org db db'"
  shows "effect org db db'"
  using assms by (simp add: effect_def tenants_ok_def)

lemma update_cat_rest [simp]:
  "sd_account_org (update_cat f db) = sd_account_org db" "sd_users (update_cat f db) = sd_users db"
  "sd_sessions (update_cat f db) = sd_sessions db" "sd_verifications (update_cat f db) = sd_verifications db"
  "sd_members (update_cat f db) = sd_members db"
  by (simp_all add: update_cat_def)

lemmas separation_defs = keys_distinct_def parents_exist_def links_within_def grants_within_def

text \<open>A fresh identifier is no one's parent.\<close>

lemma fresh_account:
  assumes "tenants_ok db" "i \<notin> pa_id ` set (ct_accounts (sd_cat db))"
  shows "sd_account_org db i = None" "\<And>e. e \<in> set (ct_endpoints (sd_cat db)) \<Longrightarrow> er_account_id e \<noteq> i"
    "\<And>a. a \<in> set (ct_accounts (sd_cat db)) \<Longrightarrow> pa_id a \<noteq> i"
proof -
  have "dom (sd_account_org db) \<subseteq> pa_id ` set (ct_accounts (sd_cat db))"
    "er_account_id ` set (ct_endpoints (sd_cat db)) \<subseteq> pa_id ` set (ct_accounts (sd_cat db))"
    using assms(1) by (simp_all add: tenants_ok_def parents_exist_def)
  with assms(2) show "sd_account_org db i = None" "\<And>e. e \<in> set (ct_endpoints (sd_cat db)) \<Longrightarrow> er_account_id e \<noteq> i"
    "\<And>a. a \<in> set (ct_accounts (sd_cat db)) \<Longrightarrow> pa_id a \<noteq> i" by blast+
qed

lemma fresh_pool:
  assumes "tenants_ok db" "i \<notin> mp_id ` set (ct_model_pools (sd_cat db))"
  shows "sd_pool_org db i = None" "\<And>vm. vm \<in> set (ct_virtual_models (sd_cat db)) \<Longrightarrow> vm_pool_id vm \<noteq> i"
    "\<And>x. x \<in> set (ct_pool_endpoints (sd_cat db)) \<Longrightarrow> fst x \<noteq> i"
    "\<And>mp. mp \<in> set (ct_model_pools (sd_cat db)) \<Longrightarrow> mp_id mp \<noteq> i"
proof -
  have "dom (sd_pool_org db) \<subseteq> mp_id ` set (ct_model_pools (sd_cat db))"
    "vm_pool_id ` set (ct_virtual_models (sd_cat db)) \<subseteq> mp_id ` set (ct_model_pools (sd_cat db))"
    "fst ` set (ct_pool_endpoints (sd_cat db)) \<subseteq> mp_id ` set (ct_model_pools (sd_cat db))"
    using assms(1) by (simp_all add: tenants_ok_def parents_exist_def)
  with assms(2) show "sd_pool_org db i = None" "\<And>vm. vm \<in> set (ct_virtual_models (sd_cat db)) \<Longrightarrow> vm_pool_id vm \<noteq> i"
    "\<And>x. x \<in> set (ct_pool_endpoints (sd_cat db)) \<Longrightarrow> fst x \<noteq> i"
    "\<And>mp. mp \<in> set (ct_model_pools (sd_cat db)) \<Longrightarrow> mp_id mp \<noteq> i" by blast+
qed

lemma own_models_cong:
  assumes "ct_virtual_models (sd_cat db') = ct_virtual_models (sd_cat db)"
    and "\<And>vm. vm \<in> set (ct_virtual_models (sd_cat db)) \<Longrightarrow> sd_pool_org db' (vm_pool_id vm) = sd_pool_org db (vm_pool_id vm)"
  shows "own_models org db' = own_models org db"
  using assms by (auto simp: own_models_def)

lemma insert_account_effect:
  assumes "insert_account ok org a db = (db', Inr ())"
  shows "effect org db db'"
proof (rule effectI)
  assume ok: "tenants_ok db"
  have db': "db' = (update_cat (\<lambda>c. c\<lparr>ct_accounts := ct_accounts c @ [a]\<rparr>) db)\<lparr>sd_account_org := (sd_account_org db)(pa_id a \<mapsto> org)\<rparr>"
    and new: "pa_id a \<notin> pa_id ` set (ct_accounts (sd_cat db))"
    using assms by (auto simp: insert_account_def)
  note fresh = fresh_account [OF ok new]
  have acct: "sd_account_org db' (er_account_id e) = sd_account_org db (er_account_id e)"
    if "e \<in> set (ct_endpoints (sd_cat db))" for e using fresh(2) [OF that] by (simp add: db')
  show "keys_distinct db' \<and> parents_exist db' \<and> links_within db' \<and> grants_within db'"
    using ok new acct unfolding tenants_ok_def separation_defs
    by (intro conjI) (auto simp: db')
  have "filter (\<lambda>a. sd_account_org db' (pa_id a) \<noteq> Some org) (ct_accounts (sd_cat db)) =
      filter (\<lambda>a. sd_account_org db (pa_id a) \<noteq> Some org) (ct_accounts (sd_cat db))"
    using fresh(3) by (intro filter_cong) (auto simp: db')
  moreover have "filter (\<lambda>e. sd_account_org db' (er_account_id e) \<noteq> Some org) (ct_endpoints (sd_cat db)) =
      filter (\<lambda>e. sd_account_org db (er_account_id e) \<noteq> Some org) (ct_endpoints (sd_cat db))"
    using acct by (intro filter_cong) auto
  moreover have "own_models org db' = own_models org db" by (rule own_models_cong) (simp_all add: db')
  moreover have "others org (sd_account_org db') = others org (sd_account_org db)"
    using fresh(1) by (auto simp: others_def db')
  ultimately show "same_outside org db db'" by (simp add: same_outside_def db')
qed

lemma insert_endpoint_effect:
  assumes "insert_endpoint ok e db = (db', Inr ())" "sd_account_org db (er_account_id e) = Some org"
  shows "effect org db db'"
proof (rule effectI)
  assume ok: "tenants_ok db"
  have db': "db' = update_cat (\<lambda>c. c\<lparr>ct_endpoints := ct_endpoints c @ [e]\<rparr>) db"
    and new: "er_id e \<notin> er_id ` set (ct_endpoints (sd_cat db))"
    and parent: "er_account_id e \<in> pa_id ` set (ct_accounts (sd_cat db))"
    using assms(1) by (auto simp: insert_endpoint_def)
  show "keys_distinct db' \<and> parents_exist db' \<and> links_within db' \<and> grants_within db'"
    using ok new parent unfolding tenants_ok_def separation_defs
    by (intro conjI) (auto simp: db')
  have "own_models org db' = own_models org db" by (rule own_models_cong) (simp_all add: db')
  then show "same_outside org db db'" using assms(2) by (simp add: same_outside_def db')
qed

lemma insert_link_effect:
  assumes "insert_link ok p i db = (db', Inr ())" "sd_pool_org db p = Some org"
    and "ep \<in> set (ct_endpoints (sd_cat db))" "er_id ep = i" "sd_account_org db (er_account_id ep) = Some org"
  shows "effect org db db'"
proof (rule effectI)
  assume ok: "tenants_ok db"
  have db': "db' = update_cat (\<lambda>c. c\<lparr>ct_pool_endpoints := ct_pool_endpoints c @ [(p, i, 1, 1)]\<rparr>) db"
    and parent: "p \<in> mp_id ` set (ct_model_pools (sd_cat db))"
    using assms(1) by (auto simp: insert_link_def)
  show "keys_distinct db' \<and> parents_exist db' \<and> links_within db' \<and> grants_within db'"
    using ok parent assms(2-5) unfolding tenants_ok_def separation_defs
    by (intro conjI) (auto simp: db')
  have "own_models org db' = own_models org db" by (rule own_models_cong) (simp_all add: db')
  then show "same_outside org db db'" using assms(2) by (simp add: same_outside_def db')
qed

lemma insert_pool_effect:
  assumes "insert_pool ok org mp db = (db', Inr ())"
  shows "effect org db db'"
proof (rule effectI)
  assume ok: "tenants_ok db"
  have db': "db' = (update_cat (\<lambda>c. c\<lparr>ct_model_pools := ct_model_pools c @ [mp]\<rparr>) db)\<lparr>sd_pool_org := (sd_pool_org db)(mp_id mp \<mapsto> org)\<rparr>"
    and new: "mp_id mp \<notin> mp_id ` set (ct_model_pools (sd_cat db))"
    using assms by (auto simp: insert_pool_def)
  note fresh = fresh_pool [OF ok new]
  have vms: "sd_pool_org db' (vm_pool_id vm) = sd_pool_org db (vm_pool_id vm)"
    if "vm \<in> set (ct_virtual_models (sd_cat db))" for vm using fresh(2) [OF that] by (simp add: db')
  have links: "sd_pool_org db' (fst x) = sd_pool_org db (fst x)"
    if "x \<in> set (ct_pool_endpoints (sd_cat db))" for x using fresh(3) [OF that] by (simp add: db')
  show "keys_distinct db' \<and> parents_exist db' \<and> links_within db' \<and> grants_within db'"
  proof (intro conjI)
    show "links_within db'" using ok links unfolding tenants_ok_def links_within_def
      by (fastforce simp: db')
    show "grants_within db'" using ok vms unfolding tenants_ok_def grants_within_def
      by (fastforce simp: db')
  qed (use ok new in \<open>auto simp: tenants_ok_def keys_distinct_def parents_exist_def db'\<close>)
  have "filter (\<lambda>mp. sd_pool_org db' (mp_id mp) \<noteq> Some org) (ct_model_pools (sd_cat db)) =
      filter (\<lambda>mp. sd_pool_org db (mp_id mp) \<noteq> Some org) (ct_model_pools (sd_cat db))"
    using fresh(4) by (intro filter_cong) (auto simp: db')
  moreover have "filter (\<lambda>vm. sd_pool_org db' (vm_pool_id vm) \<noteq> Some org) (ct_virtual_models (sd_cat db)) =
      filter (\<lambda>vm. sd_pool_org db (vm_pool_id vm) \<noteq> Some org) (ct_virtual_models (sd_cat db))"
    using vms by (intro filter_cong) auto
  moreover have "filter (\<lambda>(p, _). sd_pool_org db' p \<noteq> Some org) (ct_pool_endpoints (sd_cat db)) =
      filter (\<lambda>(p, _). sd_pool_org db p \<noteq> Some org) (ct_pool_endpoints (sd_cat db))"
    using links by (intro filter_cong) auto
  moreover have "own_models org db' = own_models org db"
    by (rule own_models_cong [OF _ vms]) (simp_all add: db')
  moreover have "others org (sd_pool_org db') = others org (sd_pool_org db)"
    using fresh(1) by (auto simp: others_def db')
  ultimately show "same_outside org db db'" by (simp add: same_outside_def db')
qed

lemma apsnd_map_err_Inr [simp]: "apsnd (map_err g) m = (s, Inr x) \<longleftrightarrow> m = (s, Inr x)"
  by (cases m) auto

lemma grants_have_models:
  assumes "tenants_ok db"
  shows "x \<in> set (ct_project_grants (sd_cat db)) \<Longrightarrow> snd x \<in> vm_id ` set (ct_virtual_models (sd_cat db))"
    "x \<in> set (ct_key_grants (sd_cat db)) \<Longrightarrow> snd x \<in> vm_id ` set (ct_virtual_models (sd_cat db))"
proof -
  assume "x \<in> set (ct_project_grants (sd_cat db))"
  then obtain vm where "vm \<in> set (ct_virtual_models (sd_cat db))" "vm_id vm = snd x"
    using assms unfolding tenants_ok_def grants_within_def by blast
  then show "snd x \<in> vm_id ` set (ct_virtual_models (sd_cat db))" by (metis image_eqI)
qed (use assms in \<open>auto simp: tenants_ok_def parents_exist_def\<close>)

lemma insert_virtual_model_effect:
  assumes "insert_virtual_model ok vm db = (db', Inr ())" "sd_pool_org db (vm_pool_id vm) = Some org"
  shows "effect org db db'"
proof (rule effectI)
  assume ok: "tenants_ok db"
  have db': "db' = update_cat (\<lambda>c. c\<lparr>ct_virtual_models := ct_virtual_models c @ [vm]\<rparr>) db"
    and new: "vm_id vm \<notin> vm_id ` set (ct_virtual_models (sd_cat db))" "vm_name vm \<notin> vm_name ` set (ct_virtual_models (sd_cat db))"
    and parent: "vm_pool_id vm \<in> mp_id ` set (ct_model_pools (sd_cat db))"
    using assms(1) by (auto simp: insert_virtual_model_def)
  show "keys_distinct db' \<and> parents_exist db' \<and> links_within db' \<and> grants_within db'"
  proof (intro conjI)
    show "grants_within db'" using ok unfolding tenants_ok_def grants_within_def by (fastforce simp: db')
    show "links_within db'" using ok unfolding tenants_ok_def links_within_def by (simp add: db')
  qed (use ok new parent in \<open>auto simp: tenants_ok_def keys_distinct_def parents_exist_def db'\<close>)
  have own: "own_models org db' = insert (vm_id vm) (own_models org db)"
    using assms(2) by (auto simp: own_models_def db')
  have keep: "snd x \<in> own_models org db' \<longleftrightarrow> snd x \<in> own_models org db"
    if "x \<in> set (ct_project_grants (sd_cat db)) \<or> x \<in> set (ct_key_grants (sd_cat db))" for x
    using grants_have_models [OF ok] that new(1) by (metis own insert_iff)
  have "filter (\<lambda>(_, v). v \<notin> own_models org db') (ct_project_grants (sd_cat db)) =
      filter (\<lambda>(_, v). v \<notin> own_models org db) (ct_project_grants (sd_cat db))"
    using keep by (intro filter_cong) (simp_all add: case_prod_unfold)
  moreover have "filter (\<lambda>(_, v). v \<notin> own_models org db') (ct_key_grants (sd_cat db)) =
      filter (\<lambda>(_, v). v \<notin> own_models org db) (ct_key_grants (sd_cat db))"
    using keep by (intro filter_cong) (simp_all add: case_prod_unfold)
  ultimately show "same_outside org db db'" using assms(2) by (simp add: same_outside_def db')
qed

lemma insert_project_grant_effect:
  assumes "insert_project_grant ok p v db = (db', Inr ())"
    and "vm \<in> set (ct_virtual_models (sd_cat db))" "vm_id vm = v" "sd_pool_org db (vm_pool_id vm) = Some org"
    and "pj \<in> set (ct_projects (sd_cat db))" "pj_id pj = p" "pj_org_id pj = org"
  shows "effect org db db'"
proof (rule effectI)
  assume ok: "tenants_ok db"
  have db': "db' = update_cat (\<lambda>c. c\<lparr>ct_project_grants := ct_project_grants c @ [(p, v)]\<rparr>) db"
    using assms(1) by (auto simp: insert_project_grant_def)
  show "keys_distinct db' \<and> parents_exist db' \<and> links_within db' \<and> grants_within db'"
    using ok assms(2-7) unfolding tenants_ok_def separation_defs
    by (intro conjI) (auto simp: db')
  have "own_models org db' = own_models org db" by (rule own_models_cong) (simp_all add: db')
  moreover have "v \<in> own_models org db" using assms(2-4) by (auto simp: own_models_def)
  ultimately show "same_outside org db db'" by (simp add: same_outside_def db')
qed

text \<open>Updates of an own row that keep its identifier and its parent.\<close>

lemma update_where_map: "(\<And>x. g (f x) = g x) \<Longrightarrow> map g (update_where P f xs) = map g xs"
  by (simp add: update_where_def)

lemma update_where_image: "(\<And>x. g (f x) = g x) \<Longrightarrow> g ` set (update_where P f xs) = g ` set xs"
  by (metis update_where_map list.set_map)

lemma update_where_filter:
  "(\<And>x. x \<in> set xs \<Longrightarrow> P x \<Longrightarrow> \<not> Q x \<and> \<not> Q (f x)) \<Longrightarrow> filter Q (update_where P f xs) = filter Q xs"
  by (induction xs) (auto simp: update_where_def)

lemma update_where_mem: "x \<in> set xs \<Longrightarrow> (if P x then f x else x) \<in> set (update_where P f xs)"
  by (auto simp: update_where_def)

lemma update_where_select:
  "(\<And>x. g (f x) = g x) \<Longrightarrow> (\<And>x. Q (f x) = Q x) \<Longrightarrow> g ` {x \<in> set (update_where P f xs). Q x} = g ` {x \<in> set xs. Q x}"
proof (induction xs)
  case (Cons y ys)
  have "{x \<in> set (update_where P f (y # ys)). Q x} =
      (if Q y then {if P y then f y else y} else {}) \<union> {x \<in> set (update_where P f ys). Q x}"
    using Cons.prems(2) by (auto simp: update_where_def)
  moreover have "{x \<in> set (y # ys). Q x} = (if Q y then {y} else {}) \<union> {x \<in> set ys. Q x}" by auto
  ultimately show ?case using Cons by (simp add: image_Un)
qed (simp add: update_where_def)

lemmas update_where_simps = update_where_map update_where_image update_where_filter

lemma update_pool_effect:
  assumes "\<And>mp. mp_id (f mp) = mp_id mp" "sd_pool_org db i = Some org"
  shows "effect org db (update_pool i f db)"
proof (rule effectI)
  assume ok: "tenants_ok db"
  show "keys_distinct (update_pool i f db) \<and> parents_exist (update_pool i f db) \<and>
      links_within (update_pool i f db) \<and> grants_within (update_pool i f db)"
    using ok assms(1) unfolding tenants_ok_def separation_defs by (simp add: update_pool_def update_where_simps)
  have "own_models org (update_pool i f db) = own_models org db"
    by (rule own_models_cong) (simp_all add: update_pool_def)
  moreover have "filter (\<lambda>mp. sd_pool_org db (mp_id mp) \<noteq> Some org) (update_where (\<lambda>mp. mp_id mp = i) f xs) =
      filter (\<lambda>mp. sd_pool_org db (mp_id mp) \<noteq> Some org) xs" for xs
    by (rule update_where_filter) (use assms in auto)
  ultimately show "same_outside org db (update_pool i f db)"
    by (simp add: same_outside_def update_pool_def)
qed

lemma update_account_effect:
  assumes "\<And>a. pa_id (f a) = pa_id a" "sd_account_org db i = Some org"
  shows "effect org db (update_account i f db)"
proof (rule effectI)
  assume ok: "tenants_ok db"
  show "keys_distinct (update_account i f db) \<and> parents_exist (update_account i f db) \<and>
      links_within (update_account i f db) \<and> grants_within (update_account i f db)"
    using ok assms(1) unfolding tenants_ok_def separation_defs by (simp add: update_account_def update_where_simps)
  have "own_models org (update_account i f db) = own_models org db"
    by (rule own_models_cong) (simp_all add: update_account_def)
  moreover have "filter (\<lambda>a. sd_account_org db (pa_id a) \<noteq> Some org) (update_where (\<lambda>a. pa_id a = i) f xs) =
      filter (\<lambda>a. sd_account_org db (pa_id a) \<noteq> Some org) xs" for xs
    by (rule update_where_filter) (use assms in auto)
  ultimately show "same_outside org db (update_account i f db)"
    by (simp add: same_outside_def update_account_def)
qed

lemma update_endpoint_effect:
  assumes "\<And>e. er_id (f e) = er_id e" "\<And>e. er_account_id (f e) = er_account_id e"
    and "\<And>e. e \<in> set (ct_endpoints (sd_cat db)) \<Longrightarrow> er_id e = i \<Longrightarrow> sd_account_org db (er_account_id e) = Some org"
  shows "effect org db (update_endpoint i f db)"
proof (rule effectI)
  let ?db = "update_endpoint i f db"
  assume ok: "tenants_ok db"
  show "keys_distinct ?db \<and> parents_exist ?db \<and> links_within ?db \<and> grants_within ?db"
  proof (intro conjI)
    show "links_within ?db" unfolding links_within_def
    proof
      fix x
      assume "x \<in> set (ct_pool_endpoints (sd_cat ?db))"
      then obtain ep where ep: "ep \<in> set (ct_endpoints (sd_cat db))" "er_id ep = fst (snd x)"
        "sd_account_org db (er_account_id ep) = sd_pool_org db (fst x)"
        using ok unfolding tenants_ok_def links_within_def by (auto simp: update_endpoint_def)
      then show "\<exists>ep \<in> set (ct_endpoints (sd_cat ?db)). er_id ep = fst (snd x) \<and>
          sd_account_org ?db (er_account_id ep) = sd_pool_org ?db (fst x)"
        using assms(1,2) update_where_mem [OF ep(1), of "\<lambda>e. er_id e = i" f]
        by (intro bexI [of _ "if er_id ep = i then f ep else ep"]) (simp_all add: update_endpoint_def)
    qed
  qed (use ok assms(1,2) in \<open>simp_all add: tenants_ok_def keys_distinct_def parents_exist_def grants_within_def
      update_endpoint_def update_where_simps\<close>)
  have "own_models org ?db = own_models org db" by (rule own_models_cong) (simp_all add: update_endpoint_def)
  then show "same_outside org db ?db"
    using assms by (simp add: same_outside_def update_endpoint_def update_where_filter)
qed

lemma rename_keeps_names_distinct:
  assumes "distinct (map key vms)" "distinct (map name vms)" "n \<notin> name ` set (filter (\<lambda>vm. key vm \<noteq> i) vms)"
    and "\<And>vm. name (f vm) = n"
  shows "distinct (map name (update_where (\<lambda>vm. key vm = i) f vms))"
  using assms(1-3)
proof (induction vms)
  case (Cons vm vms)
  then have IH: "distinct (map name (update_where (\<lambda>vm. key vm = i) f vms))" by (auto split: if_splits)
  show ?case
  proof (cases "key vm = i")
    case True
    then have none: "\<forall>x \<in> set vms. key x \<noteq> i" using Cons.prems(1) by (metis distinct.simps(2) image_eqI list.set_map list.simps(9))
    then have "update_where (\<lambda>vm. key vm = i) f vms = vms" by (simp add: update_where_def map_idI)
    moreover have "n \<notin> name ` set vms" using Cons.prems(3) none by auto
    ultimately show ?thesis using True Cons.prems(2) assms(4) by (simp add: update_where_def)
  next
    case False
    then have "name vm \<noteq> n" using Cons.prems(3) by auto
    moreover have "name vm \<notin> name ` set vms" using Cons.prems(2) by simp
    ultimately have "name vm \<notin> set (map name (update_where (\<lambda>vm. key vm = i) f vms))"
      using assms(4) by (auto simp: update_where_def split: if_splits)
    moreover have "update_where (\<lambda>vm. key vm = i) f (vm # vms) = vm # update_where (\<lambda>vm. key vm = i) f vms"
      using False by (simp add: update_where_def)
    ultimately show ?thesis using IH by (simp only: list.map distinct.simps simp_thms)
  qed
qed (simp add: update_where_def)

lemma rename_virtual_model_effect:
  assumes "rename_virtual_model ok i name db = (db', Inr ())"
    and "\<And>vm. vm \<in> set (ct_virtual_models (sd_cat db)) \<Longrightarrow> vm_id vm = i \<Longrightarrow> sd_pool_org db (vm_pool_id vm) = Some org"
  shows "effect org db db'"
proof (rule effectI)
  let ?f = "\<lambda>vm. vm\<lparr>vm_name := name\<rparr>" and ?vms = "ct_virtual_models (sd_cat db)"
  let ?vms' = "update_where (\<lambda>vm. vm_id vm = i) ?f ?vms"
  assume ok: "tenants_ok db"
  have db': "db' = update_cat (\<lambda>c. c\<lparr>ct_virtual_models := update_where (\<lambda>vm. vm_id vm = i) ?f (ct_virtual_models c)\<rparr>) db"
    and new: "name \<notin> vm_name ` set (filter (\<lambda>vm. vm_id vm \<noteq> i) ?vms)"
    using assms(1) unfolding rename_virtual_model_def by (simp_all del: set_filter)
  have vms': "ct_virtual_models (sd_cat db') = ?vms'" by (simp add: db')
  have ids: "map vm_id ?vms' = map vm_id ?vms" "vm_id ` set ?vms' = vm_id ` set ?vms"
    "vm_pool_id ` set ?vms' = vm_pool_id ` set ?vms"
    by (simp_all add: update_where_simps)
  have names: "distinct (map vm_name ?vms')"
    by (rule rename_keeps_names_distinct [OF _ _ new]) (use ok in \<open>simp_all add: tenants_ok_def keys_distinct_def\<close>)
  have mem: "vm_id (if vm_id vm = i then ?f vm else vm) = vm_id vm"
    "vm_pool_id (if vm_id vm = i then ?f vm else vm) = vm_pool_id vm" for vm by simp_all
  show "keys_distinct db' \<and> parents_exist db' \<and> links_within db' \<and> grants_within db'"
  proof (intro conjI)
    show "keys_distinct db'" using ok ids(1) names unfolding tenants_ok_def keys_distinct_def vms' by (simp add: db')
    show "parents_exist db'" using ok ids(2,3) unfolding tenants_ok_def parents_exist_def vms' by (simp add: db')
    show "links_within db'" using ok unfolding tenants_ok_def links_within_def by (simp add: db')
    show "grants_within db'" unfolding grants_within_def vms'
    proof
      fix x
      assume "x \<in> set (ct_project_grants (sd_cat db'))"
      then have "x \<in> set (ct_project_grants (sd_cat db))" by (simp add: db')
      then obtain vm where vm: "vm \<in> set ?vms" and "vm_id vm = snd x" "\<exists>pj \<in> set (ct_projects (sd_cat db)). pj_id pj = fst x \<and>
          sd_pool_org db (vm_pool_id vm) = Some (pj_org_id pj)"
        using ok unfolding tenants_ok_def grants_within_def by blast
      then show "\<exists>vm \<in> set ?vms'. vm_id vm = snd x \<and> (\<exists>pj \<in> set (ct_projects (sd_cat db')). pj_id pj = fst x \<and>
          sd_pool_org db' (vm_pool_id vm) = Some (pj_org_id pj))"
        using mem update_where_mem [OF vm, of "\<lambda>vm. vm_id vm = i" ?f]
        by (intro bexI [of _ "if vm_id vm = i then ?f vm else vm"]) (simp_all add: db')
    qed
  qed
  have own: "own_models org db' = own_models org db"
  proof -
    have "own_models org db' = vm_id ` {vm \<in> set ?vms'. sd_pool_org db (vm_pool_id vm) = Some org}"
      by (simp add: own_models_def db')
    also have "\<dots> = own_models org db"
      unfolding own_models_def by (rule update_where_select) simp_all
    finally show ?thesis .
  qed
  have "filter (\<lambda>vm. sd_pool_org db (vm_pool_id vm) \<noteq> Some org) ?vms' =
      filter (\<lambda>vm. sd_pool_org db (vm_pool_id vm) \<noteq> Some org) ?vms"
    by (rule update_where_filter) (use assms(2) in auto)
  with own show "same_outside org db db'" by (simp add: same_outside_def db')
qed

text \<open>Deletions.\<close>

lemma parents_existD:
  assumes "tenants_ok db"
  shows "dom (sd_pool_org db) \<subseteq> mp_id ` set (ct_model_pools (sd_cat db))"
    "dom (sd_account_org db) \<subseteq> pa_id ` set (ct_accounts (sd_cat db))"
    "er_account_id ` set (ct_endpoints (sd_cat db)) \<subseteq> pa_id ` set (ct_accounts (sd_cat db))"
    "vm_pool_id ` set (ct_virtual_models (sd_cat db)) \<subseteq> mp_id ` set (ct_model_pools (sd_cat db))"
    "fst ` set (ct_pool_endpoints (sd_cat db)) \<subseteq> mp_id ` set (ct_model_pools (sd_cat db))"
    "snd ` set (ct_key_grants (sd_cat db)) \<subseteq> vm_id ` set (ct_virtual_models (sd_cat db))"
  using assms by (simp_all add: tenants_ok_def parents_exist_def)

lemma parents_existI:
  assumes "dom (sd_pool_org db) \<subseteq> mp_id ` set (ct_model_pools (sd_cat db))"
    "dom (sd_account_org db) \<subseteq> pa_id ` set (ct_accounts (sd_cat db))"
    "er_account_id ` set (ct_endpoints (sd_cat db)) \<subseteq> pa_id ` set (ct_accounts (sd_cat db))"
    "vm_pool_id ` set (ct_virtual_models (sd_cat db)) \<subseteq> mp_id ` set (ct_model_pools (sd_cat db))"
    "fst ` set (ct_pool_endpoints (sd_cat db)) \<subseteq> mp_id ` set (ct_model_pools (sd_cat db))"
    "snd ` set (ct_key_grants (sd_cat db)) \<subseteq> vm_id ` set (ct_virtual_models (sd_cat db))"
  shows "parents_exist db"
  using assms by (simp add: parents_exist_def)

lemma ids_but: "key ` {x \<in> S. key x \<noteq> i} = key ` S - {i}"
  by auto

lemma delete_links_effect:
  assumes "\<And>p e r. (p, e, r) \<in> set (ct_pool_endpoints (sd_cat db)) \<Longrightarrow> P p e \<Longrightarrow> sd_pool_org db p = Some org"
  shows "effect org db (delete_links P db)"
proof (rule effectI)
  assume ok: "tenants_ok db"
  show "keys_distinct (delete_links P db) \<and> parents_exist (delete_links P db) \<and>
      links_within (delete_links P db) \<and> grants_within (delete_links P db)"
    using ok unfolding tenants_ok_def separation_defs
    by (intro conjI) (auto simp: delete_links_def)
  have "own_models org (delete_links P db) = own_models org db"
    by (rule own_models_cong) (simp_all add: delete_links_def)
  moreover have "filter (\<lambda>(p, _). sd_pool_org db p \<noteq> Some org) (filter (\<lambda>(p, e, _). \<not> P p e) (ct_pool_endpoints (sd_cat db))) =
      filter (\<lambda>(p, _). sd_pool_org db p \<noteq> Some org) (ct_pool_endpoints (sd_cat db))"
    using assms by (auto intro!: filter_cong)
  ultimately show "same_outside org db (delete_links P db)"
    by (simp add: same_outside_def delete_links_def)
qed

lemma delete_virtual_models_effect:
  assumes "\<And>vm. vm \<in> set (ct_virtual_models (sd_cat db)) \<Longrightarrow> P vm \<Longrightarrow> sd_pool_org db (vm_pool_id vm) = Some org"
  shows "effect org db (delete_virtual_models P db)"
proof (rule effectI)
  let ?db = "delete_virtual_models P db" and ?vms = "ct_virtual_models (sd_cat db)"
  let ?gone = "vm_id ` {vm \<in> set ?vms. P vm}"
  assume ok: "tenants_ok db"
  have "distinct (map vm_id ?vms)" using ok by (simp add: tenants_ok_def keys_distinct_def)
  then have inj: "vm = vm'" if "vm \<in> set ?vms" "vm' \<in> set ?vms" "vm_id vm = vm_id vm'" for vm vm'
    using that by (simp add: distinct_map inj_on_def)
  have kept: "vm \<in> set (filter (\<lambda>vm. \<not> P vm) ?vms)" if "vm \<in> set ?vms" "vm_id vm \<notin> ?gone" for vm
    using that by auto
  show "keys_distinct ?db \<and> parents_exist ?db \<and> links_within ?db \<and> grants_within ?db"
  proof (intro conjI)
    show "keys_distinct ?db" using ok unfolding tenants_ok_def keys_distinct_def
      by (simp add: delete_virtual_models_def Let_def distinct_map_filter)
    show "links_within ?db" using ok unfolding tenants_ok_def links_within_def
      by (simp add: delete_virtual_models_def Let_def)
    have "snd x \<in> vm_id ` set (filter (\<lambda>vm. \<not> P vm) ?vms)"
      if "x \<in> set (ct_key_grants (sd_cat db))" "snd x \<notin> ?gone" for x
      using grants_have_models(2) [OF ok that(1)] that(2) by (metis (no_types, lifting) imageE image_eqI kept)
    then show "parents_exist ?db" using ok unfolding tenants_ok_def parents_exist_def
      by (auto simp: delete_virtual_models_def Let_def)
    show "grants_within ?db" unfolding grants_within_def
    proof
      fix x
      assume "x \<in> set (ct_project_grants (sd_cat ?db))"
      then have "x \<in> set (ct_project_grants (sd_cat db))" and gone: "snd x \<notin> ?gone"
        by (auto simp: delete_virtual_models_def Let_def)
      then obtain vm where vm: "vm \<in> set ?vms" "vm_id vm = snd x" "\<exists>pj \<in> set (ct_projects (sd_cat db)). pj_id pj = fst x \<and>
          sd_pool_org db (vm_pool_id vm) = Some (pj_org_id pj)"
        using ok unfolding tenants_ok_def grants_within_def by blast
      then show "\<exists>vm \<in> set (ct_virtual_models (sd_cat ?db)). vm_id vm = snd x \<and>
          (\<exists>pj \<in> set (ct_projects (sd_cat ?db)). pj_id pj = fst x \<and> sd_pool_org ?db (vm_pool_id vm) = Some (pj_org_id pj))"
        using kept [of vm] gone by (intro bexI [of _ vm]) (simp_all add: delete_virtual_models_def Let_def)
    qed
  qed
  have own: "v \<notin> own_models org ?db \<and> v \<notin> ?gone \<longleftrightarrow> v \<notin> own_models org db" for v
    using assms inj by (auto simp: own_models_def delete_virtual_models_def Let_def)
  have "filter (\<lambda>(_, v). v \<notin> own_models org ?db) (filter (\<lambda>(_, v). v \<notin> ?gone) gs) =
      filter (\<lambda>(_, v). v \<notin> own_models org db) gs" for gs :: "(string \<times> string) list"
    unfolding filter_filter by (rule filter_cong) (use own in auto)
  moreover have "filter (\<lambda>vm. sd_pool_org db (vm_pool_id vm) \<noteq> Some org) (filter (\<lambda>vm. \<not> P vm) ?vms) =
      filter (\<lambda>vm. sd_pool_org db (vm_pool_id vm) \<noteq> Some org) ?vms"
    unfolding filter_filter by (rule filter_cong) (use assms in auto)
  ultimately show "same_outside org db ?db"
    unfolding same_outside_def by (simp add: delete_virtual_models_def Let_def)
qed

lemma delete_pool_effect:
  assumes "sd_pool_org db i = Some org"
  shows "effect org db (delete_pool i db)"
proof -
  let ?db1 = "delete_virtual_models (\<lambda>vm. vm_pool_id vm = i) db"
  let ?db2 = "delete_links (\<lambda>p _. p = i) ?db1"
  have org: "sd_pool_org ?db2 = sd_pool_org db" "sd_pool_org ?db1 = sd_pool_org db"
    by (simp_all add: delete_links_def delete_virtual_models_def Let_def)
  have "effect org db ?db1" by (rule delete_virtual_models_effect) (use assms in simp)
  also have "effect org ?db1 ?db2" by (rule delete_links_effect) (use assms org in simp)
  also have "effect org ?db2 (delete_pool i db)"
  proof (rule effectI)
    let ?db3 = "delete_pool i db"
    have db3: "?db3 = (update_cat (\<lambda>c. c\<lparr>ct_model_pools := filter (\<lambda>mp. mp_id mp \<noteq> i) (ct_model_pools c)\<rparr>) ?db2)
        \<lparr>sd_pool_org := (sd_pool_org ?db2)(i := None)\<rparr>" by (simp add: delete_pool_def Let_def)
    have no_vm: "vm_pool_id vm \<noteq> i" if "vm \<in> set (ct_virtual_models (sd_cat ?db2))" for vm
      using that by (auto simp: delete_links_def delete_virtual_models_def Let_def)
    have no_link: "fst x \<noteq> i" if "x \<in> set (ct_pool_endpoints (sd_cat ?db2))" for x
      using that by (auto simp: delete_links_def)
    assume ok: "tenants_ok ?db2"
    show "keys_distinct ?db3 \<and> parents_exist ?db3 \<and> links_within ?db3 \<and> grants_within ?db3"
    proof (intro conjI)
      show "keys_distinct ?db3" using ok unfolding tenants_ok_def keys_distinct_def
        by (simp add: db3 distinct_map_filter)
      show "parents_exist ?db3"
      proof (rule parents_existI)
        have ids: "mp_id ` set (ct_model_pools (sd_cat ?db3)) = mp_id ` set (ct_model_pools (sd_cat ?db2)) - {i}"
          by (simp add: db3 ids_but)
        show "dom (sd_pool_org ?db3) \<subseteq> mp_id ` set (ct_model_pools (sd_cat ?db3))"
          unfolding ids using parents_existD(1) [OF ok] by (auto simp: db3)
        show "vm_pool_id ` set (ct_virtual_models (sd_cat ?db3)) \<subseteq> mp_id ` set (ct_model_pools (sd_cat ?db3))"
          unfolding ids using parents_existD(4) [OF ok] no_vm by (simp add: db3) blast
        show "fst ` set (ct_pool_endpoints (sd_cat ?db3)) \<subseteq> mp_id ` set (ct_model_pools (sd_cat ?db3))"
          unfolding ids using parents_existD(5) [OF ok] no_link by (simp add: db3) blast
      qed (use parents_existD [OF ok] in \<open>simp_all add: db3\<close>)
      show "links_within ?db3" using ok no_link unfolding tenants_ok_def links_within_def by (simp add: db3)
      show "grants_within ?db3" unfolding grants_within_def
      proof
        fix x
        assume "x \<in> set (ct_project_grants (sd_cat ?db3))"
        then have "x \<in> set (ct_project_grants (sd_cat ?db2))" by (simp add: db3)
        then obtain vm where vm: "vm \<in> set (ct_virtual_models (sd_cat ?db2))" "vm_id vm = snd x"
          "\<exists>pj \<in> set (ct_projects (sd_cat ?db2)). pj_id pj = fst x \<and> sd_pool_org ?db2 (vm_pool_id vm) = Some (pj_org_id pj)"
          using ok unfolding tenants_ok_def grants_within_def by blast
        then show "\<exists>vm \<in> set (ct_virtual_models (sd_cat ?db3)). vm_id vm = snd x \<and>
            (\<exists>pj \<in> set (ct_projects (sd_cat ?db3)). pj_id pj = fst x \<and> sd_pool_org ?db3 (vm_pool_id vm) = Some (pj_org_id pj))"
          using no_vm [OF vm(1)] by (intro bexI [of _ vm]) (simp_all add: db3)
      qed
    qed
    have "own_models org ?db3 = own_models org ?db2" by (rule own_models_cong) (use no_vm in \<open>simp_all add: db3\<close>)
    moreover have "filter (\<lambda>mp. sd_pool_org ?db3 (mp_id mp) \<noteq> Some org) (ct_model_pools (sd_cat ?db3)) =
        filter (\<lambda>mp. sd_pool_org ?db2 (mp_id mp) \<noteq> Some org) (ct_model_pools (sd_cat ?db2))"
      using assms org by (auto simp: db3 intro!: filter_cong)
    moreover have "filter (\<lambda>vm. sd_pool_org ?db3 (vm_pool_id vm) \<noteq> Some org) (ct_virtual_models (sd_cat ?db2)) =
        filter (\<lambda>vm. sd_pool_org ?db2 (vm_pool_id vm) \<noteq> Some org) (ct_virtual_models (sd_cat ?db2))"
      using no_vm by (intro filter_cong) (simp_all add: db3)
    moreover have "filter (\<lambda>(p, _). sd_pool_org ?db3 p \<noteq> Some org) (ct_pool_endpoints (sd_cat ?db2)) =
        filter (\<lambda>(p, _). sd_pool_org ?db2 p \<noteq> Some org) (ct_pool_endpoints (sd_cat ?db2))"
      using no_link by (intro filter_cong) (simp_all add: db3 case_prod_unfold)
    moreover have "others org (sd_pool_org ?db3) = others org (sd_pool_org ?db2)"
      using assms org by (auto simp: others_def db3)
    ultimately show "same_outside org ?db2 ?db3" by (simp add: same_outside_def db3)
  qed
  finally show ?thesis .
qed

lemma delete_endpoint_effect:
  assumes "\<And>e. e \<in> set (ct_endpoints (sd_cat db)) \<Longrightarrow> er_id e = i \<Longrightarrow> sd_account_org db (er_account_id e) = Some org"
  shows "effect org db (delete_endpoint i db)"
proof (cases "tenants_ok db")
  case True
  let ?db1 = "delete_links (\<lambda>_ e. e = i) db"
  have "effect org db ?db1"
  proof (rule delete_links_effect)
    fix p e r
    assume "(p, e, r) \<in> set (ct_pool_endpoints (sd_cat db))" "e = i"
    then obtain ep where "ep \<in> set (ct_endpoints (sd_cat db))" "er_id ep = i" "sd_account_org db (er_account_id ep) = sd_pool_org db p"
      using True unfolding tenants_ok_def links_within_def by fastforce
    then show "sd_pool_org db p = Some org" using assms by metis
  qed
  also have "effect org ?db1 (delete_endpoint i db)"
  proof (rule effectI)
    let ?db2 = "delete_endpoint i db"
    have db2: "?db2 = update_cat (\<lambda>c. c\<lparr>ct_endpoints := filter (\<lambda>e. er_id e \<noteq> i) (ct_endpoints c)\<rparr>) ?db1"
      by (simp add: delete_endpoint_def)
    have no_link: "fst (snd x) \<noteq> i" if "x \<in> set (ct_pool_endpoints (sd_cat ?db1))" for x
      using that by (auto simp: delete_links_def)
    have rest: "ct_endpoints (sd_cat ?db1) = ct_endpoints (sd_cat db)" "sd_account_org ?db1 = sd_account_org db"
      by (simp_all add: delete_links_def)
    assume ok: "tenants_ok ?db1"
    show "keys_distinct ?db2 \<and> parents_exist ?db2 \<and> links_within ?db2 \<and> grants_within ?db2"
    proof (intro conjI)
      show "keys_distinct ?db2" using ok unfolding tenants_ok_def keys_distinct_def
        by (simp add: db2 distinct_map_filter)
      show "parents_exist ?db2" using ok unfolding tenants_ok_def parents_exist_def by (auto simp: db2)
      show "grants_within ?db2" using ok unfolding tenants_ok_def grants_within_def by (simp add: db2)
      show "links_within ?db2" unfolding links_within_def
      proof
        fix x
        assume "x \<in> set (ct_pool_endpoints (sd_cat ?db2))"
        then have x: "x \<in> set (ct_pool_endpoints (sd_cat ?db1))" by (simp add: db2)
        then obtain ep where "ep \<in> set (ct_endpoints (sd_cat ?db1))" "er_id ep = fst (snd x)"
          "sd_account_org ?db1 (er_account_id ep) = sd_pool_org ?db1 (fst x)"
          using ok unfolding tenants_ok_def links_within_def by blast
        then show "\<exists>ep \<in> set (ct_endpoints (sd_cat ?db2)). er_id ep = fst (snd x) \<and>
            sd_account_org ?db2 (er_account_id ep) = sd_pool_org ?db2 (fst x)"
          using no_link [OF x] by (intro bexI [of _ ep]) (simp_all add: db2)
      qed
    qed
    have "own_models org ?db2 = own_models org ?db1" by (rule own_models_cong) (simp_all add: db2)
    moreover have "filter (\<lambda>e. sd_account_org ?db1 (er_account_id e) \<noteq> Some org) (filter (\<lambda>e. er_id e \<noteq> i) (ct_endpoints (sd_cat ?db1))) =
        filter (\<lambda>e. sd_account_org ?db1 (er_account_id e) \<noteq> Some org) (ct_endpoints (sd_cat ?db1))"
      unfolding filter_filter by (rule filter_cong) (use assms rest in auto)
    ultimately show "same_outside org ?db1 ?db2" by (simp add: same_outside_def db2)
  qed
  finally show ?thesis .
qed (simp add: effect_def)

lemma delete_account_effect:
  assumes "sd_account_org db i = Some org" "\<not> list_ex (\<lambda>e. er_account_id e = i) (ct_endpoints (sd_cat db))"
  shows "effect org db (delete_account i db)"
proof (rule effectI)
  let ?db = "delete_account i db"
  assume ok: "tenants_ok db"
  have none: "er_account_id e \<noteq> i" if "e \<in> set (ct_endpoints (sd_cat db))" for e
    using assms(2) that by (auto simp: list_ex_iff)
  have db: "sd_account_org ?db = (sd_account_org db)(i := None)" "sd_pool_org ?db = sd_pool_org db"
    "sd_cat ?db = (sd_cat db)\<lparr>ct_accounts := filter (\<lambda>a. pa_id a \<noteq> i) (ct_accounts (sd_cat db))\<rparr>"
    by (simp_all add: delete_account_def)
  show "keys_distinct ?db \<and> parents_exist ?db \<and> links_within ?db \<and> grants_within ?db"
  proof (intro conjI)
    show "keys_distinct ?db" using ok unfolding tenants_ok_def keys_distinct_def by (simp add: db distinct_map_filter)
    show "parents_exist ?db"
    proof (rule parents_existI)
      have ids: "pa_id ` set (ct_accounts (sd_cat ?db)) = pa_id ` set (ct_accounts (sd_cat db)) - {i}"
        by (simp add: db ids_but)
      show "dom (sd_account_org ?db) \<subseteq> pa_id ` set (ct_accounts (sd_cat ?db))"
        unfolding ids using parents_existD(2) [OF ok] by (auto simp: db)
      show "er_account_id ` set (ct_endpoints (sd_cat ?db)) \<subseteq> pa_id ` set (ct_accounts (sd_cat ?db))"
        unfolding ids using parents_existD(3) [OF ok] none by (simp add: db) blast
    qed (use parents_existD [OF ok] in \<open>simp_all add: db\<close>)
    show "grants_within ?db" using ok unfolding tenants_ok_def grants_within_def by (simp add: db)
    show "links_within ?db" using ok none unfolding tenants_ok_def links_within_def by (fastforce simp: db)
  qed
  have "own_models org ?db = own_models org db" by (rule own_models_cong) (simp_all add: db)
  moreover have "filter (\<lambda>a. sd_account_org ?db (pa_id a) \<noteq> Some org) (filter (\<lambda>a. pa_id a \<noteq> i) (ct_accounts (sd_cat db))) =
      filter (\<lambda>a. sd_account_org db (pa_id a) \<noteq> Some org) (ct_accounts (sd_cat db))"
    unfolding filter_filter by (rule filter_cong) (use assms(1) in \<open>auto simp: db\<close>)
  moreover have "filter (\<lambda>e. sd_account_org ?db (er_account_id e) \<noteq> Some org) (ct_endpoints (sd_cat db)) =
      filter (\<lambda>e. sd_account_org db (er_account_id e) \<noteq> Some org) (ct_endpoints (sd_cat db))"
    using none by (intro filter_cong) (simp_all add: db)
  moreover have "others org (sd_account_org ?db) = others org (sd_account_org db)"
    using assms(1) by (auto simp: others_def db)
  ultimately show "same_outside org db ?db" by (simp add: same_outside_def db) (simp add: delete_account_def)
qed

lemma delete_account_if_unreferenced_effect:
  "sd_account_org db i = Some org \<Longrightarrow> effect org db (delete_account_if_unreferenced i db)"
  by (simp add: delete_account_if_unreferenced_def delete_account_effect)

end
