(* ===== verification/Model_Services.thy ===== *)
theory Model_Services
  imports Service_Tables Sync
begin

text \<open>
  saas/model\_services: mod.rs, services.rs and endpoints.rs. A model service is a Virtual
  Model with a pool of its own, granted to the caller's project. The handlers run for a
  \<open>saas_context\<close>; the synchronisation they start after the commit is Sync.
\<close>

section \<open>Requests\<close>

record model_endpoint_request =
  mq_account_id :: "string option"
  mq_provider_type :: "string option"
  mq_provider_name :: "string option"
  mq_protocol :: "string option"
  mq_base_url :: "string option"
  mq_api_key :: "string option"
  mq_upstream_model_id :: string
  mq_input_price_per_1m :: "f64 option"
  mq_output_price_per_1m :: "f64 option"
  mq_capability_score :: "f64 option"
  mq_supports_tools :: "bool option"
  mq_context_length :: "int option"

datatype add_endpoints_payload = Single model_endpoint_request | Batch "model_endpoint_request list"
  | Listed "model_endpoint_request list"

record model_service_request =
  sq_name :: string
  sq_endpoints :: "model_endpoint_request list"
  sq_provider_type :: "string option"
  sq_base_url :: "string option"
  sq_api_key :: "string option"
  sq_upstream_model_id :: "string option"
  sq_strategy :: "string option"
  sq_input_price_per_1m :: "f64 option"
  sq_output_price_per_1m :: "f64 option"
  sq_capability_score :: "f64 option"
  sq_supports_tools :: "bool option"
  sq_context_length :: "int option"

record update_model_service_request =
  uq_name :: "string option"
  uq_strategy :: "string option"
  uq_judge_enabled :: "bool option"
  uq_judge_endpoint_id :: "string option"
  uq_shadow_enabled :: "bool option"
  uq_shadow_virtual_model_id :: "string option"
  uq_shadow_sample_rate :: "f64 option"

record update_model_endpoint_request =
  vq_provider_name :: string
  vq_provider_type :: string
  vq_protocol :: string
  vq_base_url :: string
  vq_api_key :: "string option"
  vq_upstream_model_id :: string
  vq_input_price_per_1m :: "f64 option"
  vq_output_price_per_1m :: "f64 option"
  vq_capability_score :: "f64 option"
  vq_supports_tools :: "bool option"
  vq_context_length :: "int option"

definition clean_base_url :: "string \<Rightarrow> string" where
  "clean_base_url url = trim_end_char (CHR ''/'') (trim url)"

section \<open>Checks on a request\<close>

definition filled :: "string option \<Rightarrow> string option" where
  "filled s = (case s of None \<Rightarrow> None | Some t \<Rightarrow> if trim t = [] then None else Some t)"

definition protocol_and_url :: "string \<Rightarrow> string \<Rightarrow> unit api" where
  "protocol_and_url protocol base_url =
     (if protocol \<notin> {''openai'', ''anthropic''} then Inl (bad_request ''Protocol must be OpenAI or Anthropic'')
      else if \<not> starts_with base_url ''https://'' \<and> \<not> starts_with base_url ''http://127.0.0.1''
      then Inl (bad_request ''Provider URL must use HTTPS'')
      else Inr ())"

text \<open>The loop body of both handlers: they differ in the messages and in the type of a new provider left out.\<close>

definition endpoint_check :: "string \<Rightarrow> string \<Rightarrow> string \<Rightarrow> model_endpoint_request \<Rightarrow> unit api" where
  "endpoint_check no_model no_provider default_type ep =
     (if trim (mq_upstream_model_id ep) = [] then Inl (bad_request no_model)
      else if mq_account_id ep \<noteq> None then Inr ()
      else let ptype = trim (unwrap_or (mq_provider_type ep) default_type);
               base_url = trim (unwrap_or (mq_base_url ep) []);
               api_key = trim (unwrap_or (mq_api_key ep) [])
           in if ptype = [] \<or> base_url = [] \<or> api_key = [] then Inl (bad_request no_provider)
              else protocol_and_url (unwrap_or (mq_protocol ep) ''openai'') base_url)"

fun first_error :: "('a \<Rightarrow> unit api) \<Rightarrow> 'a list \<Rightarrow> unit api" where
  "first_error check [] = Inr ()"
| "first_error check (x # xs) = (case check x of Inl e \<Rightarrow> Inl e | Inr _ \<Rightarrow> first_error check xs)"

definition created_check :: "model_endpoint_request \<Rightarrow> unit api" where
  "created_check = endpoint_check ''Every upstream endpoint needs a model ID''
     ''Every upstream endpoint needs a provider, URL, API key, and model'' []"

definition added_check :: "model_endpoint_request \<Rightarrow> unit api" where
  "added_check = endpoint_check ''Upstream model ID is required''
     ''Provider type, URL, API key, and model are required for new provider accounts'' ''custom''"

text \<open>The legacy single endpoint.\<close>

definition requested_endpoints :: "model_service_request \<Rightarrow> model_endpoint_request list" where
  "requested_endpoints input =
     (if sq_endpoints input \<noteq> [] then sq_endpoints input
      else case (sq_provider_type input, sq_base_url input, sq_api_key input, sq_upstream_model_id input) of
        (Some ptype, Some base_url, Some api_key, Some model) \<Rightarrow>
          [\<lparr>mq_account_id = None, mq_provider_type = Some ptype, mq_provider_name = None, mq_protocol = None,
            mq_base_url = Some base_url, mq_api_key = Some api_key, mq_upstream_model_id = model,
            mq_input_price_per_1m = sq_input_price_per_1m input, mq_output_price_per_1m = sq_output_price_per_1m input,
            mq_capability_score = sq_capability_score input, mq_supports_tools = sq_supports_tools input,
            mq_context_length = sq_context_length input\<rparr>]
      | _ \<Rightarrow> [])"

section \<open>Attaching endpoints\<close>

text \<open>The account of the n-th endpoint: one of the organization's, or a new one. The outcome of a statement may depend on n.\<close>

definition endpoint_account ::
    "service_env \<Rightarrow> saas_context \<Rightarrow> nat \<Rightarrow> model_endpoint_request \<Rightarrow> saas_db \<Rightarrow> saas_db \<times> (string \<times> string) api" where
  "endpoint_account env cx n ep db = (case mq_account_id ep of
     Some aid \<Rightarrow>
       if \<not> sn_ok env (''select account '' @ show_nat n) then (db, Inl db_error)
       else (case find (\<lambda>a. pa_id a = aid \<and> sd_account_org db (pa_id a) = Some (cx_org_id cx)) (ct_accounts (sd_cat db)) of
         None \<Rightarrow> (db, Inl (not_found ''Selected provider account not found''))
       | Some a \<Rightarrow> (db, Inr (pa_id a, pa_provider_type a)))
   | None \<Rightarrow>
       let pid = sn_uuid env ''account'' n; ptype = trim (unwrap_or (mq_provider_type ep) ''custom'') in
       try_then (insert_account (sn_ok env (''insert account '' @ show_nat n)) (cx_org_id cx)
         \<lparr>pa_id = pid, pa_name = unwrap_or (mq_provider_name ep) ptype, pa_provider_type = ptype,
          pa_protocol = unwrap_or (mq_protocol ep) ''openai'',
          pa_base_url = clean_base_url (unwrap_or (mq_base_url ep) []), pa_api_key = unwrap_or (mq_api_key ep) [],
          pa_status = ''active'', pa_metadata = None, pa_created_at = sn_now env, pa_updated_at = sn_now env\<rparr> db)
       (\<lambda>_ db. (db, Inr (pid, ptype))))"

definition new_endpoint_row :: "service_env \<Rightarrow> string \<Rightarrow> string \<Rightarrow> string \<Rightarrow> model_endpoint_request \<Rightarrow> endpoint_row" where
  "new_endpoint_row env i account_id name ep =
     \<lparr>er_id = i, er_account_id = account_id, er_name = name, er_upstream_model_id = mq_upstream_model_id ep,
      er_enabled = True, er_priority = 1, er_weight = 1, er_health_status = ''healthy'', er_cooldown_until = None,
      er_input_price_per_1m = mq_input_price_per_1m ep, er_output_price_per_1m = mq_output_price_per_1m ep,
      er_capability_score = effective_capability_score (mq_upstream_model_id ep) (unwrap_or (mq_capability_score ep) 0),
      er_supports_tools = map_option (\<lambda>v. if v then 1 else 0) (mq_supports_tools ep),
      er_context_length = mq_context_length ep, er_metadata = None,
      er_created_at = sn_now env, er_updated_at = sn_now env\<rparr>"

definition attach_endpoint ::
    "service_env \<Rightarrow> saas_context \<Rightarrow> string \<Rightarrow> string \<Rightarrow> nat \<Rightarrow> model_endpoint_request \<Rightarrow> saas_db
       \<Rightarrow> saas_db \<times> (string \<times> string) api" where
  "attach_endpoint env cx pool_id name n ep db =
     try_then (endpoint_account env cx n ep db) (\<lambda>(provider_id, ptype) db.
     let i = sn_uuid env ''endpoint'' n in
     try_then (insert_endpoint (sn_ok env (''insert endpoint '' @ show_nat n)) (new_endpoint_row env i provider_id name ep) db) (\<lambda>_ db.
     try_then (insert_link (sn_ok env (''insert link '' @ show_nat n)) pool_id i db) (\<lambda>_ db.
     (db, Inr (ptype, i)))))"

fun attach_endpoints ::
    "service_env \<Rightarrow> saas_context \<Rightarrow> string \<Rightarrow> (nat \<Rightarrow> string) \<Rightarrow> nat \<Rightarrow> model_endpoint_request list \<Rightarrow> saas_db
       \<Rightarrow> saas_db \<times> (string \<times> string) list api" where
  "attach_endpoints env cx pool_id name n [] db = (db, Inr [])"
| "attach_endpoints env cx pool_id name n (ep # eps) db =
     try_then (attach_endpoint env cx pool_id (name n) n ep db) (\<lambda>x db.
     try_then (attach_endpoints env cx pool_id name (Suc n) eps db) (\<lambda>xs db. (db, Inr (x # xs))))"

section \<open>Creating a service\<close>

record created_service =
  cs_id :: string
  cs_name :: string
  cs_provider_type :: string
  cs_provider_types :: "string list"
  cs_endpoint_count :: nat
  cs_strategy :: string
  cs_status :: string

definition overall_provider :: "string \<Rightarrow> string list \<Rightarrow> string" where
  "overall_provider none types =
     (if 1 < length types then ''mixed'' else case types of [] \<Rightarrow> none | t # _ \<Rightarrow> t)"

definition new_pool :: "service_env \<Rightarrow> string \<Rightarrow> string \<Rightarrow> string \<Rightarrow> model_pool" where
  "new_pool env i name strategy =
     \<lparr>mp_id = i, mp_name = name, mp_strategy = strategy, mp_enabled = True, mp_tool_trim_enabled = 0,
      mp_tool_trim_dry_run = 1, mp_max_tool_chars = 8000, mp_session_affinity_enabled = 1,
      mp_session_affinity_ttl_secs = 3600, mp_judge_enabled = 0, mp_judge_endpoint_id = None,
      mp_shadow_enabled = 0, mp_shadow_virtual_model_id = None, mp_shadow_sample_rate = 0,
      mp_created_at = sn_now env, mp_updated_at = sn_now env\<rparr>"

definition new_virtual_model :: "service_env \<Rightarrow> string \<Rightarrow> string \<Rightarrow> string \<Rightarrow> virtual_model" where
  "new_virtual_model env i pool_id name = \<lparr>vm_id = i, vm_pool_id = pool_id, vm_name = name, vm_enabled = True,
     vm_created_at = sn_now env, vm_updated_at = sn_now env\<rparr>"

definition create_service_tx ::
    "service_env \<Rightarrow> saas_context \<Rightarrow> string \<Rightarrow> string \<Rightarrow> model_endpoint_request list \<Rightarrow> saas_db
       \<Rightarrow> saas_db \<times> (string \<times> string) list api" where
  "create_service_tx env cx name strategy eps db =
     (let pool_id = sn_uuid env ''pool'' 0; model_id = sn_uuid env ''model'' 0 in
      try_then (insert_pool (sn_ok env ''insert pool'') (cx_org_id cx) (new_pool env pool_id name strategy) db) (\<lambda>_ db.
      try_then (attach_endpoints env cx pool_id (\<lambda>n. name @ ''-'' @ show_nat (n + 1)) 0 eps db) (\<lambda>attached db.
      try_then (insert_virtual_model (sn_ok env ''insert model'') (new_virtual_model env model_id pool_id name) db) (\<lambda>_ db.
      try_then (insert_project_grant (sn_ok env ''grant model'') (cx_project_id cx) model_id db) (\<lambda>_ db.
      (db, Inr attached))))))"

definition create_model_service ::
    "service_env \<Rightarrow> saas_context \<Rightarrow> model_service_request \<Rightarrow> saas_db \<Rightarrow> saas_db \<times> created_service api" where
  "create_model_service env cx input db =
     (if trim (sq_name input) = [] then (db, Inl (bad_request ''Service name is required''))
      else let eps = requested_endpoints input in
      case first_error created_check eps of Inl e \<Rightarrow> (db, Inl e) | Inr _ \<Rightarrow>
      let name = trim (sq_name input) in
      if 120 < length name then (db, Inl (bad_request ''Model service name must be 120 characters or fewer''))
      else case saas_strategy (unwrap_or (filled (sq_strategy input)) ''cost_aware'') of Inl e \<Rightarrow> (db, Inl e) | Inr strategy \<Rightarrow>
      try_then (in_transaction (sn_ok env) (create_service_tx env cx name strategy eps) db) (\<lambda>attached db.
      (db, Inr \<lparr>cs_id = sn_uuid env ''model'' 0, cs_name = name,
         cs_provider_type = overall_provider ''not_configured'' (map fst attached), cs_provider_types = map fst attached,
         cs_endpoint_count = length eps, cs_strategy = strategy,
         cs_status = (if eps = [] then ''draft'' else ''active'')\<rparr>)))"

section \<open>The caller's services\<close>

text \<open>
  The join every handler starts from: the Virtual Model by its id with its pool, if the
  pool is of the organization and the model granted to the project.
\<close>

definition own_services :: "saas_db \<Rightarrow> saas_context \<Rightarrow> string \<Rightarrow> (virtual_model \<times> model_pool) list" where
  "own_services db cx model_id = concat (map (\<lambda>vm. concat (map (\<lambda>mp.
     if mp_id mp = vm_pool_id vm \<and> vm_id vm = model_id \<and> sd_pool_org db (mp_id mp) = Some (cx_org_id cx) \<and>
        (cx_project_id cx, vm_id vm) \<in> set (ct_project_grants (sd_cat db)) then [(vm, mp)] else [])
     (ct_model_pools (sd_cat db)))) (ct_virtual_models (sd_cat db)))"

definition own_service ::
    "service_env \<Rightarrow> saas_context \<Rightarrow> string \<Rightarrow> saas_db \<Rightarrow> (virtual_model \<times> model_pool) api" where
  "own_service env cx model_id db =
     (if \<not> sn_ok env ''select service'' then Inl db_error
      else case own_services db cx model_id of
        [] \<Rightarrow> Inl (not_found ''Model service not found'')
      | x # _ \<Rightarrow> Inr x)"

text \<open>A statement whose effect is \<open>f\<close>.\<close>

definition run_statement :: "bool \<Rightarrow> (saas_db \<Rightarrow> saas_db) \<Rightarrow> saas_db \<Rightarrow> saas_db \<times> unit api" where
  "run_statement answers f db = statement answers db (f db)"

section \<open>Updating a service\<close>

record updated_service =
  us_id :: string
  us_name :: "string option"
  us_strategy :: string
  us_shadow_enabled :: bool
  us_shadow_sample_rate :: f64

definition rename_service ::
    "service_env \<Rightarrow> string \<Rightarrow> string \<Rightarrow> string option \<Rightarrow> saas_db \<Rightarrow> saas_db \<times> unit api" where
  "rename_service env model_id pool_id new db = (case new of
     None \<Rightarrow> (db, Inr ())
   | Some raw \<Rightarrow>
     let name = trim raw in
     if name = [] then (db, Inl (bad_request ''Model service name cannot be empty''))
     else if 120 < length name then (db, Inl (bad_request ''Model service name must be 120 characters or fewer''))
     else try_then (rename_virtual_model (sn_ok env ''rename model'') model_id name db)
       (\<lambda>_. run_statement (sn_ok env ''rename pool'') (update_pool pool_id (\<lambda>mp. mp\<lparr>mp_name := name\<rparr>))))"

definition apply_service_settings :: "nat \<Rightarrow> string \<Rightarrow> update_model_service_request \<Rightarrow> model_pool \<Rightarrow> model_pool" where
  "apply_service_settings now strategy input mp = mp\<lparr>mp_strategy := strategy,
     mp_judge_enabled := (case uq_judge_enabled input of None \<Rightarrow> mp_judge_enabled mp | Some v \<Rightarrow> if v then 1 else 0),
     mp_judge_endpoint_id := (if uq_judge_enabled input \<noteq> None then filled (uq_judge_endpoint_id input)
        else mp_judge_endpoint_id mp),
     mp_shadow_enabled := (case uq_shadow_enabled input of None \<Rightarrow> mp_shadow_enabled mp | Some v \<Rightarrow> if v then 1 else 0),
     mp_shadow_virtual_model_id := (if uq_shadow_enabled input \<noteq> None then filled (uq_shadow_virtual_model_id input)
        else mp_shadow_virtual_model_id mp),
     mp_shadow_sample_rate := (case uq_shadow_sample_rate input of None \<Rightarrow> mp_shadow_sample_rate mp
        | Some v \<Rightarrow> fclamp v 0 1),
     mp_updated_at := now\<rparr>"

definition update_service_tx ::
    "service_env \<Rightarrow> string \<Rightarrow> string \<Rightarrow> string \<Rightarrow> update_model_service_request \<Rightarrow> saas_db \<Rightarrow> saas_db \<times> unit api" where
  "update_service_tx env model_id pool_id strategy input db =
     try_then (rename_service env model_id pool_id (uq_name input) db)
       (\<lambda>_. run_statement (sn_ok env ''update pool'') (update_pool pool_id (apply_service_settings (sn_now env) strategy input)))"

definition update_model_service ::
    "service_env \<Rightarrow> saas_context \<Rightarrow> string \<Rightarrow> update_model_service_request \<Rightarrow> saas_db
       \<Rightarrow> saas_db \<times> updated_service api" where
  "update_model_service env cx model_id input db = (case own_service env cx model_id db of Inl e \<Rightarrow> (db, Inl e)
   | Inr (_, mp) \<Rightarrow>
     (case (case filled (uq_strategy input) of Some s \<Rightarrow> saas_strategy s | None \<Rightarrow> Inr (mp_strategy mp)) of
        Inl e \<Rightarrow> (db, Inl e)
      | Inr strategy \<Rightarrow>
        try_then (in_transaction (sn_ok env) (update_service_tx env model_id (mp_id mp) strategy input) db) (\<lambda>_ db.
        (db, Inr \<lparr>us_id = model_id, us_name = map_option trim (uq_name input), us_strategy = strategy,
           us_shadow_enabled = unwrap_or (uq_shadow_enabled input) False,
           us_shadow_sample_rate = unwrap_or (uq_shadow_sample_rate input) 0\<rparr>))))"

section \<open>Deleting a service\<close>

text \<open>The endpoints of the pool, with their accounts.\<close>

definition pool_endpoint_accounts :: "saas_db \<Rightarrow> string \<Rightarrow> (string \<times> string) list" where
  "pool_endpoint_accounts db pool_id = concat (map (\<lambda>(p, i, _). if p = pool_id
     then map (\<lambda>e. (i, er_account_id e)) (filter (\<lambda>e. er_id e = i) (ct_endpoints (sd_cat db))) else [])
     (ct_pool_endpoints (sd_cat db)))"

fun delete_endpoints :: "service_env \<Rightarrow> (string \<times> string) list \<Rightarrow> saas_db \<Rightarrow> saas_db \<times> unit api" where
  "delete_endpoints env [] db = (db, Inr ())"
| "delete_endpoints env ((i, account) # rest) db =
     try_then (run_statement (sn_ok env (''delete endpoint '' @ i)) (delete_endpoint i) db) (\<lambda>_ db.
     try_then (run_statement (sn_ok env (''delete account '' @ account)) (delete_account_if_unreferenced account) db) (\<lambda>_ db.
     delete_endpoints env rest db))"

definition delete_project_grants :: "string \<Rightarrow> saas_db \<Rightarrow> saas_db" where
  "delete_project_grants v = update_cat (\<lambda>c. c\<lparr>ct_project_grants := filter (\<lambda>(_, w). w \<noteq> v) (ct_project_grants c)\<rparr>)"

definition delete_service_tx :: "service_env \<Rightarrow> string \<Rightarrow> string \<Rightarrow> saas_db \<Rightarrow> saas_db \<times> unit api" where
  "delete_service_tx env model_id pool_id db =
     (if \<not> sn_ok env ''select endpoints'' then (db, Inl db_error)
      else let eps = pool_endpoint_accounts db pool_id in
      try_then (run_statement (sn_ok env ''delete grants'') (delete_project_grants model_id) db) (\<lambda>_ db.
      try_then (run_statement (sn_ok env ''delete model'') (delete_virtual_models (\<lambda>vm. vm_id vm = model_id)) db) (\<lambda>_ db.
      try_then (run_statement (sn_ok env ''delete links'') (delete_links (\<lambda>p _. p = pool_id)) db) (\<lambda>_ db.
      try_then (run_statement (sn_ok env ''delete pool'') (delete_pool pool_id) db) (\<lambda>_ db.
      delete_endpoints env eps db)))))"

definition delete_model_service :: "service_env \<Rightarrow> saas_context \<Rightarrow> string \<Rightarrow> saas_db \<Rightarrow> saas_db \<times> unit api" where
  "delete_model_service env cx model_id db = (case own_service env cx model_id db of Inl e \<Rightarrow> (db, Inl e)
   | Inr (_, mp) \<Rightarrow> in_transaction (sn_ok env) (delete_service_tx env model_id (mp_id mp)) db)"

section \<open>The endpoints of a service\<close>

fun endpoints_to_add :: "add_endpoints_payload \<Rightarrow> model_endpoint_request list" where
  "endpoints_to_add (Single ep) = [ep]"
| "endpoints_to_add (Batch eps) = eps"
| "endpoints_to_add (Listed eps) = eps"

definition link_count :: "saas_db \<Rightarrow> string \<Rightarrow> nat" where
  "link_count db pool_id = length (filter (\<lambda>(p, _). p = pool_id) (ct_pool_endpoints (sd_cat db)))"

text \<open>Answers the ids of the new endpoints and the new size of the pool.\<close>

definition add_model_service_endpoint ::
    "service_env \<Rightarrow> saas_context \<Rightarrow> string \<Rightarrow> add_endpoints_payload \<Rightarrow> saas_db \<Rightarrow> saas_db \<times> (string list \<times> nat) api" where
  "add_model_service_endpoint env cx model_id payload db =
     (let eps = endpoints_to_add payload in
      if eps = [] then (db, Inl (bad_request ''At least one model endpoint is required''))
      else case first_error added_check eps of Inl e \<Rightarrow> (db, Inl e) | Inr _ \<Rightarrow>
      (case own_service env cx model_id db of Inl e \<Rightarrow> (db, Inl e)
       | Inr (_, mp) \<Rightarrow>
         let count = link_count db (mp_id mp) in
         try_then (in_transaction (sn_ok env) (attach_endpoints env cx (mp_id mp)
             (\<lambda>n. ''model-service-'' @ show_nat (count + n + 1)) 0 eps) db) (\<lambda>attached db.
         (db, Inr (map snd attached, count + length eps)))))"

text \<open>The endpoint by its id in the pool of an own service.\<close>

definition own_endpoints :: "saas_db \<Rightarrow> saas_context \<Rightarrow> string \<Rightarrow> string \<Rightarrow> endpoint_row list" where
  "own_endpoints db cx model_id endpoint_id = concat (map (\<lambda>(_, mp). concat (map (\<lambda>(p, i, _).
     if p = mp_id mp \<and> i = endpoint_id then filter (\<lambda>e. er_id e = i) (ct_endpoints (sd_cat db)) else [])
     (ct_pool_endpoints (sd_cat db)))) (own_services db cx model_id))"

definition own_endpoint ::
    "service_env \<Rightarrow> saas_context \<Rightarrow> string \<Rightarrow> string \<Rightarrow> saas_db \<Rightarrow> endpoint_row api" where
  "own_endpoint env cx model_id endpoint_id db =
     (if \<not> sn_ok env ''select endpoint'' then Inl db_error
      else case own_endpoints db cx model_id endpoint_id of
        [] \<Rightarrow> Inl (not_found ''Model endpoint not found'')
      | e # _ \<Rightarrow> Inr e)"

definition endpoint_update_check :: "update_model_endpoint_request \<Rightarrow> unit api" where
  "endpoint_update_check input =
     (if trim (vq_provider_name input) = [] \<or> trim (vq_provider_type input) = [] \<or> trim (vq_base_url input) = [] \<or>
         trim (vq_upstream_model_id input) = []
      then Inl (bad_request ''Provider name, provider ID, URL, and model are required'')
      else protocol_and_url (to_ascii_lowercase (trim (vq_protocol input))) (trim (vq_base_url input)))"

definition new_account_columns :: "nat \<Rightarrow> update_model_endpoint_request \<Rightarrow> provider_account \<Rightarrow> provider_account" where
  "new_account_columns now input a = a\<lparr>pa_name := trim (vq_provider_name input),
     pa_provider_type := trim (vq_provider_type input), pa_protocol := to_ascii_lowercase (trim (vq_protocol input)),
     pa_base_url := clean_base_url (trim (vq_base_url input)),
     pa_api_key := unwrap_or (filled (vq_api_key input)) (pa_api_key a), pa_updated_at := now\<rparr>"

definition new_endpoint_columns :: "nat \<Rightarrow> update_model_endpoint_request \<Rightarrow> endpoint_row \<Rightarrow> endpoint_row" where
  "new_endpoint_columns now input e = (let model = trim (vq_upstream_model_id input) in
     e\<lparr>er_upstream_model_id := model, er_input_price_per_1m := vq_input_price_per_1m input,
       er_output_price_per_1m := vq_output_price_per_1m input,
       er_capability_score := effective_capability_score model (unwrap_or (vq_capability_score input) 0),
       er_supports_tools := (case vq_supports_tools input of None \<Rightarrow> er_supports_tools e
          | Some v \<Rightarrow> Some (if v then 1 else 0)),
       er_context_length := vq_context_length input, er_updated_at := now\<rparr>)"

definition update_model_service_endpoint ::
    "service_env \<Rightarrow> saas_context \<Rightarrow> string \<Rightarrow> string \<Rightarrow> update_model_endpoint_request \<Rightarrow> saas_db \<Rightarrow> saas_db \<times> unit api" where
  "update_model_service_endpoint env cx model_id endpoint_id input db =
     (case endpoint_update_check input of Inl e \<Rightarrow> (db, Inl e) | Inr _ \<Rightarrow>
     (case own_endpoint env cx model_id endpoint_id db of Inl e \<Rightarrow> (db, Inl e)
      | Inr e \<Rightarrow> in_transaction (sn_ok env) (\<lambda>db.
          try_then (run_statement (sn_ok env ''update account'')
              (update_account (er_account_id e) (new_account_columns (sn_now env) input)) db)
            (\<lambda>_. run_statement (sn_ok env ''update endpoint'')
              (update_endpoint endpoint_id (new_endpoint_columns (sn_now env) input)))) db))"

definition delete_model_service_endpoint ::
    "service_env \<Rightarrow> saas_context \<Rightarrow> string \<Rightarrow> string \<Rightarrow> saas_db \<Rightarrow> saas_db \<times> unit api" where
  "delete_model_service_endpoint env cx model_id endpoint_id db =
     (case own_endpoint env cx model_id endpoint_id db of Inl e \<Rightarrow> (db, Inl e)
      | Inr e \<Rightarrow> in_transaction (sn_ok env) (\<lambda>db.
          try_then (run_statement (sn_ok env ''delete links'') (delete_links (\<lambda>_ i. i = endpoint_id)) db) (\<lambda>_ db.
          try_then (run_statement (sn_ok env ''delete endpoint'') (delete_endpoint endpoint_id) db) (\<lambda>_.
          run_statement (sn_ok env ''delete account'') (delete_account_if_unreferenced (er_account_id e))))) db)"

section \<open>Any service operation\<close>

text \<open>The context, and whether it succeeded.\<close>

inductive service_step :: "saas_context \<Rightarrow> saas_db \<Rightarrow> bool \<Rightarrow> saas_db \<Rightarrow> bool" where
  create: "create_model_service env cx input db = (db', r1) \<Longrightarrow> service_step cx db (\<not> isl r1) db'"
| update: "update_model_service env cx i upd db = (db', r2) \<Longrightarrow> service_step cx db (\<not> isl r2) db'"
| delete: "delete_model_service env cx i db = (db', r3) \<Longrightarrow> service_step cx db (\<not> isl r3) db'"
| add_endpoint: "add_model_service_endpoint env cx i payload db = (db', r4) \<Longrightarrow> service_step cx db (\<not> isl r4) db'"
| update_ep: "update_model_service_endpoint env cx i j eupd db = (db', r3) \<Longrightarrow> service_step cx db (\<not> isl r3) db'"
| delete_ep: "delete_model_service_endpoint env cx i j db = (db', r3) \<Longrightarrow> service_step cx db (\<not> isl r3) db'"

section \<open>Lemmas\<close>

lemma run_statement_Inr [simp]: "run_statement b f db = (db', Inr u) \<longleftrightarrow> b \<and> db' = f db"
  by (auto simp: run_statement_def)

lemma own_services_mem:
  "(vm, mp) \<in> set (own_services db cx i) \<longleftrightarrow> vm \<in> set (ct_virtual_models (sd_cat db)) \<and>
     mp \<in> set (ct_model_pools (sd_cat db)) \<and> mp_id mp = vm_pool_id vm \<and> vm_id vm = i \<and>
     sd_pool_org db (mp_id mp) = Some (cx_org_id cx) \<and>
     (cx_project_id cx, i) \<in> set (ct_project_grants (sd_cat db))"
  by (auto simp: own_services_def split: if_splits)

lemma own_service_Inr:
  "own_service env cx i db = Inr (vm, mp) \<Longrightarrow> (vm, mp) \<in> set (own_services db cx i)"
  by (auto simp: own_service_def split: if_splits list.splits)

lemma own_endpoint_Inr:
  assumes "own_endpoint env cx i j db = Inr e"
  shows "e \<in> set (ct_endpoints (sd_cat db)) \<and> er_id e = j \<and>
     (\<exists>vm mp r. (vm, mp) \<in> set (own_services db cx i) \<and> (mp_id mp, j, r) \<in> set (ct_pool_endpoints (sd_cat db)))"
proof -
  have "e \<in> set (own_endpoints db cx i j)"
    using assms by (auto simp: own_endpoint_def split: if_splits list.splits)
  then show ?thesis by (fastforce simp: own_endpoints_def split: if_splits)
qed

text \<open>An endpoint of an own pool hangs off an account of the organization.\<close>

lemma own_endpoint_account:
  assumes "own_endpoint env cx i j db = Inr e" "tenants_ok db" "e' \<in> set (ct_endpoints (sd_cat db))" "er_id e' = j"
  shows "sd_account_org db (er_account_id e') = Some (cx_org_id cx)"
proof -
  obtain vm mp r where s: "(vm, mp) \<in> set (own_services db cx i)" and l: "(mp_id mp, j, r) \<in> set (ct_pool_endpoints (sd_cat db))"
    using own_endpoint_Inr [OF assms(1)] by blast
  from l obtain ep where ep: "ep \<in> set (ct_endpoints (sd_cat db))" "er_id ep = j"
    "sd_account_org db (er_account_id ep) = sd_pool_org db (mp_id mp)"
    using assms(2) unfolding tenants_ok_def links_within_def by fastforce
  have "ep = e'" using assms(2-4) ep by (auto simp: tenants_ok_def keys_distinct_def distinct_map dest: inj_onD)
  with ep(3) s show ?thesis by (metis own_services_mem)
qed

lemma endpoint_account_effect:
  assumes "endpoint_account env cx n ep db = (db', Inr (pid, ptype))"
  shows "effect (cx_org_id cx) db db' \<and> sd_account_org db' pid = Some (cx_org_id cx) \<and> sd_pool_org db' = sd_pool_org db"
proof (cases "mq_account_id ep")
  case None
  with assms obtain a where ins: "insert_account (sn_ok env (''insert account '' @ show_nat n)) (cx_org_id cx) a db = (db', Inr ())"
    and pid: "pid = pa_id a"
    unfolding endpoint_account_def Let_def by (auto simp: try_then_Inr)
  from ins have "sd_account_org db' = (sd_account_org db)(pa_id a \<mapsto> cx_org_id cx)" "sd_pool_org db' = sd_pool_org db"
    by (auto simp: insert_account_def)
  then show ?thesis using insert_account_effect [OF ins] pid by simp
next
  case (Some aid)
  with assms show ?thesis
    by (auto simp: endpoint_account_def find_Some_iff split: if_splits option.splits)
qed

lemma attach_endpoint_effect:
  assumes "attach_endpoint env cx pool_id name n ep db = (db', Inr x)" "sd_pool_org db pool_id = Some (cx_org_id cx)"
  shows "effect (cx_org_id cx) db db' \<and> sd_pool_org db' = sd_pool_org db"
proof -
  obtain db1 pid ptype db2 where
    1: "endpoint_account env cx n ep db = (db1, Inr (pid, ptype))"
    and 2: "insert_endpoint (sn_ok env (''insert endpoint '' @ show_nat n)) (new_endpoint_row env (sn_uuid env ''endpoint'' n) pid name ep) db1 = (db2, Inr ())"
    and 3: "insert_link (sn_ok env (''insert link '' @ show_nat n)) pool_id (sn_uuid env ''endpoint'' n) db2 = (db', Inr ())"
    using assms(1) unfolding attach_endpoint_def Let_def by (fastforce simp: try_then_Inr split: prod.splits)
  note a = endpoint_account_effect [OF 1]
  let ?e = "new_endpoint_row env (sn_uuid env ''endpoint'' n) pid name ep"
  have e: "er_account_id ?e = pid" "er_id ?e = sn_uuid env ''endpoint'' n" by (simp_all add: new_endpoint_row_def)
  have db2: "?e \<in> set (ct_endpoints (sd_cat db2))" "sd_account_org db2 = sd_account_org db1" "sd_pool_org db2 = sd_pool_org db1"
    using 2 by (auto simp: insert_endpoint_def)
  have "effect (cx_org_id cx) db db1" using a by simp
  also have "effect (cx_org_id cx) db1 db2" by (rule insert_endpoint_effect [OF 2]) (use a e in simp)
  also have "effect (cx_org_id cx) db2 db'"
    by (rule insert_link_effect [OF 3 _ db2(1) e(2)]) (use a e db2 assms(2) in simp_all)
  finally show ?thesis using a db2 3 by (auto simp: insert_link_def)
qed

lemma attach_endpoints_effect:
  assumes "attach_endpoints env cx pool_id name n eps db = (db', Inr xs)" "sd_pool_org db pool_id = Some (cx_org_id cx)"
  shows "effect (cx_org_id cx) db db' \<and> sd_pool_org db' = sd_pool_org db \<and> length xs = length eps"
  using assms
proof (induction eps arbitrary: n db xs)
  case (Cons ep eps)
  obtain db1 x ys where 1: "attach_endpoint env cx pool_id (name n) n ep db = (db1, Inr x)"
    and 2: "attach_endpoints env cx pool_id name (Suc n) eps db1 = (db', Inr ys)" and xs: "xs = x # ys"
    using Cons.prems(1) by (auto simp: try_then_Inr)
  have a: "effect (cx_org_id cx) db db1" "sd_pool_org db1 = sd_pool_org db"
    using attach_endpoint_effect [OF 1 Cons.prems(2)] by auto
  then show ?case using Cons.IH [OF 2] Cons.prems(2) xs effect_trans by auto
qed simp

definition context_ok :: "saas_db \<Rightarrow> saas_context \<Rightarrow> bool" where
  "context_ok db cx \<longleftrightarrow>
     (\<exists>pj \<in> set (ct_projects (sd_cat db)). pj_id pj = cx_project_id cx \<and> pj_org_id pj = cx_org_id cx)"

text \<open>The session extractor only hands out such contexts.\<close>

lemma session_context_ok: "saas_context_of hash_token ok now h db = Inr cx \<Longrightarrow> context_ok db cx"
  by (force simp: saas_context_of_def context_ok_def workspaces_def split: option.splits if_splits dest!: first_of_mem)

lemma insert_pool_rest:
  "insert_pool ok org mp db = (db', Inr ()) \<Longrightarrow> sd_pool_org db' = (sd_pool_org db)(mp_id mp \<mapsto> org) \<and>
     ct_projects (sd_cat db') = ct_projects (sd_cat db)"
  by (auto simp: insert_pool_def)

lemma effect_projects:
  "effect org db db' \<Longrightarrow> tenants_ok db \<Longrightarrow> ct_projects (sd_cat db') = ct_projects (sd_cat db) \<and> tenants_ok db'"
  by (auto simp: effect_def same_outside_def)

lemma create_service_effect:
  assumes "create_service_tx env cx name strategy eps db = (db', Inr attached)" "context_ok db cx"
  shows "effect (cx_org_id cx) db db'"
proof (cases "tenants_ok db")
  case True
  let ?p = "sn_uuid env ''pool'' 0" and ?v = "sn_uuid env ''model'' 0"
  obtain db1 db2 db3 where
    1: "insert_pool (sn_ok env ''insert pool'') (cx_org_id cx) (new_pool env ?p name strategy) db = (db1, Inr ())"
    and 2: "attach_endpoints env cx ?p (\<lambda>n. name @ ''-'' @ show_nat (n + 1)) 0 eps db1 = (db2, Inr attached)"
    and 3: "insert_virtual_model (sn_ok env ''insert model'') (new_virtual_model env ?v ?p name) db2 = (db3, Inr ())"
    and 4: "insert_project_grant (sn_ok env ''grant model'') (cx_project_id cx) ?v db3 = (db', Inr ())"
    using assms(1) unfolding create_service_tx_def Let_def by (auto simp: try_then_Inr)
  have org1: "sd_pool_org db1 ?p = Some (cx_org_id cx)"
    using insert_pool_rest [OF 1] by (simp add: new_pool_def)
  have e1: "effect (cx_org_id cx) db db1" by (rule insert_pool_effect [OF 1])
  have e2: "effect (cx_org_id cx) db1 db2" and org2: "sd_pool_org db2 = sd_pool_org db1"
    using attach_endpoints_effect [OF 2 org1] by auto
  have e3: "effect (cx_org_id cx) db2 db3"
    by (rule insert_virtual_model_effect [OF 3]) (simp add: new_virtual_model_def org1 org2)
  have db3: "new_virtual_model env ?v ?p name \<in> set (ct_virtual_models (sd_cat db3))" "sd_pool_org db3 = sd_pool_org db2"
    using 3 by (auto simp: insert_virtual_model_def)
  have e13: "effect (cx_org_id cx) db db3" using e1 e2 e3 effect_trans by blast
  have projects: "ct_projects (sd_cat db3) = ct_projects (sd_cat db)" using effect_projects [OF e13 True] by simp
  obtain pj where pj: "pj \<in> set (ct_projects (sd_cat db))" "pj_id pj = cx_project_id cx" "pj_org_id pj = cx_org_id cx"
    using assms(2) by (auto simp: context_ok_def)
  have "effect (cx_org_id cx) db3 db'"
    by (rule insert_project_grant_effect [OF 4 db3(1) _ _ _ pj(2,3)])
       (simp_all add: new_virtual_model_def db3(2) org2 org1 projects pj(1))
  with e13 show ?thesis by (rule effect_trans)
qed (simp add: effect_def)

lemma rename_service_effect:
  assumes "rename_service env i p new db = (db', Inr ())" "sd_pool_org db p = Some org"
    and "\<And>vm. vm \<in> set (ct_virtual_models (sd_cat db)) \<Longrightarrow> vm_id vm = i \<Longrightarrow> sd_pool_org db (vm_pool_id vm) = Some org"
  shows "effect org db db' \<and> sd_pool_org db' = sd_pool_org db"
proof (cases new)
  case None
  with assms show ?thesis by (simp add: rename_service_def)
next
  case (Some raw)
  then obtain db1 where 1: "rename_virtual_model (sn_ok env ''rename model'') i (trim raw) db = (db1, Inr ())"
    and 2: "db' = update_pool p (\<lambda>mp. mp\<lparr>mp_name := trim raw\<rparr>) db1"
    using assms(1) by (auto simp: rename_service_def Let_def try_then_Inr split: if_splits)
  have org: "sd_pool_org db1 = sd_pool_org db" using 1 by (auto simp: rename_virtual_model_def)
  have "effect org db db1" by (rule rename_virtual_model_effect [OF 1 assms(3)])
  also have "effect org db1 db'" unfolding 2 by (rule update_pool_effect) (simp_all add: org assms(2))
  finally show ?thesis by (simp add: 2 org update_pool_def)
qed

lemma own_pool_models:
  assumes "(vm, mp) \<in> set (own_services db cx i)" "tenants_ok db" "vm' \<in> set (ct_virtual_models (sd_cat db))" "vm_id vm' = i"
  shows "sd_pool_org db (vm_pool_id vm') = Some (cx_org_id cx)"
proof -
  have "inj_on vm_id (set (ct_virtual_models (sd_cat db)))"
    using assms(2) by (simp add: tenants_ok_def keys_distinct_def distinct_map)
  then have "vm' = vm" using assms(1,3,4) unfolding own_services_mem by (metis inj_onD)
  then show ?thesis using assms(1) unfolding own_services_mem by metis
qed

lemma update_service_effect:
  assumes "update_service_tx env i (mp_id mp) strategy input db = (db', Inr ())"
    and "(vm, mp) \<in> set (own_services db cx i)" "tenants_ok db"
  shows "effect (cx_org_id cx) db db'"
proof -
  have org: "sd_pool_org db (mp_id mp) = Some (cx_org_id cx)" using assms(2) unfolding own_services_mem by blast
  obtain db1 where 1: "rename_service env i (mp_id mp) (uq_name input) db = (db1, Inr ())"
    and 2: "db' = update_pool (mp_id mp) (apply_service_settings (sn_now env) strategy input) db1"
    using assms(1) by (auto simp: update_service_tx_def try_then_Inr)
  have e: "effect (cx_org_id cx) db db1" "sd_pool_org db1 = sd_pool_org db"
    using rename_service_effect [OF 1 org] own_pool_models [OF assms(2,3)] by auto
  note e(1)
  also have "effect (cx_org_id cx) db1 db'"
    unfolding 2 by (rule update_pool_effect) (simp_all add: apply_service_settings_def e(2) org)
  finally show ?thesis .
qed

lemma delete_absent_account:
  assumes "a \<notin> pa_id ` set (ct_accounts (sd_cat db))" "sd_account_org db a = None"
  shows "delete_account a db = db"
proof -
  have "filter (\<lambda>x. pa_id x \<noteq> a) (ct_accounts (sd_cat db)) = ct_accounts (sd_cat db)"
    using assms(1) by (auto simp: filter_id_conv)
  then show ?thesis using assms(2) by (simp add: delete_account_def update_cat_def fun_upd_idem)
qed

lemma delete_endpoints_effect:
  assumes "delete_endpoints env eps db = (db', Inr ())"
    and "\<And>i a e. (i, a) \<in> set eps \<Longrightarrow> e \<in> set (ct_endpoints (sd_cat db)) \<Longrightarrow> er_id e = i \<Longrightarrow>
      sd_account_org db (er_account_id e) = Some org"
    and "\<And>i a. (i, a) \<in> set eps \<Longrightarrow> sd_account_org db a = Some org \<or> a \<notin> pa_id ` set (ct_accounts (sd_cat db))"
  shows "effect org db db'"
  using assms
proof (induction eps arbitrary: db)
  case (Cons x eps)
  obtain i a where x: "x = (i, a)" by force
  let ?db1 = "delete_endpoint i db" and ?db2 = "delete_account_if_unreferenced a (delete_endpoint i db)"
  have rest: "delete_endpoints env eps ?db2 = (db', Inr ())" using Cons.prems(1) by (auto simp: x try_then_Inr)
  have eps1: "set (ct_endpoints (sd_cat ?db2)) \<subseteq> set (ct_endpoints (sd_cat db))"
    by (auto simp: delete_account_if_unreferenced_def delete_account_def delete_endpoint_def delete_links_def)
  have org1: "sd_account_org ?db1 = sd_account_org db" by (simp add: delete_endpoint_def delete_links_def)
  have acc1: "ct_accounts (sd_cat ?db1) = ct_accounts (sd_cat db)" by (simp add: delete_endpoint_def delete_links_def)
  have org2: "sd_account_org ?db2 b = (if b = a \<and> \<not> list_ex (\<lambda>e. er_account_id e = a) (ct_endpoints (sd_cat ?db1)) then None
      else sd_account_org db b)" for b
    by (auto simp: delete_account_if_unreferenced_def delete_account_def org1)
  have "effect org db ?db1" by (rule delete_endpoint_effect) (use Cons.prems(2) x in auto)
  also have "effect org ?db1 ?db2"
  proof (cases "sd_account_org db a = Some org")
    case True
    then show ?thesis using org1 by (simp add: delete_account_if_unreferenced_effect)
  next
    case False
    then have "a \<notin> pa_id ` set (ct_accounts (sd_cat ?db1))" using Cons.prems(3) [of i a] x acc1 by simp
    then have "tenants_ok ?db1 \<Longrightarrow> ?db2 = ?db1"
      using fresh_account(1) [of ?db1 a] delete_absent_account by (simp add: delete_account_if_unreferenced_def)
    then show ?thesis by (cases "tenants_ok ?db1") (simp_all add: effect_def same_outside_def)
  qed
  also have "effect org ?db2 db'"
  proof (rule Cons.IH [OF rest])
    fix j b e
    assume e: "(j, b) \<in> set eps" "e \<in> set (ct_endpoints (sd_cat ?db2))" "er_id e = j"
    then have "sd_account_org db (er_account_id e) = Some org" using Cons.prems(2) eps1 by auto
    moreover have "e \<in> set (ct_endpoints (sd_cat ?db1))"
      using e(2) by (auto simp: delete_account_if_unreferenced_def delete_account_def split: if_splits)
    ultimately show "sd_account_org ?db2 (er_account_id e) = Some org" using org2 by (auto simp: list_ex_iff)
  next
    fix j b
    assume "(j, b) \<in> set eps"
    then have "sd_account_org db b = Some org \<or> b \<notin> pa_id ` set (ct_accounts (sd_cat db))" using Cons.prems(3) by auto
    moreover have "b \<notin> pa_id ` set (ct_accounts (sd_cat ?db2))"
      if "b \<notin> pa_id ` set (ct_accounts (sd_cat db)) \<or> b = a \<and> \<not> list_ex (\<lambda>e. er_account_id e = a) (ct_endpoints (sd_cat ?db1))"
      using that acc1 by (auto simp: delete_account_if_unreferenced_def delete_account_def)
    ultimately show "sd_account_org ?db2 b = Some org \<or> b \<notin> pa_id ` set (ct_accounts (sd_cat ?db2))"
      using org2 by metis
  qed
  finally show ?case .
qed simp

lemma pool_endpoint_accounts_mem:
  "(i, a) \<in> set (pool_endpoint_accounts db p) \<longleftrightarrow>
     (\<exists>r. (p, i, r) \<in> set (ct_pool_endpoints (sd_cat db))) \<and>
     (\<exists>e \<in> set (ct_endpoints (sd_cat db)). er_id e = i \<and> er_account_id e = a)"
  by (fastforce simp: pool_endpoint_accounts_def split: if_splits)

lemma linked_endpoint_account:
  assumes "tenants_ok db" "(p, i, r) \<in> set (ct_pool_endpoints (sd_cat db))" "e \<in> set (ct_endpoints (sd_cat db))" "er_id e = i"
  shows "sd_account_org db (er_account_id e) = sd_pool_org db p"
proof -
  obtain ep where "ep \<in> set (ct_endpoints (sd_cat db))" "er_id ep = i" "sd_account_org db (er_account_id ep) = sd_pool_org db p"
    using assms(1,2) unfolding tenants_ok_def links_within_def by fastforce
  moreover have "inj_on er_id (set (ct_endpoints (sd_cat db)))"
    using assms(1) by (simp add: tenants_ok_def keys_distinct_def distinct_map)
  ultimately show ?thesis using assms(3,4) by (metis inj_onD)
qed

lemma delete_service_effect:
  assumes "delete_service_tx env i (mp_id mp) db = (db', Inr ())"
    and "(vm, mp) \<in> set (own_services db cx i)" "tenants_ok db"
  shows "effect (cx_org_id cx) db db'"
proof -
  let ?p = "mp_id mp" and ?org = "cx_org_id cx"
  have org: "sd_pool_org db ?p = Some ?org" using assms(2) unfolding own_services_mem by blast
  let ?eps = "pool_endpoint_accounts db ?p"
  let ?db1 = "delete_project_grants i db" and ?db2 = "delete_virtual_models (\<lambda>vm. vm_id vm = i) (delete_project_grants i db)"
  let ?db3 = "delete_links (\<lambda>p _. p = ?p) ?db2" and ?db4 = "delete_pool ?p (delete_links (\<lambda>p _. p = ?p) ?db2)"
  have rest: "delete_endpoints env ?eps ?db4 = (db', Inr ())"
    using assms(1) by (auto simp: delete_service_tx_def Let_def try_then_Inr split: if_splits)
  have same1: "ct_virtual_models (sd_cat ?db1) = ct_virtual_models (sd_cat db)" "sd_pool_org ?db1 = sd_pool_org db"
    by (simp_all add: delete_project_grants_def)
  have same: "sd_pool_org ?db3 = sd_pool_org db" "sd_pool_org ?db2 = sd_pool_org db"
    by (simp_all add: delete_links_def delete_virtual_models_def delete_project_grants_def Let_def)
  have eps4: "ct_endpoints (sd_cat ?db4) = ct_endpoints (sd_cat db)" "sd_account_org ?db4 = sd_account_org db"
    by (simp_all add: delete_pool_def delete_links_def delete_virtual_models_def delete_project_grants_def Let_def)
  have own: "sd_pool_org db (vm_pool_id vm') = Some ?org" if "vm' \<in> set (ct_virtual_models (sd_cat db))" "vm_id vm' = i" for vm'
    using own_pool_models [OF assms(2,3) that] .
  have "effect ?org db ?db1"
  proof (rule effectI)
    show "keys_distinct ?db1 \<and> parents_exist ?db1 \<and> links_within ?db1 \<and> grants_within ?db1"
      using assms(3) unfolding tenants_ok_def separation_defs by (simp add: delete_project_grants_def)
    have "own_models ?org ?db1 = own_models ?org db" by (rule own_models_cong) (simp_all add: delete_project_grants_def)
    moreover have "i \<in> own_models ?org db" using assms(2) unfolding own_services_mem own_models_def by force
    then have "filter (\<lambda>(_, v). v \<notin> own_models ?org db) (filter (\<lambda>(_, w). w \<noteq> i) gs) =
        filter (\<lambda>(_, v). v \<notin> own_models ?org db) gs" for gs :: "(string \<times> string) list"
      unfolding filter_filter by (intro filter_cong) auto
    ultimately show "same_outside ?org db ?db1" by (simp add: same_outside_def delete_project_grants_def)
  qed
  also have "effect ?org ?db1 ?db2" by (rule delete_virtual_models_effect) (use own same1 in simp)
  also have "effect ?org ?db2 ?db3" by (rule delete_links_effect) (use org same(2) in simp)
  also have "effect ?org ?db3 ?db4" by (rule delete_pool_effect) (use org same(1) in simp)
  also have "effect ?org ?db4 db'"
  proof (rule delete_endpoints_effect [OF rest])
    fix j a e
    assume "(j, a) \<in> set ?eps" "e \<in> set (ct_endpoints (sd_cat ?db4))" "er_id e = j"
    then show "sd_account_org ?db4 (er_account_id e) = Some ?org"
      using linked_endpoint_account [OF assms(3)] org by (auto simp: pool_endpoint_accounts_mem eps4)
  next
    fix j a
    assume "(j, a) \<in> set ?eps"
    then obtain r e where "(?p, j, r) \<in> set (ct_pool_endpoints (sd_cat db))" "e \<in> set (ct_endpoints (sd_cat db))"
      "er_id e = j" "er_account_id e = a"
      unfolding pool_endpoint_accounts_mem by blast
    from linked_endpoint_account [OF assms(3) this(1-3)] this(4) org
    show "sd_account_org ?db4 a = Some ?org \<or> a \<notin> pa_id ` set (ct_accounts (sd_cat ?db4))"
      by (simp add: eps4)
  qed
  finally show ?thesis .
qed

lemma update_endpoint_tx_effect:
  assumes "own_endpoint env cx i j db = Inr e" "tenants_ok db"
  shows "effect (cx_org_id cx) db
     (update_endpoint j (new_endpoint_columns now input) (update_account (er_account_id e) (new_account_columns now input) db))"
proof -
  note own = own_endpoint_account [OF assms]
  have "sd_account_org db (er_account_id e) = Some (cx_org_id cx)"
    using own_endpoint_Inr [OF assms(1)] own by blast
  then have "effect (cx_org_id cx) db (update_account (er_account_id e) (new_account_columns now input) db)"
    by (intro update_account_effect) (simp_all add: new_account_columns_def)
  also have "effect (cx_org_id cx) (update_account (er_account_id e) (new_account_columns now input) db)
     (update_endpoint j (new_endpoint_columns now input) (update_account (er_account_id e) (new_account_columns now input) db))"
    by (rule update_endpoint_effect) (use own in \<open>simp_all add: new_endpoint_columns_def update_account_def Let_def\<close>)
  finally show ?thesis .
qed

lemma delete_endpoint_tx_effect:
  assumes "own_endpoint env cx i j db = Inr e" "tenants_ok db"
  shows "effect (cx_org_id cx) db
     (delete_account_if_unreferenced (er_account_id e) (delete_endpoint j (delete_links (\<lambda>_ i. i = j) db)))"
proof -
  let ?db1 = "delete_links (\<lambda>_ i. i = j) db" and ?db2 = "delete_endpoint j (delete_links (\<lambda>_ i. i = j) db)"
  note own = own_endpoint_account [OF assms]
  have e: "sd_account_org db (er_account_id e) = Some (cx_org_id cx)" "e \<in> set (ct_endpoints (sd_cat db))" "er_id e = j"
    using own_endpoint_Inr [OF assms(1)] own by blast+
  have rest: "ct_endpoints (sd_cat ?db1) = ct_endpoints (sd_cat db)" "sd_account_org ?db1 = sd_account_org db"
    "sd_account_org ?db2 = sd_account_org db"
    by (simp_all add: delete_links_def delete_endpoint_def)
  have "effect (cx_org_id cx) db ?db1"
  proof (rule delete_links_effect)
    fix p k r
    assume "(p, k, r) \<in> set (ct_pool_endpoints (sd_cat db))" "k = j"
    then show "sd_pool_org db p = Some (cx_org_id cx)"
      using linked_endpoint_account [OF assms(2) _ e(2)] e(1,3) by metis
  qed
  also have "effect (cx_org_id cx) ?db1 ?db2" by (rule delete_endpoint_effect) (use own rest in simp)
  also have "effect (cx_org_id cx) ?db2 (delete_account_if_unreferenced (er_account_id e) ?db2)"
    by (rule delete_account_if_unreferenced_effect) (simp add: rest e(1))
  finally show ?thesis .
qed

text \<open>A transaction of a handler either does nothing or has the effect of its body.\<close>

lemma transaction_effect:
  assumes "in_transaction ok body db = (db', r)" "\<And>db'' x. body db = (db'', Inr x) \<Longrightarrow> effect org db db''"
  shows "effect org db db' \<and> (isl r \<longrightarrow> db' = db)"
  using assms by (cases r) (auto simp: in_transaction_Inr dest: in_transaction_Inl)

lemma try_then_pure:
  "try_then m (\<lambda>x s. (s, Inr (g x))) = (s, r) \<Longrightarrow> \<exists>r'. m = (s, r') \<and> isl r' = isl r"
  by (cases m; cases "snd m") (auto simp: try_then_def)

lemma service_step_effect:
  assumes "service_step cx db ok db'" "context_ok db cx" "tenants_ok db"
  shows "effect (cx_org_id cx) db db' \<and> (\<not> ok \<longrightarrow> db' = db)"
  using assms(1)
proof (cases rule: service_step.cases)
  case (create env input r)
  show ?thesis
  proof (cases "trim (sq_name input) = [] \<or> isl (first_error created_check (requested_endpoints input)) \<or>
      120 < length (trim (sq_name input)) \<or> isl (saas_strategy (unwrap_or (filled (sq_strategy input)) ''cost_aware''))")
    case True
    then have "db' = db" using create(2) by (auto simp: create_model_service_def Let_def split: if_splits sum.splits)
    then show ?thesis by simp
  next
    case False
    then obtain strategy r' where "in_transaction (sn_ok env)
        (create_service_tx env cx (trim (sq_name input)) strategy (requested_endpoints input)) db = (db', r')" "isl r' = isl r"
      using create(2) by (auto simp: create_model_service_def Let_def split: sum.splits dest!: try_then_pure)
    with transaction_effect [OF this(1)] create_service_effect [OF _ assms(2)] create(1) show ?thesis by blast
  qed
next
  case (update env i upd r)
  show ?thesis
  proof (cases "\<exists>vm mp strategy. own_service env cx i db = Inr (vm, mp) \<and>
      (case filled (uq_strategy upd) of Some s \<Rightarrow> saas_strategy s | None \<Rightarrow> Inr (mp_strategy mp)) = Inr strategy")
    case True
    then obtain vm mp strategy r' where s: "own_service env cx i db = Inr (vm, mp)" and
      t: "in_transaction (sn_ok env) (update_service_tx env i (mp_id mp) strategy upd) db = (db', r')" "isl r' = isl r"
      using update(2) by (auto simp: update_model_service_def dest!: try_then_pure)
    have "effect (cx_org_id cx) db db' \<and> (isl r' \<longrightarrow> db' = db)"
      by (rule transaction_effect [OF t(1)]) (rule update_service_effect [OF _ own_service_Inr [OF s] assms(3)], simp)
    then show ?thesis using t(2) update(1) by blast
  next
    case False
    then have "db' = db" using update(2) by (auto simp: update_model_service_def split: sum.splits option.splits)
    then show ?thesis by simp
  qed
next
  case (delete env i r)
  show ?thesis
  proof (cases "own_service env cx i db")
    case (Inl e)
    then have "db' = db" using delete(2) by (simp add: delete_model_service_def)
    then show ?thesis by simp
  next
    case (Inr x)
    obtain vm mp where x: "x = (vm, mp)" by force
    have "in_transaction (sn_ok env) (delete_service_tx env i (mp_id mp)) db = (db', r)"
      using delete(2) Inr x by (simp add: delete_model_service_def)
    have "effect (cx_org_id cx) db db' \<and> (isl r \<longrightarrow> db' = db)"
      by (rule transaction_effect [OF \<open>in_transaction _ _ _ = _\<close>])
        (rule delete_service_effect [OF _ own_service_Inr [OF Inr [unfolded x]] assms(3)], simp)
    then show ?thesis using delete(1) by blast
  qed
next
  case (add_endpoint env i payload r)
  show ?thesis
  proof (cases "\<exists>vm mp. own_service env cx i db = Inr (vm, mp) \<and> endpoints_to_add payload \<noteq> [] \<and>
      \<not> isl (first_error added_check (endpoints_to_add payload))")
    case True
    then obtain vm mp r' where s: "own_service env cx i db = Inr (vm, mp)" and
      t: "in_transaction (sn_ok env) (attach_endpoints env cx (mp_id mp)
        (\<lambda>n. ''model-service-'' @ show_nat (link_count db (mp_id mp) + n + 1)) 0 (endpoints_to_add payload)) db = (db', r')"
        "isl r' = isl r"
      using add_endpoint(2) by (auto simp: add_model_service_endpoint_def Let_def split: sum.splits dest!: try_then_pure)
    have "sd_pool_org db (mp_id mp) = Some (cx_org_id cx)"
      using own_service_Inr [OF s] unfolding own_services_mem by blast
    with transaction_effect [OF t(1)] attach_endpoints_effect t(2) add_endpoint(1) show ?thesis by blast
  next
    case False
    then have "db' = db" using add_endpoint(2)
      by (auto simp: add_model_service_endpoint_def Let_def split: sum.splits if_splits)
    then show ?thesis by simp
  qed
next
  case (update_ep env i j eupd r)
  show ?thesis
  proof (cases "\<exists>e. own_endpoint env cx i j db = Inr e \<and> \<not> isl (endpoint_update_check eupd)")
    case True
    then obtain e where e: "own_endpoint env cx i j db = Inr e" by blast
    have t: "in_transaction (sn_ok env) (\<lambda>db. try_then (run_statement (sn_ok env ''update account'')
          (update_account (er_account_id e) (new_account_columns (sn_now env) eupd)) db)
        (\<lambda>_. run_statement (sn_ok env ''update endpoint'') (update_endpoint j (new_endpoint_columns (sn_now env) eupd)))) db = (db', r)"
      using update_ep(2) True e by (auto simp: update_model_service_endpoint_def split: sum.splits)
    have "effect (cx_org_id cx) db db' \<and> (isl r \<longrightarrow> db' = db)"
      by (rule transaction_effect [OF t]) (auto simp: try_then_Inr intro: update_endpoint_tx_effect [OF e assms(3)])
    then show ?thesis using update_ep(1) by blast
  next
    case False
    then have "db' = db" using update_ep(2) by (auto simp: update_model_service_endpoint_def split: sum.splits)
    then show ?thesis by simp
  qed
next
  case (delete_ep env i j r)
  show ?thesis
  proof (cases "own_endpoint env cx i j db")
    case (Inl e)
    then have "db' = db" using delete_ep(2) by (simp add: delete_model_service_endpoint_def)
    then show ?thesis by simp
  next
    case (Inr e)
    have t: "in_transaction (sn_ok env) (\<lambda>db.
          try_then (run_statement (sn_ok env ''delete links'') (delete_links (\<lambda>_ i. i = j)) db) (\<lambda>_ db.
          try_then (run_statement (sn_ok env ''delete endpoint'') (delete_endpoint j) db) (\<lambda>_.
          run_statement (sn_ok env ''delete account'') (delete_account_if_unreferenced (er_account_id e))))) db = (db', r)"
      using delete_ep(2) Inr by (simp add: delete_model_service_endpoint_def)
    have "effect (cx_org_id cx) db db' \<and> (isl r \<longrightarrow> db' = db)"
      by (rule transaction_effect [OF t]) (auto simp: try_then_Inr intro: delete_endpoint_tx_effect [OF Inr assms(3)])
    then show ?thesis using delete_ep(1) by blast
  qed
qed

end
