(* ===== verification/Service_Lifecycle.thy ===== *)
theory Service_Lifecycle
  imports Model_Services
begin

text \<open>
  What the handlers of Model\_Services promise: they stay within the workspace of the
  caller, a created service is served and has the endpoints asked for, and a deleted one
  leaves nothing behind.
\<close>

section \<open>Confinement\<close>

text \<open>
  Service administration is confined to the caller's organization: creating,
  changing or deleting a model service or its endpoints keeps every pool, grant and
  endpoint within one organization, keeps the rows of every other organization as they
  are, and changes nothing at all when it answers an error.
\<close>

theorem service_administration_is_confined:
  assumes "service_step cx db ok db'" "context_ok db cx" "tenants_ok db"
  shows "(\<not> ok \<longrightarrow> db' = db) \<and> tenants_ok db' \<and> same_outside (cx_org_id cx) db db'"
  using service_step_effect [OF assms] assms(3) by (simp add: effect_def)

definition own_view :: "saas_db \<Rightarrow> string \<Rightarrow>
    provider_account list \<times> endpoint_row list \<times> model_pool list \<times> virtual_model list \<times> (string \<times> string \<times> int \<times> int) list" where
  "own_view db org =
     (filter (\<lambda>a. sd_account_org db (pa_id a) = Some org) (ct_accounts (sd_cat db)),
      filter (\<lambda>e. sd_account_org db (er_account_id e) = Some org) (ct_endpoints (sd_cat db)),
      filter (\<lambda>mp. sd_pool_org db (mp_id mp) = Some org) (ct_model_pools (sd_cat db)),
      filter (\<lambda>vm. sd_pool_org db (vm_pool_id vm) = Some org) (ct_virtual_models (sd_cat db)),
      filter (\<lambda>(p, _). sd_pool_org db p = Some org) (ct_pool_endpoints (sd_cat db)))"

lemma same_filter:
  assumes "filter (\<lambda>x. f' (k x) \<noteq> Some o1) xs' = filter (\<lambda>x. f (k x) \<noteq> Some o1) xs"
    and "others o1 f' = others o1 f" "o1 \<noteq> org"
  shows "filter (\<lambda>x. f' (k x) = Some org) xs' = filter (\<lambda>x. f (k x) = Some org) xs"
proof -
  have f: "f' x = Some org \<longleftrightarrow> f x = Some org" for x
    using fun_cong [OF assms(2), of x] assms(3) by (auto simp: others_def split: if_splits)
  have "filter (\<lambda>x. f x = Some org) (filter (\<lambda>x. g x \<noteq> Some o1) ys) = filter (\<lambda>x. f x = Some org) ys"
    if "\<And>x. f x = Some org \<Longrightarrow> g x = Some org" for f g :: "'a \<Rightarrow> string option" and ys
    unfolding filter_filter using that assms(3) by (intro filter_cong) auto
  from this [of "\<lambda>x. f (k x)" "\<lambda>x. f' (k x)" xs'] this [of "\<lambda>x. f (k x)" "\<lambda>x. f (k x)" xs] assms(1) f
  show ?thesis by simp
qed

lemma own_view_kept:
  assumes "same_outside o1 db db'" "o1 \<noteq> org"
  shows "own_view db' org = own_view db org"
proof -
  note same = assms(1) [unfolded same_outside_def prod.case_eq_if]
  have pools: "others o1 (sd_pool_org db') = others o1 (sd_pool_org db)"
    and accounts: "others o1 (sd_account_org db') = others o1 (sd_account_org db)" using same by blast+
  have "filter (\<lambda>a. sd_account_org db' (pa_id a) = Some org) (ct_accounts (sd_cat db')) =
      filter (\<lambda>a. sd_account_org db (pa_id a) = Some org) (ct_accounts (sd_cat db))"
    by (rule same_filter [OF _ accounts assms(2)]) (use same in blast)
  moreover have "filter (\<lambda>e. sd_account_org db' (er_account_id e) = Some org) (ct_endpoints (sd_cat db')) =
      filter (\<lambda>e. sd_account_org db (er_account_id e) = Some org) (ct_endpoints (sd_cat db))"
    by (rule same_filter [OF _ accounts assms(2)]) (use same in blast)
  moreover have "filter (\<lambda>mp. sd_pool_org db' (mp_id mp) = Some org) (ct_model_pools (sd_cat db')) =
      filter (\<lambda>mp. sd_pool_org db (mp_id mp) = Some org) (ct_model_pools (sd_cat db))"
    by (rule same_filter [OF _ pools assms(2)]) (use same in blast)
  moreover have "filter (\<lambda>vm. sd_pool_org db' (vm_pool_id vm) = Some org) (ct_virtual_models (sd_cat db')) =
      filter (\<lambda>vm. sd_pool_org db (vm_pool_id vm) = Some org) (ct_virtual_models (sd_cat db))"
    by (rule same_filter [OF _ pools assms(2)]) (use same in blast)
  moreover have "filter (\<lambda>x. sd_pool_org db' (fst x) = Some org) (ct_pool_endpoints (sd_cat db')) =
      filter (\<lambda>x. sd_pool_org db (fst x) = Some org) (ct_pool_endpoints (sd_cat db))"
    by (rule same_filter [OF _ pools assms(2)]) (use same in blast)
  ultimately show ?thesis by (simp add: own_view_def case_prod_beta')
qed

lemma own_models_disjoint:
  assumes "tenants_ok db" "v \<in> own_models org db" "o1 \<noteq> org"
  shows "v \<notin> own_models o1 db"
proof -
  have inj: "inj_on vm_id (set (ct_virtual_models (sd_cat db)))"
    using assms(1) by (simp add: tenants_ok_def keys_distinct_def distinct_map)
  obtain vm where vm: "vm \<in> set (ct_virtual_models (sd_cat db))" "vm_id vm = v" "sd_pool_org db (vm_pool_id vm) = Some org"
    using assms(2) unfolding own_models_def by (elim imageE CollectE conjE) simp
  show ?thesis
  proof
    assume "v \<in> own_models o1 db"
    then obtain vm' where vm': "vm' \<in> set (ct_virtual_models (sd_cat db))" "v = vm_id vm'"
      "sd_pool_org db (vm_pool_id vm') = Some o1"
      unfolding own_models_def by (elim imageE CollectE conjE)
    have "vm' = vm" by (rule inj_onD [OF inj _ vm'(1) vm(1)]) (simp add: vm'(2) vm(2))
    then show False using vm'(3) vm(3) assms(3) by simp
  qed
qed

lemma own_models_view: "own_models org db = vm_id ` set (fst (snd (snd (snd (own_view db org)))))"
  by (simp add: own_models_def own_view_def)

lemma own_grants_kept:
  assumes "same_outside o1 db db'" "o1 \<noteq> org" "tenants_ok db" "tenants_ok db'" "v \<in> own_models org db"
  shows "(p, v) \<in> set (ct_project_grants (sd_cat db')) \<longleftrightarrow> (p, v) \<in> set (ct_project_grants (sd_cat db))"
proof -
  have "v \<in> own_models org db'" using assms(5) own_view_kept [OF assms(1,2)] by (simp add: own_models_view)
  then have "v \<notin> own_models o1 db'" "v \<notin> own_models o1 db"
    using own_models_disjoint assms(2-5) by blast+
  moreover have "filter (\<lambda>(_, v). v \<notin> own_models o1 db') (ct_project_grants (sd_cat db')) =
      filter (\<lambda>(_, v). v \<notin> own_models o1 db) (ct_project_grants (sd_cat db))"
    using assms(1) by (simp add: same_outside_def)
  from arg_cong [OF this, of set] have "(p, v) \<in> set (ct_project_grants (sd_cat db')) \<and> v \<notin> own_models o1 db' \<longleftrightarrow>
      (p, v) \<in> set (ct_project_grants (sd_cat db)) \<and> v \<notin> own_models o1 db"
    by (auto simp: set_eq_iff)
  ultimately show ?thesis by simp
qed

lemma concat_map_filter: "(\<And>x. \<not> P x \<Longrightarrow> f x = []) \<Longrightarrow> concat (map f xs) = concat (map f (filter P xs))"
  by (induction xs) auto

lemma own_services_view:
  "own_services db cx i = concat (map (\<lambda>vm. concat (map (\<lambda>mp.
     if mp_id mp = vm_pool_id vm \<and> vm_id vm = i \<and> (cx_project_id cx, vm_id vm) \<in> set (ct_project_grants (sd_cat db))
     then [(vm, mp)] else [])
     (fst (snd (snd (own_view db (cx_org_id cx))))))) (fst (snd (snd (snd (own_view db (cx_org_id cx)))))))"
proof -
  let ?f = "\<lambda>vm mp. if mp_id mp = vm_pool_id vm \<and> vm_id vm = i \<and> sd_pool_org db (mp_id mp) = Some (cx_org_id cx) \<and>
        (cx_project_id cx, vm_id vm) \<in> set (ct_project_grants (sd_cat db)) then [(vm, mp)] else []"
  let ?P = "\<lambda>mp :: model_pool. sd_pool_org db (mp_id mp) = Some (cx_org_id cx)"
  let ?Q = "\<lambda>vm :: virtual_model. sd_pool_org db (vm_pool_id vm) = Some (cx_org_id cx)"
  have pools: "concat (map (?f vm) mps) = concat (map (\<lambda>mp.
     if mp_id mp = vm_pool_id vm \<and> vm_id vm = i \<and> (cx_project_id cx, vm_id vm) \<in> set (ct_project_grants (sd_cat db))
     then [(vm, mp)] else []) (filter ?P mps))" for vm mps
    by (induction mps) auto
  have "concat (map (\<lambda>vm. concat (map (?f vm) mps)) vms) = concat (map (\<lambda>vm. concat (map (?f vm) mps)) (filter ?Q vms))" for mps :: "model_pool list" and vms
    by (rule concat_map_filter) (auto simp: concat_eq_Nil_conv)
  then show ?thesis unfolding own_services_def own_view_def fst_conv snd_conv pools .
qed

lemma own_services_kept:
  assumes "same_outside o1 db db'" "o1 \<noteq> cx_org_id cx" "tenants_ok db" "tenants_ok db'"
  shows "own_services db' cx i = own_services db cx i"
proof -
  let ?org = "cx_org_id cx"
  have g: "(cx_project_id cx, vm_id vm) \<in> set (ct_project_grants (sd_cat db')) \<longleftrightarrow>
      (cx_project_id cx, vm_id vm) \<in> set (ct_project_grants (sd_cat db))"
    if "vm \<in> set (fst (snd (snd (snd (own_view db ?org)))))" for vm
    using own_grants_kept [OF assms] that by (simp add: own_models_view)
  show ?thesis unfolding own_services_view own_view_kept [OF assms(1,2)]
    by (intro arg_cong [where f = concat] map_cong refl if_cong) (simp add: g)
qed

section \<open>What a creation writes\<close>

definition with_endpoints :: "string \<Rightarrow> string \<Rightarrow> provider_account list \<Rightarrow> endpoint_row list \<Rightarrow> saas_db \<Rightarrow> saas_db" where
  "with_endpoints org pool_id as es db =
     (update_cat (\<lambda>c. c\<lparr>ct_accounts := ct_accounts c @ as, ct_endpoints := ct_endpoints c @ es,
        ct_pool_endpoints := ct_pool_endpoints c @ map (\<lambda>e. (pool_id, er_id e, 1, 1)) es\<rparr>) db)
       \<lparr>sd_account_org := (\<lambda>a. if a \<in> pa_id ` set as then Some org else sd_account_org db a)\<rparr>"

lemma with_endpoints_simps [simp]:
  "ct_accounts (sd_cat (with_endpoints org p as es db)) = ct_accounts (sd_cat db) @ as"
  "ct_endpoints (sd_cat (with_endpoints org p as es db)) = ct_endpoints (sd_cat db) @ es"
  "ct_pool_endpoints (sd_cat (with_endpoints org p as es db)) =
     ct_pool_endpoints (sd_cat db) @ map (\<lambda>e. (p, er_id e, 1, 1)) es"
  "ct_virtual_models (sd_cat (with_endpoints org p as es db)) = ct_virtual_models (sd_cat db)"
  "ct_model_pools (sd_cat (with_endpoints org p as es db)) = ct_model_pools (sd_cat db)"
  "ct_project_grants (sd_cat (with_endpoints org p as es db)) = ct_project_grants (sd_cat db)"
  "ct_key_grants (sd_cat (with_endpoints org p as es db)) = ct_key_grants (sd_cat db)"
  "ct_projects (sd_cat (with_endpoints org p as es db)) = ct_projects (sd_cat db)"
  "sd_pool_org (with_endpoints org p as es db) = sd_pool_org db"
  "sd_account_org (with_endpoints org p as es db) = (\<lambda>a. if a \<in> pa_id ` set as then Some org else sd_account_org db a)"
  by (simp_all add: with_endpoints_def update_cat_def)

lemma with_no_endpoints: "with_endpoints org p [] [] db = db"
  by (simp add: with_endpoints_def update_cat_def)

lemma with_endpoints_append:
  "with_endpoints org p as' es' (with_endpoints org p as es db) = with_endpoints org p (as @ as') (es @ es') db"
proof -
  have "(\<lambda>a. if a \<in> pa_id ` set as' then Some org else if a \<in> pa_id ` set as then Some org else m a) =
      (\<lambda>a. if a \<in> pa_id ` set (as @ as') then Some org else m a)" for m
    by (auto simp: fun_eq_iff)
  then show ?thesis by (simp add: with_endpoints_def update_cat_def cong: if_cong)
qed

text \<open>The rows an endpoint request adds: an account of its own unless it names one, and the endpoint.\<close>

definition endpoint_rows_of :: "saas_db \<Rightarrow> model_endpoint_request \<Rightarrow> provider_account list \<Rightarrow> endpoint_row \<Rightarrow> bool" where
  "endpoint_rows_of db ep as e \<longleftrightarrow> er_enabled e \<and> er_upstream_model_id e = mq_upstream_model_id ep \<and>
     er_id e \<notin> er_id ` set (ct_endpoints (sd_cat db)) \<and>
     (if mq_account_id ep = None
      then (\<exists>a. as = [a] \<and> pa_id a = er_account_id e \<and> pa_id a \<notin> pa_id ` set (ct_accounts (sd_cat db)))
      else as = [] \<and> mq_account_id ep = Some (er_account_id e))"

lemma attach_endpoint_rows:
  assumes "attach_endpoint env cx p name n ep db = (db', Inr x)"
  shows "\<exists>as e. db' = with_endpoints (cx_org_id cx) p as [e] db \<and> er_id e = snd x \<and> endpoint_rows_of db ep as e"
proof -
  obtain db1 pid ptype db2 where
    1: "endpoint_account env cx n ep db = (db1, Inr (pid, ptype))"
    and 2: "insert_endpoint (sn_ok env (''insert endpoint '' @ show_nat n)) (new_endpoint_row env (sn_uuid env ''endpoint'' n) pid name ep) db1 = (db2, Inr ())"
    and 3: "insert_link (sn_ok env (''insert link '' @ show_nat n)) p (sn_uuid env ''endpoint'' n) db2 = (db', Inr ())"
    and x: "snd x = sn_uuid env ''endpoint'' n"
    using assms unfolding attach_endpoint_def Let_def by (fastforce simp: try_then_Inr split: prod.splits)
  let ?e = "new_endpoint_row env (sn_uuid env ''endpoint'' n) pid name ep"
  have e: "er_enabled ?e" "er_upstream_model_id ?e = mq_upstream_model_id ep" "er_account_id ?e = pid" "er_id ?e = snd x"
    by (simp_all add: new_endpoint_row_def x)
  have fresh: "er_id ?e \<notin> er_id ` set (ct_endpoints (sd_cat db1))" using 2 by (simp add: insert_endpoint_def)
  have db': "db' = with_endpoints (cx_org_id cx) p [] [?e] db1"
    using 2 3 e x by (simp add: insert_endpoint_def insert_link_def with_endpoints_def update_cat_def)
  show ?thesis
  proof (cases "mq_account_id ep")
    case None
    with 1 obtain a where ins: "insert_account (sn_ok env (''insert account '' @ show_nat n)) (cx_org_id cx) a db = (db1, Inr ())"
      and pid: "pid = pa_id a"
      unfolding endpoint_account_def Let_def by (auto simp: try_then_Inr)
    then have "db1 = with_endpoints (cx_org_id cx) p [a] [] db" "pa_id a \<notin> pa_id ` set (ct_accounts (sd_cat db))"
      by (auto simp: insert_account_def with_endpoints_def update_cat_def fun_eq_iff)
    then have "db' = with_endpoints (cx_org_id cx) p [a] [?e] db \<and> er_id ?e = snd x \<and> endpoint_rows_of db ep [a] ?e"
      using e fresh None pid by (simp add: db' with_endpoints_append endpoint_rows_of_def)
    then show ?thesis by blast
  next
    case (Some aid)
    with 1 have "db1 = db" "pid = aid"
      by (auto simp: endpoint_account_def find_Some_iff split: if_splits option.splits)
    then have "db' = with_endpoints (cx_org_id cx) p [] [?e] db \<and> er_id ?e = snd x \<and> endpoint_rows_of db ep [] ?e"
      using e fresh Some by (simp add: db' endpoint_rows_of_def)
    then show ?thesis by blast
  qed
qed

text \<open>All the endpoints of a request.\<close>

definition new_rows :: "saas_db \<Rightarrow> model_endpoint_request list \<Rightarrow> provider_account list \<Rightarrow> endpoint_row list \<Rightarrow> bool" where
  "new_rows db eps as es \<longleftrightarrow> (\<forall>e \<in> set es. er_enabled e) \<and>
     map er_upstream_model_id es = map mq_upstream_model_id eps \<and>
     distinct (map er_id es) \<and> er_id ` set es \<inter> er_id ` set (ct_endpoints (sd_cat db)) = {} \<and>
     distinct (map pa_id as) \<and> pa_id ` set as \<inter> pa_id ` set (ct_accounts (sd_cat db)) = {} \<and>
     (list_all (\<lambda>ep. mq_account_id ep = None) eps \<longrightarrow> map pa_id as = map er_account_id es)"

lemma attach_endpoints_rows:
  assumes "attach_endpoints env cx p name n eps db = (db', Inr xs)"
  shows "\<exists>as es. db' = with_endpoints (cx_org_id cx) p as es db \<and> map er_id es = map snd xs \<and> new_rows db eps as es"
  using assms
proof (induction eps arbitrary: n db xs)
  case Nil
  then have "db' = with_endpoints (cx_org_id cx) p [] [] db \<and> map er_id [] = map snd xs \<and> new_rows db [] [] []"
    by (simp add: with_no_endpoints new_rows_def)
  then show ?case by blast
next
  case (Cons ep eps)
  obtain db1 x ys where 1: "attach_endpoint env cx p (name n) n ep db = (db1, Inr x)"
    and 2: "attach_endpoints env cx p name (Suc n) eps db1 = (db', Inr ys)" and xs: "xs = x # ys"
    using Cons.prems by (auto simp: try_then_Inr)
  obtain as1 e where a: "db1 = with_endpoints (cx_org_id cx) p as1 [e] db" "er_id e = snd x" "endpoint_rows_of db ep as1 e"
    using attach_endpoint_rows [OF 1] by blast
  obtain as es where b: "db' = with_endpoints (cx_org_id cx) p as es db1" "map er_id es = map snd ys" "new_rows db1 eps as es"
    using Cons.IH [OF 2] by blast
  have "new_rows db (ep # eps) (as1 @ as) (e # es)"
    using a(3) b(3) unfolding new_rows_def endpoint_rows_of_def a(1) by (auto split: if_splits)
  then have "db' = with_endpoints (cx_org_id cx) p (as1 @ as) (e # es) db \<and> map er_id (e # es) = map snd xs \<and>
      new_rows db (ep # eps) (as1 @ as) (e # es)"
    using a b(1,2) xs by (simp add: with_endpoints_append)
  then show ?case by blast
qed

definition with_service ::
    "saas_context \<Rightarrow> model_pool \<Rightarrow> virtual_model \<Rightarrow> provider_account list \<Rightarrow> endpoint_row list \<Rightarrow> saas_db \<Rightarrow> saas_db" where
  "with_service cx mp vm as es db =
     update_cat (\<lambda>c. c\<lparr>ct_model_pools := ct_model_pools c @ [mp], ct_virtual_models := ct_virtual_models c @ [vm],
        ct_project_grants := ct_project_grants c @ [(cx_project_id cx, vm_id vm)]\<rparr>)
       ((with_endpoints (cx_org_id cx) (mp_id mp) as es db)\<lparr>sd_pool_org := (sd_pool_org db)(mp_id mp \<mapsto> cx_org_id cx)\<rparr>)"

lemma with_service_simps [simp]:
  "ct_accounts (sd_cat (with_service cx mp vm as es db)) = ct_accounts (sd_cat db) @ as"
  "ct_endpoints (sd_cat (with_service cx mp vm as es db)) = ct_endpoints (sd_cat db) @ es"
  "ct_pool_endpoints (sd_cat (with_service cx mp vm as es db)) =
     ct_pool_endpoints (sd_cat db) @ map (\<lambda>e. (mp_id mp, er_id e, 1, 1)) es"
  "ct_virtual_models (sd_cat (with_service cx mp vm as es db)) = ct_virtual_models (sd_cat db) @ [vm]"
  "ct_model_pools (sd_cat (with_service cx mp vm as es db)) = ct_model_pools (sd_cat db) @ [mp]"
  "ct_project_grants (sd_cat (with_service cx mp vm as es db)) = ct_project_grants (sd_cat db) @ [(cx_project_id cx, vm_id vm)]"
  "ct_key_grants (sd_cat (with_service cx mp vm as es db)) = ct_key_grants (sd_cat db)"
  "sd_pool_org (with_service cx mp vm as es db) = (sd_pool_org db)(mp_id mp \<mapsto> cx_org_id cx)"
  "sd_account_org (with_service cx mp vm as es db) = (\<lambda>a. if a \<in> pa_id ` set as then Some (cx_org_id cx) else sd_account_org db a)"
  by (simp_all add: with_service_def update_cat_def with_endpoints_def)

lemma create_service_rows:
  assumes "create_service_tx env cx name strategy eps db = (db', Inr attached)"
  obtains as es where
    "db' = with_service cx (new_pool env (sn_uuid env ''pool'' 0) name strategy)
       (new_virtual_model env (sn_uuid env ''model'' 0) (sn_uuid env ''pool'' 0) name) as es db"
    "map er_id es = map snd attached" "new_rows db eps as es"
    "sn_uuid env ''pool'' 0 \<notin> mp_id ` set (ct_model_pools (sd_cat db))"
    "sn_uuid env ''model'' 0 \<notin> vm_id ` set (ct_virtual_models (sd_cat db))"
    "name \<notin> vm_name ` set (ct_virtual_models (sd_cat db))"
proof -
  let ?p = "sn_uuid env ''pool'' 0" and ?v = "sn_uuid env ''model'' 0"
  let ?mp = "new_pool env ?p name strategy" and ?vm = "new_virtual_model env ?v ?p name"
  obtain db1 db2 db3 where
    1: "insert_pool (sn_ok env ''insert pool'') (cx_org_id cx) ?mp db = (db1, Inr ())"
    and 2: "attach_endpoints env cx ?p (\<lambda>n. name @ ''-'' @ show_nat (n + 1)) 0 eps db1 = (db2, Inr attached)"
    and 3: "insert_virtual_model (sn_ok env ''insert model'') ?vm db2 = (db3, Inr ())"
    and 4: "insert_project_grant (sn_ok env ''grant model'') (cx_project_id cx) ?v db3 = (db', Inr ())"
    using assms(1) unfolding create_service_tx_def Let_def by (auto simp: try_then_Inr)
  have ids: "mp_id ?mp = ?p" "vm_id ?vm = ?v" "vm_name ?vm = name" by (simp_all add: new_pool_def new_virtual_model_def)
  obtain as es where rows: "db2 = with_endpoints (cx_org_id cx) ?p as es db1" "map er_id es = map snd attached" "new_rows db1 eps as es"
    using attach_endpoints_rows [OF 2] by blast
  have db1: "db1 = (update_cat (\<lambda>c. c\<lparr>ct_model_pools := ct_model_pools c @ [?mp]\<rparr>) db)
        \<lparr>sd_pool_org := (sd_pool_org db)(?p \<mapsto> cx_org_id cx)\<rparr>" "?p \<notin> mp_id ` set (ct_model_pools (sd_cat db))"
    using 1 ids by (simp_all add: insert_pool_def)
  have "new_rows db eps as es" using rows(3) by (simp add: new_rows_def db1(1) update_cat_def)
  moreover have "?v \<notin> vm_id ` set (ct_virtual_models (sd_cat db))" "name \<notin> vm_name ` set (ct_virtual_models (sd_cat db))"
    using 3 ids by (simp_all add: insert_virtual_model_def rows(1) db1(1) update_cat_def)
  moreover have "db' = with_service cx ?mp ?vm as es db"
    using 3 4 ids by (simp add: insert_virtual_model_def insert_project_grant_def rows(1) db1(1) with_service_def
        with_endpoints_def update_cat_def cong: if_cong)
  ultimately show ?thesis using that rows(2) db1(2) by blast
qed

lemma create_model_service_Inr:
  assumes "create_model_service env cx input db = (db', Inr cs)"
  obtains attached strategy where
    "create_service_tx env cx (trim (sq_name input)) strategy (requested_endpoints input) db = (db', Inr attached)"
    "saas_strategy (unwrap_or (filled (sq_strategy input)) ''cost_aware'') = Inr strategy"
    "cs = \<lparr>cs_id = sn_uuid env ''model'' 0, cs_name = trim (sq_name input),
       cs_provider_type = overall_provider ''not_configured'' (map fst attached), cs_provider_types = map fst attached,
       cs_endpoint_count = length (requested_endpoints input), cs_strategy = strategy,
       cs_status = (if requested_endpoints input = [] then ''draft'' else ''active'')\<rparr>"
proof -
  let ?eps = "requested_endpoints input" and ?s = "unwrap_or (filled (sq_strategy input)) ''cost_aware''"
  note c = assms [unfolded create_model_service_def Let_def]
  have 1: "trim (sq_name input) \<noteq> []" using c by (cases "trim (sq_name input) = []") simp_all
  have 2: "first_error created_check ?eps = Inr ()"
    using c 1 by (cases "first_error created_check ?eps") simp_all
  have 3: "\<not> 120 < length (trim (sq_name input))" using c 1 2 by (cases "120 < length (trim (sq_name input))") simp_all
  show ?thesis
  proof (cases "saas_strategy ?s")
    case (Inl e)
    then show ?thesis using c 1 2 3 by simp
  next
    case (Inr strategy)
    let ?cs = "\<lambda>attached. \<lparr>cs_id = sn_uuid env ''model'' 0, cs_name = trim (sq_name input),
       cs_provider_type = overall_provider ''not_configured'' (map fst attached), cs_provider_types = map fst attached,
       cs_endpoint_count = length ?eps, cs_strategy = strategy, cs_status = (if ?eps = [] then ''draft'' else ''active'')\<rparr>"
    have "try_then (in_transaction (sn_ok env) (create_service_tx env cx (trim (sq_name input)) strategy ?eps) db)
        (\<lambda>attached db. (db, Inr (?cs attached))) = (db', Inr cs)"
      using c by (simp only: 1 2 3 Inr if_False sum.case)
    then obtain db1 attached where "in_transaction (sn_ok env) (create_service_tx env cx (trim (sq_name input)) strategy ?eps) db = (db1, Inr attached)"
      "(db1, Inr (?cs attached) :: created_service api) = (db', Inr cs)"
      unfolding try_then_Inr by blast
    then have "create_service_tx env cx (trim (sq_name input)) strategy ?eps db = (db', Inr attached)" "cs = ?cs attached"
      unfolding in_transaction_Inr by simp_all
    then show ?thesis using that Inr by blast
  qed
qed

lemma concat_map_Nil: "(\<And>x. x \<in> set xs \<Longrightarrow> f x = []) \<Longrightarrow> concat (map f xs) = []"
  by (induction xs) auto

lemma own_services_new:
  assumes "vm_pool_id vm = mp_id mp" "mp_id mp \<notin> mp_id ` set (ct_model_pools (sd_cat db))"
    and "vm_id vm \<notin> vm_id ` set (ct_virtual_models (sd_cat db))"
  shows "own_services (with_service cx mp vm as es db) cx (vm_id vm) = [(vm, mp)]"
proof -
  have pool: "(mp_id mp' = mp_id mp \<and> Q) = False" if "mp' \<in> set (ct_model_pools (sd_cat db))" for mp' :: model_pool and Q
    using imageI [OF that, of mp_id] assms(2) by auto
  have model: "(P \<and> vm_id vm' = vm_id vm \<and> Q) = False" if "vm' \<in> set (ct_virtual_models (sd_cat db))" for vm' :: virtual_model and P Q
    using imageI [OF that, of vm_id] assms(3) by auto
  have pools: "concat (map (\<lambda>mp'. if mp_id mp' = mp_id mp \<and> Q mp' then [(vm, mp')] else []) (ct_model_pools (sd_cat db))) = []" for Q
    by (rule concat_map_Nil) (simp only: pool if_False)
  let ?db = "with_service cx mp vm as es db"
  let ?G = "\<lambda>vm'. concat (map (\<lambda>mp'. if mp_id mp' = vm_pool_id vm' \<and> vm_id vm' = vm_id vm \<and>
      sd_pool_org ?db (mp_id mp') = Some (cx_org_id cx) \<and> (cx_project_id cx, vm_id vm') \<in> set (ct_project_grants (sd_cat ?db))
      then [(vm', mp')] else []) (ct_model_pools (sd_cat ?db)))"
  have "own_services ?db cx (vm_id vm) = concat (map ?G (ct_virtual_models (sd_cat db))) @ ?G vm"
    unfolding own_services_def with_service_simps(4) by (simp only: map_append concat_append list.map concat.simps append_Nil2)
  moreover have "concat (map ?G (ct_virtual_models (sd_cat db))) = []"
    by (intro concat_map_Nil) (simp only: model if_False)
  moreover have "?G vm = [(vm, mp)]" by (simp add: assms(1) pools)
  ultimately show ?thesis by (simp only: append_Nil)
qed

lemma no_links_to_new_pool:
  assumes "tenants_ok db" "p \<notin> mp_id ` set (ct_model_pools (sd_cat db))" "x \<in> set (ct_pool_endpoints (sd_cat db))"
  shows "fst x \<noteq> p"
  using assms imageI [OF assms(3), of fst] unfolding tenants_ok_def parents_exist_def by auto

lemma new_pool_links:
  assumes "tenants_ok db" "mp_id mp \<notin> mp_id ` set (ct_model_pools (sd_cat db))"
  shows "filter (\<lambda>(p, _). p = mp_id mp) (ct_pool_endpoints (sd_cat (with_service cx mp vm as es db))) =
    map (\<lambda>e. (mp_id mp, er_id e, 1, 1)) es"
proof -
  have "filter (\<lambda>(p, _). p = mp_id mp) (ct_pool_endpoints (sd_cat db)) = []"
    using no_links_to_new_pool [OF assms] unfolding filter_empty_conv prod.case_eq_if by blast
  then show ?thesis by (simp add: filter_map o_def)
qed

lemma new_service_resolves:
  assumes "vm_pool_id vm = mp_id mp" "vm_enabled vm" "key_allows (sd_cat (with_service cx mp vm as es db)) k (vm_id vm)"
  shows "\<exists>vm'. resolve_authorized_virtual_model collate True b (sd_cat (with_service cx mp vm as es db)) (vm_id vm)
    (cx_project_id cx) k = Inr (Some vm') \<and> vm_id vm' = vm_id vm"
proof (rule exact_model_is_resolved)
  show "vm \<in> set (exact_models (sd_cat (with_service cx mp vm as es db)) (vm_id vm) (cx_project_id cx) k)"
    using assms unfolding exact_models_def granted_models_def with_service_simps by simp
qed


section \<open>Deleting what was created\<close>

text \<open>The endpoint rows are deleted one by one, each with its account.\<close>

definition with_rows :: "string \<Rightarrow> provider_account list \<Rightarrow> endpoint_row list \<Rightarrow> saas_db \<Rightarrow> saas_db" where
  "with_rows org as es db = (update_cat (\<lambda>c. c\<lparr>ct_accounts := ct_accounts c @ as, ct_endpoints := ct_endpoints c @ es\<rparr>) db)
     \<lparr>sd_account_org := (\<lambda>a. if a \<in> pa_id ` set as then Some org else sd_account_org db a)\<rparr>"

lemma with_no_rows: "with_rows org [] [] db = db"
  by (simp add: with_rows_def update_cat_def)

lemma filter_other: "k \<notin> key ` set xs \<Longrightarrow> filter (\<lambda>x. key x \<noteq> k) xs = xs"
  by (induction xs) auto

lemma no_links_to_new_endpoint:
  assumes "tenants_ok db" "i \<notin> er_id ` set (ct_endpoints (sd_cat db))"
  shows "filter (\<lambda>(p, j, _). j \<noteq> i) (ct_pool_endpoints (sd_cat db)) = ct_pool_endpoints (sd_cat db)"
  unfolding filter_id_conv
proof
  fix x assume "x \<in> set (ct_pool_endpoints (sd_cat db))"
  then obtain ep where ep: "ep \<in> set (ct_endpoints (sd_cat db))" "er_id ep = fst (snd x)"
    using assms(1) unfolding tenants_ok_def links_within_def by blast
  have "fst (snd x) \<in> er_id ` set (ct_endpoints (sd_cat db))" by (rule image_eqI [where f = er_id, OF ep(2) [symmetric] ep(1)])
  then have "fst (snd x) \<noteq> i" using assms(2) by metis
  then show "case x of (p, j, _) \<Rightarrow> j \<noteq> i" by (simp add: prod.case_eq_if)
qed

lemma delete_first_endpoint:
  assumes "tenants_ok db" "er_id e \<notin> er_id ` set (ct_endpoints (sd_cat db))" "er_id e \<notin> er_id ` set es"
  shows "delete_endpoint (er_id e) (with_rows org as (e # es) db) = with_rows org as es db"
  using no_links_to_new_endpoint [OF assms(1,2)] filter_other [OF assms(2)] filter_other [OF assms(3)]
  by (simp add: delete_endpoint_def delete_links_def with_rows_def update_cat_def)

lemma delete_first_account:
  assumes "tenants_ok db" "pa_id a \<notin> pa_id ` set (ct_accounts (sd_cat db))" "pa_id a \<notin> pa_id ` set as"
  shows "delete_account (pa_id a) (with_rows org (a # as) es db) = with_rows org as es db"
proof -
  have "sd_account_org db (pa_id a) = None" by (rule fresh_account(1) [OF assms(1,2)])
  then have "(\<lambda>x. if x \<in> pa_id ` set (a # as) then Some org else sd_account_org db x)(pa_id a := None) =
      (\<lambda>x. if x \<in> pa_id ` set as then Some org else sd_account_org db x)"
    using assms(3) unfolding fun_eq_iff by simp
  then show ?thesis
    unfolding with_rows_def update_cat_def delete_account_def using filter_other [OF assms(2)] filter_other [OF assms(3)] by simp
qed

lemma unused_account:
  assumes "tenants_ok db" "a \<notin> pa_id ` set (ct_accounts (sd_cat db))" "a \<notin> er_account_id ` set es"
  shows "\<not> list_ex (\<lambda>e. er_account_id e = a) (ct_endpoints (sd_cat (with_rows org as es db)))"
proof -
  have old: "a \<notin> er_account_id ` set (ct_endpoints (sd_cat db))"
    using assms(1,2) subsetD [of "er_account_id ` set (ct_endpoints (sd_cat db))"]
    unfolding tenants_ok_def parents_exist_def by metis
  show ?thesis
  proof
    assume "list_ex (\<lambda>e. er_account_id e = a) (ct_endpoints (sd_cat (with_rows org as es db)))"
    then have "list_ex (\<lambda>e. er_account_id e = a) (ct_endpoints (sd_cat db)) \<or> list_ex (\<lambda>e. er_account_id e = a) es"
      by (simp add: with_rows_def update_cat_def)
    then show False using old assms(3) unfolding list_ex_iff by (metis image_eqI)
  qed
qed

lemma delete_first_row:
  assumes "tenants_ok db" "er_id e \<notin> er_id ` set (ct_endpoints (sd_cat db))" "pa_id a \<notin> pa_id ` set (ct_accounts (sd_cat db))"
    and "er_id e \<notin> er_id ` set es" "pa_id a \<notin> pa_id ` set as" "pa_id a \<notin> er_account_id ` set es"
  shows "delete_account_if_unreferenced (pa_id a) (delete_endpoint (er_id e) (with_rows org (a # as) (e # es) db)) = with_rows org as es db"
  unfolding delete_first_endpoint [OF assms(1,2,4)] delete_account_if_unreferenced_def
    if_not_P [OF unused_account [OF assms(1,3,6)]]
  by (rule delete_first_account [OF assms(1,3,5)])

lemma delete_new_endpoints:
  assumes "tenants_ok db" "\<And>s. sn_ok env s"
    and "distinct (map er_id es)" "er_id ` set es \<inter> er_id ` set (ct_endpoints (sd_cat db)) = {}"
    and "distinct (map pa_id as)" "pa_id ` set as \<inter> pa_id ` set (ct_accounts (sd_cat db)) = {}"
    and "map pa_id as = map er_account_id es"
  shows "delete_endpoints env (map (\<lambda>e. (er_id e, er_account_id e)) es) (with_rows org as es db) = (db, Inr ())"
  using assms(3-)
proof (induction es arbitrary: as)
  case Nil
  then show ?case by (simp add: with_no_rows)
next
  case (Cons e es)
  then obtain a as' where as: "as = a # as'" "pa_id a = er_account_id e" "map pa_id as' = map er_account_id es"
    by (auto simp: map_eq_Cons_conv)
  have img: "pa_id ` set as' = er_account_id ` set es" using arg_cong [OF as(3), of set] by simp
  have acc: "pa_id a \<notin> er_account_id ` set es"
    using Cons.prems(3) img by (auto simp: as(1))
  have "delete_account_if_unreferenced (er_account_id e) (delete_endpoint (er_id e) (with_rows org as (e # es) db)) = with_rows org as' es db"
    unfolding as(1) as(2) [symmetric]
    by (rule delete_first_row [OF assms(1)]) (use Cons.prems(1,2,4) as acc img in simp_all)
  moreover have "delete_endpoints env (map (\<lambda>e. (er_id e, er_account_id e)) es) (with_rows org as' es db) = (db, Inr ())"
    by (rule Cons.IH) (use Cons.prems as(1,3) img acc in auto)
  ultimately show ?case by (simp add: try_then_Inr run_statement_def statement_def try_then_def assms(2))
qed

lemma new_pool_endpoint_accounts:
  assumes "tenants_ok db" "mp_id mp \<notin> mp_id ` set (ct_model_pools (sd_cat db))"
    and "distinct (map er_id es)" "er_id ` set es \<inter> er_id ` set (ct_endpoints (sd_cat db)) = {}"
  shows "pool_endpoint_accounts (with_service cx mp vm as es db) (mp_id mp) = map (\<lambda>e. (er_id e, er_account_id e)) es"
proof -
  have old: "concat (map (\<lambda>(p, i, _). if p = mp_id mp then F i else []) (ct_pool_endpoints (sd_cat db))) = []"
    for F :: "string \<Rightarrow> (string \<times> string) list"
    by (rule concat_map_Nil) (use no_links_to_new_pool [OF assms(1,2)] in \<open>auto simp: prod.case_eq_if\<close>)
  have "filter (\<lambda>x. er_id x = er_id e) (ct_endpoints (sd_cat db) @ es) = [e]" if "e \<in> set es" for e
  proof -
    have "filter (\<lambda>x. er_id x = er_id e) (ct_endpoints (sd_cat db)) = []"
      using assms(4) that by (auto simp: filter_empty_conv)
    moreover have "filter (\<lambda>x. er_id x = er_id e) es = [e]"
      using assms(3) that by (induction es) (auto simp: filter_empty_conv image_iff)
    ultimately show ?thesis by simp
  qed
  then have "concat (map (\<lambda>e. map (\<lambda>x. (er_id e, er_account_id x)) (filter (\<lambda>x. er_id x = er_id e) (ct_endpoints (sd_cat db) @ es))) fs) =
      map (\<lambda>e. (er_id e, er_account_id e)) fs" if "set fs \<subseteq> set es" for fs
    using that by (induction fs) (auto simp del: filter_append)
  from this [of es] show ?thesis
    unfolding pool_endpoint_accounts_def with_service_simps map_append concat_append old by (simp add: o_def)
qed

text \<open>The four statements before, each undoing one insert of the creation.\<close>

definition with_pool :: "string \<Rightarrow> model_pool \<Rightarrow> saas_db \<Rightarrow> saas_db" where
  "with_pool org mp db = (update_cat (\<lambda>c. c\<lparr>ct_model_pools := ct_model_pools c @ [mp]\<rparr>) db)
     \<lparr>sd_pool_org := (sd_pool_org db)(mp_id mp \<mapsto> org)\<rparr>"

definition with_model :: "virtual_model \<Rightarrow> saas_db \<Rightarrow> saas_db" where
  "with_model vm = update_cat (\<lambda>c. c\<lparr>ct_virtual_models := ct_virtual_models c @ [vm]\<rparr>)"

lemma undo_grant:
  assumes "grants_within db" "vm_id vm \<notin> vm_id ` set (ct_virtual_models (sd_cat db))"
  shows "delete_project_grants (vm_id vm) (with_service cx mp vm as es db) =
     with_model vm (with_pool (cx_org_id cx) mp (with_endpoints (cx_org_id cx) (mp_id mp) as es db))"
proof -
  have "\<forall>x \<in> set (ct_project_grants (sd_cat db)). snd x \<noteq> vm_id vm"
  proof
    fix x assume "x \<in> set (ct_project_grants (sd_cat db))"
    then obtain vm' where vm': "vm' \<in> set (ct_virtual_models (sd_cat db))" "vm_id vm' = snd x"
      using assms(1) unfolding grants_within_def by blast
    then show "snd x \<noteq> vm_id vm" using assms(2) imageI [OF vm'(1), of vm_id] by auto
  qed
  then have "filter (\<lambda>x. snd x \<noteq> vm_id vm) (ct_project_grants (sd_cat db)) = ct_project_grants (sd_cat db)"
    by (simp add: filter_id_conv)
  then show ?thesis
    unfolding delete_project_grants_def with_service_def with_model_def with_pool_def with_endpoints_def update_cat_def prod.case_eq_if
    by (intro saas_db.equality catalog.equality) simp_all
qed

lemma undo_model:
  assumes "ct_project_grants (sd_cat db) = gs" "\<forall>x \<in> set gs. snd x \<noteq> vm_id vm"
    and "\<forall>x \<in> set (ct_key_grants (sd_cat db)). snd x \<noteq> vm_id vm"
    and "vm_id vm \<notin> vm_id ` set (ct_virtual_models (sd_cat db))"
  shows "delete_virtual_models (\<lambda>v. vm_id v = vm_id vm) (with_model vm db) = db"
proof -
  have gone: "vm_id ` {v \<in> set (ct_virtual_models (sd_cat db) @ [vm]). vm_id v = vm_id vm} = {vm_id vm}" by auto
  have cat: "ct_virtual_models (sd_cat (with_model vm db)) = ct_virtual_models (sd_cat db) @ [vm]"
    by (simp add: with_model_def update_cat_def)
  have "filter (\<lambda>x. snd x \<notin> {vm_id vm}) gs = gs"
    "filter (\<lambda>x. snd x \<notin> {vm_id vm}) (ct_key_grants (sd_cat db)) = ct_key_grants (sd_cat db)"
    using assms(2,3) by (simp_all add: filter_id_conv)
  then show ?thesis
    unfolding delete_virtual_models_def cat gone Let_def prod.case_eq_if
    using filter_other [OF assms(4)] assms(1) by (simp add: with_model_def update_cat_def)
qed

lemma undo_links:
  assumes "\<And>x. x \<in> set (ct_pool_endpoints (sd_cat db)) \<Longrightarrow> fst x \<noteq> mp_id mp"
  shows "delete_links (\<lambda>p _. p = mp_id mp) (with_pool org mp (with_endpoints org (mp_id mp) as es db)) = with_pool org mp (with_rows org as es db)"
proof -
  have "filter (\<lambda>x. fst x \<noteq> mp_id mp) (ct_pool_endpoints (sd_cat db)) = ct_pool_endpoints (sd_cat db)"
    using assms by (simp add: filter_id_conv)
  moreover have "filter (\<lambda>x. fst x \<noteq> mp_id mp) (map (\<lambda>e. (mp_id mp, er_id e, 1 :: int, 1 :: int)) es) = []"
    by (simp add: filter_empty_conv)
  ultimately show ?thesis
    unfolding delete_links_def with_pool_def with_endpoints_def with_rows_def update_cat_def prod.case_eq_if
    by (intro saas_db.equality catalog.equality) simp_all
qed

lemma no_models_of: "p \<notin> vm_pool_id ` set (ct_virtual_models (sd_cat db)) \<Longrightarrow> delete_virtual_models (\<lambda>vm. vm_pool_id vm = p) db = db"
proof -
  assume p: "p \<notin> vm_pool_id ` set (ct_virtual_models (sd_cat db))"
  then have none: "{vm \<in> set (ct_virtual_models (sd_cat db)). vm_pool_id vm = p} = {}" by (auto simp: image_iff)
  show ?thesis
    unfolding delete_virtual_models_def none image_empty Let_def prod.case_eq_if update_cat_def
    by (intro saas_db.equality catalog.equality) (simp_all add: filter_other [OF p] del: set_empty)
qed

lemma no_links_of: "(\<And>x. x \<in> set (ct_pool_endpoints (sd_cat db)) \<Longrightarrow> fst x \<noteq> p) \<Longrightarrow> delete_links (\<lambda>q _. q = p) db = db"
  unfolding delete_links_def prod.case_eq_if update_cat_def
  by (intro saas_db.equality catalog.equality) (simp_all add: filter_id_conv)

lemma undo_pool:
  assumes "tenants_ok db" "mp_id mp \<notin> mp_id ` set (ct_model_pools (sd_cat db))"
  shows "delete_pool (mp_id mp) (with_pool org mp (with_rows org as es db)) = with_rows org as es db"
proof -
  let ?db = "with_pool org mp (with_rows org as es db)"
  note fresh = fresh_pool [OF assms]
  have same: "ct_virtual_models (sd_cat ?db) = ct_virtual_models (sd_cat db)" "ct_pool_endpoints (sd_cat ?db) = ct_pool_endpoints (sd_cat db)"
    by (simp_all add: with_pool_def with_rows_def update_cat_def)
  have models: "delete_virtual_models (\<lambda>vm. vm_pool_id vm = mp_id mp) ?db = ?db"
  proof (rule no_models_of)
    show "mp_id mp \<notin> vm_pool_id ` set (ct_virtual_models (sd_cat ?db))" unfolding same(1) using fresh(2) by (metis imageE)
  qed
  have links: "delete_links (\<lambda>q _. q = mp_id mp) ?db = ?db"
    by (rule no_links_of) (use fresh(3) same(2) in simp)
  show ?thesis
    unfolding delete_pool_def models links Let_def unfolding with_pool_def update_cat_def with_rows_def
    by (intro saas_db.equality catalog.equality) (simp_all add: filter_other [OF assms(2)] fresh(1) fun_upd_idem)
qed

lemma undo_service:
  assumes "tenants_ok db" "vm_pool_id vm = mp_id mp" "mp_id mp \<notin> mp_id ` set (ct_model_pools (sd_cat db))"
    and "vm_id vm \<notin> vm_id ` set (ct_virtual_models (sd_cat db))" "new_rows db eps as es"
    and "list_all (\<lambda>ep. mq_account_id ep = None) eps" "\<And>s. sn_ok env s"
  shows "delete_service_tx env (vm_id vm) (mp_id mp) (with_service cx mp vm as es db) = (db, Inr ())"
proof -
  let ?org = "cx_org_id cx" and ?db = "with_service cx mp vm as es db"
  let ?we = "with_endpoints ?org (mp_id mp) as es db"
  have parts: "grants_within db" "parents_exist db" using assms(1) by (simp_all add: tenants_ok_def)
  have eps: "pool_endpoint_accounts ?db (mp_id mp) = map (\<lambda>e. (er_id e, er_account_id e)) es"
    by (rule new_pool_endpoint_accounts [OF assms(1,3)]) (use assms(5) in \<open>simp_all add: new_rows_def\<close>)
  have gs: "\<forall>x \<in> set (ct_project_grants (sd_cat db)). snd x \<noteq> vm_id vm"
    using parts(1) assms(4) unfolding grants_within_def by (metis image_eqI)
  have ks: "\<forall>x \<in> set (ct_key_grants (sd_cat db)). snd x \<noteq> vm_id vm"
    using parts(2) assms(4) imageI [of _ "set (ct_key_grants (sd_cat db))" snd] unfolding parents_exist_def by (metis subsetD)
  have cat: "ct_project_grants (sd_cat (with_pool ?org mp ?we)) = ct_project_grants (sd_cat db)"
    "ct_key_grants (sd_cat (with_pool ?org mp ?we)) = ct_key_grants (sd_cat db)"
    "ct_virtual_models (sd_cat (with_pool ?org mp ?we)) = ct_virtual_models (sd_cat db)"
    by (simp_all add: with_pool_def update_cat_def with_endpoints_def)
  have 1: "delete_project_grants (vm_id vm) ?db = with_model vm (with_pool ?org mp ?we)"
    by (rule undo_grant [OF parts(1) assms(4)])
  have 2: "delete_virtual_models (\<lambda>v. vm_id v = vm_id vm) (with_model vm (with_pool ?org mp ?we)) = with_pool ?org mp ?we"
    by (rule undo_model [OF cat(1) gs]) (use ks assms(4) in \<open>simp_all add: cat\<close>)
  have 3: "delete_links (\<lambda>p _. p = mp_id mp) (with_pool ?org mp ?we) = with_pool ?org mp (with_rows ?org as es db)"
    by (rule undo_links) (rule fresh_pool(3) [OF assms(1,3)])
  have 4: "delete_pool (mp_id mp) (with_pool ?org mp (with_rows ?org as es db)) = with_rows ?org as es db"
    by (rule undo_pool [OF assms(1,3)])
  have 5: "delete_endpoints env (map (\<lambda>e. (er_id e, er_account_id e)) es) (with_rows ?org as es db) = (db, Inr ())"
    by (rule delete_new_endpoints [OF assms(1,7)]) (use assms(5) [unfolded new_rows_def] assms(6) in blast)+
  show ?thesis
    unfolding delete_service_tx_def Let_def eps
    by (simp add: assms(7) try_then_def run_statement_def statement_def 1 2 3 4 5)
qed

text \<open>
  C18. Creating a service and deleting it again restores the tables: when every endpoint
  of the request brings its own provider account, deleting the service just created
  leaves every table as it was before, so nothing of it stays behind, no
  credential of the caller included.
\<close>

theorem deleting_a_created_service_restores_the_tables:
  assumes "create_model_service env cx input db = (db1, Inr cs)" "tenants_ok db"
    and "list_all (\<lambda>ep. mq_account_id ep = None) (requested_endpoints input)" "\<And>s. sn_ok env' s"
  shows "delete_model_service env' cx (cs_id cs) db1 = (db, Inr ())"
proof -
  obtain attached strategy where tx: "create_service_tx env cx (trim (sq_name input)) strategy (requested_endpoints input) db = (db1, Inr attached)"
    and cs: "cs_id cs = sn_uuid env ''model'' 0"
    by (rule create_model_service_Inr [OF assms(1)]) simp_all
  let ?mp = "new_pool env (sn_uuid env ''pool'' 0) (trim (sq_name input)) strategy"
  let ?vm = "new_virtual_model env (sn_uuid env ''model'' 0) (sn_uuid env ''pool'' 0) (trim (sq_name input))"
  obtain as es where db1: "db1 = with_service cx ?mp ?vm as es db" and rows: "new_rows db (requested_endpoints input) as es"
    and fresh0: "sn_uuid env ''pool'' 0 \<notin> mp_id ` set (ct_model_pools (sd_cat db))"
      "sn_uuid env ''model'' 0 \<notin> vm_id ` set (ct_virtual_models (sd_cat db))"
    by (rule create_service_rows [OF tx])
  have ids: "mp_id ?mp = sn_uuid env ''pool'' 0" "vm_id ?vm = cs_id cs" "vm_pool_id ?vm = mp_id ?mp"
    by (simp_all add: new_pool_def new_virtual_model_def cs)
  have fresh: "mp_id ?mp \<notin> mp_id ` set (ct_model_pools (sd_cat db))" "vm_id ?vm \<notin> vm_id ` set (ct_virtual_models (sd_cat db))"
    using fresh0 unfolding ids cs by blast+
  have "own_services db1 cx (cs_id cs) = [(?vm, ?mp)]"
    using own_services_new [OF ids(3) fresh] by (simp only: db1 ids(2))
  then have own: "own_service env' cx (cs_id cs) db1 = Inr (?vm, ?mp)" by (simp add: own_service_def assms(4))
  have "delete_service_tx env' (cs_id cs) (mp_id ?mp) db1 = (db, Inr ())"
    using undo_service [OF assms(2) ids(3) fresh rows assms(3,4)] by (simp only: db1 ids(2))
  then have "in_transaction (sn_ok env') (delete_service_tx env' (cs_id cs) (mp_id ?mp)) db1 = (db, Inr ())"
    unfolding in_transaction_Inr using assms(4) by blast
  then show ?thesis by (simp add: delete_model_service_def own)
qed

section \<open>Any deletion\<close>

lemma delete_endpoint_simps [simp]:
  "ct_endpoints (sd_cat (delete_endpoint i db)) = filter (\<lambda>e. er_id e \<noteq> i) (ct_endpoints (sd_cat db))"
  "ct_accounts (sd_cat (delete_endpoint i db)) = ct_accounts (sd_cat db)"
  "ct_virtual_models (sd_cat (delete_endpoint i db)) = ct_virtual_models (sd_cat db)"
  "ct_model_pools (sd_cat (delete_endpoint i db)) = ct_model_pools (sd_cat db)"
  "ct_project_grants (sd_cat (delete_endpoint i db)) = ct_project_grants (sd_cat db)"
  "ct_key_grants (sd_cat (delete_endpoint i db)) = ct_key_grants (sd_cat db)"
  "ct_pool_endpoints (sd_cat (delete_endpoint i db)) = filter (\<lambda>(p, j, _). j \<noteq> i) (ct_pool_endpoints (sd_cat db))"
  by (simp_all add: delete_endpoint_def delete_links_def)

lemma delete_account_if_unreferenced_simps [simp]:
  "ct_endpoints (sd_cat (delete_account_if_unreferenced a db)) = ct_endpoints (sd_cat db)"
  "ct_virtual_models (sd_cat (delete_account_if_unreferenced a db)) = ct_virtual_models (sd_cat db)"
  "ct_model_pools (sd_cat (delete_account_if_unreferenced a db)) = ct_model_pools (sd_cat db)"
  "ct_project_grants (sd_cat (delete_account_if_unreferenced a db)) = ct_project_grants (sd_cat db)"
  "ct_key_grants (sd_cat (delete_account_if_unreferenced a db)) = ct_key_grants (sd_cat db)"
  "ct_pool_endpoints (sd_cat (delete_account_if_unreferenced a db)) = ct_pool_endpoints (sd_cat db)"
  "ct_accounts (sd_cat (delete_account_if_unreferenced a db)) = (if list_ex (\<lambda>e. er_account_id e = a) (ct_endpoints (sd_cat db))
     then ct_accounts (sd_cat db) else filter (\<lambda>x. pa_id x \<noteq> a) (ct_accounts (sd_cat db)))"
  by (simp_all add: delete_account_if_unreferenced_def delete_account_def)

lemma delete_endpoints_tables:
  assumes "delete_endpoints env eps db = (db', Inr ())"
  shows "ct_endpoints (sd_cat db') = filter (\<lambda>e. er_id e \<notin> fst ` set eps) (ct_endpoints (sd_cat db)) \<and>
     ct_virtual_models (sd_cat db') = ct_virtual_models (sd_cat db) \<and> ct_model_pools (sd_cat db') = ct_model_pools (sd_cat db) \<and>
     ct_project_grants (sd_cat db') = ct_project_grants (sd_cat db) \<and> ct_key_grants (sd_cat db') = ct_key_grants (sd_cat db) \<and>
     set (ct_pool_endpoints (sd_cat db')) \<subseteq> set (ct_pool_endpoints (sd_cat db)) \<and>
     (\<forall>a \<in> set (ct_accounts (sd_cat db)). a \<notin> set (ct_accounts (sd_cat db')) \<longrightarrow>
        pa_id a \<in> snd ` set eps \<and> pa_id a \<notin> er_account_id ` set (ct_endpoints (sd_cat db')))"
  using assms
proof (induction eps arbitrary: db)
  case (Cons x eps)
  obtain i a where x: "x = (i, a)" by force
  let ?db = "delete_account_if_unreferenced a (delete_endpoint i db)"
  have rest: "delete_endpoints env eps ?db = (db', Inr ())" using Cons.prems by (auto simp: x try_then_Inr)
  note IH = Cons.IH [OF rest]
  have eps: "ct_endpoints (sd_cat db') = filter (\<lambda>e. er_id e \<notin> fst ` set (x # eps)) (ct_endpoints (sd_cat db))"
    using IH by (simp add: x conj_commute)
  have accounts: "pa_id b \<in> snd ` set (x # eps) \<and> pa_id b \<notin> er_account_id ` set (ct_endpoints (sd_cat db'))"
    if b: "b \<in> set (ct_accounts (sd_cat db))" "b \<notin> set (ct_accounts (sd_cat db'))" for b
  proof (cases "b \<in> set (ct_accounts (sd_cat ?db))")
    case True
    then have "pa_id b \<in> snd ` set eps \<and> pa_id b \<notin> er_account_id ` set (ct_endpoints (sd_cat db'))" using IH b(2) by blast
    then show ?thesis by simp
  next
    case False
    then have "pa_id b = a" "\<not> list_ex (\<lambda>e. er_account_id e = a) (ct_endpoints (sd_cat (delete_endpoint i db)))"
      using b(1) by (auto split: if_splits)
    moreover have "set (ct_endpoints (sd_cat db')) \<subseteq> set (ct_endpoints (sd_cat (delete_endpoint i db)))" using IH by auto
    ultimately show ?thesis unfolding x list_ex_iff by auto
  qed
  have "set (ct_pool_endpoints (sd_cat ?db)) \<subseteq> set (ct_pool_endpoints (sd_cat db))" by auto
  then show ?case using IH eps accounts by simp blast
qed simp

lemma fst_image_iff: "x \<in> fst ` S \<longleftrightarrow> (\<exists>y. (x, y) \<in> S)"
  by force

lemma snd_image_iff: "y \<in> snd ` S \<longleftrightarrow> (\<exists>x. (x, y) \<in> S)"
  by force

text \<open>
  A deleted service is gone and takes with it just what it used: no Virtual Model,
  grant of a project or key, pool or link of it is left, and no endpoint of its pool; every other
  model, pool, endpoint and grant is kept, and a provider account disappears only if an
  endpoint of the pool used it and no endpoint left does.
\<close>

theorem deleted_service_is_gone:
  assumes "delete_model_service env cx i db = (db', Inr ())" "tenants_ok db"
  shows "\<exists>vm mp. own_service env cx i db = Inr (vm, mp) \<and>
     ct_virtual_models (sd_cat db') = filter (\<lambda>vm. vm_id vm \<noteq> i \<and> vm_pool_id vm \<noteq> mp_id mp) (ct_virtual_models (sd_cat db)) \<and>
     ct_model_pools (sd_cat db') = filter (\<lambda>p. mp_id p \<noteq> mp_id mp) (ct_model_pools (sd_cat db)) \<and>
     i \<notin> snd ` set (ct_project_grants (sd_cat db')) \<and> i \<notin> snd ` set (ct_key_grants (sd_cat db')) \<and>
     mp_id mp \<notin> fst ` set (ct_pool_endpoints (sd_cat db')) \<and>
     ct_endpoints (sd_cat db') = filter (\<lambda>e. \<forall>r. (mp_id mp, er_id e, r) \<notin> set (ct_pool_endpoints (sd_cat db))) (ct_endpoints (sd_cat db)) \<and>
     (\<forall>a \<in> set (ct_accounts (sd_cat db)). a \<notin> set (ct_accounts (sd_cat db')) \<longrightarrow>
        (\<exists>e \<in> set (ct_endpoints (sd_cat db)). er_account_id e = pa_id a \<and> (\<exists>r. (mp_id mp, er_id e, r) \<in> set (ct_pool_endpoints (sd_cat db)))) \<and>
        pa_id a \<notin> er_account_id ` set (ct_endpoints (sd_cat db')))"
proof -
  obtain vm mp where own: "own_service env cx i db = Inr (vm, mp)"
    using assms(1) unfolding delete_model_service_def by (cases "own_service env cx i db") auto
  then have tx: "delete_service_tx env i (mp_id mp) db = (db', Inr ())"
    using assms(1) by (simp add: delete_model_service_def in_transaction_Inr)
  let ?p = "mp_id mp" and ?eps = "pool_endpoint_accounts db (mp_id mp)"
  let ?db2 = "delete_virtual_models (\<lambda>vm. vm_id vm = i) (delete_project_grants i db)"
  let ?db4 = "delete_pool ?p (delete_links (\<lambda>p _. p = ?p) ?db2)"
  have rest: "delete_endpoints env ?eps ?db4 = (db', Inr ())"
    using tx by (auto simp: delete_service_tx_def Let_def try_then_Inr split: if_splits)
  note tables = delete_endpoints_tables [OF rest]
  have db4: "ct_virtual_models (sd_cat ?db4) = filter (\<lambda>vm. vm_id vm \<noteq> i \<and> vm_pool_id vm \<noteq> ?p) (ct_virtual_models (sd_cat db))"
    "ct_model_pools (sd_cat ?db4) = filter (\<lambda>p. mp_id p \<noteq> ?p) (ct_model_pools (sd_cat db))"
    "ct_endpoints (sd_cat ?db4) = ct_endpoints (sd_cat db)" "ct_accounts (sd_cat ?db4) = ct_accounts (sd_cat db)"
    by (simp_all add: delete_pool_def delete_virtual_models_def delete_links_def delete_project_grants_def Let_def conj_commute)
  have vm: "i \<in> vm_id ` {vm \<in> set (ct_virtual_models (sd_cat db)). vm_id vm = i}"
    using own_service_Inr [OF own] unfolding own_services_mem by blast
  have grants: "i \<notin> snd ` set (ct_project_grants (sd_cat ?db4))" "i \<notin> snd ` set (ct_key_grants (sd_cat ?db4))"
    "?p \<notin> fst ` set (ct_pool_endpoints (sd_cat ?db4))"
    using vm by (auto simp: delete_pool_def delete_virtual_models_def delete_links_def delete_project_grants_def Let_def)
  have fsts: "j \<in> fst ` set ?eps \<longleftrightarrow> (\<exists>r. (?p, j, r) \<in> set (ct_pool_endpoints (sd_cat db)))"
    if "e \<in> set (ct_endpoints (sd_cat db))" "er_id e = j" for j e
    using that unfolding fst_image_iff pool_endpoint_accounts_mem by blast
  have snds: "a \<in> snd ` set ?eps \<Longrightarrow> \<exists>e \<in> set (ct_endpoints (sd_cat db)). er_account_id e = a \<and>
      (\<exists>r. (?p, er_id e, r) \<in> set (ct_pool_endpoints (sd_cat db)))" for a
    unfolding snd_image_iff pool_endpoint_accounts_mem by blast
  have 1: "ct_virtual_models (sd_cat db') = filter (\<lambda>vm. vm_id vm \<noteq> i \<and> vm_pool_id vm \<noteq> ?p) (ct_virtual_models (sd_cat db))"
    "ct_model_pools (sd_cat db') = filter (\<lambda>p. mp_id p \<noteq> ?p) (ct_model_pools (sd_cat db))"
    using tables unfolding db4 by blast+
  have 2: "i \<notin> snd ` set (ct_project_grants (sd_cat db'))" "i \<notin> snd ` set (ct_key_grants (sd_cat db'))"
    "?p \<notin> fst ` set (ct_pool_endpoints (sd_cat db'))"
    using tables grants by (simp, simp, blast)
  have 3: "ct_endpoints (sd_cat db') = filter (\<lambda>e. \<forall>r. (?p, er_id e, r) \<notin> set (ct_pool_endpoints (sd_cat db))) (ct_endpoints (sd_cat db))"
    unfolding conjunct1 [OF tables] db4(3) by (rule filter_cong [OF refl]) (simp add: fsts)
  have 4: "\<forall>a \<in> set (ct_accounts (sd_cat db)). a \<notin> set (ct_accounts (sd_cat db')) \<longrightarrow>
        (\<exists>e \<in> set (ct_endpoints (sd_cat db)). er_account_id e = pa_id a \<and> (\<exists>r. (?p, er_id e, r) \<in> set (ct_pool_endpoints (sd_cat db)))) \<and>
        pa_id a \<notin> er_account_id ` set (ct_endpoints (sd_cat db'))"
  proof (intro ballI impI)
    fix a assume "a \<in> set (ct_accounts (sd_cat db))" "a \<notin> set (ct_accounts (sd_cat db'))"
    then have "pa_id a \<in> snd ` set ?eps \<and> pa_id a \<notin> er_account_id ` set (ct_endpoints (sd_cat db'))"
      using tables unfolding db4(4) by blast
    then show "(\<exists>e \<in> set (ct_endpoints (sd_cat db)). er_account_id e = pa_id a \<and> (\<exists>r. (?p, er_id e, r) \<in> set (ct_pool_endpoints (sd_cat db)))) \<and>
        pa_id a \<notin> er_account_id ` set (ct_endpoints (sd_cat db'))"
      using snds by blast
  qed
  show ?thesis by (rule exI [of _ vm], rule exI [of _ mp]) (intro conjI own 1 2 3 4)
qed

section \<open>Adding endpoints\<close>

lemma own_endpoints_mem:
  "e \<in> set (own_endpoints db cx i j) \<longleftrightarrow> e \<in> set (ct_endpoints (sd_cat db)) \<and> er_id e = j \<and>
     (\<exists>vm mp r. (vm, mp) \<in> set (own_services db cx i) \<and> (mp_id mp, j, r) \<in> set (ct_pool_endpoints (sd_cat db)))"
proof -
  have "e \<in> set (own_endpoints db cx i j) \<longleftrightarrow> (\<exists>vm mp. (vm, mp) \<in> set (own_services db cx i) \<and>
      (\<exists>p k r. (p, k, r) \<in> set (ct_pool_endpoints (sd_cat db)) \<and> p = mp_id mp \<and> k = j \<and>
        e \<in> set (ct_endpoints (sd_cat db)) \<and> er_id e = k))"
    unfolding own_endpoints_def by (fastforce split: if_splits)
  then show ?thesis by blast
qed

lemma own_endpoint_found:
  assumes "e \<in> set (own_endpoints db cx i j)" "distinct (map er_id (ct_endpoints (sd_cat db)))" "\<And>s. sn_ok env s"
  shows "own_endpoint env cx i j db = Inr e"
proof -
  obtain e' rest where first: "own_endpoints db cx i j = e' # rest" using assms(1) by (cases "own_endpoints db cx i j") auto
  then have "e' \<in> set (own_endpoints db cx i j)" by simp
  then have "e' \<in> set (ct_endpoints (sd_cat db))" "er_id e' = er_id e" "e \<in> set (ct_endpoints (sd_cat db))"
    using assms(1) unfolding own_endpoints_mem by simp_all
  then have "e' = e" using assms(2) by (auto simp: distinct_map dest: inj_onD)
  then show ?thesis by (simp add: own_endpoint_def first assms(3))
qed

text \<open>
  Added endpoints join the pool: the answer lists the new endpoints, one for each
  request in order, with the upstream model asked for; each is found again by its id
  through the service it was added to; and the count answered is the size of the pool.
\<close>

theorem added_endpoints_join_the_pool:
  assumes "add_model_service_endpoint env cx i payload db = (db', Inr (ids, n))" "tenants_ok db" "\<And>s. sn_ok env' s"
  shows "\<exists>vm mp es. own_service env cx i db = Inr (vm, mp) \<and> link_count db' (mp_id mp) = n \<and> ids = map er_id es \<and>
     map er_upstream_model_id es = map mq_upstream_model_id (endpoints_to_add payload) \<and>
     ct_endpoints (sd_cat db') = ct_endpoints (sd_cat db) @ es \<and>
     (\<forall>e \<in> set es. own_endpoint env' cx i (er_id e) db' = Inr e)"
proof -
  let ?eps = "endpoints_to_add payload"
  obtain vm mp attached where own: "own_service env cx i db = Inr (vm, mp)"
    and tx: "attach_endpoints env cx (mp_id mp) (\<lambda>n. ''model-service-'' @ show_nat (link_count db (mp_id mp) + n + 1)) 0 ?eps db = (db', Inr attached)"
    and answer: "ids = map snd attached" "n = link_count db (mp_id mp) + length ?eps"
    using assms(1) unfolding add_model_service_endpoint_def Let_def
    by (auto simp: try_then_Inr in_transaction_Inr split: if_splits sum.splits)
  obtain as es where db': "db' = with_endpoints (cx_org_id cx) (mp_id mp) as es db" and ids: "map er_id es = map snd attached"
    and rows: "new_rows db ?eps as es"
    using attach_endpoints_rows [OF tx] by blast
  have up: "map er_upstream_model_id es = map mq_upstream_model_id ?eps" and
    fresh: "distinct (map er_id es)" "er_id ` set es \<inter> er_id ` set (ct_endpoints (sd_cat db)) = {}"
    using rows by (simp_all add: new_rows_def)
  have count: "link_count db' (mp_id mp) = n"
    using arg_cong [OF up, of length] by (simp add: link_count_def db' answer(2) filter_map o_def)
  have same: "own_services db' cx i = own_services db cx i" by (simp add: own_services_def db')
  have distinct: "distinct (map er_id (ct_endpoints (sd_cat db')))"
    using assms(2) fresh by (auto simp: db' tenants_ok_def keys_distinct_def)
  have "own_endpoint env' cx i (er_id e) db' = Inr e" if "e \<in> set es" for e
  proof (rule own_endpoint_found [OF _ distinct assms(3)])
    have "(vm, mp) \<in> set (own_services db' cx i)" using own_service_Inr [OF own] same by simp
    moreover have "(mp_id mp, er_id e, 1, 1) \<in> set (ct_pool_endpoints (sd_cat db'))" using that by (simp add: db')
    ultimately show "e \<in> set (own_endpoints db' cx i (er_id e))"
      unfolding own_endpoints_mem using that by (simp add: db') blast
  qed
  then show ?thesis using own count answer(1) ids up by (intro exI [of _ vm] exI [of _ mp] exI [of _ es]) (simp add: db')
qed

section \<open>What the code does not check\<close>

text \<open>
  The judge endpoint of a pool is stored as it is sent: any endpoint, of whatever organization.
  A judged request of the pool is then dispatched to it, with the key of its account.
\<close>

lemma foreign_judge_endpoint_is_used:
  assumes "own_service env cx i db = Inr (vm, mp)" "uq_name upd = None" "filled (uq_strategy upd) = None"
    and "uq_judge_enabled upd = Some True" "uq_judge_endpoint_id upd = Some j" "trim j \<noteq> []" "\<And>s. sn_ok env s"
  shows "\<exists>db'. fst (update_model_service env cx i upd db) = db' \<and>
     (\<forall>p \<in> set (ct_model_pools (sd_cat db')). mp_id p = mp_id mp \<longrightarrow> mp_judge_enabled p = 1 \<and> mp_judge_endpoint_id p = Some j) \<and>
     load_endpoint_for_dispatch True (sd_cat db') j = load_endpoint_for_dispatch True (sd_cat db) j"
proof -
  have judge: "filled (uq_judge_endpoint_id upd) = Some j" using assms(5,6) by (simp add: filled_def)
  have "update_model_service env cx i upd db = (update_pool (mp_id mp) (apply_service_settings (sn_now env) (mp_strategy mp) upd) db,
      snd (update_model_service env cx i upd db))"
    using assms by (simp add: update_model_service_def update_service_tx_def rename_service_def try_then_def in_transaction_def
        run_statement_def statement_def)
  then have "fst (update_model_service env cx i upd db) = update_pool (mp_id mp) (apply_service_settings (sn_now env) (mp_strategy mp) upd) db"
    by (metis fst_conv)
  moreover have "load_endpoint_for_dispatch True (sd_cat (update_pool p f db)) j = load_endpoint_for_dispatch True (sd_cat db) j" for p f
    by (simp add: load_endpoint_for_dispatch_def update_pool_def endpoint_rows_def)
  ultimately show ?thesis
    using assms(4) judge by (auto simp: update_pool_def update_where_def apply_service_settings_def)
qed

section \<open>Witnesses\<close>

definition demo_service_db :: saas_db where
  "demo_service_db = update_cat (\<lambda>c. c\<lparr>ct_orgs := [\<lparr>og_id = ''o'', og_name = ''O'', og_description = None, og_created_at = 0,
     og_updated_at = 0\<rparr>]\<rparr>) demo_key_db"

definition demo_service_env :: service_env where
  "demo_service_env = \<lparr>sn_ok = (\<lambda>_. True), sn_now = 7, sn_uuid = (\<lambda>t _. t)\<rparr>"

definition demo_upstream :: model_endpoint_request where
  "demo_upstream = \<lparr>mq_account_id = None, mq_provider_type = Some ''openai'', mq_provider_name = None, mq_protocol = None,
     mq_base_url = Some ''https://u'', mq_api_key = Some ''sk'', mq_upstream_model_id = ''m'', mq_input_price_per_1m = None,
     mq_output_price_per_1m = None, mq_capability_score = None, mq_supports_tools = None, mq_context_length = None\<rparr>"

definition demo_service :: model_service_request where
  "demo_service = \<lparr>sq_name = ''svc'', sq_endpoints = [demo_upstream], sq_provider_type = None, sq_base_url = None,
     sq_api_key = None, sq_upstream_model_id = None, sq_strategy = None, sq_input_price_per_1m = None,
     sq_output_price_per_1m = None, sq_capability_score = None, sq_supports_tools = None, sq_context_length = None\<rparr>"

lemma demo_service_env_simps [simp]: "sn_ok demo_service_env s" "sn_now demo_service_env = 7" "sn_uuid demo_service_env t n = t"
  by (simp_all add: demo_service_env_def)

lemma demo_tenants_ok: "tenants_ok demo_service_db"
  by (simp add: tenants_ok_def keys_distinct_def parents_exist_def links_within_def grants_within_def demo_service_db_def
      demo_key_db_def demo_catalog_simps update_cat_def)

lemma demo_context_ok: "context_ok demo_service_db demo_cx"
  by (simp add: context_ok_def demo_service_db_def demo_key_db_def demo_catalog_simps update_cat_def demo_cx_def)

lemma demo_service_trim: "trim ''svc'' = ''svc''" "trim ''m'' = ''m''" "trim ''openai'' = ''openai''" "trim ''https://u'' = ''https://u''"
  "trim ''sk'' = ''sk''" "trim ''cost_aware'' = ''cost_aware''"
  by (simp_all add: trim_ascii ascii_def byte_def is_whitespace_def Let_def)

lemma demo_service_requested: "requested_endpoints demo_service = [demo_upstream]" "trim (sq_name demo_service) = ''svc''"
  by (simp_all add: requested_endpoints_def demo_service_def demo_service_trim)

lemma demo_service_checked: "first_error created_check [demo_upstream] = Inr ()"
  by (simp add: created_check_def endpoint_check_def demo_upstream_def demo_service_trim protocol_and_url_def starts_with_def Let_def)

lemma demo_service_strategy: "saas_strategy (unwrap_or (filled (sq_strategy demo_service)) ''cost_aware'') = Inr ''cost_aware''"
  by (simp add: demo_service_def filled_def saas_strategy_def demo_service_trim canonicalize_def SAAS_STRATEGIES_def)

lemma demo_created_tx:
  "\<exists>db1 attached. create_service_tx demo_service_env demo_cx ''svc'' ''cost_aware'' [demo_upstream] demo_service_db = (db1, Inr attached)"
proof -
  have e: "mq_account_id demo_upstream = None" by (simp add: demo_upstream_def)
  show ?thesis
    unfolding create_service_tx_def Let_def attach_endpoints.simps attach_endpoint_def endpoint_account_def e option.case
      insert_pool_def insert_account_def insert_endpoint_def insert_link_def insert_virtual_model_def insert_project_grant_def
    by (simp add: try_then_def statement_def demo_service_db_def demo_key_db_def demo_catalog_simps update_cat_def demo_cx_def
        new_pool_def new_virtual_model_def new_endpoint_row_def)
qed

lemma demo_created_service:
  "\<exists>db1 cs. create_model_service demo_service_env demo_cx demo_service demo_service_db = (db1, Inr cs)"
proof -
  obtain db1 attached where tx: "create_service_tx demo_service_env demo_cx ''svc'' ''cost_aware'' [demo_upstream] demo_service_db = (db1, Inr attached)"
    using demo_created_tx by blast
  then have "in_transaction (sn_ok demo_service_env) (create_service_tx demo_service_env demo_cx ''svc'' ''cost_aware'' [demo_upstream])
      demo_service_db = (db1, Inr attached)"
    by (simp add: in_transaction_Inr)
  then show ?thesis
    unfolding create_model_service_def Let_def demo_service_requested demo_service_strategy demo_service_checked sum.case by (simp add: try_then_def)
qed

lemma demo_own_service: "own_service demo_service_env demo_cx ''v2'' demo_service_db = Inr (demo_model ''v2'' ''v1'', demo_pool)"
  by (simp add: own_service_def own_services_def demo_service_db_def demo_key_db_def demo_catalog_simps update_cat_def demo_cx_def)

lemma demo_deleted_service: "\<exists>db1. delete_model_service demo_service_env demo_cx ''v2'' demo_service_db = (db1, Inr ())"
proof -
  have "pool_endpoint_accounts demo_service_db p = []" for p
    by (simp add: pool_endpoint_accounts_def demo_service_db_def demo_key_db_def demo_catalog_simps update_cat_def)
  then show ?thesis
    by (simp add: delete_model_service_def demo_own_service delete_service_tx_def in_transaction_def try_then_def run_statement_def
        statement_def Let_def)
qed

lemma demo_added_endpoint: "\<exists>db1 ids n. add_model_service_endpoint demo_service_env demo_cx ''v2'' (Single demo_upstream) demo_service_db = (db1, Inr (ids, n))"
proof -
  have e: "mq_account_id demo_upstream = None" by (simp add: demo_upstream_def)
  have checked: "first_error added_check [demo_upstream] = Inr ()"
    by (simp add: added_check_def endpoint_check_def demo_upstream_def demo_service_trim protocol_and_url_def starts_with_def Let_def)
  have "\<exists>db1 attached. attach_endpoints demo_service_env demo_cx (mp_id demo_pool) name 0 [demo_upstream] demo_service_db = (db1, Inr attached)" for name
    unfolding attach_endpoints.simps attach_endpoint_def endpoint_account_def e option.case Let_def
      insert_account_def insert_endpoint_def insert_link_def
    by (simp add: try_then_def statement_def demo_service_db_def demo_key_db_def demo_catalog_simps update_cat_def demo_cx_def
        new_endpoint_row_def)
  then obtain db1 attached where "attach_endpoints demo_service_env demo_cx (mp_id demo_pool)
      (\<lambda>n. ''model-service-'' @ show_nat (link_count demo_service_db (mp_id demo_pool) + n + 1)) 0 [demo_upstream] demo_service_db = (db1, Inr attached)"
    by blast
  then have "in_transaction (sn_ok demo_service_env) (attach_endpoints demo_service_env demo_cx (mp_id demo_pool)
      (\<lambda>n. ''model-service-'' @ show_nat (link_count demo_service_db (mp_id demo_pool) + n + 1)) 0 [demo_upstream]) demo_service_db = (db1, Inr attached)"
    by (simp add: in_transaction_Inr)
  then show ?thesis
    unfolding add_model_service_endpoint_def Let_def demo_own_service endpoints_to_add.simps checked sum.case by (simp add: try_then_def)
qed

theorem service_administration_is_confined_witness:
  "\<exists>db1. db1 = fst (create_model_service demo_service_env demo_cx demo_service demo_service_db) \<and>
     tenants_ok db1 \<and> same_outside ''o'' demo_service_db db1"
proof -
  obtain db1 cs where c: "create_model_service demo_service_env demo_cx demo_service demo_service_db = (db1, Inr cs)"
    using demo_created_service by blast
  have "cx_org_id demo_cx = ''o''" by (simp add: demo_cx_def)
  with service_administration_is_confined [OF service_step.create [OF c] demo_context_ok demo_tenants_ok] c
  show ?thesis by auto
qed


theorem deleting_a_created_service_restores_the_tables_witness:
  "\<exists>db1 cs. create_model_service demo_service_env demo_cx demo_service demo_service_db = (db1, Inr cs) \<and>
     delete_model_service demo_service_env demo_cx (cs_id cs) db1 = (demo_service_db, Inr ())"
proof -
  obtain db1 cs where c: "create_model_service demo_service_env demo_cx demo_service demo_service_db = (db1, Inr cs)"
    using demo_created_service by blast
  have "list_all (\<lambda>ep. mq_account_id ep = None) (requested_endpoints demo_service)"
    by (simp add: demo_service_requested demo_upstream_def)
  from deleting_a_created_service_restores_the_tables [OF c demo_tenants_ok this demo_service_env_simps(1)] c show ?thesis by blast
qed

theorem deleted_service_is_gone_witness:
  "''v2'' \<notin> snd ` set (ct_project_grants (sd_cat (fst (delete_model_service demo_service_env demo_cx ''v2'' demo_service_db))))"
proof -
  obtain db1 where d: "delete_model_service demo_service_env demo_cx ''v2'' demo_service_db = (db1, Inr ())"
    using demo_deleted_service by blast
  from deleted_service_is_gone [OF d demo_tenants_ok] show ?thesis unfolding d fst_conv by blast
qed

theorem added_endpoints_join_the_pool_witness:
  "\<exists>db1 ids n. add_model_service_endpoint demo_service_env demo_cx ''v2'' (Single demo_upstream) demo_service_db = (db1, Inr (ids, n)) \<and>
     link_count db1 ''mp'' = n \<and> length ids = 1"
proof -
  obtain db1 ids n where a: "add_model_service_endpoint demo_service_env demo_cx ''v2'' (Single demo_upstream) demo_service_db = (db1, Inr (ids, n))"
    using demo_added_endpoint by blast
  have "mp_id demo_pool = ''mp''" by (simp add: demo_pool_def)
  moreover from added_endpoints_join_the_pool [OF a demo_tenants_ok demo_service_env_simps(1)] demo_own_service
  have "link_count db1 (mp_id demo_pool) = n \<and> length ids = 1" by (auto dest: arg_cong [where f = length])
  ultimately show ?thesis using a by auto
qed

end
