(* ===== verification/Savings.thy ===== *)
theory Savings
  imports Usage_Overview Service_Lifecycle
begin

text \<open>
  saas/analytics.rs: the model endpoint a project compares its spend with, and the savings
  estimated against it. The table \<open>savings_baselines\<close> maps a project to a Virtual Model and
  an endpoint. What RANDOM() picks is a parameter.
\<close>

section \<open>Rows\<close>

type_synonym baselines = "string \<rightharpoonup> string \<times> string"

record baseline_row =
  br_virtual_model_id :: string
  br_endpoint_id :: string
  br_service_name :: string
  br_model :: string
  br_provider_name :: string
  br_input_price :: f64
  br_output_price :: f64

record savings_env =
  sv_ok :: statements
  sv_now :: nat
  sv_pick :: "nat \<Rightarrow> nat"   \<comment> \<open>below its argument\<close>

text \<open>The endpoints of the models granted to the project, in pools of the organization.\<close>

definition project_endpoints :: "catalog \<Rightarrow> (string \<rightharpoonup> string) \<Rightarrow> saas_context \<Rightarrow> (virtual_model \<times> endpoint_row) list" where
  "project_endpoints db pool_org cx = concat (map (\<lambda>vm. concat (map (\<lambda>mp.
     if mp_id mp = vm_pool_id vm \<and> pool_org (mp_id mp) = Some (cx_org_id cx) \<and>
        (cx_project_id cx, vm_id vm) \<in> set (ct_project_grants db)
     then concat (map (\<lambda>(p, i, _). if p = mp_id mp
       then map (Pair vm) (filter (\<lambda>e. er_id e = i) (ct_endpoints db)) else []) (ct_pool_endpoints db))
     else []) (ct_model_pools db))) (ct_virtual_models db))"

definition baseline_row_of :: "virtual_model \<Rightarrow> endpoint_row \<Rightarrow> provider_account \<Rightarrow> baseline_row" where
  "baseline_row_of vm e a = \<lparr>br_virtual_model_id = vm_id vm, br_endpoint_id = er_id e, br_service_name = vm_name vm,
     br_model = er_upstream_model_id e, br_provider_name = pa_name a,
     br_input_price = unwrap_or (er_input_price_per_1m e) 0, br_output_price = unwrap_or (er_output_price_per_1m e) 0\<rparr>"

definition baseline_rows :: "saas_db \<Rightarrow> saas_context \<Rightarrow> string \<times> string \<Rightarrow> baseline_row list" where
  "baseline_rows db cx b = concat (map (\<lambda>(vm, e). if vm_id vm = fst b \<and> er_id e = snd b
     then map (baseline_row_of vm e) (filter (\<lambda>a. pa_id a = er_account_id e) (ct_accounts (sd_cat db))) else [])
     (project_endpoints (sd_cat db) (sd_pool_org db) cx))"

definition stored_baseline :: "saas_db \<Rightarrow> saas_context \<Rightarrow> baselines \<Rightarrow> baseline_row option" where
  "stored_baseline db cx bl = (case bl (cx_project_id cx) of
     None \<Rightarrow> None
   | Some b \<Rightarrow> (case baseline_rows db cx b of [] \<Rightarrow> None | r # _ \<Rightarrow> Some r))"

section \<open>The default\<close>

text \<open>Comparison and OR of SQL: a missing price is unknown; DESC puts unknown first.\<close>

definition sql_positive :: "f64 option \<Rightarrow> bool option" where
  "sql_positive = map_option (\<lambda>x. 0 < x)"

fun sql_or :: "bool option \<Rightarrow> bool option \<Rightarrow> bool option" where
  "sql_or (Some True) _ = Some True"
| "sql_or _ (Some True) = Some True"
| "sql_or (Some False) (Some False) = Some False"
| "sql_or _ _ = None"

definition sql_is_priced :: "endpoint_row \<Rightarrow> bool option" where
  "sql_is_priced e = sql_or (sql_positive (er_input_price_per_1m e)) (sql_positive (er_output_price_per_1m e))"

fun desc_rank :: "bool option \<Rightarrow> nat" where
  "desc_rank None = 0" | "desc_rank (Some True) = 1" | "desc_rank (Some False) = 2"

definition best_candidates :: "saas_db \<Rightarrow> saas_context \<Rightarrow> (virtual_model \<times> endpoint_row) list" where
  "best_candidates db cx = (let cs = filter (\<lambda>(_, e). er_enabled e) (project_endpoints (sd_cat db) (sd_pool_org db) cx) in
     filter (\<lambda>(_, e). \<forall>(_, e') \<in> set cs. desc_rank (sql_is_priced e) \<le> desc_rank (sql_is_priced e')) cs)"

definition default_candidate :: "savings_env \<Rightarrow> saas_db \<Rightarrow> saas_context \<Rightarrow> (string \<times> string) option" where
  "default_candidate env db cx = (let best = best_candidates db cx in
     if best = [] then None
     else case best ! (sv_pick env (length best) mod length best) of (vm, e) \<Rightarrow> Some (vm_id vm, er_id e))"

text \<open>The first read without a usable baseline stores the default, unless one is stored already.\<close>

definition load_savings_baseline ::
    "savings_env \<Rightarrow> saas_context \<Rightarrow> saas_db \<Rightarrow> baselines \<Rightarrow> baselines \<times> baseline_row option api" where
  "load_savings_baseline env cx db bl =
     (if \<not> sv_ok env ''stored'' then (bl, Inl db_error)
      else case stored_baseline db cx bl of Some b \<Rightarrow> (bl, Inr (Some b))
      | None \<Rightarrow>
        if \<not> sv_ok env ''candidate'' then (bl, Inl db_error)
        else (case default_candidate env db cx of None \<Rightarrow> (bl, Inr None)
        | Some c \<Rightarrow>
          if \<not> sv_ok env ''insert'' then (bl, Inl db_error)
          else let bl' = (if bl (cx_project_id cx) = None then bl(cx_project_id cx \<mapsto> c) else bl) in
          if \<not> sv_ok env ''reread'' then (bl', Inl db_error)
          else (bl', Inr (stored_baseline db cx bl'))))"

section \<open>The handlers\<close>

definition update_savings_baseline ::
    "savings_env \<Rightarrow> saas_context \<Rightarrow> string \<Rightarrow> string \<Rightarrow> saas_db \<Rightarrow> baselines \<Rightarrow> baselines \<times> unit api" where
  "update_savings_baseline env cx v e db bl =
     (if \<not> sv_ok env ''valid'' then (bl, Inl db_error)
      else if \<not> list_ex (\<lambda>(vm, ep). vm_id vm = v \<and> er_id ep = e) (project_endpoints (sd_cat db) (sd_pool_org db) cx)
      then (bl, Inl (bad_request ''The selected model endpoint is not available to this project''))
      else if \<not> sv_ok env ''store'' then (bl, Inl db_error)
      else (bl(cx_project_id cx \<mapsto> (v, e)), Inr ()))"

definition get_savings_baseline ::
    "savings_env \<Rightarrow> saas_context \<Rightarrow> saas_db \<Rightarrow> baselines \<Rightarrow> baselines \<times> baseline_row option api" where
  "get_savings_baseline env cx db bl = load_savings_baseline env cx db bl"

definition calculate_savings :: "int \<Rightarrow> int \<Rightarrow> int \<Rightarrow> f64 \<Rightarrow> f64 \<Rightarrow> f64 \<Rightarrow> f64 \<times> f64" where
  "calculate_savings prompt completion trimmed spend in_price out_price =
     (let restored = fdiv (f64_of_int trimmed) 4;
          baseline_cost = fadd (fmul (fdiv (fadd (f64_of_int prompt) restored) 1000000) in_price)
            (fmul (fdiv (f64_of_int completion) 1000000) out_price)
      in (baseline_cost, fsub baseline_cost spend))"

text \<open>Without a baseline, without a price, or estimated: spend, savings, cost of the baseline, trimmed characters.\<close>

datatype savings = NotConfigured | NotPriced baseline_row
  | Estimated f64 f64 f64 int baseline_row

definition model_rows :: "saas_db \<Rightarrow> saas_context \<Rightarrow> string \<Rightarrow> int option \<Rightarrow> usage_log \<Rightarrow> usage_log" where
  "model_rows db cx v since logs =
     filter (\<lambda>r. ul_virtual_model_id (row_ids r) = Some v) (org_rows (sd_cat db) (cx_org_id cx) since logs)"

definition get_savings ::
    "savings_env \<Rightarrow> saas_context \<Rightarrow> string option \<Rightarrow> saas_db \<Rightarrow> usage_log \<Rightarrow> baselines \<Rightarrow> baselines \<times> savings api" where
  "get_savings env cx query db logs bl = (case range_since (sv_now env) (unwrap_or query ''24h'') of Inl e \<Rightarrow> (bl, Inl e)
   | Inr since \<Rightarrow> try_then (load_savings_baseline env cx db bl) (\<lambda>b bl. case b of None \<Rightarrow> (bl, Inr NotConfigured)
     | Some b \<Rightarrow>
       if br_input_price b \<le> 0 \<and> br_output_price b \<le> 0 then (bl, Inr (NotPriced b))
       else if \<not> sv_ok env ''usage'' then (bl, Inl db_error)
       else let rows = model_rows db cx (br_virtual_model_id b) since logs;
                trimmed = sum_rows (\<lambda>r. ul_trimmed_chars (row_tokens r)) rows; spend = sum_cost rows in
       case calculate_savings (sum_rows (\<lambda>r. ul_prompt_tokens (row_tokens r)) rows)
           (sum_rows (\<lambda>r. ul_completion_tokens (row_tokens r)) rows) trimmed spend (br_input_price b) (br_output_price b) of
         (cost, saved) \<Rightarrow> (bl, Inr (Estimated spend saved cost trimmed b))))"

definition cost_saved_percentage :: "f64 \<Rightarrow> f64 \<Rightarrow> f64 option" where
  "cost_saved_percentage actual_spend baseline_spend =
     (if 0 < baseline_spend
      then Some (fdiv (fround (fmul (fmul (fsub 1 (fdiv actual_spend baseline_spend)) 100) 10)) 10) else None)"

section \<open>Properties\<close>

lemma project_endpoints_mem:
  "(vm, e) \<in> set (project_endpoints (sd_cat db) (sd_pool_org db) cx) \<longleftrightarrow>
     (\<exists>mp r. (vm, mp) \<in> set (own_services db cx (vm_id vm)) \<and> (mp_id mp, er_id e, r) \<in> set (ct_pool_endpoints (sd_cat db)) \<and>
        e \<in> set (ct_endpoints (sd_cat db)))"
proof -
  have "(vm, e) \<in> set (project_endpoints (sd_cat db) (sd_pool_org db) cx) \<longleftrightarrow>
      (\<exists>mp. vm \<in> set (ct_virtual_models (sd_cat db)) \<and> mp \<in> set (ct_model_pools (sd_cat db)) \<and> mp_id mp = vm_pool_id vm \<and>
         sd_pool_org db (mp_id mp) = Some (cx_org_id cx) \<and> (cx_project_id cx, vm_id vm) \<in> set (ct_project_grants (sd_cat db)) \<and>
         (\<exists>p i r. (p, i, r) \<in> set (ct_pool_endpoints (sd_cat db)) \<and> p = mp_id mp \<and> e \<in> set (ct_endpoints (sd_cat db)) \<and> er_id e = i))"
    unfolding project_endpoints_def by (fastforce split: if_splits)
  then show ?thesis unfolding own_services_mem by blast
qed

lemma stored_baseline_Some:
  assumes "stored_baseline db cx bl = Some b"
  shows "bl (cx_project_id cx) = Some (br_virtual_model_id b, br_endpoint_id b) \<and>
     (\<exists>vm e. (vm, e) \<in> set (project_endpoints (sd_cat db) (sd_pool_org db) cx) \<and> vm_id vm = br_virtual_model_id b \<and> er_id e = br_endpoint_id b)"
proof -
  obtain k where k: "bl (cx_project_id cx) = Some k" "b \<in> set (baseline_rows db cx k)"
    using assms by (auto simp: stored_baseline_def split: option.splits list.splits)
  from k(2) obtain vm e a where "(vm, e) \<in> set (project_endpoints (sd_cat db) (sd_pool_org db) cx)" "vm_id vm = fst k" "er_id e = snd k"
    "b = baseline_row_of vm e a"
    unfolding baseline_rows_def by (auto split: if_splits)
  then show ?thesis using k(1) by (auto simp: baseline_row_of_def)
qed

text \<open>
  The savings baseline is the project's own and stays: a baseline that is answered is an
  endpoint in the pool of a model service of the caller, no other project's baseline is
  touched, and once answered it is answered again, whatever RANDOM() would pick the next
  time.
\<close>

theorem savings_baseline_is_own_and_stable:
  assumes "load_savings_baseline env cx db bl = (bl', Inr (Some b))"
  shows "(\<exists>vm mp r. (vm, mp) \<in> set (own_services db cx (br_virtual_model_id b)) \<and>
       (mp_id mp, br_endpoint_id b, r) \<in> set (ct_pool_endpoints (sd_cat db))) \<and>
     (\<forall>p. p \<noteq> cx_project_id cx \<longrightarrow> bl' p = bl p) \<and>
     (\<forall>env'. sv_ok env' ''stored'' \<longrightarrow> load_savings_baseline env' cx db bl' = (bl', Inr (Some b)))"
proof -
  have stored: "stored_baseline db cx bl' = Some b" and others: "\<forall>p. p \<noteq> cx_project_id cx \<longrightarrow> bl' p = bl p"
    using assms unfolding load_savings_baseline_def Let_def by (auto split: if_splits option.splits)
  obtain vm e where "(vm, e) \<in> set (project_endpoints (sd_cat db) (sd_pool_org db) cx)" "vm_id vm = br_virtual_model_id b"
    "er_id e = br_endpoint_id b"
    using stored_baseline_Some [OF stored] by blast
  then have "\<exists>vm mp r. (vm, mp) \<in> set (own_services db cx (br_virtual_model_id b)) \<and>
       (mp_id mp, br_endpoint_id b, r) \<in> set (ct_pool_endpoints (sd_cat db))"
    unfolding project_endpoints_mem by metis
  moreover have "load_savings_baseline env' cx db bl' = (bl', Inr (Some b))" if "sv_ok env' ''stored''" for env'
    using that stored by (simp add: load_savings_baseline_def)
  ultimately show ?thesis using others by blast
qed

text \<open>
  A selected baseline is the one read back: after the update handler accepts a model
  and an endpoint, every read answers them, without storing anything.
\<close>

theorem updated_baseline_is_read_back:
  assumes "update_savings_baseline env cx v e db bl = (bl', Inr ())" "tenants_ok db" "sv_ok env' ''stored''"
  shows "\<exists>b. load_savings_baseline env' cx db bl' = (bl', Inr (Some b)) \<and> br_virtual_model_id b = v \<and> br_endpoint_id b = e"
proof -
  have valid: "list_ex (\<lambda>(vm, ep). vm_id vm = v \<and> er_id ep = e) (project_endpoints (sd_cat db) (sd_pool_org db) cx)"
    and bl': "bl' (cx_project_id cx) = Some (v, e)"
    using assms(1) by (auto simp: update_savings_baseline_def split: if_splits)
  then obtain vm ep where ep: "(vm, ep) \<in> set (project_endpoints (sd_cat db) (sd_pool_org db) cx)" "vm_id vm = v" "er_id ep = e"
    by (auto simp: list_ex_iff)
  have "er_account_id ep \<in> pa_id ` set (ct_accounts (sd_cat db))"
    using assms(2) ep(1) unfolding project_endpoints_mem tenants_ok_def parents_exist_def by blast
  then obtain a where a: "a \<in> set (ct_accounts (sd_cat db))" "pa_id a = er_account_id ep" by force
  have "baseline_row_of vm ep a \<in> set (baseline_rows db cx (v, e))"
    unfolding baseline_rows_def using ep a by force
  then obtain b rest where b: "baseline_rows db cx (v, e) = b # rest" by (cases "baseline_rows db cx (v, e)") auto
  then have stored: "stored_baseline db cx bl' = Some b" by (simp add: stored_baseline_def bl')
  then show ?thesis using stored_baseline_Some [OF stored] bl' assms(3) by (simp add: load_savings_baseline_def)
qed

text \<open>
  The estimate grows with what it counts: with prices that are not negative, more
  prompt tokens, more completion tokens or more trimmed characters never lower the cost of
  the baseline, and at the same spend never lower the savings.
\<close>

theorem savings_grow_with_usage:
  assumes "prompt \<le> prompt'" "completion \<le> completion'" "trimmed \<le> trimmed'" "0 \<le> in_price" "0 \<le> out_price"
  shows "fst (calculate_savings prompt completion trimmed spend in_price out_price) \<le>
       fst (calculate_savings prompt' completion' trimmed' spend in_price out_price) \<and>
     snd (calculate_savings prompt completion trimmed spend in_price out_price) \<le>
       snd (calculate_savings prompt' completion' trimmed' spend in_price out_price)"
proof -
  have ints: "f64_of_int prompt \<le> f64_of_int prompt'" "f64_of_int completion \<le> f64_of_int completion'"
    "f64_of_int trimmed \<le> f64_of_int trimmed'"
    using assms(1-3) by (simp_all add: f64_of_int_def rnd_mono)
  have cost: "fst (calculate_savings prompt completion trimmed spend in_price out_price) \<le>
      fst (calculate_savings prompt' completion' trimmed' spend in_price out_price)"
    unfolding calculate_savings_def Let_def fst_conv by (intro fadd_mono fmul_mono fdiv_mono ints assms(4,5)) simp_all
  have "snd (calculate_savings p c t spend i q) = fsub (fst (calculate_savings p c t spend i q)) spend" for p c t i q
    by (simp add: calculate_savings_def Let_def)
  then show ?thesis using cost rnd_mono by (simp add: fsub_def)
qed

section \<open>Two defects\<close>

text \<open>The default prefers endpoints without any price: a missing price sorts before a positive one.\<close>

lemma default_prefers_unpriced:
  assumes "default_candidate env db cx = Some (v, i)"
    and "(vm0, e0) \<in> set (project_endpoints (sd_cat db) (sd_pool_org db) cx)" "er_enabled e0"
    and "er_input_price_per_1m e0 = None" "er_output_price_per_1m e0 = None"
  shows "\<exists>vm e. (vm, e) \<in> set (project_endpoints (sd_cat db) (sd_pool_org db) cx) \<and> vm_id vm = v \<and> er_id e = i \<and> sql_is_priced e = None"
proof -
  let ?cs = "filter (\<lambda>(_, e). er_enabled e) (project_endpoints (sd_cat db) (sd_pool_org db) cx)"
  let ?best = "best_candidates db cx"
  have ne: "?best \<noteq> []" using assms(1) by (auto simp: default_candidate_def Let_def)
  then have "sv_pick env (length ?best) mod length ?best < length ?best" by simp
  then have "?best ! (sv_pick env (length ?best) mod length ?best) \<in> set ?best" by (rule nth_mem)
  moreover obtain vm e where pick: "?best ! (sv_pick env (length ?best) mod length ?best) = (vm, e)" by force
  moreover have "v = vm_id vm \<and> i = er_id e" using assms(1) ne pick by (auto simp: default_candidate_def Let_def)
  ultimately have mem: "(vm, e) \<in> set ?best" "v = vm_id vm" "i = er_id e" by simp_all
  have "(vm0, e0) \<in> set ?cs" using assms(2,3) by simp
  then have "desc_rank (sql_is_priced e) \<le> desc_rank (sql_is_priced e0)" and "(vm, e) \<in> set ?cs"
    using mem(1) unfolding best_candidates_def Let_def by auto
  moreover have "sql_is_priced e0 = None" using assms(4,5) by (simp add: sql_is_priced_def sql_positive_def)
  moreover have "desc_rank x \<le> 0 \<Longrightarrow> x = None" for x by (cases x rule: desc_rank.cases) auto
  ultimately show ?thesis using mem by auto
qed

text \<open>A stored baseline that is no longer available is neither answered nor replaced.\<close>

lemma stale_baseline_stays:
  assumes "bl (cx_project_id cx) = Some k" "stored_baseline db cx bl = None" "\<And>s. sv_ok env s"
  shows "load_savings_baseline env cx db bl = (bl, Inr None)"
  using assms by (simp add: load_savings_baseline_def Let_def split: option.split)

section \<open>Witnesses\<close>

text \<open>The project's model \<open>v2\<close> with the endpoint of an account of its own.\<close>

definition demo_savings_db :: saas_db where
  "demo_savings_db = with_endpoints ''o'' ''mp''
     [\<lparr>pa_id = ''a'', pa_name = ''acme'', pa_provider_type = ''openai'', pa_protocol = ''openai'', pa_base_url = ''https://u'',
       pa_api_key = ''sk'', pa_status = ''active'', pa_metadata = None, pa_created_at = 0, pa_updated_at = 0\<rparr>]
     [new_endpoint_row demo_service_env ''e'' ''a'' ''n'' demo_upstream] demo_service_db"

definition demo_savings_env :: savings_env where
  "demo_savings_env = \<lparr>sv_ok = (\<lambda>_. True), sv_now = 9, sv_pick = (\<lambda>_. 0)\<rparr>"

lemma demo_savings_ok: "tenants_ok demo_savings_db"
  by (simp add: tenants_ok_def keys_distinct_def parents_exist_def links_within_def grants_within_def demo_savings_db_def
      with_endpoints_def new_endpoint_row_def demo_service_db_def demo_key_db_def demo_catalog_simps update_cat_def
      dom_def split: if_splits)

lemma demo_updated_baseline:
  "update_savings_baseline demo_savings_env demo_cx ''v2'' ''e'' demo_savings_db Map.empty = ([''p'' \<mapsto> (''v2'', ''e'')], Inr ())"
proof -
  have "list_ex (\<lambda>(vm, ep). vm_id vm = ''v2'' \<and> er_id ep = ''e'')
      (project_endpoints (sd_cat demo_savings_db) (sd_pool_org demo_savings_db) demo_cx)"
    by (simp add: project_endpoints_def demo_savings_db_def with_endpoints_def new_endpoint_row_def demo_service_db_def
        demo_key_db_def demo_catalog_simps update_cat_def demo_cx_def)
  then show ?thesis by (simp add: update_savings_baseline_def demo_savings_env_def demo_cx_def)
qed

theorem updated_baseline_is_read_back_witness:
  "\<exists>b. load_savings_baseline demo_savings_env demo_cx demo_savings_db [''p'' \<mapsto> (''v2'', ''e'')] =
     ([''p'' \<mapsto> (''v2'', ''e'')], Inr (Some b)) \<and> br_endpoint_id b = ''e''"
  using updated_baseline_is_read_back [OF demo_updated_baseline demo_savings_ok, of demo_savings_env]
  by (auto simp: demo_savings_env_def)

theorem savings_baseline_is_own_and_stable_witness:
  "\<exists>b. load_savings_baseline (demo_savings_env\<lparr>sv_pick := \<lambda>_. 5\<rparr>) demo_cx demo_savings_db [''p'' \<mapsto> (''v2'', ''e'')] =
     ([''p'' \<mapsto> (''v2'', ''e'')], Inr (Some b))"
proof -
  have stored: "\<exists>b. stored_baseline demo_savings_db demo_cx [''p'' \<mapsto> (''v2'', ''e'')] = Some b"
    by (simp add: stored_baseline_def baseline_rows_def project_endpoints_def demo_savings_db_def with_endpoints_def
        new_endpoint_row_def demo_service_db_def demo_key_db_def demo_catalog_simps update_cat_def demo_cx_def)
  then obtain b where "load_savings_baseline demo_savings_env demo_cx demo_savings_db [''p'' \<mapsto> (''v2'', ''e'')] =
      ([''p'' \<mapsto> (''v2'', ''e'')], Inr (Some b))"
    by (auto simp: load_savings_baseline_def demo_savings_env_def)
  from savings_baseline_is_own_and_stable [OF this] show ?thesis by (auto simp: demo_savings_env_def)
qed

theorem savings_grow_with_usage_witness:
  "fst (calculate_savings 100 0 0 0 2 0) \<le> fst (calculate_savings 100 0 4000 0 2 0)"
  using savings_grow_with_usage [of 100 100 0 0 0 4000 2 0 0] by simp

end
