(* ===== verification/Key_Profile.thy ===== *)
theory Key_Profile
  imports Usage_Log Api_Keys
begin

text \<open>
  saas/api\_keys.rs: the usage profile of one API key, aggregated from its rows of the
  usage log. The JSON parser is a parameter; the answer is a record of what the handler
  puts in its JSON.
\<close>

section \<open>Reading recorded JSON\<close>

text \<open>\<open>profile_json_value\<close>: the key anywhere in the value, an object's own members first.\<close>

fun profile_json_value :: "string \<Rightarrow> json \<Rightarrow> json option"
  and value_in_members :: "string \<Rightarrow> (string \<times> json) list \<Rightarrow> json option"
  and value_in_items :: "string \<Rightarrow> json list \<Rightarrow> json option" where
  "profile_json_value key (Object ps) = or_else (map_of ps key) (value_in_members key ps)"
| "profile_json_value key (Array xs) = value_in_items key xs"
| "profile_json_value key _ = None"
| "value_in_members key [] = None"
| "value_in_members key ((_, v) # ps) = or_else (profile_json_value key v) (value_in_members key ps)"
| "value_in_items key [] = None"
| "value_in_items key (v # xs) = or_else (profile_json_value key v) (value_in_items key xs)"

definition item_is_true :: "json \<Rightarrow> bool" where
  "item_is_true item = (case item of Bool b \<Rightarrow> b | String t \<Rightarrow> t \<in> {''true'', ''1''} | _ \<Rightarrow> False)"

definition profile_json_flag :: "(string \<Rightarrow> json option) \<Rightarrow> string option list \<Rightarrow> string \<Rightarrow> bool" where
  "profile_json_flag parse raw_values key =
     list_ex (\<lambda>raw. case Option.bind raw parse of
         None \<Rightarrow> False
       | Some v \<Rightarrow> (case profile_json_value key v of None \<Rightarrow> False | Some item \<Rightarrow> item_is_true item)) raw_values"

definition as_f64 :: "json \<Rightarrow> f64 option" where
  "as_f64 v = (case v of Number (IntN i) \<Rightarrow> Some (f64_of_int i) | Number (FloatN x) \<Rightarrow> Some x | _ \<Rightarrow> None)"

definition profile_difficulty_source :: "(string \<Rightarrow> json option) \<Rightarrow> string option \<Rightarrow> string" where
  "profile_difficulty_source parse raw =
     (if Option.bind (Option.bind raw parse) (\<lambda>v. Option.bind (profile_json_value ''difficulty_source'' v) as_str) = Some ''judge''
      then ''judge'' else ''heuristic'')"

definition profile_difficulty_tier :: "(string \<Rightarrow> json option) \<Rightarrow> string option \<Rightarrow> string option" where
  "profile_difficulty_tier parse raw = Option.bind (Option.bind raw parse) (\<lambda>v.
     case Option.bind (profile_json_value ''difficulty_tier'' v) as_str of
       Some tier \<Rightarrow> if tier \<in> {''low'', ''medium'', ''high''} then Some tier
         else map_option (\<lambda>d. tier_as_str (difficulty_tier_of d)) (Option.bind (profile_json_value ''difficulty'' v) as_f64)
     | None \<Rightarrow> map_option (\<lambda>d. tier_as_str (difficulty_tier_of d)) (Option.bind (profile_json_value ''difficulty'' v) as_f64))"

section \<open>Aggregation\<close>

type_synonym tally = "(string \<times> int) list"

record profile_aggregation =
  pg_successful_count :: int
  pg_total_prompt_tokens :: int
  pg_total_completion_tokens :: int
  pg_total_tokens :: int
  pg_total_cost :: f64
  pg_latencies :: "int list"
  pg_ttfts :: "int list"
  pg_difficulty_tiers :: tally
  pg_difficulty_sources :: tally
  pg_providers :: tally
  pg_usage_sources :: tally
  pg_usage_confidences :: tally
  pg_pricing_sources :: tally
  pg_tool_requests :: int
  pg_fallback_requests :: int
  pg_session_requests :: int
  pg_affinity_applied :: int
  pg_affinity_hits :: int

definition empty_aggregation :: profile_aggregation where
  "empty_aggregation = \<lparr>pg_successful_count = 0, pg_total_prompt_tokens = 0, pg_total_completion_tokens = 0,
     pg_total_tokens = 0, pg_total_cost = 0, pg_latencies = [], pg_ttfts = [], pg_difficulty_tiers = [],
     pg_difficulty_sources = [], pg_providers = [], pg_usage_sources = [], pg_usage_confidences = [],
     pg_pricing_sources = [], pg_tool_requests = 0, pg_fallback_requests = 0, pg_session_requests = 0,
     pg_affinity_applied = 0, pg_affinity_hits = 0\<rparr>"

definition count_if :: "bool \<Rightarrow> int \<Rightarrow> int" where "count_if b n = (if b then n + 1 else n)"

definition row_provider :: "catalog \<Rightarrow> nat \<times> usage_row \<Rightarrow> string" where
  "row_provider db r = (case row_account db r of None \<Rightarrow> ''unknown'' | Some a \<Rightarrow> pa_provider_type a)"

definition row_flag :: "(string \<Rightarrow> json option) \<Rightarrow> string \<Rightarrow> nat \<times> usage_row \<Rightarrow> bool" where
  "row_flag parse key r =
     profile_json_flag parse [ul_routing_decision (row_settlement r), Some (ul_metadata (row_settlement r))] key"

definition row_tier :: "(string \<Rightarrow> json option) \<Rightarrow> nat \<times> usage_row \<Rightarrow> string" where
  "row_tier parse r = unwrap_or (profile_difficulty_tier parse (ul_routing_decision (row_settlement r))) ''unknown''"

definition aggregate_row :: "(string \<Rightarrow> json option) \<Rightarrow> catalog \<Rightarrow> profile_aggregation \<Rightarrow> nat \<times> usage_row \<Rightarrow> profile_aggregation" where
  "aggregate_row parse db g r = (let t = row_tokens r; s = row_settlement r; x = row_session r in
     \<lparr>pg_successful_count = count_if (succeeded (ul_status_code s)) (pg_successful_count g),
      pg_total_prompt_tokens = pg_total_prompt_tokens g + ul_prompt_tokens t,
      pg_total_completion_tokens = pg_total_completion_tokens g + ul_completion_tokens t,
      pg_total_tokens = pg_total_tokens g + ul_total_tokens t,
      pg_total_cost = fadd (pg_total_cost g) (ul_estimated_cost s),
      pg_latencies = pg_latencies g @ [ul_latency_ms t],
      pg_ttfts = (case ul_ttft_ms t of None \<Rightarrow> pg_ttfts g | Some ms \<Rightarrow> pg_ttfts g @ [ms]),
      pg_difficulty_tiers = count_entry (row_tier parse r) (pg_difficulty_tiers g),
      pg_difficulty_sources = count_entry (profile_difficulty_source parse (ul_routing_decision s)) (pg_difficulty_sources g),
      pg_providers = count_entry (row_provider db r) (pg_providers g),
      pg_usage_sources = count_entry (ul_usage_source s) (pg_usage_sources g),
      pg_usage_confidences = count_entry (ul_usage_confidence s) (pg_usage_confidences g),
      pg_pricing_sources = count_entry (ul_pricing_source s) (pg_pricing_sources g),
      pg_tool_requests = count_if (row_flag parse ''has_tools'' r) (pg_tool_requests g),
      pg_fallback_requests = count_if (row_flag parse ''fallback'' r) (pg_fallback_requests g),
      pg_session_requests = count_if (ul_session_id x \<noteq> None) (pg_session_requests g),
      pg_affinity_applied = count_if (ul_affinity_applied x \<noteq> 0) (pg_affinity_applied g),
      pg_affinity_hits = count_if (ul_affinity_hit x \<noteq> 0) (pg_affinity_hits g)\<rparr>)"

definition aggregate_api_key_profile :: "(string \<Rightarrow> json option) \<Rightarrow> catalog \<Rightarrow> usage_log \<Rightarrow> profile_aggregation" where
  "aggregate_api_key_profile parse db rows = foldl (aggregate_row parse db) empty_aggregation rows"

section \<open>Figures\<close>

definition profile_confidence :: "int \<Rightarrow> string" where
  "profile_confidence n = (if n = 0 then ''cold_start'' else if 1 \<le> n \<and> n \<le> 19 then ''low_confidence''
     else if 20 \<le> n \<and> n \<le> 99 then ''medium_confidence'' else ''high_confidence'')"

definition profile_rate :: "int \<Rightarrow> int \<Rightarrow> f64 option" where
  "profile_rate n d = (if 0 < d then Some (fdiv (f64_of_int n) (f64_of_int d)) else None)"

definition profile_rate_f64 :: "f64 \<Rightarrow> int \<Rightarrow> f64 option" where
  "profile_rate_f64 n d = (if 0 < d then Some (fdiv n (f64_of_int d)) else None)"

definition profile_average :: "int list \<Rightarrow> f64 option" where
  "profile_average values = (if values = [] then None
     else Some (fdiv (foldl (\<lambda>s v. fadd s (f64_of_int v)) 0 values) (f64_of_nat (length values))))"

definition P50 :: f64 where "P50 = rnd (50 / 100)"
definition P95 :: f64 where "P95 = rnd (95 / 100)"

text \<open>No evaluation of quality is recorded, whatever the rows say.\<close>

definition unavailable_quality_evidence :: json where
  "unavailable_quality_evidence = Object
     [(''status'', String ''unavailable''), (''judge_evaluated_requests'', int_json 0), (''judge_agreement_rate'', Null),
      (''explicit_feedback_count'', int_json 0), (''confidence'', String ''none'')]"

section \<open>The handler\<close>

record key_profile =
  kf_key :: api_key_row
  kf_range :: string
  kf_window_start :: "int option"
  kf_last_observed_at :: "nat option"
  kf_sample_count :: int
  kf_confidence :: string
  kf_successful :: int
  kf_failed :: int
  kf_success_rate :: "f64 option"
  kf_average_latency :: "f64 option"
  kf_p50 :: "f64 option"
  kf_p95 :: "f64 option"
  kf_ttft_average :: "f64 option"
  kf_ttft_p95 :: "f64 option"
  kf_aggregation :: profile_aggregation
  kf_tokens_per_request :: "f64 option"
  kf_cost_per_request :: "f64 option"
  kf_tool_request_rate :: "f64 option"
  kf_fallback_rate :: "f64 option"
  kf_session_rate :: "f64 option"
  kf_affinity_applied_rate :: "f64 option"
  kf_affinity_hit_rate :: "f64 option"
  kf_quality_evidence :: json

definition key_rows :: "saas_context \<Rightarrow> string \<Rightarrow> int option \<Rightarrow> usage_log \<Rightarrow> usage_log" where
  "key_rows cx key_id since logs = oldest_first (filter (\<lambda>r. ul_project_id (row_ids r) = Some (cx_project_id cx) \<and>
     ul_key_id (row_ids r) = Some key_id \<and> within_range since r) logs)"

definition key_profile_of ::
    "(string \<Rightarrow> json option) \<Rightarrow> catalog \<Rightarrow> api_key_row \<Rightarrow> string \<Rightarrow> int option \<Rightarrow> usage_log \<Rightarrow> key_profile" where
  "key_profile_of parse db k period since rows =
     (let g = aggregate_api_key_profile parse db rows; n = int (length rows) in
      \<lparr>kf_key = k, kf_range = period, kf_window_start = since,
       kf_last_observed_at = (if rows = [] then None else Some (fst (last rows))), kf_sample_count = n,
       kf_confidence = profile_confidence n, kf_successful = pg_successful_count g, kf_failed = n - pg_successful_count g,
       kf_success_rate = profile_rate (pg_successful_count g) n, kf_average_latency = profile_average (pg_latencies g),
       kf_p50 = profile_percentile (pg_latencies g) P50, kf_p95 = profile_percentile (pg_latencies g) P95,
       kf_ttft_average = profile_average (pg_ttfts g), kf_ttft_p95 = profile_percentile (pg_ttfts g) P95,
       kf_aggregation = g, kf_tokens_per_request = profile_rate (pg_total_tokens g) n,
       kf_cost_per_request = profile_rate_f64 (pg_total_cost g) n,
       kf_tool_request_rate = profile_rate (pg_tool_requests g) n, kf_fallback_rate = profile_rate (pg_fallback_requests g) n,
       kf_session_rate = profile_rate (pg_session_requests g) n,
       kf_affinity_applied_rate = profile_rate (pg_affinity_applied g) n,
       kf_affinity_hit_rate = profile_rate (pg_affinity_hits g) n, kf_quality_evidence = unavailable_quality_evidence\<rparr>)"

definition get_api_key_profile ::
    "key_env \<Rightarrow> (string \<Rightarrow> json option) \<Rightarrow> saas_context \<Rightarrow> string \<Rightarrow> string option \<Rightarrow> saas_db \<Rightarrow> usage_log \<Rightarrow> key_profile api" where
  "get_api_key_profile env parse cx key_id query db logs =
     (let period = unwrap_or query ''7d'' in
      case range_since (ke_now env) period of Inl e \<Rightarrow> Inl e | Inr since \<Rightarrow>
      if \<not> ke_ok env ''select key'' then Inl db_error
      else (case find (\<lambda>k. ak_id k = key_id \<and> ak_project_id k = cx_project_id cx) (ct_api_keys (sd_cat db)) of
        None \<Rightarrow> Inl (not_found ''API key not found'')
      | Some k \<Rightarrow>
        if \<not> ke_ok env ''select usage'' then Inl db_error
        else Inr (key_profile_of parse (sd_cat db) k period since (key_rows cx key_id since logs))))"

section \<open>Properties\<close>

lemma count_if_foldl: "foldl (\<lambda>n r. count_if (P r) n) a rows = a + int (length (filter P rows))"
  by (induction rows arbitrary: a) (simp_all add: count_if_def)

lemma aggregated:
  assumes "\<And>g r. c (aggregate_row parse db g r) = h (c g) r"
  shows "c (aggregate_api_key_profile parse db rows) = foldl h (c empty_aggregation) rows"
  unfolding aggregate_api_key_profile_def using assms by (rule foldl_component)

lemma tallied:
  assumes "\<And>g r. c (aggregate_row parse db g r) = count_entry (key r) (c g)" "c empty_aggregation = []"
  shows "histogram key rows (c (aggregate_api_key_profile parse db rows))"
proof -
  have "c (aggregate_api_key_profile parse db rows) = foldl (\<lambda>m r. count_entry (key r) m) (c empty_aggregation) rows"
    by (rule aggregated) (rule assms(1))
  then show ?thesis using histogram_tally_of [of key rows] by (simp add: tally_of_def assms(2))
qed

lemmas aggregation_defs = aggregate_row_def empty_aggregation_def Let_def

lemma aggregated_figures:
  "pg_successful_count (aggregate_api_key_profile parse db rows) =
     int (length (filter (\<lambda>r. succeeded (ul_status_code (row_settlement r))) rows))"
  "pg_total_tokens (aggregate_api_key_profile parse db rows) = (\<Sum>r\<leftarrow>rows. ul_total_tokens (row_tokens r))"
  "pg_latencies (aggregate_api_key_profile parse db rows) = map (\<lambda>r. ul_latency_ms (row_tokens r)) rows"
  "pg_total_cost (aggregate_api_key_profile parse db rows) = sum_cost rows"
  by (subst aggregated [of _ _ _ "\<lambda>n r. count_if (succeeded (ul_status_code (row_settlement r))) n"],
       simp_all add: aggregation_defs count_if_foldl)
     (subst aggregated [of _ _ _ "\<lambda>n r. n + ul_total_tokens (row_tokens r)"], simp_all add: aggregation_defs foldl_plus,
      subst aggregated [of _ _ _ "\<lambda>n r. n @ [ul_latency_ms (row_tokens r)]"], simp_all add: aggregation_defs foldl_append,
      subst aggregated [of _ _ _ "\<lambda>c r. fadd c (ul_estimated_cost (row_settlement r))"], simp_all add: aggregation_defs sum_cost_def)

lemma profile_of_parts:
  fixes rows :: usage_log
  shows "kf_sample_count (key_profile_of parse db k period since rows) = int (length rows)"
    "kf_aggregation (key_profile_of parse db k period since rows) = aggregate_api_key_profile parse db rows"
    "kf_successful (key_profile_of parse db k period since rows) = pg_successful_count (aggregate_api_key_profile parse db rows)"
    "kf_failed (key_profile_of parse db k period since rows) = int (length rows) - pg_successful_count (aggregate_api_key_profile parse db rows)"
    "kf_success_rate (key_profile_of parse db k period since rows) =
       profile_rate (pg_successful_count (aggregate_api_key_profile parse db rows)) (int (length rows))"
    "kf_p50 (key_profile_of parse db k period since rows) = profile_percentile (pg_latencies (aggregate_api_key_profile parse db rows)) P50"
    "kf_p95 (key_profile_of parse db k period since rows) = profile_percentile (pg_latencies (aggregate_api_key_profile parse db rows)) P95"
    "kf_key (key_profile_of parse db k period since rows) = k"
  by (simp_all add: key_profile_of_def Let_def)

text \<open>
  C24. A key profile accounts for every request of its key: the sample is the rows of
  that key and project in the window; successes and failures add up to it; each of the
  six breakdowns is the histogram of its column, so its counts add up to it too; the
  success rate is between 0 and 1; the token and cost totals are those of the rows; and the
  median latency and the 95th percentile are latencies that occurred, in this order.
\<close>

theorem key_profile_accounts_for_every_request:
  assumes "get_api_key_profile env parse cx key_id query db logs = Inr p"
  shows "\<exists>since rows. range_since (ke_now env) (unwrap_or query ''7d'') = Inr since \<and>
     mset rows = {# r \<in># mset logs. ul_project_id (row_ids r) = Some (cx_project_id cx) \<and> ul_key_id (row_ids r) = Some key_id \<and> within_range since r #} \<and>
     ak_id (kf_key p) = key_id \<and> ak_project_id (kf_key p) = cx_project_id cx \<and>
     kf_sample_count p = int (length rows) \<and> kf_successful p + kf_failed p = kf_sample_count p \<and>
     0 \<le> kf_successful p \<and> 0 \<le> kf_failed p \<and>
     histogram (row_tier parse) rows (pg_difficulty_tiers (kf_aggregation p)) \<and>
     histogram (\<lambda>r. profile_difficulty_source parse (ul_routing_decision (row_settlement r))) rows (pg_difficulty_sources (kf_aggregation p)) \<and>
     histogram (row_provider (sd_cat db)) rows (pg_providers (kf_aggregation p)) \<and>
     histogram (\<lambda>r. ul_usage_source (row_settlement r)) rows (pg_usage_sources (kf_aggregation p)) \<and>
     histogram (\<lambda>r. ul_usage_confidence (row_settlement r)) rows (pg_usage_confidences (kf_aggregation p)) \<and>
     histogram (\<lambda>r. ul_pricing_source (row_settlement r)) rows (pg_pricing_sources (kf_aggregation p)) \<and>
     pg_total_tokens (kf_aggregation p) = (\<Sum>r\<leftarrow>rows. ul_total_tokens (row_tokens r)) \<and>
     pg_total_cost (kf_aggregation p) = sum_cost rows \<and>
     (\<forall>x. kf_success_rate p = Some x \<longrightarrow> 0 \<le> x \<and> x \<le> 1) \<and>
     (\<forall>x y. kf_p50 p = Some x \<and> kf_p95 p = Some y \<longrightarrow> x \<le> y \<and>
        (\<exists>r \<in> set rows. x = f64_of_int (ul_latency_ms (row_tokens r))) \<and> (\<exists>r \<in> set rows. y = f64_of_int (ul_latency_ms (row_tokens r))))"
proof -
  let ?period = "unwrap_or query ''7d''"
  obtain since k where since: "range_since (ke_now env) ?period = Inr since"
    and k: "find (\<lambda>k. ak_id k = key_id \<and> ak_project_id k = cx_project_id cx) (ct_api_keys (sd_cat db)) = Some k"
    and p: "p = key_profile_of parse (sd_cat db) k ?period since (key_rows cx key_id since logs)"
    using assms unfolding get_api_key_profile_def Let_def by (auto split: sum.splits if_splits option.splits)
  let ?rows = "key_rows cx key_id since logs" and ?db = "sd_cat db"
  let ?g = "aggregate_api_key_profile parse ?db ?rows"
  have own: "ak_id k = key_id" "ak_project_id k = cx_project_id cx" using k by (auto simp: find_Some_iff)
  have rows: "mset ?rows = {# r \<in># mset logs. ul_project_id (row_ids r) = Some (cx_project_id cx) \<and> ul_key_id (row_ids r) = Some key_id \<and> within_range since r #}"
    by (simp add: key_rows_def oldest_first_def mset_sort_by)
  have count: "0 \<le> pg_successful_count ?g" "pg_successful_count ?g \<le> int (length ?rows)"
    by (simp_all add: aggregated_figures)
  have rate: "0 \<le> x \<and> x \<le> 1" if "kf_success_rate p = Some x" for x
    using that share_bounds [OF count] unfolding p profile_of_parts by (auto simp: profile_rate_def split: if_splits)
  have percentiles: "x \<le> y \<and> (\<exists>r \<in> set ?rows. x = f64_of_int (ul_latency_ms (row_tokens r))) \<and>
      (\<exists>r \<in> set ?rows. y = f64_of_int (ul_latency_ms (row_tokens r)))"
    if "kf_p50 p = Some x \<and> kf_p95 p = Some y" for x y
  proof -
    have xy: "profile_percentile (map (\<lambda>r. ul_latency_ms (row_tokens r)) ?rows) P50 = Some x"
      "profile_percentile (map (\<lambda>r. ul_latency_ms (row_tokens r)) ?rows) P95 = Some y"
      using that unfolding p profile_of_parts aggregated_figures by simp_all
    have "P50 \<le> P95" unfolding P50_def P95_def by (intro rnd_mono) simp
    then show ?thesis using percentile_mono [OF xy] percentile_member [OF xy(1)] percentile_member [OF xy(2)] by auto
  qed
  show ?thesis
    unfolding p profile_of_parts
    by (rule exI [of _ since], rule exI [of _ ?rows])
       (intro conjI since rows own count allI impI rate [unfolded p profile_of_parts] percentiles [unfolded p profile_of_parts] tallied
          aggregated_figures,
        simp_all add: aggregation_defs count)
qed

text \<open>
  The profile reads what the pipeline recorded: from the routing decision a chat
  request was logged with, parsed to an object with the same members in any order, the
  profile takes the difficulty tier of the request, whether the judge decided it, and
  whether it carried tools.
\<close>

theorem profile_reads_the_recorded_decision:
  assumes "parse raw = Some (Object ps)" "\<And>k. map_of ps k = jget k (routing_decision i)"
  shows "profile_difficulty_tier parse (Some raw) = Some (tier_as_str (difficulty_tier_of (di_difficulty i))) \<and>
     profile_difficulty_source parse (Some raw) = (if di_difficulty_source i = ''judge'' then ''judge'' else ''heuristic'') \<and>
     profile_json_flag parse [Some raw, None] ''has_tools'' = rg_has_tools (di_signals i)"
proof -
  have tier: "tier_as_str t \<in> {''low'', ''medium'', ''high''}" for t by (cases t) simp_all
  have get: "profile_json_value ''difficulty_tier'' (Object ps) = Some (String (tier_as_str (difficulty_tier_of (di_difficulty i))))"
    "profile_json_value ''difficulty_source'' (Object ps) = Some (String (di_difficulty_source i))"
    "profile_json_value ''has_tools'' (Object ps) = Some (Bool (rg_has_tools (di_signals i)))"
    by (simp_all add: assms(2) routing_decision_def)
  show ?thesis
    unfolding profile_difficulty_tier_def profile_difficulty_source_def profile_json_flag_def
    using tier [of "difficulty_tier_of (di_difficulty i)"] by (simp add: assms(1) get item_is_true_def del: profile_json_value.simps)
qed

section \<open>Witnesses\<close>

lemma demo_key_rows: "key_rows demo_cx ''k'' None [(3, demo_usage_row)] = [(3, demo_usage_row)]"
  by (simp add: key_rows_def oldest_first_def within_range_def row_ids_def demo_usage_row_def demo_cx_def sort_by_def)

theorem key_profile_accounts_for_every_request_witness:
  "\<exists>p. get_api_key_profile demo_key_env (\<lambda>_. None) demo_cx ''k'' (Some ''all'') demo_key_db [(3, demo_usage_row)] = Inr p \<and>
     kf_successful p + kf_failed p = kf_sample_count p"
proof -
  have "get_api_key_profile demo_key_env (\<lambda>_. None) demo_cx ''k'' (Some ''all'') demo_key_db [(3, demo_usage_row)] =
      Inr (key_profile_of (\<lambda>_. None) demo_catalog (hd (ct_api_keys demo_catalog)) ''all'' None [(3, demo_usage_row)])"
    unfolding get_api_key_profile_def Let_def unwrap_or_simps
    using demo_key_rows by (simp add: range_since_def demo_key_simps demo_catalog_simps)
  from key_profile_accounts_for_every_request [OF this] this show ?thesis by blast
qed

definition demo_decision :: decision_input where
  "demo_decision = \<lparr>di_protocol = ChatOpenAi, di_strategy = ''cost_aware'', di_signals = \<lparr>rg_prompt_text = ''hi'', rg_input_tokens = 1,
       rg_output_tokens = 1, rg_difficulty = 1 / 2, rg_has_tools = True, rg_signals = []\<rparr>, di_difficulty = 1 / 2,
     di_difficulty_source = ''judge'', di_judge_used = True, di_prompt_preview = [], 
     di_budget = \<lparr>bg_outcome = Budget.evaluate 0 None, bg_spent = 0, bg_limit = None, bg_downshift = False\<rparr>, di_candidates = [],
     di_slim = demo_slim, di_affinity = demo_affinity, di_warm_active = False\<rparr>"

theorem profile_reads_the_recorded_decision_witness:
  "profile_difficulty_source (\<lambda>_. Some (routing_decision demo_decision)) (Some ''x'') = ''judge'' \<and>
   profile_json_flag (\<lambda>_. Some (routing_decision demo_decision)) [Some ''x'', None] ''has_tools''"
proof -
  obtain ps where ps: "routing_decision demo_decision = Object ps" by (simp add: routing_decision_def)
  then have "(\<lambda>_ :: string. Some (routing_decision demo_decision)) ''x'' = Some (Object ps)"
    "map_of ps k = jget k (routing_decision demo_decision)" for k by simp_all
  from profile_reads_the_recorded_decision [OF this] show ?thesis by (simp add: demo_decision_def del: profile_json_value.simps)
qed

end
