(* ===== verification/Routing_Analytics.thy ===== *)
theory Routing_Analytics
  imports Usage_Overview Key_Profile
begin

text \<open>
  saas/analytics.rs, get\_routing\_analytics: the newest requests of an organization with the
  difficulty, signals and candidates recorded for them, and their totals. The JSON parser
  and Unicode lower case are parameters; a timestamp is not formatted. The name of a
  model is sliced by bytes, so the handler can panic.
\<close>

section \<open>One row\<close>

definition service_name_of :: "catalog \<Rightarrow> nat \<times> usage_row \<Rightarrow> string" where
  "service_name_of db r = (case row_model db r of None \<Rightarrow> ''default'' | Some vm \<Rightarrow> vm_name vm)"

definition model_of :: "catalog \<Rightarrow> nat \<times> usage_row \<Rightarrow> string" where
  "model_of db r = (case row_endpoint db r of None \<Rightarrow> ''unknown'' | Some e \<Rightarrow> er_upstream_model_id e)"

definition provider_name_of :: "catalog \<Rightarrow> nat \<times> usage_row \<Rightarrow> string" where
  "provider_name_of db r = (case row_account db r of None \<Rightarrow> ''unknown'' | Some a \<Rightarrow> pa_name a)"

definition is_pro :: "(string \<Rightarrow> string) \<Rightarrow> string list \<Rightarrow> string \<Rightarrow> bool" where
  "is_pro lower families model = contains_any (lower model) families"

definition PRO_FAMILIES :: "string list" where
  "PRO_FAMILIES = [''pro'', ''reasoner'', ''opus'', ''sonnet'', ''gpt-4'']"

text \<open>A name of the form uuid, dash, name is shown without the uuid.\<close>

definition clean_service_name :: "string \<Rightarrow> string run" where
  "clean_service_name s = (let cs = utf8_chars s in
     if 37 < length s \<and> 36 < length cs \<and> cs ! 36 = ''-'' then slice_from s 37 else Returns s)"

record shown_candidate =
  sc_model :: string
  sc_capability :: "f64 option"
  sc_excluded :: bool
  sc_exclusion_reason :: string

definition as_bool :: "json \<Rightarrow> bool option" where
  "as_bool v = (case v of Bool b \<Rightarrow> Some b | _ \<Rightarrow> None)"

definition shown_candidate_of :: "(string \<rightharpoonup> string) \<Rightarrow> json \<Rightarrow> shown_candidate" where
  "shown_candidate_of names item = (let i = unwrap_or (jget_str ''endpoint_id'' item) [] in
     \<lparr>sc_model = unwrap_or (names i) i, sc_capability = Option.bind (jget ''capability'' item) as_f64,
      sc_excluded = unwrap_or (Option.bind (jget ''excluded'' item) as_bool) False,
      sc_exclusion_reason = unwrap_or (jget_str ''exclusion_reason'' item) []\<rparr>)"

record routed_query =
  ry_row :: "nat \<times> usage_row"
  ry_service_name :: string
  ry_model :: string
  ry_provider_name :: string
  ry_strategy :: string
  ry_difficulty :: f64
  ry_tier :: string
  ry_prompt_preview :: string
  ry_signals :: "string list"
  ry_attempts :: "string list"
  ry_fallback_used :: bool
  ry_candidates :: "shown_candidate list"

record routing_env =
  ra_ok :: statements
  ra_now :: nat
  ra_parse :: "string \<Rightarrow> json option"
  ra_lower :: "string \<Rightarrow> string"

definition json_strings :: "json \<Rightarrow> string list" where
  "json_strings v = List.map_filter as_str (unwrap_or (as_array v) [])"

definition decision_of :: "routing_env \<Rightarrow> nat \<times> usage_row \<Rightarrow> json" where
  "decision_of env r = unwrap_or (Option.bind (ul_routing_decision (row_settlement r)) (ra_parse env)) Null"

definition recorded_difficulty :: "json \<Rightarrow> f64 option" where
  "recorded_difficulty d = Option.bind (jget ''difficulty'' d) as_f64"

definition row_difficulty :: "bool \<Rightarrow> json \<Rightarrow> f64" where
  "row_difficulty pro d = unwrap_or (recorded_difficulty d) (if pro then rnd (85 / 100) else rnd (20 / 100))"

definition row_difficulty_tier :: "bool \<Rightarrow> json \<Rightarrow> string" where
  "row_difficulty_tier pro d = (case recorded_difficulty d of
     Some x \<Rightarrow> tier_as_str (difficulty_tier_of x) | None \<Rightarrow> if pro then ''high'' else ''low'')"

definition row_signals :: "bool \<Rightarrow> int \<Rightarrow> json \<Rightarrow> string list" where
  "row_signals pro prompt_tokens d =
     (let recorded = (case jget ''signals'' d of None \<Rightarrow> [] | Some v \<Rightarrow> json_strings v) in
      if recorded \<noteq> [] then recorded
      else if pro then [''Complex reasoning''] else if 4000 < prompt_tokens then [''Long context''] else [''General query''])"

text \<open>The endpoints tried, from the metadata of the row.\<close>

definition row_attempts :: "routing_env \<Rightarrow> nat \<times> usage_row \<Rightarrow> string list" where
  "row_attempts env r =
     (case Option.bind (ra_parse env (ul_metadata (row_settlement r))) (jget_str ''attempts'') of
        None \<Rightarrow> [] | Some v \<Rightarrow> filter (\<lambda>s. s \<noteq> []) (split_on (CHR '','') v))"

definition routed_query_of :: "routing_env \<Rightarrow> catalog \<Rightarrow> (string \<rightharpoonup> string) \<Rightarrow> nat \<times> usage_row \<Rightarrow> routed_query run" where
  "routed_query_of env db names r = run_map (\<lambda>service.
     let model = model_of db r; pro = is_pro (ra_lower env) PRO_FAMILIES model; d = decision_of env r;
         prompt = ul_prompt_tokens (row_tokens r); preview = unwrap_or (jget_str ''prompt_preview'' d) [] in
     \<lparr>ry_row = r, ry_service_name = service, ry_model = model, ry_provider_name = provider_name_of db r,
      ry_strategy = unwrap_or (ul_routing_strategy (row_settlement r)) ''capability_aware'',
      ry_difficulty = fdiv (fround (fmul (row_difficulty pro d) 100)) 100, ry_tier = row_difficulty_tier pro d,
      ry_prompt_preview = (if preview = [] then show_int prompt @ '' tokens query via '' @ service else preview),
      ry_signals = row_signals pro prompt d, ry_attempts = row_attempts env r,
      ry_fallback_used = 1 < length (row_attempts env r),
      ry_candidates = (case Option.bind (jget ''candidates'' d) as_array of
         None \<Rightarrow> [] | Some items \<Rightarrow> map (shown_candidate_of names) items)\<rparr>) (clean_service_name (service_name_of db r))"

fun run_each :: "('a \<Rightarrow> 'b run) \<Rightarrow> 'a list \<Rightarrow> 'b list run" where
  "run_each f [] = Returns []"
| "run_each f (x # xs) = (case f x of Panics \<Rightarrow> Panics | Returns y \<Rightarrow> run_map (\<lambda>ys. y # ys) (run_each f xs))"

section \<open>The handler\<close>

record routing_summary =
  rs_total_queries :: nat
  rs_high :: nat
  rs_medium :: nat
  rs_low :: nat
  rs_pro :: nat
  rs_flash :: nat
  rs_total_cost :: f64
  rs_estimated_savings :: f64
  rs_average_latency :: int
  rs_total_tokens :: int

definition round_i64 :: "f64 \<Rightarrow> int" where "round_i64 x = \<lfloor>fround x\<rfloor>"

definition routing_summary_of :: "routing_env \<Rightarrow> usage_log \<Rightarrow> routed_query list \<Rightarrow> routing_summary" where
  "routing_summary_of env rows qs =
     (let pro = length (filter (\<lambda>q. is_pro (ra_lower env) PRO_FAMILIES (ry_model q)) qs);
          flash = length (filter (\<lambda>q. \<not> is_pro (ra_lower env) PRO_FAMILIES (ry_model q)) qs);
          latency = sum_rows (\<lambda>r. ul_latency_ms (row_tokens r)) rows in
      \<lparr>rs_total_queries = length rows, rs_high = length (filter (\<lambda>q. ry_tier q = ''high'') qs),
       rs_medium = length (filter (\<lambda>q. ry_tier q = ''medium'') qs),
       rs_low = length (filter (\<lambda>q. ry_tier q \<noteq> ''high'' \<and> ry_tier q \<noteq> ''medium'') qs),
       rs_pro = pro, rs_flash = flash, rs_total_cost = sum_cost rows,
       rs_estimated_savings = fmul (f64_of_nat flash) (rnd (2 / 1000)),
       rs_average_latency = (if rows = [] then 0 else round_i64 (fdiv (f64_of_int latency) (f64_of_nat (length rows)))),
       rs_total_tokens = sum_rows (\<lambda>r. ul_total_tokens (row_tokens r)) rows\<rparr>)"

text \<open>The names of the organization's endpoints; a failed lookup leaves them out.\<close>

definition endpoint_names :: "bool \<Rightarrow> saas_db \<Rightarrow> string \<Rightarrow> string \<rightharpoonup> string" where
  "endpoint_names answers db org = (if answers
     then map_of (map (\<lambda>e. (er_id e, er_upstream_model_id e))
       (filter (\<lambda>e. sd_account_org db (er_account_id e) = Some org) (ct_endpoints (sd_cat db))))
     else Map.empty)"

definition get_routing_analytics ::
    "routing_env \<Rightarrow> saas_context \<Rightarrow> string option \<Rightarrow> saas_db \<Rightarrow> usage_log \<Rightarrow> (routing_summary \<times> routed_query list) api run" where
  "get_routing_analytics env cx query db logs =
     (case range_since (ra_now env) (unwrap_or query ''24h'') of Inl e \<Rightarrow> Returns (Inl e) | Inr since \<Rightarrow>
      if \<not> ra_ok env ''logs'' then Returns (Inl db_error)
      else let rows = take 100 (newest_first (org_rows (sd_cat db) (cx_org_id cx) since logs)) in
      run_map (\<lambda>qs. Inr (routing_summary_of env rows qs, qs))
        (run_each (routed_query_of env (sd_cat db) (endpoint_names (ra_ok env ''endpoints'') db (cx_org_id cx))) rows))"

section \<open>Lemmas\<close>

lemma run_map_Returns: "run_map f r = Returns y \<longleftrightarrow> (\<exists>x. r = Returns x \<and> y = f x)"
  by (cases r) (auto simp: run_map_def)

lemma map_run_Returns: "run_each f xs = Returns ys \<longleftrightarrow> list_all2 (\<lambda>x y. f x = Returns y) xs ys"
  by (induction xs arbitrary: ys) (auto simp: run_map_Returns list_all2_Cons1 split: run.splits)

lemma map_run_total: "(\<And>x. x \<in> set xs \<Longrightarrow> \<exists>y. f x = Returns y) \<Longrightarrow> \<exists>ys. run_each f xs = Returns ys"
proof (induction xs)
  case (Cons x xs)
  then obtain y ys where "f x = Returns y" "run_each f xs = Returns ys" by fastforce
  then show ?case by (simp add: run_map_def)
qed simp

lemma routed_query_row:
  assumes "routed_query_of env db names r = Returns q"
  shows "ry_row q = r" "ry_model q = model_of db r"
    "ry_tier q = row_difficulty_tier (is_pro (ra_lower env) PRO_FAMILIES (model_of db r)) (decision_of env r)"
    "ry_fallback_used q \<longleftrightarrow> 1 < length (ry_attempts q)"
  using assms by (auto simp: routed_query_of_def run_map_Returns Let_def)

lemma row_difficulty_tier_cases: "row_difficulty_tier pro d \<in> {''high'', ''medium'', ''low''}"
proof -
  have "tier_as_str t \<in> {''high'', ''medium'', ''low''}" for t by (cases t) simp_all
  then show ?thesis by (simp add: row_difficulty_tier_def split: option.split)
qed

lemma filter_partition3:
  "(\<And>x. x \<in> set xs \<Longrightarrow> f x \<in> {a, b, c}) \<Longrightarrow> a \<noteq> b \<Longrightarrow>
   length (filter (\<lambda>x. f x = a) xs) + length (filter (\<lambda>x. f x = b) xs) + length (filter (\<lambda>x. f x \<noteq> a \<and> f x \<noteq> b) xs) = length xs"
  by (induction xs) auto

lemma clean_service_name_ascii: "ascii s \<Longrightarrow> \<exists>t. clean_service_name s = Returns t"
  by (auto simp: clean_service_name_def Let_def slice_from_ascii)

lemma newest_first_sorted: "sorted_wrt (\<lambda>a b. fst b \<le> fst a) (newest_first rows)"
proof -
  have "sorted (map (\<lambda>r. - int (fst r)) (newest_first rows))"
    unfolding newest_first_def by (rule sorted_sort_by) (auto simp: cmp_of_def split: if_splits)
  then show ?thesis by (simp add: sorted_map)
qed

lemma list_all2_rows:
  assumes "list_all2 (\<lambda>r q. routed_query_of env db names r = Returns q) rows qs"
  shows "map ry_row qs = rows"
  using assms by (induction rule: list_all2_induct) (auto dest: routed_query_row(1))

definition shown_rows :: "saas_context \<Rightarrow> int option \<Rightarrow> saas_db \<Rightarrow> usage_log \<Rightarrow> usage_log" where
  "shown_rows cx since db logs = take 100 (newest_first (org_rows (sd_cat db) (cx_org_id cx) since logs))"

lemma get_routing_analytics_Inr:
  assumes "get_routing_analytics env cx query db logs = Returns (Inr (s, qs))"
  obtains since where
    "run_each (routed_query_of env (sd_cat db) (endpoint_names (ra_ok env ''endpoints'') db (cx_org_id cx))) (shown_rows cx since db logs) = Returns qs"
    "s = routing_summary_of env (shown_rows cx since db logs) qs"
proof (cases "range_since (ra_now env) (unwrap_or query ''24h'')")
  case (Inl e)
  then show ?thesis using assms by (simp add: get_routing_analytics_def)
next
  case (Inr since)
  have ok: "ra_ok env ''logs''" using assms Inr by (cases "ra_ok env ''logs''") (simp_all add: get_routing_analytics_def)
  have "run_map (\<lambda>qs. Inr (routing_summary_of env (shown_rows cx since db logs) qs, qs))
        (run_each (routed_query_of env (sd_cat db) (endpoint_names (ra_ok env ''endpoints'') db (cx_org_id cx))) (shown_rows cx since db logs)) =
      Returns (Inr (s, qs) :: (routing_summary \<times> routed_query list) api)"
    using assms unfolding get_routing_analytics_def Inr sum.case Let_def shown_rows_def by (simp only: ok not_True_eq_False if_False)
  then show ?thesis using that unfolding run_map_Returns by auto
qed

lemma shown_rows_facts:
  "length (shown_rows cx since db logs) \<le> 100" "sorted_wrt (\<lambda>a b. fst b \<le> fst a) (shown_rows cx since db logs)"
  "r \<in> set (shown_rows cx since db logs) \<Longrightarrow> r \<in> set logs \<and> of_org (sd_cat db) (cx_org_id cx) r"
  using newest_first_sorted sorted_wrt_take
  by (simp add: shown_rows_def, simp add: shown_rows_def,
      auto simp: shown_rows_def newest_first_def org_rows_def dest!: in_set_takeD)

lemma routed_rows:
  assumes "run_each (routed_query_of env db names) rows = Returns qs"
  shows "map ry_row qs = rows" "q \<in> set qs \<Longrightarrow> routed_query_of env db names (ry_row q) = Returns q"
proof -
  have all2: "list_all2 (\<lambda>r q. routed_query_of env db names r = Returns q) rows qs"
    using assms by (simp only: map_run_Returns)
  then show rows: "map ry_row qs = rows" by (rule list_all2_rows)
  show "routed_query_of env db names (ry_row q) = Returns q" if mem: "q \<in> set qs"
  proof -
    obtain j where j: "j < length qs" "qs ! j = q" using mem unfolding in_set_conv_nth by blast
    then have "routed_query_of env db names (rows ! j) = Returns q" using all2 by (auto simp: list_all2_conv_all_nth)
    then show ?thesis using routed_query_row(1) by simp
  qed
qed

lemma summary_counts:
  assumes "\<And>q. q \<in> set qs \<Longrightarrow> ry_tier q \<in> {''high'', ''medium'', ''low''}"
  shows "rs_high (routing_summary_of env rows qs) + rs_medium (routing_summary_of env rows qs) + rs_low (routing_summary_of env rows qs) = length qs"
    "rs_pro (routing_summary_of env rows qs) + rs_flash (routing_summary_of env rows qs) = length qs"
  using filter_partition3 [of qs ry_tier, OF assms]
    sum_length_filter_compl [of "\<lambda>q. is_pro (ra_lower env) PRO_FAMILIES (ry_model q)" qs]
  by (simp_all add: routing_summary_of_def Let_def)

section \<open>Properties\<close>


text \<open>
  The routing report always answers when the names of the Virtual Models are ASCII:
  whatever the rows and the recorded JSON hold, the handler returns a report or an error
  status and never panics.
\<close>

theorem routing_report_answers_for_ascii_names:
  assumes "list_all (\<lambda>vm. ascii (vm_name vm)) (ct_virtual_models (sd_cat db))"
  shows "\<exists>answer. get_routing_analytics env cx query db logs = Returns answer"
proof -
  have names: "ascii (service_name_of (sd_cat db) r)" for r
  proof (cases "row_model (sd_cat db) r")
    case None
    then show ?thesis by (simp add: service_name_of_def ascii_def byte_def)
  next
    case (Some vm)
    then have "vm \<in> set (ct_virtual_models (sd_cat db))" unfolding row_model_def find_Some_iff by auto
    then show ?thesis using assms Some by (simp add: service_name_of_def list_all_iff)
  qed
  have "\<exists>q. routed_query_of env (sd_cat db) ns r = Returns q" for ns r
  proof -
    obtain t where "clean_service_name (service_name_of (sd_cat db) r) = Returns t"
      using clean_service_name_ascii [OF names] by blast
    then show ?thesis by (simp add: routed_query_of_def run_map_def)
  qed
  then have "\<exists>qs. run_each (routed_query_of env (sd_cat db) ns) rows = Returns qs" for ns rows
    by (intro map_run_total) blast
  then have "\<exists>answer. run_map f (run_each (routed_query_of env (sd_cat db) ns) rows) = Returns answer" for f ns rows
    unfolding run_map_Returns by blast
  then show ?thesis unfolding get_routing_analytics_def Let_def by (cases "range_since (ra_now env) (unwrap_or query ''24h'')") auto
qed

text \<open>The slice counts characters in its test and bytes in its offset: 36 Chinese characters, a dash and a letter.\<close>

lemma non_ascii_name_panics:
  "clean_service_name (concat (replicate 36 [CHR 0xE4, CHR 0xB8, CHR 0xAD]) @ ''-x'') = Panics"
  by code_simp

section \<open>Witnesses\<close>

definition demo_routing_env :: routing_env where
  "demo_routing_env = \<lparr>ra_ok = (\<lambda>_. True), ra_now = 9, ra_parse = (\<lambda>_. None), ra_lower = (\<lambda>s. s)\<rparr>"

lemma demo_names_ascii: "list_all (\<lambda>vm. ascii (vm_name vm)) (ct_virtual_models (sd_cat demo_key_db))"
  by (simp add: demo_key_simps demo_catalog_simps ascii_def byte_def)

theorem routing_report_answers_for_ascii_names_witness:
  "\<exists>answer. get_routing_analytics demo_routing_env demo_cx (Some ''all'') demo_key_db [(3, demo_usage_row)] = Returns answer"
  using routing_report_answers_for_ascii_names [OF demo_names_ascii] by blast

lemma demo_shown_rows: "shown_rows demo_cx None demo_key_db [(3, demo_usage_row)] = [(3, demo_usage_row)]"
  by (simp add: shown_rows_def org_rows_def of_org_def within_range_def row_ids_def demo_usage_row_def demo_key_simps demo_catalog_simps
      newest_first_def sort_by_def)


end
