(* ===== verification/Quality_Analytics.thy ===== *)
theory Quality_Analytics
  imports Savings Routing_Analytics
begin

text \<open>
  saas/analytics.rs, the quality report: the newest hundred requests of the organization, counted once
  for all of them and once for those the baseline endpoint served; the rates of the rest; the
  agreement of the mirrored requests; and the cache health of long sessions. Printed names and
  the JSON layout are left out.
\<close>

section \<open>One row\<close>

record quality_env =
  qe_routing :: routing_env
  qe_savings :: savings_env
  qe_groups :: "string list \<Rightarrow> string list"   \<comment> \<open>the order a GROUP BY yields its groups in\<close>

definition QUALITY_FAMILIES :: "string list" where
  "QUALITY_FAMILIES = [''pro'', ''reasoner'', ''opus'', ''sonnet'', ''max'', ''gpt-4'']"

definition model_and_endpoint :: "catalog \<Rightarrow> nat \<times> usage_row \<Rightarrow> string \<times> string" where
  "model_and_endpoint db r =
     ((case row_model db r of None \<Rightarrow> [] | Some vm \<Rightarrow> vm_id vm), (case row_endpoint db r of None \<Rightarrow> [] | Some e \<Rightarrow> er_id e))"

definition recorded_signals :: "json \<Rightarrow> string list" where
  "recorded_signals d = (case jget ''signals'' d of None \<Rightarrow> [] | Some v \<Rightarrow> json_strings v)"

definition recorded_correction :: "json \<Rightarrow> bool" where
  "recorded_correction d = list_ex (\<lambda>s. contains_any s [''Correction'', ''Follow-up'', ''Clarification'']) (recorded_signals d)"

definition row_status :: "nat \<times> usage_row \<Rightarrow> int" where "row_status r = ul_status_code (row_settlement r)"
definition row_latency :: "nat \<times> usage_row \<Rightarrow> int" where "row_latency r = ul_latency_ms (row_tokens r)"
definition has_schema :: "nat \<times> usage_row \<Rightarrow> bool" where "has_schema r \<longleftrightarrow> 0 < ul_tool_message_chars (row_tokens r)"

datatype verdict = Error | Escalated | Completed

definition verdict_of :: "int \<Rightarrow> bool \<Rightarrow> verdict" where
  "verdict_of status correction = (if \<not> succeeded status then Error else if correction then Escalated else Completed)"

record quality_record =
  qr_row :: "nat \<times> usage_row"
  qr_service_name :: string
  qr_model :: string
  qr_provider_name :: string
  qr_status :: int
  qr_prompt_preview :: string
  qr_verdict :: verdict
  qr_is_baseline :: bool

definition quality_record_of :: "routing_env \<Rightarrow> catalog \<Rightarrow> (string \<times> string) option \<Rightarrow> nat \<times> usage_row \<Rightarrow> quality_record" where
  "quality_record_of env db baseline r = (let d = decision_of env r in
     \<lparr>qr_row = r, qr_service_name = map (\<lambda>c. if c = CHR ''-'' then CHR ''-'' else c) (service_name_of db r),
      qr_model = model_of db r, qr_provider_name = provider_name_of db r, qr_status = row_status r,
      qr_prompt_preview = unwrap_or (jget_str ''prompt_preview'' d) [],
      qr_verdict = verdict_of (row_status r) (recorded_correction d),
      qr_is_baseline = (baseline = Some (model_and_endpoint db r))\<rparr>)"

section \<open>Counting\<close>

text \<open>The counters kept for all rows and, a second time, for the baseline's.\<close>

record quality_side =
  qs_queries :: nat
  qs_cost :: f64
  qs_latency :: int
  qs_latencies :: "int list"
  qs_corrections :: nat
  qs_successes :: nat
  qs_schema_requests :: nat
  qs_schema_successes :: nat

definition no_side :: quality_side where
  "no_side = \<lparr>qs_queries = 0, qs_cost = 0, qs_latency = 0, qs_latencies = [], qs_corrections = 0, qs_successes = 0,
     qs_schema_requests = 0, qs_schema_successes = 0\<rparr>"

definition count_that :: "bool \<Rightarrow> nat \<Rightarrow> nat" where "count_that b n = (if b then n + 1 else n)"

definition add_side :: "routing_env \<Rightarrow> quality_side \<Rightarrow> nat \<times> usage_row \<Rightarrow> quality_side" where
  "add_side env s r =
     \<lparr>qs_queries = qs_queries s + 1, qs_cost = fadd (qs_cost s) (ul_estimated_cost (row_settlement r)),
      qs_latency = qs_latency s + row_latency r, qs_latencies = qs_latencies s @ [row_latency r],
      qs_corrections = count_that (recorded_correction (decision_of env r)) (qs_corrections s),
      qs_successes = count_that (row_status r = 200) (qs_successes s),
      qs_schema_requests = count_that (has_schema r) (qs_schema_requests s),
      qs_schema_successes = count_that (has_schema r \<and> row_status r = 200) (qs_schema_successes s)\<rparr>"

record quality_totals =
  qt_all :: quality_side
  qt_baseline :: quality_side
  qt_pro :: nat
  qt_flash :: nat

definition no_totals_yet :: quality_totals where
  "no_totals_yet = \<lparr>qt_all = no_side, qt_baseline = no_side, qt_pro = 0, qt_flash = 0\<rparr>"

definition count_quality :: "routing_env \<Rightarrow> catalog \<Rightarrow> (string \<times> string) option \<Rightarrow> quality_totals \<Rightarrow> nat \<times> usage_row \<Rightarrow> quality_totals" where
  "count_quality env db baseline t r =
     (let pro = is_pro (ra_lower env) QUALITY_FAMILIES (model_of db r) in
     \<lparr>qt_all = add_side env (qt_all t) r,
      qt_baseline = (if baseline = Some (model_and_endpoint db r) then add_side env (qt_baseline t) r else qt_baseline t),
      qt_pro = count_that pro (qt_pro t), qt_flash = count_that (\<not> pro) (qt_flash t)\<rparr>)"

section \<open>Rates\<close>

text \<open>Percentages with one decimal.\<close>

definition one_decimal :: "f64 \<Rightarrow> f64" where "one_decimal x = fdiv (fround (fmul x 10)) 10"

definition percent :: "nat \<Rightarrow> nat \<Rightarrow> f64" where "percent n d = fmul (fdiv (f64_of_nat n) (f64_of_nat d)) 100"

definition percentage :: "nat \<Rightarrow> nat \<Rightarrow> f64 option" where
  "percentage n d = (if 0 < d then Some (one_decimal (percent n d)) else None)"

definition average_cost :: "f64 \<Rightarrow> nat \<Rightarrow> f64 option" where
  "average_cost cost n = (if 0 < n then Some (fdiv (fround (fmul (fdiv cost (f64_of_nat n)) 10000)) 10000) else None)"

definition average_latency :: "int \<Rightarrow> nat \<Rightarrow> int option" where
  "average_latency latency n = (if 0 < n then Some (round_i64 (fdiv (f64_of_int latency) (f64_of_nat n))) else None)"

definition P90 :: f64 where "P90 = rnd (90 / 100)"

definition p90_latency :: "int list \<Rightarrow> int option" where
  "p90_latency values = map_option round_i64 (profile_percentile values P90)"

definition quality_preserved :: "nat \<Rightarrow> nat \<Rightarrow> nat \<Rightarrow> nat \<Rightarrow> f64 option" where
  "quality_preserved baseline_ok baseline_n ok n =
     (if 0 < baseline_n \<and> 0 < n then
        let baseline_rate = fdiv (f64_of_nat baseline_ok) (f64_of_nat baseline_n); rate = fdiv (f64_of_nat ok) (f64_of_nat n) in
        if 0 < baseline_rate then Some (one_decimal (fmul (fdiv rate baseline_rate) 100)) else None
      else None)"

definition speedup :: "int option \<Rightarrow> int option \<Rightarrow> f64 option" where
  "speedup baseline actual = (case (baseline, actual) of
     (Some b, Some a) \<Rightarrow> if 0 < b
        then Some (one_decimal (fmul (fdiv (fsub (f64_of_int b) (f64_of_int a)) (f64_of_int b)) 100)) else None
   | _ \<Rightarrow> None)"

section \<open>Mirrored requests and sessions\<close>

type_synonym shadow_log = "(nat \<times> shadow_row) list"

definition shadow_rows :: "saas_context \<Rightarrow> int option \<Rightarrow> shadow_log \<Rightarrow> shadow_log" where
  "shadow_rows cx since = filter (\<lambda>(time, s). sv_project_id s = cx_project_id cx \<and>
     (case since of None \<Rightarrow> True | Some t \<Rightarrow> t \<le> int time))"

definition shadow_agreement :: "shadow_log \<Rightarrow> f64 option" where
  "shadow_agreement rows = (if rows = [] then None
     else Some (one_decimal (fmul (fdiv (f64_of_int (\<Sum>(_, s)\<leftarrow>rows. sv_agreement s)) (f64_of_nat (length rows))) 100)))"

record session_health =
  sh_session_id :: string
  sh_turns :: nat
  sh_cache_hit_ratio :: f64
  sh_collapsed :: bool

definition session_rows :: "saas_context \<Rightarrow> int option \<Rightarrow> usage_log \<Rightarrow> usage_log" where
  "session_rows cx since = filter (\<lambda>r. ul_project_id (row_ids r) = Some (cx_project_id cx) \<and> within_range since r)"

definition of_session :: "string \<Rightarrow> usage_log \<Rightarrow> usage_log" where
  "of_session i = filter (\<lambda>r. ul_session_id (row_session r) = Some i)"

text \<open>GROUP BY the session, HAVING at least three turns, the longest first, LIMIT 20: id, turns, prompt and hit tokens.\<close>

definition session_groups :: "(string list \<Rightarrow> string list) \<Rightarrow> usage_log \<Rightarrow> (string \<times> nat \<times> int \<times> int) list" where
  "session_groups order rows = take 20 (sort_by (\<lambda>a b. cmp_of (fst (snd b)) (fst (snd a)))
     (filter (\<lambda>(_, turns, _). 3 \<le> turns)
       (map (\<lambda>i. let g = of_session i rows in (i, length g, sum_rows (\<lambda>r. ul_prompt_tokens (row_tokens r)) g,
             sum_rows (\<lambda>r. unwrap_or (hit_tokens r) 0) g))
         (order (remdups (List.map_filter (\<lambda>r. ul_session_id (row_session r)) rows))))))"

definition hit_ratio :: "int \<Rightarrow> int \<Rightarrow> f64" where
  "hit_ratio prompt hits = (if 0 < prompt then fmul (fdiv (f64_of_int hits) (f64_of_int prompt)) 100 else 0)"

definition session_health_of :: "string \<times> nat \<times> int \<times> int \<Rightarrow> session_health" where
  "session_health_of g = (case g of (i, turns, prompt, hits) \<Rightarrow>
     let ratio = if 0 < prompt then one_decimal (hit_ratio prompt hits) else 0 in
     \<lparr>sh_session_id = i, sh_turns = turns, sh_cache_hit_ratio = ratio, sh_collapsed = (ratio < 20)\<rparr>)"

definition average_session_ratio :: "(string \<times> nat \<times> int \<times> int) list \<Rightarrow> f64 option" where
  "average_session_ratio gs = (if gs = [] then None
     else Some (one_decimal (fdiv (foldl (\<lambda>s (_, _, prompt, hits). fadd s (hit_ratio prompt hits)) 0 gs) (f64_of_nat (length gs)))))"

section \<open>The report\<close>

record quality_figures =
  qf_cost_per_request :: "f64 option"
  qf_average_latency :: "int option"
  qf_p90_latency :: "int option"
  qf_success_rate :: "f64 option"
  qf_correction_rate :: "f64 option"
  qf_schema_rate :: "f64 option"

definition baseline_figures :: "quality_side \<Rightarrow> quality_figures" where
  "baseline_figures b =
     \<lparr>qf_cost_per_request = average_cost (qs_cost b) (qs_queries b), qf_average_latency = average_latency (qs_latency b) (qs_queries b),
      qf_p90_latency = p90_latency (qs_latencies b), qf_success_rate = percentage (qs_successes b) (qs_queries b),
      qf_correction_rate = percentage (qs_corrections b) (qs_queries b),
      qf_schema_rate = percentage (qs_schema_successes b) (qs_schema_requests b)\<rparr>"

text \<open>
  What the report calls SmartGate routing: counts without the baseline's, but cost, latency and the
  percentile of all rows.
\<close>

definition treatment_figures :: "quality_side \<Rightarrow> quality_side \<Rightarrow> nat \<Rightarrow> quality_figures" where
  "treatment_figures a b n =
     \<lparr>qf_cost_per_request = average_cost (qs_cost a) n, qf_average_latency = average_latency (qs_latency a) n,
      qf_p90_latency = p90_latency (qs_latencies a), qf_success_rate = percentage (qs_successes a - qs_successes b) n,
      qf_correction_rate = percentage (qs_corrections a - qs_corrections b) n,
      qf_schema_rate = percentage (qs_schema_successes a - qs_schema_successes b) (qs_schema_requests a - qs_schema_requests b)\<rparr>"

record quality_report =
  qp_total_queries :: nat
  qp_treatment_queries :: nat
  qp_totals :: quality_totals
  qp_routing :: quality_figures
  qp_baseline :: "(baseline_row \<times> quality_figures) option"
  qp_quality_preserved :: "f64 option"
  qp_cost_saved :: "f64 option"
  qp_speedup :: "f64 option"
  qp_shadow_agreement :: "f64 option"
  qp_records :: "quality_record list"
  qp_sessions :: "session_health list"
  qp_sessions_collapsed :: nat
  qp_average_session_ratio :: "f64 option"

definition quality_report_of ::
    "quality_env \<Rightarrow> catalog \<Rightarrow> baseline_row option \<Rightarrow> usage_log \<Rightarrow> shadow_log \<Rightarrow> usage_log \<Rightarrow> quality_report" where
  "quality_report_of env db config rows shadows sessions =
     (let baseline = map_option (\<lambda>b. (br_virtual_model_id b, br_endpoint_id b)) config;
          t = foldl (count_quality (qe_routing env) db baseline) no_totals_yet rows;
          a = qt_all t; b = qt_baseline t; n = length rows - qs_queries b;
          routing = treatment_figures a b n; figures = baseline_figures b;
          groups = session_groups (qe_groups env) sessions; health = map session_health_of groups in
      \<lparr>qp_total_queries = length rows, qp_treatment_queries = n, qp_totals = t, qp_routing = routing,
       qp_baseline = map_option (\<lambda>c. (c, figures)) config,
       qp_quality_preserved = quality_preserved (qs_successes b) (qs_queries b) (qs_successes a - qs_successes b) n,
       qp_cost_saved = (case config of None \<Rightarrow> None | Some _ \<Rightarrow> cost_saved_percentage (qs_cost b) (qs_cost a)),
       qp_speedup = speedup (qf_average_latency figures) (qf_average_latency routing),
       qp_shadow_agreement = shadow_agreement shadows,
       qp_records = map (quality_record_of (qe_routing env) db baseline) rows,
       qp_sessions = health, qp_sessions_collapsed = length (filter sh_collapsed health),
       qp_average_session_ratio = average_session_ratio groups\<rparr>)"

definition get_quality_analytics ::
    "quality_env \<Rightarrow> saas_context \<Rightarrow> string option \<Rightarrow> saas_db \<Rightarrow> usage_log \<Rightarrow> shadow_log \<Rightarrow> baselines
       \<Rightarrow> baselines \<times> quality_report api" where
  "get_quality_analytics env cx query db logs shadows bl =
     (let ok = ra_ok (qe_routing env) in
      case range_since (ra_now (qe_routing env)) (unwrap_or query ''24h'') of Inl e \<Rightarrow> (bl, Inl e) | Inr since \<Rightarrow>
      if \<not> ok ''logs'' then (bl, Inl db_error)
      else try_then (load_savings_baseline (qe_savings env) cx db bl) (\<lambda>config bl.
        if \<not> ok ''shadow'' \<or> \<not> ok ''sessions'' then (bl, Inl db_error)
        else (bl, Inr (quality_report_of env (sd_cat db) config (shown_rows cx since db logs)
          (shadow_rows cx since shadows) (session_rows cx since logs)))))"


section \<open>Lemmas\<close>

lemma fround_of_int [simp]: "fround (of_int n) = of_int n"
proof -
  have "\<lfloor>of_int n + 1 / 2 :: rat\<rfloor> = n" "\<lfloor>- of_int n + 1 / 2 :: rat\<rfloor> = - n" by linarith+
  then show ?thesis by (simp add: fround_def)
qed

lemma one_decimal_mono: "x \<le> y \<Longrightarrow> one_decimal x \<le> one_decimal y"
  unfolding one_decimal_def by (intro fdiv_mono fround_mono fmul_mono) simp_all

lemma one_decimal_ends: "one_decimal 0 = 0" "one_decimal 100 = 100"
  using fround_of_int [of 1000] fround_of_int [of 0] by (simp_all add: one_decimal_def fmul_def fdiv_def f64.numeral)

lemma one_decimal_bounds: "0 \<le> x \<Longrightarrow> x \<le> 100 \<Longrightarrow> 0 \<le> one_decimal x \<and> one_decimal x \<le> 100"
  using one_decimal_mono [of 0 x] one_decimal_mono [of x 100] by (simp add: one_decimal_ends)

lemma hundred_of_share: "0 \<le> x \<Longrightarrow> x \<le> 1 \<Longrightarrow> 0 \<le> fmul x 100 \<and> fmul x 100 \<le> 100"
  using fmul_mono [of 0 x 100] fmul_mono [of x 1 100] by (simp add: fmul_def f64.numeral)

lemma f64_of_nat_int: "f64_of_nat n = f64_of_int (int n)"
  by (simp add: f64_of_nat_def f64_of_int_def)

lemma percentage_bounds:
  assumes "percentage n d = Some x" "n \<le> d"
  shows "0 \<le> x \<and> x \<le> 100"
proof -
  have d: "0 < d" and x: "x = one_decimal (percent n d)" using assms(1) by (auto simp: percentage_def split: if_splits)
  have "0 \<le> fdiv (f64_of_nat n) (f64_of_nat d) \<and> fdiv (f64_of_nat n) (f64_of_nat d) \<le> 1"
    unfolding f64_of_nat_int using share_bounds [of "int n" "int d"] assms(2) d by simp
  then show ?thesis unfolding x percent_def by (intro one_decimal_bounds) (simp_all add: hundred_of_share)
qed

text \<open>What one side has counted after a list of rows.\<close>

lemma side_counts:
  "qs_queries (foldl (add_side env) s rows) = qs_queries s + length rows"
  "qs_corrections (foldl (add_side env) s rows) = qs_corrections s + length (filter (\<lambda>r. recorded_correction (decision_of env r)) rows)"
  "qs_successes (foldl (add_side env) s rows) = qs_successes s + length (filter (\<lambda>r. row_status r = 200) rows)"
  "qs_schema_requests (foldl (add_side env) s rows) = qs_schema_requests s + length (filter has_schema rows)"
  "qs_schema_successes (foldl (add_side env) s rows) = qs_schema_successes s + length (filter (\<lambda>r. has_schema r \<and> row_status r = 200) rows)"
  "qs_cost (foldl (add_side env) s rows) = foldl (\<lambda>c r. fadd c (ul_estimated_cost (row_settlement r))) (qs_cost s) rows"
  by (induction rows arbitrary: s) (simp_all add: add_side_def count_that_def)

lemma totals_are_sides:
  "qt_all (foldl (count_quality env db bl) t rows) = foldl (add_side env) (qt_all t) rows"
  "qt_baseline (foldl (count_quality env db bl) t rows) =
     foldl (add_side env) (qt_baseline t) (filter (\<lambda>r. bl = Some (model_and_endpoint db r)) rows)"
  "qt_pro (foldl (count_quality env db bl) t rows) + qt_flash (foldl (count_quality env db bl) t rows) = qt_pro t + qt_flash t + length rows"
  by (induction rows arbitrary: t) (simp_all add: count_quality_def count_that_def Let_def)

lemma filter_both_le: "length (filter P (filter Q xs)) \<le> length (filter P xs)"
  by (induction xs) auto

lemma filter_diff_le:
  assumes "\<And>x. P x \<Longrightarrow> R x"
  shows "length (filter P xs) - length (filter P (filter Q xs)) \<le> length (filter R xs) - length (filter R (filter Q xs))"
proof -
  have split: "length (filter S xs) = length (filter S (filter Q xs)) + length (filter S (filter (\<lambda>x. \<not> Q x) xs))" for S
    by (induction xs) auto
  have "length (filter P (filter (\<lambda>x. \<not> Q x) xs)) \<le> length (filter R (filter (\<lambda>x. \<not> Q x) xs))"
    using assms by (induction xs) auto
  then show ?thesis using split [of P] split [of R] by linarith
qed


lemma quality_totals_of:
  fixes env db bl rows
  defines "t \<equiv> foldl (count_quality env db bl) no_totals_yet rows"
    and "mine \<equiv> filter (\<lambda>r. bl = Some (model_and_endpoint db r)) rows"
  shows "qt_all t = foldl (add_side env) no_side rows" "qt_baseline t = foldl (add_side env) no_side mine"
    "qt_pro t + qt_flash t = length rows"
    "qs_successes (qt_all t) - qs_successes (qt_baseline t) \<le> length rows - length mine"
    "qs_corrections (qt_all t) - qs_corrections (qt_baseline t) \<le> length rows - length mine"
    "qs_schema_successes (qt_all t) - qs_schema_successes (qt_baseline t) \<le> qs_schema_requests (qt_all t) - qs_schema_requests (qt_baseline t)"
proof -
  show all: "qt_all t = foldl (add_side env) no_side rows" and mine: "qt_baseline t = foldl (add_side env) no_side mine"
    and "qt_pro t + qt_flash t = length rows"
    by (simp_all add: t_def mine_def totals_are_sides no_totals_yet_def)
  note diff = filter_diff_le [of _ _ rows "\<lambda>r. bl = Some (model_and_endpoint db r)", folded mine_def]
  show "qs_successes (qt_all t) - qs_successes (qt_baseline t) \<le> length rows - length mine"
    using diff [of _ "\<lambda>_. True"] by (simp add: all mine side_counts no_side_def)
  show "qs_corrections (qt_all t) - qs_corrections (qt_baseline t) \<le> length rows - length mine"
    using diff [of _ "\<lambda>_. True"] by (simp add: all mine side_counts no_side_def)
  show "qs_schema_successes (qt_all t) - qs_schema_successes (qt_baseline t) \<le> qs_schema_requests (qt_all t) - qs_schema_requests (qt_baseline t)"
    using diff [of "\<lambda>r. has_schema r \<and> row_status r = 200" has_schema] by (simp add: all mine side_counts no_side_def)
qed

text \<open>The rates of a side are percentages.\<close>

definition rates :: "quality_figures \<Rightarrow> f64 option set" where
  "rates f = {qf_success_rate f, qf_correction_rate f, qf_schema_rate f}"

definition are_percentages :: "f64 option set \<Rightarrow> bool" where
  "are_percentages R \<longleftrightarrow> (\<forall>x. Some x \<in> R \<longrightarrow> 0 \<le> x \<and> x \<le> 100)"

lemma three_percentages:
  "a \<le> n \<Longrightarrow> b \<le> m \<Longrightarrow> c \<le> k \<Longrightarrow> are_percentages {percentage a n, percentage b m, percentage c k}"
  unfolding are_percentages_def by (metis insertE percentage_bounds singletonD)

lemma baseline_rates: "are_percentages (rates (baseline_figures (foldl (add_side env) no_side rows)))"
proof -
  have "length (filter (\<lambda>r. has_schema r \<and> row_status r = 200) rows) \<le> length (filter has_schema rows)"
    using filter_both_le [of has_schema "\<lambda>r. row_status r = 200" rows] by (simp add: conj_commute)
  then show ?thesis
    unfolding rates_def baseline_figures_def quality_figures.simps by (intro three_percentages) (simp_all add: side_counts no_side_def)
qed

lemma treatment_rates:
  fixes env db bl rows
  defines "t \<equiv> foldl (count_quality env db bl) no_totals_yet rows"
  shows "are_percentages (rates (treatment_figures (qt_all t) (qt_baseline t) (length rows - qs_queries (qt_baseline t))))"
proof -
  have n: "qs_queries (qt_baseline t) = length (filter (\<lambda>r. bl = Some (model_and_endpoint db r)) rows)"
    by (simp add: t_def quality_totals_of(2) side_counts no_side_def)
  show ?thesis
    unfolding rates_def treatment_figures_def quality_figures.simps n
    by (intro three_percentages quality_totals_of(4-6) [of env db bl rows, folded t_def])
qed

lemma session_health_facts:
  assumes "h \<in> set (map session_health_of (session_groups order rows))"
  shows "3 \<le> sh_turns h \<and> sh_turns h = length (of_session (sh_session_id h) rows)"
proof -
  from assms obtain g where g: "g \<in> set (session_groups order rows)" and h: "h = session_health_of g" by auto
  from g have "3 \<le> fst (snd g)" "fst (snd g) = length (of_session (fst g) rows)"
    unfolding session_groups_def by (auto simp: Let_def dest!: in_set_takeD)
  then show ?thesis unfolding h session_health_of_def by (auto simp: Let_def split: prod.splits)
qed

lemma length_session_groups: "length (session_groups order rows) \<le> 20"
  by (simp add: session_groups_def)

lemma get_quality_analytics_Inr:
  assumes "get_quality_analytics env cx query db logs shadows bl = (bl', Inr v)"
  obtains since config where "range_since (ra_now (qe_routing env)) (unwrap_or query ''24h'') = Inr since"
    "load_savings_baseline (qe_savings env) cx db bl = (bl', Inr config)"
    "v = quality_report_of env (sd_cat db) config (shown_rows cx since db logs) (shadow_rows cx since shadows) (session_rows cx since logs)"
  using assms unfolding get_quality_analytics_def Let_def
  by (auto simp: try_then_def split: sum.splits if_splits prod.splits)


text \<open>A sum of costs that leaves rows out is not above the sum of all.\<close>

lemma sum_of_some_le:
  assumes "rnd c = c" "a \<le> c" "\<And>r. r \<in> set rows \<Longrightarrow> 0 \<le> ul_estimated_cost (row_settlement r)"
  shows "foldl (\<lambda>c r. fadd c (ul_estimated_cost (row_settlement r))) a (filter P rows)
    \<le> foldl (\<lambda>c r. fadd c (ul_estimated_cost (row_settlement r))) c rows"
  using assms
proof (induction rows arbitrary: a c)
  case (Cons r rows)
  let ?x = "ul_estimated_cost (row_settlement r)"
  have x: "0 \<le> ?x" by (rule Cons.prems(3)) simp
  have "c \<le> fadd c ?x" unfolding fadd_def by (rule f64.add_grows [OF x Cons.prems(1)])
  then have "a \<le> fadd c ?x" "fadd a ?x \<le> fadd c ?x" using Cons.prems(2) by (auto intro: fadd_mono)
  then show ?case using Cons.IH [of "fadd c ?x"] Cons.prems(3) by simp
qed simp

lemma sum_cost_nonneg:
  assumes "\<And>r. r \<in> set rows \<Longrightarrow> 0 \<le> ul_estimated_cost (row_settlement r)"
  shows "0 \<le> foldl (\<lambda>c r. fadd c (ul_estimated_cost (row_settlement r))) 0 rows"
  using sum_of_some_le [of 0 0 rows "\<lambda>_. False"] assms by simp

lemma quality_costs:
  "qs_cost (qt_all (foldl (count_quality env db bl) no_totals_yet rows)) =
     foldl (\<lambda>c r. fadd c (ul_estimated_cost (row_settlement r))) 0 rows"
  "qs_cost (qt_baseline (foldl (count_quality env db bl) no_totals_yet rows)) =
     foldl (\<lambda>c r. fadd c (ul_estimated_cost (row_settlement r))) 0 (filter (\<lambda>r. bl = Some (model_and_endpoint db r)) rows)"
  by (simp_all add: quality_totals_of(1,2) side_counts no_side_def)

lemma cost_saved_of_part:
  assumes "cost_saved_percentage part whole = Some x" "0 \<le> part" "part \<le> whole"
  shows "0 \<le> x \<and> x \<le> 100"
proof -
  have w: "0 < whole" and x: "x = one_decimal (fmul (fsub 1 (fdiv part whole)) 100)"
    using assms(1) by (auto simp: cost_saved_percentage_def one_decimal_def split: if_splits)
  have "0 \<le> fdiv part whole \<and> fdiv part whole \<le> 1"
    using assms(2,3) w rnd_mono [of "part / whole" 1] by (simp add: fdiv_def f64.nonneg f64.one)
  then have "0 \<le> fsub 1 (fdiv part whole) \<and> fsub 1 (fdiv part whole) \<le> 1"
    using rnd_mono [of 0 "1 - fdiv part whole"] rnd_mono [of "1 - fdiv part whole" 1] by (simp add: fsub_def f64.one)
  then show ?thesis unfolding x by (intro one_decimal_bounds) (simp_all add: hundred_of_share)
qed

section \<open>Properties\<close>

text \<open>
  C27. The quality report accounts for its requests: one record for each of the at most hundred rows
  shown; the requests counted as routed are the ones the configured baseline endpoint did
  not serve; the two model families add up; a record is an error exactly when the status is
  not 2xx; the rates of both sides are percentages; and the sessions shown are at most
  twenty, each with its at least three turns.
\<close>

theorem quality_report_accounts_for_its_requests:
  assumes "get_quality_analytics env cx query db logs shadows bl = (bl', Inr v)"
  shows "\<exists>since config. range_since (ra_now (qe_routing env)) (unwrap_or query ''24h'') = Inr since \<and>
     load_savings_baseline (qe_savings env) cx db bl = (bl', Inr config) \<and>
     map qr_row (qp_records v) = shown_rows cx since db logs \<and> qp_total_queries v = length (qp_records v) \<and> qp_total_queries v \<le> 100 \<and>
     qp_treatment_queries v = length (filter (\<lambda>q. \<not> qr_is_baseline q) (qp_records v)) \<and>
     qt_pro (qp_totals v) + qt_flash (qp_totals v) = qp_total_queries v \<and>
     (\<forall>q \<in> set (qp_records v).
        (qr_is_baseline q \<longleftrightarrow> (\<exists>b. config = Some b \<and> model_and_endpoint (sd_cat db) (qr_row q) = (br_virtual_model_id b, br_endpoint_id b))) \<and>
        (qr_verdict q = Error \<longleftrightarrow> \<not> succeeded (row_status (qr_row q)))) \<and>
     are_percentages (rates (qp_routing v)) \<and> (\<forall>c f. qp_baseline v = Some (c, f) \<longrightarrow> config = Some c \<and> are_percentages (rates f)) \<and>
     length (qp_sessions v) \<le> 20 \<and>
     (\<forall>h \<in> set (qp_sessions v). 3 \<le> sh_turns h \<and> sh_turns h = length (of_session (sh_session_id h) (session_rows cx since logs)))"
proof -
  obtain since config where since: "range_since (ra_now (qe_routing env)) (unwrap_or query ''24h'') = Inr since"
    and config: "load_savings_baseline (qe_savings env) cx db bl = (bl', Inr config)"
    and v: "v = quality_report_of env (sd_cat db) config (shown_rows cx since db logs) (shadow_rows cx since shadows) (session_rows cx since logs)"
    by (rule get_quality_analytics_Inr [OF assms])
  let ?rows = "shown_rows cx since db logs" and ?pair = "map_option (\<lambda>b. (br_virtual_model_id b, br_endpoint_id b)) config"
  let ?own = "\<lambda>r. ?pair = Some (model_and_endpoint (sd_cat db) r)"
  note t = quality_totals_of [of "qe_routing env" "sd_cat db" ?pair ?rows]
  have records: "qp_records v = map (quality_record_of (qe_routing env) (sd_cat db) ?pair) ?rows"
    by (simp add: v quality_report_of_def Let_def)
  have recorded: "qr_row (quality_record_of e d p r) = r" "qr_is_baseline (quality_record_of e d p r) \<longleftrightarrow> p = Some (model_and_endpoint d r)"
    "qr_verdict (quality_record_of e d p r) = verdict_of (row_status r) (recorded_correction (decision_of e r))" for e d p r
    by (simp_all add: quality_record_of_def Let_def)
  have rows: "map qr_row (qp_records v) = ?rows" by (simp add: records recorded comp_def)
  have "qp_treatment_queries v = length ?rows - length (filter ?own ?rows)"
    by (simp add: v quality_report_of_def Let_def t(2) side_counts no_side_def)
  also have "\<dots> = length (filter (\<lambda>r. \<not> ?own r) ?rows)" using sum_length_filter_compl [of ?own ?rows] by simp
  also have "\<dots> = length (filter (\<lambda>q. \<not> qr_is_baseline q) (qp_records v))" by (simp add: records filter_map comp_def recorded)
  finally have treatment: "qp_treatment_queries v = length (filter (\<lambda>q. \<not> qr_is_baseline q) (qp_records v))" .
  have "qp_total_queries v = length ?rows" "qt_pro (qp_totals v) + qt_flash (qp_totals v) = length ?rows"
    by (simp_all add: v quality_report_of_def Let_def t(3))
  then have totals: "qp_total_queries v = length (qp_records v)" "qp_total_queries v \<le> 100"
    "qt_pro (qp_totals v) + qt_flash (qp_totals v) = qp_total_queries v"
    using shown_rows_facts(1) [of cx since db logs] by (simp_all add: records)
  have each: "\<forall>q \<in> set (qp_records v).
      (qr_is_baseline q \<longleftrightarrow> (\<exists>b. config = Some b \<and> model_and_endpoint (sd_cat db) (qr_row q) = (br_virtual_model_id b, br_endpoint_id b))) \<and>
      (qr_verdict q = Error \<longleftrightarrow> \<not> succeeded (row_status (qr_row q)))"
    by (auto simp: records recorded verdict_of_def)
  have routing: "are_percentages (rates (qp_routing v))"
    unfolding v quality_report_of_def Let_def quality_report.simps by (rule treatment_rates)
  have baseline: "\<forall>c f. qp_baseline v = Some (c, f) \<longrightarrow> config = Some c \<and> are_percentages (rates f)"
    unfolding v quality_report_of_def Let_def quality_report.simps t(2) using baseline_rates by auto
  have "qp_sessions v = map session_health_of (session_groups (qe_groups env) (session_rows cx since logs))"
    by (simp add: v quality_report_of_def Let_def)
  then have "length (qp_sessions v) \<le> 20"
    "\<forall>h \<in> set (qp_sessions v). 3 \<le> sh_turns h \<and> sh_turns h = length (of_session (sh_session_id h) (session_rows cx since logs))"
    using session_health_facts length_session_groups by (simp, metis)
  then show ?thesis using since config rows totals treatment each routing baseline by blast
qed

text \<open>
  The saving the report claims is the share of the spend outside the baseline: the two arguments
  of the percentage are given in the other order, so it is between 0 and 100 however expensive the
  routed requests were, and 100 when the baseline served none.
\<close>

theorem reported_saving_is_never_negative:
  assumes "get_quality_analytics env cx query db logs shadows bl = (bl', Inr v)" "qp_cost_saved v = Some x"
    and costs: "\<forall>r \<in> set logs. 0 \<le> ul_estimated_cost (row_settlement r)"
  shows "0 \<le> x \<and> x \<le> 100 \<and> (qp_treatment_queries v = qp_total_queries v \<longrightarrow> x = 100)"
proof -
  obtain since config where v: "v = quality_report_of env (sd_cat db) config (shown_rows cx since db logs) (shadow_rows cx since shadows) (session_rows cx since logs)"
    by (rule get_quality_analytics_Inr [OF assms(1)])
  let ?rows = "shown_rows cx since db logs" and ?pair = "map_option (\<lambda>b. (br_virtual_model_id b, br_endpoint_id b)) config"
  let ?sum = "foldl (\<lambda>c r. fadd c (ul_estimated_cost (row_settlement r))) 0" and ?own = "filter (\<lambda>r. ?pair = Some (model_and_endpoint (sd_cat db) r)) ?rows"
  have saved: "cost_saved_percentage (?sum ?own) (?sum ?rows) = Some x"
    using assms(2) by (auto simp: v quality_report_of_def Let_def quality_costs split: option.splits)
  have nonneg: "0 \<le> ul_estimated_cost (row_settlement r)" if "r \<in> set ?rows" for r
    using costs shown_rows_facts(3) [OF that] by blast
  have "0 \<le> ?sum ?own" by (rule sum_cost_nonneg) (auto intro: nonneg)
  moreover have "?sum ?own \<le> ?sum ?rows" by (rule sum_of_some_le) (simp_all add: nonneg)
  ultimately have "0 \<le> x \<and> x \<le> 100" by (rule cost_saved_of_part [OF saved])
  moreover have "x = 100" if "qp_treatment_queries v = qp_total_queries v"
  proof -
    have "length ?rows - length ?own = length ?rows"
      using that by (simp add: v quality_report_of_def Let_def quality_totals_of(2) side_counts no_side_def)
    then have "length ?own = 0 \<or> length ?rows = 0" by arith
    then have "?own = []" by auto
    with saved have "x = one_decimal (fmul (fsub 1 (fdiv 0 (?sum ?rows))) 100)"
      by (auto simp: cost_saved_percentage_def one_decimal_def split: if_splits)
    then show ?thesis by (simp add: fdiv_def fsub_def fmul_def f64.one f64.numeral one_decimal_ends)
  qed
  ultimately show ?thesis by blast
qed


section \<open>Witnesses\<close>

text \<open>One request of the project, none served by the stored baseline.\<close>

definition demo_quality_env :: quality_env where
  "demo_quality_env = \<lparr>qe_routing = demo_routing_env, qe_savings = demo_savings_env, qe_groups = (\<lambda>xs. xs)\<rparr>"

lemma demo_quality_answers:
  "\<exists>v bl'. get_quality_analytics demo_quality_env demo_cx (Some ''all'') demo_key_db [(3, demo_usage_row)] [] bl = (bl', Inr v)"
proof -
  have "\<exists>config bl'. load_savings_baseline demo_savings_env demo_cx demo_key_db bl = (bl', Inr config)"
    by (auto simp: load_savings_baseline_def demo_savings_env_def Let_def split: option.split)
  then show ?thesis
    by (auto simp: get_quality_analytics_def demo_quality_env_def range_since_def demo_routing_env_def Let_def)
qed

theorem quality_report_accounts_for_its_requests_witness:
  "\<exists>v bl'. get_quality_analytics demo_quality_env demo_cx (Some ''all'') demo_key_db [(3, demo_usage_row)] [] Map.empty = (bl', Inr v) \<and>
     qp_total_queries v = 1"
proof -
  obtain v bl' where v: "get_quality_analytics demo_quality_env demo_cx (Some ''all'') demo_key_db [(3, demo_usage_row)] [] Map.empty = (bl', Inr v)"
    using demo_quality_answers by blast
  from quality_report_accounts_for_its_requests [OF v]
  have "map qr_row (qp_records v) = shown_rows demo_cx None demo_key_db [(3, demo_usage_row)]" "qp_total_queries v = length (qp_records v)"
    by (auto simp: range_since_def)
  then have "qp_total_queries v = 1" using demo_shown_rows by (metis length_Cons length_map list.size(3) One_nat_def)
  then show ?thesis using v by blast
qed


definition demo_paid_row :: "nat \<times> usage_row" where
  "demo_paid_row = (case demo_usage_row of (ids, tokens, s, x) \<Rightarrow> (3, ids, tokens, s\<lparr>ul_estimated_cost := 1\<rparr>, x))"

lemma demo_paid_shown: "shown_rows demo_cx None demo_savings_db [demo_paid_row] = [demo_paid_row]"
  by (simp add: shown_rows_def org_rows_def of_org_def within_range_def row_ids_def demo_paid_row_def demo_usage_row_def newest_first_def
      sort_by_def demo_savings_db_def with_endpoints_def demo_service_db_def demo_key_db_def demo_catalog_simps update_cat_def demo_cx_def)

theorem reported_saving_is_never_negative_witness:
  "\<exists>v. get_quality_analytics demo_quality_env demo_cx (Some ''all'') demo_savings_db [demo_paid_row] [] [''p'' \<mapsto> (''v2'', ''e'')] =
       ([''p'' \<mapsto> (''v2'', ''e'')], Inr v) \<and>
     (\<exists>x. qp_cost_saved v = Some x \<and> 0 \<le> x \<and> x \<le> 100)"
proof -
  let ?bl = "[''p'' \<mapsto> (''v2'', ''e'')]"
  obtain b where b: "load_savings_baseline demo_savings_env demo_cx demo_savings_db ?bl = (?bl, Inr (Some b))"
    using updated_baseline_is_read_back_witness by blast
  have cost: "ul_estimated_cost (row_settlement demo_paid_row) = 1"
    by (simp add: row_settlement_def demo_paid_row_def split: prod.splits)
  let ?v = "quality_report_of demo_quality_env (sd_cat demo_savings_db) (Some b) [demo_paid_row] (shadow_rows demo_cx None []) (session_rows demo_cx None [demo_paid_row])"
  have v: "get_quality_analytics demo_quality_env demo_cx (Some ''all'') demo_savings_db [demo_paid_row] [] ?bl = (?bl, Inr ?v)"
    by (simp add: get_quality_analytics_def demo_quality_env_def range_since_def demo_routing_env_def demo_paid_shown b)
  have "qs_cost (qt_all (count_quality e d p no_totals_yet demo_paid_row)) = 1" for e d p
    by (simp add: count_quality_def Let_def no_totals_yet_def add_side_def no_side_def cost fadd_def f64.one)
  then obtain x where x: "qp_cost_saved ?v = Some x"
    by (simp add: quality_report_of_def Let_def cost_saved_percentage_def)
  from reported_saving_is_never_negative [OF v x] cost v x show ?thesis by auto
qed

end
