(* ===== verification/Service_Views.thy ===== *)
theory Service_Views
  imports Service_Lifecycle
begin

text \<open>
  saas/model\_services/services.rs, the two handlers that read: one model service with the
  health, the capability and the routing badge of every endpoint, and the list of the services
  of the project. The view resolves capabilities with the function the synchronisation uses, on the
  endpoints of its own query.
\<close>

section \<open>One service\<close>

text \<open>The endpoints of the pool of a Virtual Model with their accounts, oldest first.\<close>

definition service_endpoints :: "catalog \<Rightarrow> string \<Rightarrow> (endpoint_row \<times> provider_account) list" where
  "service_endpoints c model_id = sort_by (\<lambda>(a, _) (b, _). cmp_of (er_created_at a) (er_created_at b))
     (concat (map (\<lambda>(p, i, _). if list_ex (\<lambda>vm. vm_id vm = model_id \<and> vm_pool_id vm = p) (ct_virtual_models c) \<and>
           list_ex (\<lambda>mp. mp_id mp = p) (ct_model_pools c)
        then concat (map (\<lambda>e. if er_id e = i then map (Pair e) (filter (\<lambda>a. pa_id a = er_account_id e) (ct_accounts c)) else [])
          (ct_endpoints c))
        else []) (ct_pool_endpoints c)))"

definition viewed_capabilities :: "(endpoint_row \<times> provider_account) list \<Rightarrow> f64 list" where
  "viewed_capabilities rows = resolve_pool_capabilities (map (\<lambda>(e, _).
     (er_upstream_model_id e, effective_capability_score (er_upstream_model_id e) (er_capability_score e))) rows)"

definition hard_hint :: "string \<Rightarrow> route_hint" where
  "hard_hint pool_id = \<lparr>hint_input_tokens = COST_RANK_INPUT_TOKENS, hint_output_tokens = COST_RANK_OUTPUT_TOKENS, hint_has_tools = True,
     hint_difficulty = 1, hint_downshift = False, hint_pool_id = pool_id, hint_affinity_enabled = False, hint_sticky_endpoint_id = None\<rparr>"

text \<open>\<open>max_by\<close> keeps the last of equal maxima.\<close>

fun max_by :: "('a \<Rightarrow> 'a \<Rightarrow> ordering) \<Rightarrow> 'a list \<Rightarrow> 'a option" where
  "max_by cmp [] = None"
| "max_by cmp (x # xs) = Some (foldl (\<lambda>m y. if cmp m y = Greater then m else y) x xs)"

definition strongest_enabled :: "(endpoint_row \<times> provider_account) list \<Rightarrow> string option" where
  "strongest_enabled rows = map_option (\<lambda>(e, _). er_id e)
     (max_by (\<lambda>(a, x) (b, y). then_with (cmp_of x y)
          (cmp_of (default_capability_score (er_upstream_model_id a) None) (default_capability_score (er_upstream_model_id b) None)))
       (filter (\<lambda>(e, _). er_enabled e) (zip (map fst rows) (viewed_capabilities rows))))"

text \<open>The first candidate the router does not exclude; without one, the strongest enabled endpoint.\<close>

definition routed_pick :: "json list \<Rightarrow> string option" where
  "routed_pick candidates = Option.bind (find (\<lambda>c. jget ''excluded'' c = Some (Bool False)) candidates) (jget_str ''endpoint_id'')"

definition hard_request_pick :: "json list \<Rightarrow> (endpoint_row \<times> provider_account) list \<Rightarrow> string option" where
  "hard_request_pick candidates rows = (case routed_pick candidates of Some i \<Rightarrow> Some i | None \<Rightarrow> strongest_enabled rows)"

record service_endpoint_view =
  se_id :: string
  se_provider_id :: string
  se_provider_name :: string
  se_provider_type :: string
  se_protocol :: string
  se_model :: string
  se_base_url :: string
  se_input_price :: "f64 option"
  se_output_price :: "f64 option"
  se_capability_score :: f64
  se_configured_capability_score :: f64
  se_context_length :: "int option"
  se_enabled :: bool
  se_supports_tools :: "bool option"
  se_health_status :: string
  se_cooling_down :: bool
  se_total_requests :: int
  se_total_errors :: int
  se_health_observed :: bool
  se_preferred :: bool
  se_model_dna :: model_dna

definition service_endpoint_view_of ::
    "metric_map \<Rightarrow> nat \<Rightarrow> string option \<Rightarrow> (endpoint_row \<times> provider_account) \<times> f64 \<Rightarrow> service_endpoint_view" where
  "service_endpoint_view_of metrics now pick x = (case x of ((e, a), capability) \<Rightarrow>
     let runtime = metrics (er_id e); requests = (case runtime of None \<Rightarrow> 0 | Some m \<Rightarrow> total_requests m);
         tools = map_option (\<lambda>v. v \<noteq> 0) (er_supports_tools e) in
     \<lparr>se_id = er_id e, se_provider_id = pa_id a,
      se_provider_name = (if starts_with (pa_name a) ''saas-'' then pa_provider_type a else pa_name a),
      se_provider_type = pa_provider_type a, se_protocol = pa_protocol a, se_model = er_upstream_model_id e, se_base_url = pa_base_url a,
      se_input_price = er_input_price_per_1m e, se_output_price = er_output_price_per_1m e, se_capability_score = capability,
      se_configured_capability_score = er_capability_score e, se_context_length = er_context_length e, se_enabled = er_enabled e,
      se_supports_tools = tools, se_health_status = (case runtime of None \<Rightarrow> er_health_status e | Some m \<Rightarrow> health_status m),
      se_cooling_down = (case Option.bind runtime cooldown_until of None \<Rightarrow> False | Some until \<Rightarrow> now < until),
      se_total_requests = requests, se_total_errors = (case runtime of None \<Rightarrow> 0 | Some m \<Rightarrow> total_errors m),
      se_health_observed = (0 < requests), se_preferred = (pick = Some (er_id e)),
      se_model_dna = derive_model_dna (er_upstream_model_id e) capability tools\<rparr>)"

record service_view =
  vw_id :: string
  vw_pool :: model_pool
  vw_provider_type :: string
  vw_provider_types :: "string list"
  vw_endpoints :: "service_endpoint_view list"
  vw_status :: string

definition get_model_service ::
    "service_env \<Rightarrow> metric_map \<Rightarrow> feedback_provider \<Rightarrow> hint_slots \<Rightarrow> (string \<Rightarrow> nat) \<Rightarrow> saas_context \<Rightarrow> string \<Rightarrow> saas_db
       \<Rightarrow> service_view api" where
  "get_model_service env metrics fp slots tie cx model_id db = (case own_service env cx model_id db of
     Inl e \<Rightarrow> Inl e
   | Inr (vm, mp) \<Rightarrow>
     if \<not> sn_ok env ''select endpoints'' then Inl db_error
     else let rows = service_endpoints (sd_cat db) model_id; capabilities = viewed_capabilities rows;
              pick = hard_request_pick (explain fp slots (sn_now env) tie (mp_id mp) (hard_hint (mp_id mp))) rows;
              views = map (service_endpoint_view_of metrics (sn_now env) pick) (zip rows capabilities);
              types = map (\<lambda>(_, a). pa_provider_type a) rows in
       Inr \<lparr>vw_id = vm_id vm, vw_pool = mp, vw_provider_type = overall_provider ''not_configured'' types, vw_provider_types = types,
            vw_endpoints = views, vw_status = (if views = [] then ''draft'' else ''active'')\<rparr>)"

section \<open>The list\<close>

definition granted_services :: "saas_db \<Rightarrow> saas_context \<Rightarrow> (virtual_model \<times> model_pool) list" where
  "granted_services db cx = concat (map (\<lambda>vm. concat (map (\<lambda>mp.
     if mp_id mp = vm_pool_id vm \<and> sd_pool_org db (mp_id mp) = Some (cx_org_id cx) \<and>
        (cx_project_id cx, vm_id vm) \<in> set (ct_project_grants (sd_cat db)) then [(vm, mp)] else [])
     (ct_model_pools (sd_cat db)))) (ct_virtual_models (sd_cat db)))"

text \<open>The LEFT JOINs: one row per endpoint, or one without any.\<close>

type_synonym list_row = "(virtual_model \<times> model_pool) \<times> (endpoint_row \<times> provider_account option) option"

definition linked_endpoints :: "catalog \<Rightarrow> string \<Rightarrow> (endpoint_row \<times> provider_account option) list" where
  "linked_endpoints c pool_id = concat (map (\<lambda>(p, i, _). if p = pool_id
       then map (\<lambda>e. (e, find (\<lambda>a. pa_id a = er_account_id e) (ct_accounts c))) (filter (\<lambda>e. er_id e = i) (ct_endpoints c)) else [])
       (ct_pool_endpoints c))"

definition service_list_rows :: "catalog \<Rightarrow> virtual_model \<times> model_pool \<Rightarrow> list_row list" where
  "service_list_rows c s = (case linked_endpoints c (mp_id (snd s)) of
     [] \<Rightarrow> [(s, None)]
   | es \<Rightarrow> map (\<lambda>x. (s, Some x)) es)"

definition list_row_cmp :: "list_row \<Rightarrow> list_row \<Rightarrow> ordering" where
  "list_row_cmp x y = then_with (cmp_of (vm_created_at (fst (fst y))) (vm_created_at (fst (fst x))))
     (case (snd x, snd y) of (Some (a, _), Some (b, _)) \<Rightarrow> cmp_of (er_created_at a) (er_created_at b) | _ \<Rightarrow> Equal)"

record service_summary =
  ss_id :: string
  ss_name :: string
  ss_strategy :: string
  ss_provider_types :: "string list"
  ss_models :: "string list"
  ss_statuses :: "string list"

definition add_list_row :: "list_row \<Rightarrow> service_summary \<Rightarrow> service_summary" where
  "add_list_row x s = (case snd x of
     None \<Rightarrow> s
   | Some (e, a) \<Rightarrow> s\<lparr>ss_provider_types := (case a of None \<Rightarrow> ss_provider_types s
          | Some a \<Rightarrow> if pa_provider_type a \<in> set (ss_provider_types s) then ss_provider_types s
              else ss_provider_types s @ [pa_provider_type a]),
        ss_models := ss_models s @ [er_upstream_model_id e], ss_statuses := ss_statuses s @ [er_health_status e]\<rparr>)"

definition new_summary :: "list_row \<Rightarrow> service_summary" where
  "new_summary x = \<lparr>ss_id = vm_id (fst (fst x)), ss_name = mp_name (snd (fst x)), ss_strategy = mp_strategy (snd (fst x)),
     ss_provider_types = [], ss_models = [], ss_statuses = []\<rparr>"

text \<open>The index of a service is the place of its first row.\<close>

definition merge_list_row :: "service_summary list \<Rightarrow> list_row \<Rightarrow> service_summary list" where
  "merge_list_row so_far x = (let i = vm_id (fst (fst x)) in
     if list_ex (\<lambda>s. ss_id s = i) so_far
     then map (\<lambda>s. if ss_id s = i then add_list_row x s else s) so_far
     else so_far @ [add_list_row x (new_summary x)])"

definition overall_health :: "string list \<Rightarrow> string" where
  "overall_health statuses =
     (if statuses = [] then ''draft'' else if list_all (\<lambda>s. s = ''healthy'') statuses then ''healthy''
      else if list_ex (\<lambda>s. s = ''unavailable'') statuses then ''unavailable'' else ''degraded'')"

record listed_service =
  lv_summary :: service_summary
  lv_provider_type :: string
  lv_endpoint_count :: nat
  lv_health_status :: string

definition listed_service_of :: "service_summary \<Rightarrow> listed_service" where
  "listed_service_of s = \<lparr>lv_summary = s, lv_provider_type = overall_provider ''custom'' (ss_provider_types s),
     lv_endpoint_count = length (ss_statuses s), lv_health_status = overall_health (ss_statuses s)\<rparr>"

definition list_model_services :: "service_env \<Rightarrow> saas_context \<Rightarrow> saas_db \<Rightarrow> listed_service list api" where
  "list_model_services env cx db = (if \<not> sn_ok env ''select services'' then Inl db_error
     else Inr (map listed_service_of (foldl merge_list_row [] (sort_by list_row_cmp
       (concat (map (service_list_rows (sd_cat db)) (granted_services db cx)))))))"

section \<open>What the view shows is what the router uses\<close>

text \<open>Whether the scores of a pool are ambiguous depends on its set of members alone.\<close>

lemma spread_pos: "0 < CAPABILITY_SPREAD_MIN"
proof -
  have "rnd (1 / 32) \<le> CAPABILITY_SPREAD_MIN" unfolding CAPABILITY_SPREAD_MIN_def by (rule rnd_mono) simp
  moreover have "rnd (1 / 32) = 1 / 32" by (subst rnd_eval [where s = 57 and n = 4503599627370496]) simp_all
  ultimately show ?thesis by linarith
qed

lemma close_pair_irrefl [simp]: "\<not> close_pair a a"
  using spread_pos by (simp add: close_pair_def fsub_def not_le)

lemma ambiguous_iff: "ambiguous_scores xs \<longleftrightarrow> (\<exists>a \<in> set xs. \<exists>b \<in> set xs. close_pair a b)"
proof (induction xs)
  case (Cons x xs)
  then show ?case using close_pair_irrefl close_pair_sym by (auto simp: list_ex_iff)
qed simp

definition scored :: "string \<times> f64 \<Rightarrow> f64 \<times> f64" where
  "scored m = (snd m, default_capability_score (fst m) None)"

definition resolved :: "(string \<times> f64) set \<Rightarrow> string \<times> f64 \<Rightarrow> f64" where
  "resolved M m = (if \<exists>a \<in> M. \<exists>b \<in> M. close_pair (scored a) (scored b) then snd (scored m) else snd m)"

lemma resolve_by_set: "resolve_pool_capabilities ms = map (resolved (set ms)) ms"
proof -
  have z: "zip (map snd ms) (map (\<lambda>(model, _). default_capability_score model None) ms) = map scored ms"
    by (induction ms) (auto simp: scored_def)
  have "ambiguous_scores (map scored ms) \<longleftrightarrow> (\<exists>a \<in> set ms. \<exists>b \<in> set ms. close_pair (scored a) (scored b))"
    by (simp add: ambiguous_iff)
  moreover have "\<not> ambiguous_scores (map scored ms)" if "length ms < 2"
    using that by (cases ms) (auto simp: less_Suc_eq numeral_2_eq_2)
  ultimately show ?thesis
    unfolding resolve_pool_capabilities_def Let_def z by (auto simp: resolved_def scored_def case_prod_beta')
qed

lemma service_endpoints_mem:
  assumes "(vm, mp) \<in> set (own_services db cx i)" "tenants_ok db"
  shows "(e, a) \<in> set (service_endpoints (sd_cat db) i) \<longleftrightarrow>
     e \<in> set (ct_endpoints (sd_cat db)) \<and> a \<in> set (ct_accounts (sd_cat db)) \<and> pa_id a = er_account_id e \<and>
     (\<exists>r. (mp_id mp, er_id e, r) \<in> set (ct_pool_endpoints (sd_cat db)))"
proof -
  note m = assms(1) [unfolded own_services_mem]
  have "distinct (map vm_id (ct_virtual_models (sd_cat db)))" using assms(2) by (simp add: tenants_ok_def keys_distinct_def)
  then have "list_ex (\<lambda>vm. vm_id vm = i \<and> vm_pool_id vm = p) (ct_virtual_models (sd_cat db)) \<longleftrightarrow> p = mp_id mp" for p
    using m by (auto simp: list_ex_iff distinct_map dest: inj_onD)
  moreover have "list_ex (\<lambda>x. mp_id x = mp_id mp) (ct_model_pools (sd_cat db))" using m by (auto simp: list_ex_iff)
  ultimately show ?thesis unfolding service_endpoints_def set_sort_by by (fastforce split: if_splits)
qed

definition scores_of :: "(endpoint_row \<times> provider_account) list \<Rightarrow> (string \<times> f64) list" where
  "scores_of rows = map (\<lambda>(e, _).
     (er_upstream_model_id e, effective_capability_score (er_upstream_model_id e) (er_capability_score e))) rows"

lemma viewed_by_set: "viewed_capabilities rows = map (resolved (set (scores_of rows))) (scores_of rows)"
  unfolding viewed_capabilities_def scores_of_def [symmetric] by (rule resolve_by_set)

lemma same_scores:
  assumes "(vm, mp) \<in> set (own_services db cx i)" "tenants_ok db"
    and "\<forall>x \<in> set (service_endpoints (sd_cat db) i). er_enabled (fst x) \<and> pa_status (snd x) = ''active''"
  shows "set (configured_capabilities (pool_rows collate (sd_cat db) (mp_id mp))) = set (scores_of (service_endpoints (sd_cat db) i))"
    (is "?L = ?R")
proof (rule set_eqI)
  fix x
  note mem = service_endpoints_mem [OF assms(1,2)]
  have "x \<in> ?L \<longleftrightarrow> (\<exists>e a. (e, a) \<in> set (service_endpoints (sd_cat db) i) \<and> er_enabled e \<and> pa_status a = ''active'' \<and>
      x = (er_upstream_model_id e, effective_capability_score (er_upstream_model_id e) (er_capability_score e)))"
    unfolding configured_capabilities_def set_map image_iff Bex_def pool_rows_iff mem
    by (fastforce simp: sync_row_of_def)
  also have "\<dots> \<longleftrightarrow> x \<in> ?R" using assms(3) by (fastforce simp: scores_of_def)
  finally show "x \<in> ?L \<longleftrightarrow> x \<in> ?R" .
qed

lemma get_model_service_Inr:
  assumes "get_model_service env metrics fp slots tie cx model_id db = Inr v"
  shows "\<exists>vm pick. (vm, vw_pool v) \<in> set (own_services db cx model_id) \<and> vw_id v = vm_id vm \<and>
     vw_endpoints v = map (service_endpoint_view_of metrics (sn_now env) pick)
       (zip (service_endpoints (sd_cat db) model_id) (viewed_capabilities (service_endpoints (sd_cat db) model_id)))"
  using assms by (fastforce simp: get_model_service_def Let_def dest: own_service_Inr split: sum.splits prod.splits if_splits)

lemma shown_endpoint:
  assumes "get_model_service env metrics fp slots tie cx model_id db = Inr v" "s \<in> set (vw_endpoints v)"
  obtains e a where "(e, a) \<in> set (service_endpoints (sd_cat db) model_id)" "se_id s = er_id e"
    "se_capability_score s = resolved (set (scores_of (service_endpoints (sd_cat db) model_id)))
       (er_upstream_model_id e, effective_capability_score (er_upstream_model_id e) (er_capability_score e))"
proof -
  let ?rows = "service_endpoints (sd_cat db) model_id"
  obtain pick e a c where s: "s = service_endpoint_view_of metrics (sn_now env) pick ((e, a), c)"
    and z: "((e, a), c) \<in> set (zip ?rows (viewed_capabilities ?rows))"
    using get_model_service_Inr [OF assms(1)] assms(2) by auto
  have "(e, a) \<in> set ?rows" using z by (rule set_zip_leftD)
  moreover from z have "c = resolved (set (scores_of ?rows))
      (er_upstream_model_id e, effective_capability_score (er_upstream_model_id e) (er_capability_score e))"
    by (auto simp: viewed_by_set in_set_zip) (simp_all add: scores_of_def case_prod_beta')
  ultimately show thesis using s that by (simp add: service_endpoint_view_of_def Let_def)
qed


section \<open>What the list shows\<close>

abbreviation row_id :: "list_row \<Rightarrow> string" where
  "row_id x \<equiv> vm_id (fst (fst x))"

definition row_endpoint_list :: "list_row \<Rightarrow> endpoint_row list" where
  "row_endpoint_list x = (case snd x of None \<Rightarrow> [] | Some (e, _) \<Rightarrow> [e])"

abbreviation row_endpoints :: "list_row list \<Rightarrow> endpoint_row list" where
  "row_endpoints xs \<equiv> concat (map row_endpoint_list xs)"

text \<open>A summary holds the endpoints of the rows of its service, in their order.\<close>

definition holds_rows :: "list_row list \<Rightarrow> service_summary \<Rightarrow> bool" where
  "holds_rows xs s \<longleftrightarrow> (let es = row_endpoints (filter (\<lambda>x. row_id x = ss_id s) xs) in
     ss_models s = map er_upstream_model_id es \<and> ss_statuses s = map er_health_status es)"

definition merged :: "list_row list \<Rightarrow> service_summary list \<Rightarrow> bool" where
  "merged xs ss \<longleftrightarrow> distinct (map ss_id ss) \<and> ss_id ` set ss = row_id ` set xs \<and> (\<forall>s \<in> set ss. holds_rows xs s)"

lemma add_list_row_id [simp]: "ss_id (add_list_row x s) = ss_id s" "ss_id (new_summary x) = row_id x"
  by (auto simp: add_list_row_def new_summary_def split: option.splits)

lemma add_list_row_fields:
  "ss_models (add_list_row x s) = ss_models s @ map er_upstream_model_id (row_endpoint_list x)"
  "ss_statuses (add_list_row x s) = ss_statuses s @ map er_health_status (row_endpoint_list x)"
  by (auto simp: add_list_row_def row_endpoint_list_def split: option.splits)

lemma filter_snoc: "filter P (xs @ [x]) = (if P x then filter P xs @ [x] else filter P xs)"
  by simp

lemma holds_rows_add:
  assumes "holds_rows xs s"
  shows "holds_rows (xs @ [x]) (if ss_id s = row_id x then add_list_row x s else s)"
proof (cases "ss_id s = row_id x")
  case True
  then have "filter (\<lambda>y. row_id y = ss_id s) (xs @ [x]) = filter (\<lambda>y. row_id y = ss_id s) xs @ [x]"
    unfolding filter_snoc by (rule if_P [OF sym])
  then show ?thesis using assms True unfolding holds_rows_def Let_def if_P [OF True] add_list_row_id add_list_row_fields
    by (simp only: map_append concat_append concat.simps list.map append_Nil2)
next
  case False
  then have "filter (\<lambda>y. row_id y = ss_id s) (xs @ [x]) = filter (\<lambda>y. row_id y = ss_id s) xs"
    unfolding filter_snoc by (rule if_not_P [OF not_sym])
  then show ?thesis using assms unfolding holds_rows_def Let_def if_not_P [OF False] by (simp only:)
qed

lemma holds_rows_new: "row_id x \<notin> row_id ` set xs \<Longrightarrow> holds_rows (xs @ [x]) (add_list_row x (new_summary x))"
proof -
  assume "row_id x \<notin> row_id ` set xs"
  then have "filter (\<lambda>y. row_id y = row_id x) xs = []" unfolding filter_empty_conv by (metis imageI)
  then show ?thesis by (simp add: holds_rows_def add_list_row_fields new_summary_def Let_def)
qed

lemma fresh_key: "a \<notin> k ` A \<Longrightarrow> y \<in> A \<Longrightarrow> k y \<noteq> a"
  by (metis imageI)

lemma merge_keeps:
  assumes "merged xs ss"
  shows "merged (xs @ [x]) (merge_list_row ss x)"
proof (cases "row_id x \<in> ss_id ` set ss")
  case True
  let ?f = "\<lambda>s. if ss_id s = row_id x then add_list_row x s else s"
  have r: "merge_list_row ss x = map ?f ss" using True by (auto simp: merge_list_row_def Let_def list_ex_iff)
  have "map ss_id (map ?f ss) = map ss_id ss" by simp
  moreover from this have "ss_id ` set (map ?f ss) = ss_id ` set ss" by (metis set_map)
  moreover have "insert (row_id x) (row_id ` set xs) = row_id ` set xs" using True assms unfolding merged_def by (simp add: insert_absorb)
  moreover have "\<forall>s \<in> set (map ?f ss). holds_rows (xs @ [x]) s"
    using assms holds_rows_add [of xs _ x] unfolding merged_def set_map ball_simps(9) by blast
  ultimately show ?thesis using assms unfolding r merged_def by (simp only: set_append image_Un list.set image_insert image_empty Un_insert_right Un_empty_right)
next
  case False
  have "\<not> list_ex (\<lambda>s. ss_id s = row_id x) ss" unfolding list_ex_iff using False by (metis imageI)
  then have r: "merge_list_row ss x = ss @ [add_list_row x (new_summary x)]" by (simp add: merge_list_row_def Let_def)
  have new: "row_id x \<notin> row_id ` set xs" using assms False unfolding merged_def by simp
  have "holds_rows (xs @ [x]) s" if "s \<in> set ss" for s
  proof -
    have "ss_id s \<noteq> row_id x" using fresh_key [OF False that] .
    moreover have "holds_rows xs s" using assms that unfolding merged_def by blast
    ultimately show ?thesis using holds_rows_add [of xs s x] by (simp only: if_False)
  qed
  moreover have "distinct (map ss_id ss @ [row_id x])"
    unfolding distinct_append set_map using assms False unfolding merged_def by simp
  ultimately show ?thesis using assms holds_rows_new [OF new] unfolding r merged_def by simp
qed

lemma merged_foldl: "merged xs (foldl merge_list_row [] xs)"
proof (induction xs rule: rev_induct)
  case Nil
  then show ?case by (simp add: merged_def)
qed (simp add: merge_keeps)

lemma concat_map_if: "concat (map (\<lambda>x. if P x then [f x] else []) xs) = map f (filter P xs)"
  by (induction xs) auto

lemma at_most_one: "distinct (map k xs) \<Longrightarrow> length (filter (\<lambda>x. k x = i \<and> P x) xs) \<le> 1"
proof (induction xs)
  case (Cons x xs)
  then have "k x \<notin> k ` set xs" by simp
  then have "k x = i \<Longrightarrow> filter (\<lambda>x. k x = i \<and> P x) xs = []" unfolding filter_empty_conv using fresh_key by metis
  with Cons show ?case by simp
qed simp

lemma distinct_keys_concat:
  assumes "distinct (map k xs)" "\<And>x y. y \<in> set (F x) \<Longrightarrow> l y = k x" "\<And>x. length (F x) \<le> 1"
  shows "distinct (map l (concat (map F xs)))"
  using assms(1)
proof (induction xs)
  case (Cons x xs)
  have one: "distinct (map l (F x))" using assms(3) [of x] by (cases "F x") auto
  have "l y \<notin> l ` set (F x)" if "y \<in> set (F z)" "z \<in> set xs" for y z
  proof -
    have "k x \<notin> k ` set xs" using Cons.prems by simp
    then have "k z \<noteq> k x" using that(2) by (rule fresh_key)
    then show ?thesis using assms(2) that(1) by (metis imageE)
  qed
  then have "l ` set (F x) \<inter> l ` set (concat (map F xs)) = {}" unfolding disjoint_iff set_concat set_map by blast
  moreover have "distinct (map l (concat (map F xs)))" using Cons by simp
  ultimately show ?case using one by (simp only: list.map concat.simps map_append distinct_append set_map)
qed simp

lemma filter_key_concat:
  assumes "distinct (map k xs)" "x \<in> set xs" "\<And>x y. y \<in> set (F x) \<Longrightarrow> l y = k x"
  shows "filter (\<lambda>y. l y = k x) (concat (map F xs)) = F x"
  using assms(1,2)
proof (induction xs)
  case (Cons z xs)
  show ?case
  proof (cases "x = z")
    case True
    then have "k x \<notin> k ` set xs" using Cons.prems by simp
    then have "\<forall>z \<in> set xs. \<forall>y \<in> set (F z). l y \<noteq> k x" using assms(3) fresh_key by metis
    then have "filter (\<lambda>y. l y = k x) (concat (map F xs)) = []" by (auto simp: filter_empty_conv)
    moreover have "filter (\<lambda>y. l y = k x) (F z) = F z" unfolding True filter_id_conv using assms(3) by blast
    ultimately show ?thesis using True by simp
  next
    case False
    with Cons.prems have "x \<in> set xs" "k z \<noteq> k x" by (auto simp: rev_image_eqI)
    moreover from this have "filter (\<lambda>y. l y = k x) (F z) = []" using assms(3) by (auto simp: filter_empty_conv)
    ultimately show ?thesis using Cons by simp
  qed
qed simp

lemma granted_mem: "s \<in> set (granted_services db cx) \<longleftrightarrow> s \<in> set (own_services db cx (vm_id (fst s)))"
  by (cases s) (auto simp: granted_services_def own_services_mem split: if_splits)

lemma granted_distinct: "tenants_ok db \<Longrightarrow> distinct (map (\<lambda>s. vm_id (fst s)) (granted_services db cx))"
  unfolding granted_services_def
proof (rule distinct_keys_concat [where k = vm_id])
  assume "tenants_ok db"
  then have d: "distinct (map mp_id (ct_model_pools (sd_cat db)))" by (simp add: tenants_ok_def keys_distinct_def)
  show "length (concat (map (\<lambda>mp. if mp_id mp = vm_pool_id vm \<and> sd_pool_org db (mp_id mp) = Some (cx_org_id cx) \<and>
        (cx_project_id cx, vm_id vm) \<in> set (ct_project_grants (sd_cat db)) then [(vm, mp)] else []) (ct_model_pools (sd_cat db)))) \<le> 1" for vm
    unfolding concat_map_if length_map by (rule at_most_one [OF d])
qed (auto simp: tenants_ok_def keys_distinct_def split: if_splits)

lemma list_rows_id: "x \<in> set (service_list_rows c s) \<Longrightarrow> row_id x = vm_id (fst s)"
  by (auto simp: service_list_rows_def split: list.splits)

lemma list_rows_endpoints: "row_endpoints (service_list_rows c s) = map fst (linked_endpoints c (mp_id (snd s)))"
proof -
  have "row_endpoints (map (\<lambda>x. (s, Some x)) es) = map fst es" for es
    by (induction es) (auto simp: row_endpoint_list_def)
  then show ?thesis by (auto simp: service_list_rows_def row_endpoint_list_def split: list.splits)
qed

lemma mset_concat_map: "mset xs = mset ys \<Longrightarrow> mset (concat (map f xs)) = mset (concat (map f ys))"
proof -
  assume "mset xs = mset ys"
  then have "(\<Sum>x\<in>#mset xs. mset (f x)) = (\<Sum>x\<in>#mset ys. mset (f x))" by simp
  then show ?thesis by (simp add: mset_concat comp_def sum_mset_sum_list [symmetric])
qed

lemma overall_health_set: "set xs = set ys \<Longrightarrow> overall_health xs = overall_health ys"
  unfolding overall_health_def list_all_iff list_ex_iff set_empty [symmetric] by (simp only:)

lemma merged_listed_endpoints:
  assumes "tenants_ok db" "(vm, mp) \<in> set (own_services db cx i)"
  shows "mset (row_endpoints (filter (\<lambda>x. row_id x = i) (sort_by list_row_cmp
     (concat (map (service_list_rows (sd_cat db)) (granted_services db cx)))))) = mset (map fst (linked_endpoints (sd_cat db) (mp_id mp)))"
proof -
  let ?R = "concat (map (service_list_rows (sd_cat db)) (granted_services db cx))"
  have i: "vm_id (fst (vm, mp)) = i" using assms(2) unfolding own_services_mem by simp
  have g: "(vm, mp) \<in> set (granted_services db cx)" using assms(2) unfolding granted_mem i .
  have "filter (\<lambda>x. row_id x = i) ?R = service_list_rows (sd_cat db) (vm, mp)"
    using filter_key_concat [OF granted_distinct [OF assms(1)] g, of "service_list_rows (sd_cat db)" row_id] list_rows_id unfolding i by blast
  moreover have "mset (filter (\<lambda>x. row_id x = i) (sort_by list_row_cmp ?R)) = mset (filter (\<lambda>x. row_id x = i) ?R)"
    unfolding mset_filter mset_sort_by ..
  ultimately have "mset (filter (\<lambda>x. row_id x = i) (sort_by list_row_cmp ?R)) = mset (service_list_rows (sd_cat db) (vm, mp))"
    by (simp only:)
  from mset_concat_map [OF this, of row_endpoint_list] show ?thesis unfolding list_rows_endpoints snd_conv .
qed

lemma listed_ids: "set (map row_id (sort_by list_row_cmp (concat (map (service_list_rows c) gs)))) = (\<lambda>s. vm_id (fst s)) ` set gs"
proof -
  have "service_list_rows c s \<noteq> []" for s by (simp add: service_list_rows_def split: list.split)
  then have "row_id ` set (service_list_rows c s) = {vm_id (fst s)}" for s
    using list_rows_id [of _ c s] by (metis (no_types, lifting) image_cong image_constant_conv set_empty)
  then show ?thesis unfolding set_map set_sort_by set_concat image_UN image_image by (simp only: UN_singleton UNION_singleton_eq_range)
qed


section \<open>Where the view and the router disagree\<close>

definition demo_view_account :: provider_account where
  "demo_view_account = \<lparr>pa_id = ''a'', pa_name = ''acme'', pa_provider_type = ''openai'', pa_protocol = ''openai'', pa_base_url = ''https://u'',
     pa_api_key = ''sk'', pa_status = ''active'', pa_metadata = None, pa_created_at = 0, pa_updated_at = 0\<rparr>"

definition demo_view_row :: "string \<Rightarrow> string \<Rightarrow> bool \<Rightarrow> endpoint_row" where
  "demo_view_row i model on = \<lparr>er_id = i, er_account_id = ''a'', er_name = i, er_upstream_model_id = model,
     er_enabled = on, er_priority = 1, er_weight = 1, er_health_status = ''healthy'', er_cooldown_until = None,
     er_input_price_per_1m = None, er_output_price_per_1m = None, er_capability_score = 1, er_supports_tools = None,
     er_context_length = None, er_metadata = None, er_created_at = 0, er_updated_at = 0\<rparr>"

text \<open>Two models of different families configured with the same score; the second may be disabled.\<close>

definition demo_view_db :: "bool \<Rightarrow> saas_db" where
  "demo_view_db on = with_endpoints ''o'' ''mp'' [demo_view_account]
     [demo_view_row ''flash'' ''deepseek-v4-flash'' True, demo_view_row ''pro'' ''deepseek-v4-pro'' on] demo_service_db"

lemmas demo_view_simps = demo_view_db_def demo_view_account_def demo_view_row_def demo_service_db_def demo_key_db_def
  demo_catalog_simps update_cat_def demo_cx_def with_endpoints_def

lemma demo_view_tenants: "tenants_ok (demo_view_db on)"
  by (simp add: tenants_ok_def keys_distinct_def parents_exist_def links_within_def grants_within_def demo_view_simps dom_def split: if_splits)

lemma demo_view_own: "own_service demo_service_env demo_cx ''v2'' (demo_view_db on) = Inr (demo_model ''v2'' ''v1'', demo_pool)"
  by (simp add: own_service_def own_services_def demo_view_simps)

lemma demo_view_rows: "service_endpoints (sd_cat (demo_view_db on)) ''v2'' =
    [(demo_view_row ''flash'' ''deepseek-v4-flash'' True, demo_view_account), (demo_view_row ''pro'' ''deepseek-v4-pro'' on, demo_view_account)]"
  by (simp add: service_endpoints_def sort_by_def cmp_of_def demo_view_simps)

lemma demo_view_answers: "\<exists>v. get_model_service demo_service_env metrics fp slots tie demo_cx ''v2'' (demo_view_db on) = Inr v \<and> vw_pool v = demo_pool"
  by (simp add: get_model_service_def demo_view_own Let_def)

lemma configured_one: "effective_capability_score m 1 = 1"
proof -
  have "rnd (1 / 100000) \<le> rnd (1 / 8)" by (simp add: rnd_mono)
  also have "\<dots> = 1 / 8" by (subst rnd_eval [where s = 55 and n = 4503599627370496]) simp_all
  finally have small: "rnd (1 / 100000) \<le> 1 / 8" .
  have "fsub 1 (rnd (50 / 100)) \<ge> fsub 1 (rnd (3 / 4))" "fsub 1 (rnd (70 / 100)) \<ge> fsub 1 (rnd (3 / 4))"
    unfolding fsub_def by (intro rnd_mono diff_mono; simp add: rnd_mono)+
  moreover have "fsub 1 (rnd (3 / 4)) = 1 / 4"
    unfolding fsub_def by (subst rnd_eval [where x = "3 / 4" and s = 53 and n = 6755399441055744]; simp)
      (subst rnd_eval [where s = 54 and n = 4503599627370496]; simp)
  ultimately show ?thesis using small by (simp add: effective_capability_score_def fclamp_def)
qed

lemma demo_ambiguous: "resolved {(''deepseek-v4-flash'', 1), (''deepseek-v4-pro'', 1)} (''deepseek-v4-flash'', 1) = rnd (65 / 100)"
proof -
  have "close_pair (scored (''deepseek-v4-flash'', 1)) (scored (''deepseek-v4-pro'', 1))"
    using flash_pro_gap spread_pos by (simp add: close_pair_def scored_def fsub_def)
  then show ?thesis by (simp add: resolved_def scored_def flash_score)
qed

text \<open>
  The comment of the handler promises that the view and the routing decisions cannot disagree.
  They do as soon as one endpoint of the pool is disabled: the synchronisation reads the enabled
  endpoints only, the view all of them, so here the view finds the scores of the pool ambiguous
  and shows the family default of the endpoint left, for which the router holds the configured 1.
\<close>

lemma disabled_sibling_splits_view_and_router:
  "\<exists>v s. get_model_service demo_service_env metrics fp slots tie demo_cx ''v2'' (demo_view_db False) = Inr v \<and>
     s \<in> set (vw_endpoints v) \<and> se_id s = ''flash'' \<and> se_capability_score s < 1 \<and>
     map_option capability_score (pool_profiles (pool_rows byte_order (sd_cat (demo_view_db False)) (mp_id (vw_pool v))) Map.empty ''flash'') = Some 1"
proof -
  obtain v where v: "get_model_service demo_service_env metrics fp slots tie demo_cx ''v2'' (demo_view_db False) = Inr v"
    "vw_pool v = demo_pool" using demo_view_answers by blast
  let ?rows = "service_endpoints (sd_cat (demo_view_db False)) ''v2''"
  obtain pick where views: "vw_endpoints v = map (service_endpoint_view_of metrics (sn_now demo_service_env) pick) (zip ?rows (viewed_capabilities ?rows))"
    using get_model_service_Inr [OF v(1)] by blast
  have scores: "scores_of ?rows = [(''deepseek-v4-flash'', 1), (''deepseek-v4-pro'', 1)]"
    by (simp add: scores_of_def demo_view_rows demo_view_row_def configured_one)
  have "hd (viewed_capabilities ?rows) = rnd (65 / 100)" "viewed_capabilities ?rows \<noteq> []"
    unfolding viewed_by_set scores using demo_ambiguous by simp_all
  then obtain cs where caps: "viewed_capabilities ?rows = rnd (65 / 100) # cs" by (cases "viewed_capabilities ?rows") auto
  let ?s = "service_endpoint_view_of metrics (sn_now demo_service_env) pick ((demo_view_row ''flash'' ''deepseek-v4-flash'' True, demo_view_account), rnd (65 / 100))"
  have s: "?s \<in> set (vw_endpoints v)" unfolding views caps unfolding demo_view_rows by simp
  have "rnd (65 / 100) \<le> rnd (3 / 4)" by (simp add: rnd_mono)
  then have less: "rnd (65 / 100) < 1" by (simp add: rnd_eval [where x = "3 / 4" and s = 53 and n = 6755399441055744])
  have "pool_rows byte_order (sd_cat (demo_view_db False)) ''mp'' = [sync_row_of (demo_view_row ''flash'' ''deepseek-v4-flash'' True) 1 1 demo_view_account]"
    by (simp add: pool_rows_def joined_rows_def sort_by_def demo_view_simps)
  then have "map_option capability_score (pool_profiles (pool_rows byte_order (sd_cat (demo_view_db False)) ''mp'') Map.empty ''flash'') = Some 1"
    by (simp add: pool_profiles_def resolve_pool_capabilities_def configured_capabilities_def sync_row_of_def demo_view_row_def profile_of_def configured_one)
  moreover have "mp_id (vw_pool v) = ''mp''" by (simp add: v(2) demo_pool_def)
  ultimately show ?thesis using v(1) s less
    by (intro exI [of _ v] exI [of _ ?s]) (simp add: service_endpoint_view_of_def Let_def demo_view_row_def)
qed

section \<open>Witnesses
\<close>



end
