(* ===== verification/Providers.thy ===== *)
theory Providers
  imports Service_Lifecycle "HOL-Library.Multiset"
begin

text \<open>
  saas/providers.rs: the provider accounts of a workspace, with the endpoints that use them counted.
\<close>

section \<open>Listing\<close>

record provider_item =
  pi_id :: string
  pi_name :: string
  pi_provider_type :: string
  pi_protocol :: string
  pi_base_url :: string
  pi_status :: string
  pi_endpoint_count :: nat
  pi_created_at :: nat

definition provider_item_of :: "string \<Rightarrow> nat \<Rightarrow> provider_account \<Rightarrow> provider_item" where
  "provider_item_of name endpoints a = \<lparr>pi_id = pa_id a, pi_name = name, pi_provider_type = pa_provider_type a,
     pi_protocol = pa_protocol a, pi_base_url = pa_base_url a, pi_status = pa_status a, pi_endpoint_count = endpoints,
     pi_created_at = pa_created_at a\<rparr>"

text \<open>A name the system made up is shown as the name of its provider.\<close>

definition shown_name :: "provider_account \<Rightarrow> string" where
  "shown_name a = (if starts_with (pa_name a) ''saas-'' then
       (let t = pa_provider_type a in
        if t = ''aliyun'' then ''Aliyun Bailian'' else if t = ''deepseek'' then ''DeepSeek''
        else if t = ''openai'' then ''OpenAI'' else if t = ''anthropic'' then ''Anthropic''
        else if t = ''openrouter'' then ''OpenRouter'' else t)
     else pa_name a)"

definition account_endpoints :: "saas_db \<Rightarrow> string \<Rightarrow> nat" where
  "account_endpoints db i = length (filter (\<lambda>e. er_account_id e = i) (ct_endpoints (sd_cat db)))"

definition own_accounts :: "saas_db \<Rightarrow> string \<Rightarrow> provider_account list" where
  "own_accounts db org = filter (\<lambda>a. sd_account_org db (pa_id a) = Some org) (ct_accounts (sd_cat db))"

text \<open>Newest first; equal ages keep the order of the table.\<close>

definition list_providers :: "service_env \<Rightarrow> saas_context \<Rightarrow> saas_db \<Rightarrow> provider_item list api" where
  "list_providers env cx db =
     (if \<not> sn_ok env ''list providers'' then Inl db_error
      else Inr (sort_by (\<lambda>a b. cmp_of (pi_created_at b) (pi_created_at a))
        (map (\<lambda>a. provider_item_of (shown_name a) (account_endpoints db (pa_id a)) a) (own_accounts db (cx_org_id cx)))))"

section \<open>Creating, updating, deleting\<close>

record create_provider_request =
  cp_name :: string
  cp_provider_type :: string
  cp_protocol :: "string option"
  cp_base_url :: string
  cp_api_key :: string

record update_provider_request =
  up_name :: "string option"
  up_protocol :: "string option"
  up_base_url :: "string option"
  up_api_key :: "string option"
  up_status :: "string option"

definition new_account :: "service_env \<Rightarrow> create_provider_request \<Rightarrow> provider_account" where
  "new_account env input = \<lparr>pa_id = sn_uuid env ''account'' 0, pa_name = trim (cp_name input),
     pa_provider_type = trim (cp_provider_type input), pa_protocol = unwrap_or (cp_protocol input) ''openai'',
     pa_base_url = trim (cp_base_url input), pa_api_key = trim (cp_api_key input), pa_status = ''active'',
     pa_metadata = None, pa_created_at = sn_now env, pa_updated_at = sn_now env\<rparr>"

text \<open>The two statements are not a transaction: the row stays when it cannot be read back.\<close>

definition create_provider ::
    "service_env \<Rightarrow> saas_context \<Rightarrow> create_provider_request \<Rightarrow> saas_db \<Rightarrow> saas_db \<times> provider_item api" where
  "create_provider env cx input db =
     (let a = new_account env input in
      if pa_name a = [] \<or> pa_base_url a = [] \<or> pa_api_key a = [] \<or> pa_provider_type a = []
      then (db, Inl (bad_request ''Name, provider type, base URL and API key are required''))
      else try_then (insert_account (sn_ok env ''insert provider'') (cx_org_id cx) a db) (\<lambda>_ db.
        (db, if sn_ok env ''select provider'' then Inr (provider_item_of (pa_name a) 0 a) else Inl db_error)))"

definition update_own_account ::
    "string \<Rightarrow> string \<Rightarrow> (provider_account \<Rightarrow> provider_account) \<Rightarrow> saas_db \<Rightarrow> saas_db" where
  "update_own_account org i f db = update_cat (\<lambda>c. c\<lparr>ct_accounts :=
     update_where (\<lambda>a. pa_id a = i \<and> sd_account_org db (pa_id a) = Some org) f (ct_accounts c)\<rparr>) db"

text \<open>A column that is given and not blank is written.\<close>

definition set_column ::
    "service_env \<Rightarrow> string \<Rightarrow> string \<Rightarrow> string \<Rightarrow> (string \<Rightarrow> provider_account \<Rightarrow> provider_account) \<Rightarrow> string option
       \<Rightarrow> saas_db \<Rightarrow> saas_db \<times> unit api" where
  "set_column env column org i f new db = (case new of
     None \<Rightarrow> (db, Inr ())
   | Some v \<Rightarrow> run_statement (sn_ok env (''set '' @ column)) (update_own_account org i (f v)) db)"

definition not_blank :: "string option \<Rightarrow> string option" where
  "not_blank s = (case s of None \<Rightarrow> None | Some t \<Rightarrow> if trim t = [] then None else Some (trim t))"

definition update_provider ::
    "service_env \<Rightarrow> saas_context \<Rightarrow> string \<Rightarrow> update_provider_request \<Rightarrow> saas_db \<Rightarrow> saas_db \<times> unit api" where
  "update_provider env cx i input = in_transaction (sn_ok env) (\<lambda>db.
     try_then (set_column env ''name'' (cx_org_id cx) i (\<lambda>v a. a\<lparr>pa_name := v\<rparr>) (not_blank (up_name input)) db) (\<lambda>_ db.
     try_then (set_column env ''base_url'' (cx_org_id cx) i (\<lambda>v a. a\<lparr>pa_base_url := v\<rparr>) (not_blank (up_base_url input)) db) (\<lambda>_ db.
     try_then (set_column env ''api_key'' (cx_org_id cx) i (\<lambda>v a. a\<lparr>pa_api_key := v\<rparr>) (not_blank (up_api_key input)) db) (\<lambda>_.
     set_column env ''status'' (cx_org_id cx) i (\<lambda>v a. a\<lparr>pa_status := v\<rparr>) (up_status input)))))"

text \<open>Any endpoint of the account stands in the way, whatever organization asks.\<close>

definition delete_provider :: "service_env \<Rightarrow> saas_context \<Rightarrow> string \<Rightarrow> saas_db \<Rightarrow> saas_db \<times> unit api" where
  "delete_provider env cx i = in_transaction (sn_ok env) (\<lambda>db.
     if \<not> sn_ok env ''count endpoints'' then (db, Inl db_error)
     else if 0 < account_endpoints db i
     then (db, Inl (409, ''Cannot delete provider account: '' @ show_nat (account_endpoints db i) @
         '' active model service endpoints are still linked to it''))
     else run_statement (sn_ok env ''delete provider'')
       (\<lambda>db. if sd_account_org db i = Some (cx_org_id cx) then delete_account i db else db) db)"

inductive provider_step :: "saas_context \<Rightarrow> saas_db \<Rightarrow> bool \<Rightarrow> saas_db \<Rightarrow> bool" where
  create: "create_provider env cx input db = (db', r1) \<Longrightarrow> provider_step cx db (\<not> isl r1) db'"
| update: "update_provider env cx i upd db = (db', r2) \<Longrightarrow> provider_step cx db (\<not> isl r2) db'"
| delete: "delete_provider env cx i db = (db', r2) \<Longrightarrow> provider_step cx db (\<not> isl r2) db'"

section \<open>Lemmas\<close>

lemma update_own_account_eq:
  "update_own_account org i f db = (if sd_account_org db i = Some org then update_account i f db else db)"
proof -
  have "update_where (\<lambda>a. pa_id a = i \<and> sd_account_org db (pa_id a) = Some org) f rows =
      (if sd_account_org db i = Some org then update_where (\<lambda>a. pa_id a = i) f rows else rows)" for rows
    by (auto simp: update_where_def intro: map_idI)
  then show ?thesis by (simp add: update_own_account_def update_account_def update_cat_def)
qed

lemma update_own_account_effect:
  assumes "\<And>a. pa_id (f a) = pa_id a"
  shows "effect org db (update_own_account org i f db)"
  unfolding update_own_account_eq using update_account_effect assms by simp

lemma set_column_effect:
  assumes "set_column env column org i f new db = (db', Inr u)" "\<And>v a. pa_id (f v a) = pa_id a"
  shows "effect org db db'"
  using assms update_own_account_effect by (auto simp: set_column_def split: option.splits)

lemma update_provider_effect:
  assumes "update_provider env cx i input db = (db', r)"
  shows "effect (cx_org_id cx) db db' \<and> (isl r \<longrightarrow> db' = db)"
proof -
  let ?body = "\<lambda>db. try_then (set_column env ''name'' (cx_org_id cx) i (\<lambda>v a. a\<lparr>pa_name := v\<rparr>) (not_blank (up_name input)) db) (\<lambda>_ db.
     try_then (set_column env ''base_url'' (cx_org_id cx) i (\<lambda>v a. a\<lparr>pa_base_url := v\<rparr>) (not_blank (up_base_url input)) db) (\<lambda>_ db.
     try_then (set_column env ''api_key'' (cx_org_id cx) i (\<lambda>v a. a\<lparr>pa_api_key := v\<rparr>) (not_blank (up_api_key input)) db) (\<lambda>_.
     set_column env ''status'' (cx_org_id cx) i (\<lambda>v a. a\<lparr>pa_status := v\<rparr>) (up_status input))))"
  from assms have tx: "in_transaction (sn_ok env) ?body db = (db', r)" by (simp only: update_provider_def)
  show ?thesis
  proof (rule transaction_effect [OF tx])
    fix d x assume "?body db = (d, Inr x)"
    then obtain d1 d2 d3 where
      1: "set_column env ''name'' (cx_org_id cx) i (\<lambda>v a. a\<lparr>pa_name := v\<rparr>) (not_blank (up_name input)) db = (d1, Inr ())"
      "set_column env ''base_url'' (cx_org_id cx) i (\<lambda>v a. a\<lparr>pa_base_url := v\<rparr>) (not_blank (up_base_url input)) d1 = (d2, Inr ())"
      "set_column env ''api_key'' (cx_org_id cx) i (\<lambda>v a. a\<lparr>pa_api_key := v\<rparr>) (not_blank (up_api_key input)) d2 = (d3, Inr ())"
      "set_column env ''status'' (cx_org_id cx) i (\<lambda>v a. a\<lparr>pa_status := v\<rparr>) (up_status input) d3 = (d, Inr ())"
      unfolding try_then_Inr by auto
    have "effect (cx_org_id cx) db d1" by (rule set_column_effect [OF 1(1)]) simp
    also have "effect (cx_org_id cx) d1 d2" by (rule set_column_effect [OF 1(2)]) simp
    also have "effect (cx_org_id cx) d2 d3" by (rule set_column_effect [OF 1(3)]) simp
    also have "effect (cx_org_id cx) d3 d" by (rule set_column_effect [OF 1(4)]) simp
    finally show "effect (cx_org_id cx) db d" .
  qed
qed

lemma delete_provider_effect:
  assumes "delete_provider env cx i db = (db', r)"
  shows "effect (cx_org_id cx) db db' \<and> (isl r \<longrightarrow> db' = db)"
proof (rule transaction_effect [OF assms [unfolded delete_provider_def]])
  fix d x
  assume "(if \<not> sn_ok env ''count endpoints'' then (db, Inl db_error)
     else if 0 < account_endpoints db i
     then (db, Inl (409, ''Cannot delete provider account: '' @ show_nat (account_endpoints db i) @
         '' active model service endpoints are still linked to it''))
     else run_statement (sn_ok env ''delete provider'')
       (\<lambda>db. if sd_account_org db i = Some (cx_org_id cx) then delete_account i db else db) db) = (d, Inr x)"
  then have "account_endpoints db i = 0" "d = (if sd_account_org db i = Some (cx_org_id cx) then delete_account i db else db)"
    by (auto split: if_splits)
  moreover from this(1) have "\<not> list_ex (\<lambda>e. er_account_id e = i) (ct_endpoints (sd_cat db))"
    by (auto simp: account_endpoints_def list_ex_iff filter_empty_conv)
  ultimately show "effect (cx_org_id cx) db d" using delete_account_effect by simp
qed

lemma create_provider_effect:
  assumes "create_provider env cx input db = (db', r)"
  shows "effect (cx_org_id cx) db db'"
proof -
  let ?a = "new_account env input"
  have "db' = db \<or> insert_account (sn_ok env ''insert provider'') (cx_org_id cx) ?a db = (db', Inr ())"
    using assms unfolding create_provider_def Let_def
    by (auto simp: try_then_def split: if_splits prod.splits sum.splits)
       (auto simp: insert_account_def statement_def split: if_splits)
  then show ?thesis using insert_account_effect by auto
qed

lemma provider_step_effect:
  "provider_step cx db ok db' \<Longrightarrow> effect (cx_org_id cx) db db'"
  using create_provider_effect update_provider_effect delete_provider_effect by (auto elim!: provider_step.cases)

section \<open>Workspaces\<close>

text \<open>An operation on services or provider accounts of some other workspace.\<close>

definition step_of_others :: "string \<Rightarrow> saas_db \<Rightarrow> saas_db \<Rightarrow> bool" where
  "step_of_others org db db' \<longleftrightarrow> (\<exists>cx ok. cx_org_id cx \<noteq> org \<and> context_ok db cx \<and>
     (service_step cx db ok db' \<or> provider_step cx db ok db'))"

lemma step_of_others_effect:
  assumes "step_of_others org db db'" "tenants_ok db"
  shows "\<exists>o1. o1 \<noteq> org \<and> tenants_ok db' \<and> same_outside o1 db db'"
proof -
  obtain cx ok where cx: "cx_org_id cx \<noteq> org" "context_ok db cx" "service_step cx db ok db' \<or> provider_step cx db ok db'"
    using assms(1) by (auto simp: step_of_others_def)
  then have "effect (cx_org_id cx) db db'" using service_step_effect assms(2) provider_step_effect by blast
  then show ?thesis using cx(1) assms(2) by (auto simp: effect_def)
qed


lemma sum_list_sort_by: "sum_list (map f (sort_by cmp xs)) = (sum_list (map f xs) :: nat)"
  using mset_sort_by [of cmp xs] by (metis mset_map sum_mset_sum_list)

lemma sum_counts:
  assumes "distinct is"
  shows "(\<Sum>i\<leftarrow>is. length (filter (\<lambda>x. key x = i) xs)) = length (filter (\<lambda>x. key x \<in> set is) xs)"
  using assms
proof (induction "is")
  case (Cons i js)
  have "length (filter (\<lambda>x. key x \<in> set (i # js)) xs) =
      length (filter (\<lambda>x. key x = i) xs) + length (filter (\<lambda>x. key x \<in> set js) xs)"
    using Cons.prems by (induction xs) auto
  with Cons show ?case by simp
qed simp

lemma own_account_ids:
  assumes "tenants_ok db"
  shows "set (map pa_id (own_accounts db org)) = {a. sd_account_org db a = Some org}"
proof -
  have "dom (sd_account_org db) \<subseteq> pa_id ` set (ct_accounts (sd_cat db))"
    using assms by (simp add: tenants_ok_def parents_exist_def)
  then show ?thesis unfolding own_accounts_def by force
qed

text \<open>
  A workspace lists and changes its own provider accounts only: the answer of the
  listing has one entry for each of them, newest first, whose endpoint counts
  add up to the endpoints on them; and an account an endpoint uses is never deleted, so no
  endpoint of anyone loses its account.
\<close>

theorem provider_accounts_are_the_callers:
  assumes "tenants_ok db" "\<And>s. sn_ok env s"
  shows "\<exists>items. list_providers env cx db = Inr items \<and>
     mset (map pi_id items) = mset (map pa_id (own_accounts db (cx_org_id cx))) \<and>
     sorted_wrt (\<lambda>a b. pi_created_at b \<le> pi_created_at a) items \<and>
     sum_list (map pi_endpoint_count items) =
       length (filter (\<lambda>e. sd_account_org db (er_account_id e) = Some (cx_org_id cx)) (ct_endpoints (sd_cat db))) \<and>
     (\<forall>i. (\<exists>e \<in> set (ct_endpoints (sd_cat db)). er_account_id e = i) \<longrightarrow>
        (\<exists>e. delete_provider env cx i db = (db, Inl (409, e))))"
proof -
  let ?org = "cx_org_id cx" and ?as = "own_accounts db (cx_org_id cx)"
  let ?f = "\<lambda>a. provider_item_of (shown_name a) (account_endpoints db (pa_id a)) a"
  let ?items = "sort_by (\<lambda>a b. cmp_of (pi_created_at b) (pi_created_at a)) (map ?f ?as)"
  have f: "pi_id (?f a) = pa_id a" "pi_endpoint_count (?f a) = account_endpoints db (pa_id a)" for a
    by (simp_all add: provider_item_of_def)
  have "list_providers env cx db = Inr ?items" using assms(2) by (simp add: list_providers_def)
  moreover have "mset (map pi_id ?items) = mset (map pa_id ?as)"
    by (simp only: mset_map mset_sort_by) (simp add: f o_def multiset.map_comp)
  moreover have "sorted (map (\<lambda>x. - int (pi_created_at x)) ?items)"
    by (rule sorted_sort_by) (auto simp: cmp_of_def split: if_splits)
  then have "sorted_wrt (\<lambda>a b. pi_created_at b \<le> pi_created_at a) ?items" by (simp add: sorted_map)
  moreover have "sum_list (map pi_endpoint_count ?items) =
      length (filter (\<lambda>e. sd_account_org db (er_account_id e) = Some ?org) (ct_endpoints (sd_cat db)))"
  proof -
    have "distinct (map pa_id ?as)"
      using assms(1) by (simp add: own_accounts_def tenants_ok_def keys_distinct_def distinct_map_filter)
    from sum_counts [OF this, of er_account_id "ct_endpoints (sd_cat db)"] show ?thesis
      unfolding sum_list_sort_by own_account_ids [OF assms(1)] by (simp only: map_map o_def f(2)) (simp add: account_endpoints_def)
  qed
  moreover have "\<exists>e. delete_provider env cx i db = (db, Inl (409, e))"
    if "\<exists>e \<in> set (ct_endpoints (sd_cat db)). er_account_id e = i" for i
  proof -
    have "0 < account_endpoints db i" using that by (auto simp: account_endpoints_def filter_empty_conv)
    then show ?thesis using assms(2) by (simp add: delete_provider_def in_transaction_def)
  qed
  ultimately show ?thesis by blast
qed

section \<open>What an update leaves alone\<close>

text \<open>
  The protocol of the request is never written, and an account of another workspace is answered like one's own.\<close>

lemma update_ignores_protocol: "update_provider env cx i (upd\<lparr>up_protocol := p\<rparr>) = update_provider env cx i upd"
  by (simp add: update_provider_def)

lemma foreign_update_succeeds:
  assumes "sd_account_org db i \<noteq> Some (cx_org_id cx)" "\<And>s. sn_ok env s"
  shows "update_provider env cx i upd db = (db, Inr ())"
proof -
  have "set_column env c (cx_org_id cx) i f new db = (db, Inr ())" for c f new
    using assms by (simp add: set_column_def update_own_account_eq run_statement_def statement_def split: option.split)
  then show ?thesis using assms(2) by (simp add: update_provider_def in_transaction_def try_then_def)
qed

section \<open>Witnesses
\<close>


definition demo_provider_request :: create_provider_request where
  "demo_provider_request = \<lparr>cp_name = ''acme'', cp_provider_type = ''openai'', cp_protocol = None, cp_base_url = ''https://u'',
     cp_api_key = ''sk''\<rparr>"

text \<open>An account with one endpoint.\<close>

definition demo_provider_db :: saas_db where
  "demo_provider_db = with_rows ''o'' [new_account demo_service_env demo_provider_request]
     [new_endpoint_row demo_service_env ''e1'' ''account'' ''n'' demo_upstream] demo_service_db"

lemma demo_provider_tenants_ok: "tenants_ok demo_provider_db"
  by (simp add: tenants_ok_def keys_distinct_def parents_exist_def links_within_def grants_within_def demo_provider_db_def
      with_rows_def new_account_def new_endpoint_row_def demo_service_db_def demo_key_db_def demo_catalog_simps update_cat_def
      dom_def split: if_splits)

theorem provider_accounts_are_the_callers_witness:
  "\<exists>items e. list_providers demo_service_env demo_cx demo_provider_db = Inr items \<and> map pi_id items = [''account''] \<and>
     sum_list (map pi_endpoint_count items) = 1 \<and>
     delete_provider demo_service_env demo_cx ''account'' demo_provider_db = (demo_provider_db, Inl (409, e))"
proof -
  have own: "map pa_id (own_accounts demo_provider_db (cx_org_id demo_cx)) = [''account'']"
    by (simp add: own_accounts_def demo_provider_db_def with_rows_def new_account_def demo_service_db_def demo_key_db_def
        demo_catalog_simps update_cat_def demo_cx_def)
  have es: "length (filter (\<lambda>e. sd_account_org demo_provider_db (er_account_id e) = Some (cx_org_id demo_cx))
      (ct_endpoints (sd_cat demo_provider_db))) = 1"
    by (simp add: demo_provider_db_def with_rows_def new_account_def new_endpoint_row_def demo_service_db_def demo_key_db_def
        demo_catalog_simps update_cat_def demo_cx_def)
  have used: "\<exists>e \<in> set (ct_endpoints (sd_cat demo_provider_db)). er_account_id e = ''account''"
    by (simp add: demo_provider_db_def with_rows_def new_endpoint_row_def update_cat_def)
  obtain items where items: "list_providers demo_service_env demo_cx demo_provider_db = Inr items"
    "mset (map pi_id items) = mset [''account'']" "sum_list (map pi_endpoint_count items) = 1"
    and del: "\<And>i. \<exists>e \<in> set (ct_endpoints (sd_cat demo_provider_db)). er_account_id e = i \<Longrightarrow>
      \<exists>e. delete_provider demo_service_env demo_cx i demo_provider_db = (demo_provider_db, Inl (409, e))"
    using provider_accounts_are_the_callers [OF demo_provider_tenants_ok demo_service_env_simps(1), of demo_cx] own es by metis
  from items(2) have "map pi_id items = [''account'']" by (metis mset.simps(1) mset.simps(2) mset_single_iff_right)
  with items del [OF used] show ?thesis by auto
qed

end
