(* ===== verification/Admin.thy ===== *)
theory Admin
  imports Service_Tables Sync
begin

text \<open>
  api/admin.rs, auth/admin.rs and the request and answer types of api/models.rs: the
  administration interface, which works on the tables of every organization. Each
  handler is a function on the database; the synchronisation it starts afterwards is the one of
  Sync and leaves the database alone. Timestamps are printed by the client of the model.
\<close>

section \<open>The administrator\<close>

text \<open>The comparison takes the same time for every token; what it decides is equality.\<close>

definition admin_auth_middleware :: "string \<Rightarrow> headers \<Rightarrow> ('s \<Rightarrow> 's \<times> 'a api) \<Rightarrow> 's \<Rightarrow> 's \<times> 'a api" where
  "admin_auth_middleware admin_token h next_handler s = (case header_str h ''authorization'' of
     None \<Rightarrow> (s, Inl (401, []))
   | Some v \<Rightarrow> if v \<noteq> ''Bearer '' @ admin_token then (s, Inl (401, [])) else next_handler s)"

definition resolve_admin_org_id :: "key_env \<Rightarrow> string option \<Rightarrow> saas_db \<Rightarrow> string api" where
  "resolve_admin_org_id env requested db =
     (case Option.bind (map_option trim requested) (\<lambda>v. if v = [] then None else Some v) of
        Some org \<Rightarrow>
          if \<not> ke_ok env ''select org'' then Inl db_error
          else if taken og_id org (ct_orgs (sd_cat db)) then Inr org
          else Inl (bad_request ''Unknown organization: pass an existing org_id or create the organization first'')
      | None \<Rightarrow>
          if \<not> ke_ok env ''select orgs'' then Inl db_error
          else (case take 2 (sort_by (\<lambda>a b. cmp_of (og_created_at a) (og_created_at b)) (ct_orgs (sd_cat db))) of
             [] \<Rightarrow> Inl (bad_request ''Create an organization before adding provider accounts or model pools'')
           | [o1] \<Rightarrow> Inr (og_id o1)
           | _ \<Rightarrow> Inl (bad_request ''org_id is required when the deployment has more than one organization'')))"

text \<open>\<open>SELECT * FROM t WHERE id = $1\<close>, which must find a row.\<close>

definition reread :: "bool \<Rightarrow> ('r \<Rightarrow> string) \<Rightarrow> string \<Rightarrow> 'r list \<Rightarrow> 'r api" where
  "reread answers key i rows =
     (if \<not> answers then Inl db_error else case find (\<lambda>r. key r = i) rows of None \<Rightarrow> Inl db_error | Some r \<Rightarrow> Inr r)"

text \<open>Every failure of a statement is answered in the same words.\<close>

definition as_db_error :: "'s \<times> 'a api \<Rightarrow> 's \<times> 'a api" where
  "as_db_error = apsnd (map_err (\<lambda>_. db_error))"

section \<open>Provider accounts and pools\<close>

record admin_provider_request =
  apr_name :: string
  apr_provider_type :: string
  apr_base_url :: string
  apr_api_key :: string
  apr_org_id :: "string option"

definition admin_account :: "key_env \<Rightarrow> admin_provider_request \<Rightarrow> provider_account" where
  "admin_account env req =
     \<lparr>pa_id = ke_uuid env ''provider'', pa_name = apr_name req, pa_provider_type = apr_provider_type req,
      pa_protocol = (if contains_any (to_ascii_lowercase (apr_provider_type req)) [''anthropic''] then ''anthropic'' else ''openai''),
      pa_base_url = apr_base_url req, pa_api_key = apr_api_key req, pa_status = ''active'', pa_metadata = None,
      pa_created_at = ke_now env, pa_updated_at = ke_now env\<rparr>"

definition admin_create_provider :: "key_env \<Rightarrow> admin_provider_request \<Rightarrow> saas_db \<Rightarrow> saas_db \<times> provider_account api" where
  "admin_create_provider env req db = (case resolve_admin_org_id env (apr_org_id req) db of
     Inl e \<Rightarrow> (db, Inl e)
   | Inr org \<Rightarrow> try_then (insert_account (ke_ok env ''insert provider'') org (admin_account env req) db) (\<lambda>_ db.
       (db, reread (ke_ok env ''select provider'') pa_id (ke_uuid env ''provider'') (ct_accounts (sd_cat db)))))"

definition admin_list_providers :: "key_env \<Rightarrow> saas_db \<Rightarrow> provider_account list api" where
  "admin_list_providers env db = (if ke_ok env ''select'' then Inr (ct_accounts (sd_cat db)) else Inl db_error)"

definition flag_int :: "bool \<Rightarrow> int" where "flag_int b = (if b then 1 else 0)"

record create_pool_request =
  cp_name :: string
  cp_strategy :: string
  cp_org_id :: "string option"
  cp_tool_trim_enabled :: "bool option"
  cp_tool_trim_dry_run :: "bool option"
  cp_max_tool_chars :: "int option"
  cp_session_affinity_enabled :: "bool option"
  cp_session_affinity_ttl_secs :: "int option"

definition admin_pool :: "key_env \<Rightarrow> create_pool_request \<Rightarrow> model_pool" where
  "admin_pool env req =
     \<lparr>mp_id = ke_uuid env ''pool'', mp_name = cp_name req, mp_strategy = cp_strategy req, mp_enabled = True,
      mp_tool_trim_enabled = flag_int (unwrap_or (cp_tool_trim_enabled req) False),
      mp_tool_trim_dry_run = flag_int (unwrap_or (cp_tool_trim_dry_run req) True),
      mp_max_tool_chars = unwrap_or (cp_max_tool_chars req) 8000,
      mp_session_affinity_enabled = flag_int (unwrap_or (cp_session_affinity_enabled req) True),
      mp_session_affinity_ttl_secs = unwrap_or (cp_session_affinity_ttl_secs req) 3600,
      mp_judge_enabled = 0, mp_judge_endpoint_id = None, mp_shadow_enabled = 0, mp_shadow_virtual_model_id = None,
      mp_shadow_sample_rate = 0, mp_created_at = ke_now env, mp_updated_at = ke_now env\<rparr>"

definition create_pool :: "key_env \<Rightarrow> create_pool_request \<Rightarrow> saas_db \<Rightarrow> saas_db \<times> model_pool api" where
  "create_pool env req db = (case resolve_admin_org_id env (cp_org_id req) db of
     Inl e \<Rightarrow> (db, Inl e)
   | Inr org \<Rightarrow> try_then (insert_pool (ke_ok env ''insert pool'') org (admin_pool env req) db) (\<lambda>_ db.
       (db, reread (ke_ok env ''select pool'') mp_id (ke_uuid env ''pool'') (ct_model_pools (sd_cat db)))))"

definition list_pools :: "key_env \<Rightarrow> saas_db \<Rightarrow> model_pool list api" where
  "list_pools env db = (if ke_ok env ''select'' then Inr (ct_model_pools (sd_cat db)) else Inl db_error)"

record update_pool_request =
  uq_session_affinity_enabled :: "bool option"
  uq_session_affinity_ttl_secs :: "int option"
  uq_tool_trim_enabled :: "bool option"
  uq_tool_trim_dry_run :: "bool option"
  uq_max_tool_chars :: "int option"

text \<open>The five columns, each from the request or else from the row that was read before.\<close>

definition pool_columns :: "nat \<Rightarrow> update_pool_request \<Rightarrow> model_pool \<Rightarrow> model_pool \<Rightarrow> model_pool" where
  "pool_columns now req old mp = mp\<lparr>
     mp_session_affinity_enabled := unwrap_or (map_option flag_int (uq_session_affinity_enabled req)) (mp_session_affinity_enabled old),
     mp_session_affinity_ttl_secs := unwrap_or (uq_session_affinity_ttl_secs req) (mp_session_affinity_ttl_secs old),
     mp_tool_trim_enabled := unwrap_or (map_option flag_int (uq_tool_trim_enabled req)) (mp_tool_trim_enabled old),
     mp_tool_trim_dry_run := unwrap_or (map_option flag_int (uq_tool_trim_dry_run req)) (mp_tool_trim_dry_run old),
     mp_max_tool_chars := unwrap_or (uq_max_tool_chars req) (mp_max_tool_chars old), mp_updated_at := now\<rparr>"

definition admin_update_pool :: "key_env \<Rightarrow> string \<Rightarrow> update_pool_request \<Rightarrow> saas_db \<Rightarrow> saas_db \<times> model_pool api" where
  "admin_update_pool env i req db =
     (if \<not> ke_ok env ''select existing'' then (db, Inl db_error)
      else case find (\<lambda>mp. mp_id mp = i) (ct_model_pools (sd_cat db)) of
        None \<Rightarrow> (db, Inl (not_found ''Pool not found''))
      | Some old \<Rightarrow> try_then (statement (ke_ok env ''update pool'') db (update_pool i (pool_columns (ke_now env) req old) db)) (\<lambda>_ db.
          (db, reread (ke_ok env ''select pool'') mp_id i (ct_model_pools (sd_cat db)))))"

section \<open>Endpoints and Virtual Models\<close>

record create_endpoint_request =
  ce_account_id :: string
  ce_name :: string
  ce_upstream_model_id :: string
  ce_priority :: "int option"
  ce_weight :: "int option"
  ce_input_price_per_1m :: "f64 option"
  ce_output_price_per_1m :: "f64 option"
  ce_capability_score :: "f64 option"
  ce_supports_tools :: "bool option"
  ce_context_length :: "int option"

definition admin_endpoint :: "key_env \<Rightarrow> create_endpoint_request \<Rightarrow> endpoint_row" where
  "admin_endpoint env req =
     \<lparr>er_id = ke_uuid env ''endpoint'', er_account_id = ce_account_id req, er_name = ce_name req,
      er_upstream_model_id = ce_upstream_model_id req, er_enabled = True, er_priority = unwrap_or (ce_priority req) 1,
      er_weight = unwrap_or (ce_weight req) 1, er_health_status = ''healthy'', er_cooldown_until = None,
      er_input_price_per_1m = ce_input_price_per_1m req, er_output_price_per_1m = ce_output_price_per_1m req,
      er_capability_score = fclamp (unwrap_or (ce_capability_score req) (rnd (1 / 2))) 0 1,
      er_supports_tools = map_option flag_int (ce_supports_tools req), er_context_length = ce_context_length req,
      er_metadata = None, er_created_at = ke_now env, er_updated_at = ke_now env\<rparr>"

definition create_endpoint :: "key_env \<Rightarrow> create_endpoint_request \<Rightarrow> saas_db \<Rightarrow> saas_db \<times> endpoint_row api" where
  "create_endpoint env req db = try_then (insert_endpoint (ke_ok env ''insert endpoint'') (admin_endpoint env req) db) (\<lambda>_ db.
     (db, reread (ke_ok env ''select endpoint'') er_id (ke_uuid env ''endpoint'') (ct_endpoints (sd_cat db))))"

text \<open>The health shown is the one of the running process where it has one.\<close>

record endpoint_view =
  ev_endpoint :: endpoint_row
  ev_account_name :: string
  ev_health_status :: string
  ev_cooldown_until :: "nat option"

definition live_health :: "(string \<rightharpoonup> endpoint_metric) \<Rightarrow> endpoint_row \<Rightarrow> string \<times> nat option" where
  "live_health metrics e = (case metrics (er_id e) of
     Some m \<Rightarrow> (health_status m, cooldown_until m) | None \<Rightarrow> (er_health_status e, er_cooldown_until e))"

definition endpoint_view_of :: "(string \<rightharpoonup> endpoint_metric) \<Rightarrow> endpoint_row \<times> provider_account \<Rightarrow> endpoint_view" where
  "endpoint_view_of metrics x = (case x of (e, a) \<Rightarrow>
     \<lparr>ev_endpoint = e, ev_account_name = pa_name a, ev_health_status = fst (live_health metrics e),
      ev_cooldown_until = snd (live_health metrics e)\<rparr>)"

definition with_accounts :: "catalog \<Rightarrow> endpoint_row list \<Rightarrow> (endpoint_row \<times> provider_account) list" where
  "with_accounts c es = concat (map (\<lambda>e. map (Pair e) (filter (\<lambda>a. pa_id a = er_account_id e) (ct_accounts c))) es)"

definition list_endpoints :: "key_env \<Rightarrow> (string \<rightharpoonup> endpoint_metric) \<Rightarrow> saas_db \<Rightarrow> endpoint_view list api" where
  "list_endpoints env metrics db = (if \<not> ke_ok env ''select'' then Inl db_error
     else Inr (map (endpoint_view_of metrics)
       (sort_by (\<lambda>(e, a) (e', a'). then_with (ke_collate env (pa_name a) (pa_name a')) (ke_collate env (er_name e) (er_name e')))
         (with_accounts (sd_cat db) (ct_endpoints (sd_cat db))))))"

definition create_virtual_model :: "key_env \<Rightarrow> string \<Rightarrow> string \<Rightarrow> saas_db \<Rightarrow> saas_db \<times> virtual_model api" where
  "create_virtual_model env pool_id name db =
     try_then (as_db_error (insert_virtual_model (ke_ok env ''insert model'')
       \<lparr>vm_id = ke_uuid env ''model'', vm_pool_id = pool_id, vm_name = name, vm_enabled = True,
        vm_created_at = ke_now env, vm_updated_at = ke_now env\<rparr> db)) (\<lambda>_ db.
     (db, reread (ke_ok env ''select model'') vm_id (ke_uuid env ''model'') (ct_virtual_models (sd_cat db))))"

definition list_virtual_models :: "key_env \<Rightarrow> saas_db \<Rightarrow> (virtual_model \<times> string) list api" where
  "list_virtual_models env db = (if \<not> ke_ok env ''select'' then Inl db_error
     else Inr (sort_by (\<lambda>(a, _) (b, _). ke_collate env (vm_name a) (vm_name b))
       (concat (map (\<lambda>vm. map (\<lambda>mp. (vm, mp_name mp)) (filter (\<lambda>mp. mp_id mp = vm_pool_id vm) (ct_model_pools (sd_cat db))))
         (ct_virtual_models (sd_cat db))))))"

section \<open>Membership of pools\<close>

record bind_request =
  bq_pool_id :: string
  bq_endpoint_id :: string
  bq_priority :: "int option"
  bq_weight :: "int option"

text \<open>\<open>ON CONFLICT (pool_id, endpoint_id) DO UPDATE\<close>.\<close>

definition upsert_link :: "string \<Rightarrow> string \<Rightarrow> int \<Rightarrow> int \<Rightarrow> (string \<times> string \<times> int \<times> int) list \<Rightarrow> (string \<times> string \<times> int \<times> int) list" where
  "upsert_link pool i priority weight links =
     (if list_ex (\<lambda>(p, e, _). p = pool \<and> e = i) links
      then map (\<lambda>(p, e, w). if p = pool \<and> e = i then (p, e, priority, weight) else (p, e, w)) links
      else links @ [(pool, i, priority, weight)])"

definition bind_endpoint_to_pool :: "key_env \<Rightarrow> bind_request \<Rightarrow> saas_db \<Rightarrow> saas_db \<times> unit api" where
  "bind_endpoint_to_pool env req db = statement (ke_ok env ''upsert link'' \<and> taken mp_id (bq_pool_id req) (ct_model_pools (sd_cat db)) \<and>
     taken er_id (bq_endpoint_id req) (ct_endpoints (sd_cat db))) db
     (update_cat (\<lambda>c. c\<lparr>ct_pool_endpoints := upsert_link (bq_pool_id req) (bq_endpoint_id req)
        (unwrap_or (bq_priority req) 1) (unwrap_or (bq_weight req) 1) (ct_pool_endpoints c)\<rparr>) db)"

record pool_endpoint_view =
  pv_endpoint :: endpoint_row
  pv_priority :: int
  pv_weight :: int
  pv_account_name :: string
  pv_provider_type :: string
  pv_health_status :: string
  pv_cooldown_until :: "nat option"
  pv_active_requests :: int
  pv_ema_latency_ms :: f64

definition pool_endpoint_view_of ::
    "(string \<rightharpoonup> endpoint_metric) \<Rightarrow> (endpoint_row \<times> provider_account) \<times> int \<times> int \<Rightarrow> pool_endpoint_view" where
  "pool_endpoint_view_of metrics x = (case x of ((e, a), priority, weight) \<Rightarrow>
     \<lparr>pv_endpoint = e, pv_priority = priority, pv_weight = weight, pv_account_name = pa_name a, pv_provider_type = pa_provider_type a,
      pv_health_status = fst (live_health metrics e), pv_cooldown_until = snd (live_health metrics e),
      pv_active_requests = (case metrics (er_id e) of Some m \<Rightarrow> active_requests m | None \<Rightarrow> 0),
      pv_ema_latency_ms = (case metrics (er_id e) of Some m \<Rightarrow> max (ema_success_latency_ms m) (ema_latency_ms m) | None \<Rightarrow> 0)\<rparr>)"

definition list_pool_endpoints :: "key_env \<Rightarrow> (string \<rightharpoonup> endpoint_metric) \<Rightarrow> string \<Rightarrow> saas_db \<Rightarrow> pool_endpoint_view list api" where
  "list_pool_endpoints env metrics pool_id db = (if \<not> ke_ok env ''select'' then Inl db_error
     else Inr (map (pool_endpoint_view_of metrics)
       (sort_by (\<lambda>((e, _), p, w) ((e', _), p', w'). then_with (cmp_of p' p) (then_with (cmp_of w' w) (ke_collate env (er_name e) (er_name e'))))
         (concat (map (\<lambda>(pool, i, p, w). if pool = pool_id
            then map (\<lambda>x. (x, p, w)) (with_accounts (sd_cat db) (filter (\<lambda>e. er_id e = i) (ct_endpoints (sd_cat db)))) else [])
           (ct_pool_endpoints (sd_cat db)))))))"

section \<open>Organizations, projects and grants\<close>

definition list_orgs :: "key_env \<Rightarrow> saas_db \<Rightarrow> org_row list api" where
  "list_orgs env db = (if ke_ok env ''select'' then Inr (ct_orgs (sd_cat db)) else Inl db_error)"

definition create_org :: "key_env \<Rightarrow> string \<Rightarrow> string option \<Rightarrow> saas_db \<Rightarrow> saas_db \<times> org_row api" where
  "create_org env name description db =
     try_then (statement (ke_ok env ''insert org'' \<and> \<not> taken og_id (ke_uuid env ''org'') (ct_orgs (sd_cat db))) db
       (update_cat (\<lambda>c. c\<lparr>ct_orgs := ct_orgs c @ [\<lparr>og_id = ke_uuid env ''org'', og_name = name, og_description = description,
          og_created_at = ke_now env, og_updated_at = ke_now env\<rparr>]\<rparr>) db)) (\<lambda>_ db.
     (db, reread (ke_ok env ''select org'') og_id (ke_uuid env ''org'') (ct_orgs (sd_cat db))))"

record create_project_request =
  cj_org_id :: string
  cj_name :: string
  cj_description :: "string option"
  cj_rpm_limit :: "int option"
  cj_concurrency_limit :: "int option"
  cj_daily_spend_limit :: "f64 option"

definition list_projects :: "key_env \<Rightarrow> saas_db \<Rightarrow> project_row list api" where
  "list_projects env db = (if ke_ok env ''select'' then Inr (ct_projects (sd_cat db)) else Inl db_error)"

definition create_project :: "key_env \<Rightarrow> create_project_request \<Rightarrow> saas_db \<Rightarrow> saas_db \<times> project_row api" where
  "create_project env req db =
     try_then (statement (ke_ok env ''insert project'' \<and> \<not> taken pj_id (ke_uuid env ''project'') (ct_projects (sd_cat db)) \<and>
         taken og_id (cj_org_id req) (ct_orgs (sd_cat db))) db
       (update_cat (\<lambda>c. c\<lparr>ct_projects := ct_projects c @ [\<lparr>pj_id = ke_uuid env ''project'', pj_org_id = cj_org_id req, pj_name = cj_name req,
          pj_description = cj_description req, pj_rpm_limit = cj_rpm_limit req, pj_concurrency_limit = cj_concurrency_limit req,
          pj_daily_spend_limit = cj_daily_spend_limit req, pj_created_at = ke_now env, pj_updated_at = ke_now env\<rparr>]\<rparr>) db)) (\<lambda>_ db.
     (db, reread (ke_ok env ''select project'') pj_id (ke_uuid env ''project'') (ct_projects (sd_cat db))))"

text \<open>\<open>ON CONFLICT DO NOTHING\<close>: a grant that exists is not an error.\<close>

definition grant_model_to_project :: "key_env \<Rightarrow> string \<Rightarrow> string \<Rightarrow> saas_db \<Rightarrow> saas_db \<times> unit api" where
  "grant_model_to_project env project v db =
     statement (ke_ok env ''insert grant'' \<and> ((project, v) \<in> set (ct_project_grants (sd_cat db)) \<or>
         taken pj_id project (ct_projects (sd_cat db)) \<and> taken vm_id v (ct_virtual_models (sd_cat db)))) db
       (if (project, v) \<in> set (ct_project_grants (sd_cat db)) then db
        else update_cat (\<lambda>c. c\<lparr>ct_project_grants := ct_project_grants c @ [(project, v)]\<rparr>) db)"

definition revoke_model_from_project :: "key_env \<Rightarrow> string \<Rightarrow> string \<Rightarrow> saas_db \<Rightarrow> saas_db \<times> unit api" where
  "revoke_model_from_project env project v db = statement (ke_ok env ''delete grant'') db
     (update_cat (\<lambda>c. c\<lparr>ct_project_grants := filter (\<lambda>x. x \<noteq> (project, v)) (ct_project_grants c)\<rparr>) db)"

record grant_view =
  gv_project_id :: string
  gv_project_name :: string
  gv_virtual_model_id :: string
  gv_virtual_model_name :: string

definition grant_views :: "catalog \<Rightarrow> grant_view list" where
  "grant_views c = concat (map (\<lambda>(p, v). concat (map (\<lambda>pj. map (\<lambda>vm.
       \<lparr>gv_project_id = p, gv_project_name = pj_name pj, gv_virtual_model_id = v, gv_virtual_model_name = vm_name vm\<rparr>)
       (filter (\<lambda>vm. vm_id vm = v) (ct_virtual_models c))) (filter (\<lambda>pj. pj_id pj = p) (ct_projects c)))) (ct_project_grants c))"

definition list_grants :: "key_env \<Rightarrow> saas_db \<Rightarrow> grant_view list api" where
  "list_grants env db = (if \<not> ke_ok env ''select'' then Inl db_error
     else Inr (sort_by (\<lambda>a b. then_with (ke_collate env (gv_project_name a) (gv_project_name b))
       (ke_collate env (gv_virtual_model_name a) (gv_virtual_model_name b))) (grant_views (sd_cat db))))"

section \<open>API keys and limits\<close>

record admin_key_request =
  aq_project_id :: string
  aq_name :: string
  aq_rpm_limit :: "int option"
  aq_concurrency_limit :: "int option"
  aq_daily_spend_limit :: "f64 option"

definition admin_key_row :: "key_env \<Rightarrow> admin_key_request \<Rightarrow> string \<Rightarrow> api_key_row" where
  "admin_key_row env req raw =
     \<lparr>ak_id = ke_uuid env ''key'', ak_project_id = aq_project_id req, ak_name = aq_name req, ak_key_hash = ke_hash env raw,
      ak_key_prefix = token_prefix raw, ak_enabled = True, ak_metadata = None, ak_rpm_limit = aq_rpm_limit req,
      ak_concurrency_limit = aq_concurrency_limit req, ak_daily_spend_limit = aq_daily_spend_limit req,
      ak_last_used_at = None, ak_created_at = ke_now env, ak_updated_at = ke_now env\<rparr>"

record api_key_response =
  ar_id :: string
  ar_project_id :: string
  ar_name :: string
  ar_key :: string
  ar_key_prefix :: string

definition admin_create_api_key :: "key_env \<Rightarrow> admin_key_request \<Rightarrow> saas_db \<Rightarrow> saas_db \<times> api_key_response api" where
  "admin_create_api_key env req db = (let raw = ''pk_'' @ ke_uuid env ''token'' in
     try_then (as_db_error (insert_key env (admin_key_row env req raw) db)) (\<lambda>_ db.
     (db, Inr \<lparr>ar_id = ke_uuid env ''key'', ar_project_id = aq_project_id req, ar_name = aq_name req, ar_key = raw,
        ar_key_prefix = token_prefix raw\<rparr>)))"

definition admin_list_api_keys :: "key_env \<Rightarrow> saas_db \<Rightarrow> api_key_row list api" where
  "admin_list_api_keys env db = (if ke_ok env ''select'' then Inr (ct_api_keys (sd_cat db)) else Inl db_error)"

text \<open>Three limits; one that is left out is cleared.\<close>

record quota_request =
  qr_rpm_limit :: "int option"
  qr_concurrency_limit :: "int option"
  qr_daily_spend_limit :: "f64 option"

definition update_project_quota :: "key_env \<Rightarrow> string \<Rightarrow> quota_request \<Rightarrow> saas_db \<Rightarrow> saas_db \<times> project_row api" where
  "update_project_quota env i req db =
     (if \<not> ke_ok env ''select exists'' then (db, Inl db_error)
      else if \<not> taken pj_id i (ct_projects (sd_cat db)) then (db, Inl (not_found ''Project not found''))
      else try_then (statement (ke_ok env ''update project'') db (update_cat (\<lambda>c. c\<lparr>ct_projects :=
          update_where (\<lambda>p. pj_id p = i) (\<lambda>p. p\<lparr>pj_rpm_limit := qr_rpm_limit req, pj_concurrency_limit := qr_concurrency_limit req,
            pj_daily_spend_limit := qr_daily_spend_limit req, pj_updated_at := ke_now env\<rparr>) (ct_projects c)\<rparr>) db)) (\<lambda>_ db.
        (db, reread (ke_ok env ''select project'') pj_id i (ct_projects (sd_cat db)))))"

definition update_api_key_quota :: "key_env \<Rightarrow> string \<Rightarrow> quota_request \<Rightarrow> saas_db \<Rightarrow> saas_db \<times> api_key_row api" where
  "update_api_key_quota env i req db =
     (if \<not> ke_ok env ''select exists'' then (db, Inl db_error)
      else if \<not> taken ak_id i (ct_api_keys (sd_cat db)) then (db, Inl (not_found ''API key not found''))
      else try_then (statement (ke_ok env ''update key'') db (update_cat (\<lambda>c. c\<lparr>ct_api_keys :=
          update_where (\<lambda>k. ak_id k = i) (\<lambda>k. k\<lparr>ak_rpm_limit := qr_rpm_limit req, ak_concurrency_limit := qr_concurrency_limit req,
            ak_daily_spend_limit := qr_daily_spend_limit req, ak_updated_at := ke_now env\<rparr>) (ct_api_keys c)\<rparr>) db)) (\<lambda>_ db.
        (db, reread (ke_ok env ''select key'') ak_id i (ct_api_keys (sd_cat db)))))"

section \<open>The models of a key\<close>

text \<open>\<open>GET /v1/models\<close>: the names, oldest first, with the time in seconds.\<close>

definition listed_models :: "catalog \<Rightarrow> string \<Rightarrow> string \<Rightarrow> virtual_model list" where
  "listed_models c project_id api_key_id = sort_by (\<lambda>a b. cmp_of (vm_created_at a) (vm_created_at b))
     (concat (map (\<lambda>vm. concat (map (\<lambda>(p, v). if v = vm_id vm \<and> p = project_id \<and> vm_enabled vm \<and> key_allows c api_key_id (vm_id vm)
         then [vm] else []) (ct_project_grants c))) (ct_virtual_models c)))"

definition list_models :: "bool \<Rightarrow> saas_db \<Rightarrow> auth_context \<Rightarrow> (string \<times> nat) list api" where
  "list_models answers db auth = (if \<not> answers then Inl (500, ''Database error'')
     else Inr (map (\<lambda>vm. (vm_name vm, vm_created_at vm div 1000000000)) (listed_models (sd_cat db) (pj_id (au_project auth)) (ak_id (au_api_key auth)))))"

section \<open>Steps\<close>

text \<open>Every handler that writes; a step that grants carries the pair it grants.\<close>

inductive admin_step :: "(string \<times> string) option \<Rightarrow> saas_db \<Rightarrow> saas_db \<Rightarrow> bool" where
  provider: "admin_create_provider env r1 db = (db', a1) \<Longrightarrow> admin_step None db db'"
| pool: "create_pool env r2 db = (db', a2) \<Longrightarrow> admin_step None db db'"
| settings: "admin_update_pool env i r3 db = (db', a3) \<Longrightarrow> admin_step None db db'"
| endpoint: "create_endpoint env r4 db = (db', a4) \<Longrightarrow> admin_step None db db'"
| model: "create_virtual_model env p name db = (db', a5) \<Longrightarrow> admin_step None db db'"
| bind_endpoint: "bind_endpoint_to_pool env r6 db = (db', a6) \<Longrightarrow> admin_step None db db'"
| org: "create_org env name d db = (db', a7) \<Longrightarrow> admin_step None db db'"
| project: "create_project env r8 db = (db', a8) \<Longrightarrow> admin_step None db db'"
| grant: "grant_model_to_project env p v db = (db', a9) \<Longrightarrow> admin_step (Some (p, v)) db db'"
| revoke: "revoke_model_from_project env p v db = (db', a9) \<Longrightarrow> admin_step None db db'"
| key: "admin_create_api_key env r10 db = (db', a10) \<Longrightarrow> admin_step None db db'"
| project_quota: "update_project_quota env i q db = (db', a8) \<Longrightarrow> admin_step None db db'"
| key_quota: "update_api_key_quota env i q db = (db', a12) \<Longrightarrow> admin_step None db db'"


section \<open>References\<close>

text \<open>Unique keys and foreign keys of every table the administration writes.\<close>

definition references_ok :: "saas_db \<Rightarrow> bool" where
  "references_ok db \<longleftrightarrow> keys_distinct db \<and> parents_exist db \<and>
     distinct (map og_id (ct_orgs (sd_cat db))) \<and> distinct (map pj_id (ct_projects (sd_cat db))) \<and>
     distinct (map ak_id (ct_api_keys (sd_cat db))) \<and> distinct (map ak_key_hash (ct_api_keys (sd_cat db))) \<and>
     pj_org_id ` set (ct_projects (sd_cat db)) \<subseteq> og_id ` set (ct_orgs (sd_cat db)) \<and>
     ak_project_id ` set (ct_api_keys (sd_cat db)) \<subseteq> pj_id ` set (ct_projects (sd_cat db)) \<and>
     ran (sd_pool_org db) \<subseteq> og_id ` set (ct_orgs (sd_cat db)) \<and> ran (sd_account_org db) \<subseteq> og_id ` set (ct_orgs (sd_cat db)) \<and>
     distinct (map (\<lambda>(p, e, _). (p, e)) (ct_pool_endpoints (sd_cat db))) \<and>
     (\<lambda>(p, e, _). e) ` set (ct_pool_endpoints (sd_cat db)) \<subseteq> er_id ` set (ct_endpoints (sd_cat db)) \<and>
     distinct (ct_project_grants (sd_cat db)) \<and>
     set (ct_project_grants (sd_cat db)) \<subseteq> pj_id ` set (ct_projects (sd_cat db)) \<times> vm_id ` set (ct_virtual_models (sd_cat db)) \<and>
     fst ` set (ct_key_grants (sd_cat db)) \<subseteq> ak_id ` set (ct_api_keys (sd_cat db))"

lemma ran_upd_subset: "ran m \<subseteq> A \<Longrightarrow> x \<in> A \<Longrightarrow> ran (m(k \<mapsto> x)) \<subseteq> A"
  by (auto simp: ran_def)

lemma map_update_where: "(\<And>r. key (f r) = key r) \<Longrightarrow> map key (update_where P f rows) = map key rows"
  by (simp add: update_where_def comp_def if_distrib cong: if_cong)

lemma image_update_where: "(\<And>r. key (f r) = key r) \<Longrightarrow> key ` set (update_where P f rows) = key ` set rows"
  by (metis list.set_map map_update_where)

lemma as_db_error_Inr [simp]: "as_db_error x = (s, Inr u) \<longleftrightarrow> x = (s, Inr u)"
  by (cases x; cases "snd x") (auto simp: as_db_error_def)

text \<open>A handler of one statement and a read leaves the state of the statement, or the one before.\<close>

lemma statement_then_read:
  assumes "try_then st k = (db', a)" "\<And>u db. fst (k u db) = db"
  shows "db' = fst st"
proof -
  obtain s r where st: "st = (s, r)" by (cases st)
  have "fst (try_then st k) = s" using assms(2) by (cases r) (simp_all add: st try_then_def)
  then show ?thesis using assms(1) by (simp add: st)
qed

lemma fst_statement: "fst (statement b db db') = (if b then db' else db)"
  by (simp add: statement_def)

lemma fst_as_db_error [simp]: "fst (as_db_error x) = fst x"
  by (simp add: as_db_error_def)

lemmas insert_states = insert_account_def insert_pool_def insert_endpoint_def insert_virtual_model_def fst_statement

lemma insert_account_refs: "references_ok db \<Longrightarrow> references_ok (fst (insert_account ok org a db))"
  unfolding insert_states references_ok_def separation_defs
  by (intro conjI) (auto simp: ran_upd_subset dest: subsetD)

lemma insert_pool_refs: "references_ok db \<Longrightarrow> references_ok (fst (insert_pool ok org mp db))"
  unfolding insert_states references_ok_def separation_defs
  by (intro conjI) (auto simp: ran_upd_subset dest: subsetD)

lemma insert_endpoint_refs: "references_ok db \<Longrightarrow> references_ok (fst (insert_endpoint ok e db))"
  unfolding insert_states references_ok_def separation_defs
  by (intro conjI) (auto dest: subsetD)

lemma insert_virtual_model_refs: "references_ok db \<Longrightarrow> references_ok (fst (insert_virtual_model ok vm db))"
  unfolding insert_states references_ok_def separation_defs fst_apsnd
  by (intro conjI) (auto dest: subsetD)


lemma upsert_link_keys:
  "map (\<lambda>(p, e, _). (p, e)) (upsert_link pool i pr w links) =
     (let ks = map (\<lambda>(p, e, _). (p, e)) links in if (pool, i) \<in> set ks then ks else ks @ [(pool, i)])"
proof -
  have "list_ex (\<lambda>(p, e, _). p = pool \<and> e = i) links \<longleftrightarrow> (pool, i) \<in> set (map (\<lambda>(p, e, _). (p, e)) links)"
    by (force simp: list_ex_iff image_iff)
  then show ?thesis by (auto simp: upsert_link_def Let_def split: prod.splits)
qed

lemma upsert_link_ends:
  "(\<lambda>(p, e, _). (p, e)) ` set (upsert_link pool i pr w links) = insert (pool, i) ((\<lambda>(p, e, _). (p, e)) ` set links)"
  using arg_cong [OF upsert_link_keys, of set pool i pr w links] by (simp add: Let_def insert_absorb split: if_splits)

lemma link_ends:
  "fst ` set links = fst ` set (map (\<lambda>(p, e, _). (p, e)) links)"
  "(\<lambda>(p, e, _). e) ` set links = snd ` set (map (\<lambda>(p, e, _). (p, e)) links)"
  by (force simp: image_iff)+

lemma bind_endpoint_refs: "references_ok db \<Longrightarrow> references_ok (fst (bind_endpoint_to_pool env req db))"
  unfolding bind_endpoint_to_pool_def fst_statement references_ok_def separation_defs link_ends
  by (intro conjI) (auto simp: upsert_link_keys upsert_link_ends Let_def)

lemma create_org_refs: "references_ok db \<Longrightarrow> create_org env name d db = (db', a) \<Longrightarrow> references_ok db'"
  unfolding create_org_def references_ok_def separation_defs
  by (drule statement_then_read, simp) (intro conjI; auto simp: fst_statement)

lemma create_project_refs: "references_ok db \<Longrightarrow> create_project env req db = (db', a) \<Longrightarrow> references_ok db'"
  unfolding create_project_def references_ok_def separation_defs
  by (drule statement_then_read, simp) (intro conjI; auto simp: fst_statement)

lemma grant_refs: "references_ok db \<Longrightarrow> references_ok (fst (grant_model_to_project env p v db))"
  unfolding grant_model_to_project_def fst_statement references_ok_def separation_defs
  by (intro conjI) (auto dest: subsetD)

lemma revoke_refs: "references_ok db \<Longrightarrow> references_ok (fst (revoke_model_from_project env p v db))"
  unfolding revoke_model_from_project_def fst_statement references_ok_def separation_defs
  by (intro conjI) (auto dest: subsetD)

lemma insert_key_refs: "references_ok db \<Longrightarrow> references_ok (fst (insert_key env k db))"
  unfolding insert_key_def Let_def references_ok_def separation_defs
  by (intro conjI) auto


lemma update_pool_refs: "references_ok db \<Longrightarrow> (\<And>mp. mp_id (f mp) = mp_id mp) \<Longrightarrow> references_ok (update_pool i f db)"
  unfolding references_ok_def separation_defs by (simp add: update_pool_def map_update_where image_update_where)

lemma update_project_refs:
  assumes "references_ok db" "\<And>p. pj_id (f p) = pj_id p \<and> pj_org_id (f p) = pj_org_id p"
  shows "references_ok (update_cat (\<lambda>c. c\<lparr>ct_projects := update_where P f (ct_projects c)\<rparr>) db)"
  using assms unfolding references_ok_def separation_defs by (simp add: map_update_where image_update_where)

lemma update_key_refs:
  assumes "references_ok db" "\<And>k. ak_id (f k) = ak_id k \<and> ak_key_hash (f k) = ak_key_hash k \<and> ak_project_id (f k) = ak_project_id k"
  shows "references_ok (update_cat (\<lambda>c. c\<lparr>ct_api_keys := update_where P f (ct_api_keys c)\<rparr>) db)"
  using assms unfolding references_ok_def separation_defs by (simp add: map_update_where image_update_where)


section \<open>Properties\<close>

lemma admin_create_provider_state:
  "admin_create_provider env req db = (db', a) \<Longrightarrow>
     db' = db \<or> (\<exists>org. db' = fst (insert_account (ke_ok env ''insert provider'') org (admin_account env req) db))"
  unfolding admin_create_provider_def by (auto split: sum.splits dest!: statement_then_read)

lemma create_pool_state:
  "create_pool env req db = (db', a) \<Longrightarrow>
     db' = db \<or> (\<exists>org. db' = fst (insert_pool (ke_ok env ''insert pool'') org (admin_pool env req) db))"
  unfolding create_pool_def by (auto split: sum.splits dest!: statement_then_read)

lemma mp_id_pool_columns [simp]: "mp_id (pool_columns now req old mp) = mp_id mp"
  by (simp add: pool_columns_def)

lemma admin_update_pool_state:
  "admin_update_pool env i req db = (db', a) \<Longrightarrow> db' = db \<or> (\<exists>old. db' = update_pool i (pool_columns (ke_now env) req old) db)"
  unfolding admin_update_pool_def by (auto simp: fst_statement split: if_splits option.splits dest!: statement_then_read)

lemma update_project_quota_state:
  "update_project_quota env i req db = (db', a) \<Longrightarrow> db' = db \<or> db' = update_cat (\<lambda>c. c\<lparr>ct_projects :=
     update_where (\<lambda>p. pj_id p = i) (\<lambda>p. p\<lparr>pj_rpm_limit := qr_rpm_limit req, pj_concurrency_limit := qr_concurrency_limit req,
       pj_daily_spend_limit := qr_daily_spend_limit req, pj_updated_at := ke_now env\<rparr>) (ct_projects c)\<rparr>) db"
  unfolding update_project_quota_def by (auto simp: fst_statement split: if_splits dest!: statement_then_read)

lemma update_api_key_quota_state:
  "update_api_key_quota env i req db = (db', a) \<Longrightarrow> db' = db \<or> db' = update_cat (\<lambda>c. c\<lparr>ct_api_keys :=
     update_where (\<lambda>k. ak_id k = i) (\<lambda>k. k\<lparr>ak_rpm_limit := qr_rpm_limit req, ak_concurrency_limit := qr_concurrency_limit req,
       ak_daily_spend_limit := qr_daily_spend_limit req, ak_updated_at := ke_now env\<rparr>) (ct_api_keys c)\<rparr>) db"
  unfolding update_api_key_quota_def by (auto simp: fst_statement split: if_splits dest!: statement_then_read)

lemma single_insert_states:
  "create_endpoint env r4 db = (db', a4) \<Longrightarrow> db' = fst (insert_endpoint (ke_ok env ''insert endpoint'') (admin_endpoint env r4) db)"
  "create_virtual_model env p name db = (db', a5) \<Longrightarrow> \<exists>vm. db' = fst (insert_virtual_model (ke_ok env ''insert model'') vm db)"
  "admin_create_api_key env r10 db = (db', a10) \<Longrightarrow> \<exists>k. db' = fst (insert_key env k db)"
  unfolding create_endpoint_def create_virtual_model_def admin_create_api_key_def Let_def
  by (auto dest!: statement_then_read)

lemma admin_step_refs:
  assumes "admin_step g db db'" "references_ok db"
  shows "references_ok db'"
  using assms
proof (induction rule: admin_step.induct)
  case provider
  then show ?case using admin_create_provider_state insert_account_refs by blast
next
  case pool
  then show ?case using create_pool_state insert_pool_refs by blast
next
  case settings
  then show ?case by (auto dest!: admin_update_pool_state intro: update_pool_refs)
next
  case endpoint
  then show ?case using single_insert_states(1) insert_endpoint_refs by blast
next
  case model
  then show ?case using single_insert_states(2) insert_virtual_model_refs by blast
next
  case (bind_endpoint env r6 db db' a6)
  then show ?case using bind_endpoint_refs [of db env r6] by simp
next
  case org
  then show ?case using create_org_refs by blast
next
  case project
  then show ?case using create_project_refs by blast
next
  case (grant env p v db db' a9)
  then show ?case using grant_refs [of db env p v] by simp
next
  case (revoke env p v db db' a9)
  then show ?case using revoke_refs [of db env p v] by simp
next
  case key
  then show ?case using single_insert_states(3) insert_key_refs by blast
next
  case (project_quota env i q db db' a8)
  then show ?case by (auto dest!: update_project_quota_state intro: update_project_refs)
next
  case (key_quota env i q db db' a12)
  then show ?case by (auto dest!: update_api_key_quota_state intro: update_key_refs)
qed



text \<open>Only a grant adds to the grants of projects.\<close>

lemma admin_step_grants:
  assumes "admin_step g db db'"
  shows "set (ct_project_grants (sd_cat db')) \<subseteq> set (ct_project_grants (sd_cat db)) \<union> (case g of None \<Rightarrow> {} | Some x \<Rightarrow> {x})"
  using assms
proof (induction rule: admin_step.induct)
  case provider
  then show ?case by (auto simp: insert_states dest!: admin_create_provider_state split: if_splits)
next
  case pool
  then show ?case by (auto simp: insert_states dest!: create_pool_state split: if_splits)
next
  case settings
  then show ?case by (auto simp: update_pool_def dest!: admin_update_pool_state)
next
  case endpoint
  then show ?case by (auto simp: insert_states dest!: single_insert_states(1) split: if_splits)
next
  case model
  then show ?case by (auto simp: insert_states dest!: single_insert_states(2) split: if_splits)
next
  case (bind_endpoint env r6 db db' a6)
  then show ?case using fst_conv [of db' a6] by (auto simp: bind_endpoint_to_pool_def statement_def split: if_splits)
next
  case org
  then show ?case unfolding create_org_def by (auto simp: fst_statement dest!: statement_then_read split: if_splits)
next
  case project
  then show ?case unfolding create_project_def by (auto simp: fst_statement dest!: statement_then_read split: if_splits)
next
  case (grant env p v db db' a9)
  then show ?case by (auto simp: grant_model_to_project_def statement_def split: if_splits)
next
  case (revoke env p v db db' a9)
  then show ?case by (auto simp: revoke_model_from_project_def statement_def split: if_splits)
next
  case key
  then show ?case by (auto simp: insert_key_def Let_def dest!: single_insert_states(3) split: if_splits)
next
  case project_quota
  then show ?case by (auto dest!: update_project_quota_state)
next
  case key_quota
  then show ?case by (auto dest!: update_api_key_quota_state)
qed

lemma listed_models_mem:
  "vm \<in> set (listed_models c p k) \<longleftrightarrow> vm \<in> set (ct_virtual_models c) \<and> vm_enabled vm \<and> (p, vm_id vm) \<in> set (ct_project_grants c) \<and>
     key_allows c k (vm_id vm)"
proof -
  have row: "w \<in> set (concat (map (\<lambda>(q, v). if v = vm_id u \<and> q = p \<and> B then [u] else []) gs)) \<longleftrightarrow> w = u \<and> (p, vm_id u) \<in> set gs \<and> B"
    for w u gs B by (induction gs) auto
  have "vm \<in> set (listed_models c p k) \<longleftrightarrow> (\<exists>u \<in> set (ct_virtual_models c). vm \<in> set (concat (map (\<lambda>(q, v).
      if v = vm_id u \<and> q = p \<and> vm_enabled u \<and> key_allows c k (vm_id u) then [u] else []) (ct_project_grants c))))"
    unfolding listed_models_def set_sort_by by (simp only: set_concat set_map UN_iff image_iff bex_simps)
  then show ?thesis unfolding row by blast
qed

text \<open>
  C21. A revoked model stays revoked: after an accepted revocation, and whatever the
  administrator does except granting this model to this project again, no key of the project is
  served the model, under any name it asks for, and it is not listed.
\<close>

theorem revoked_model_stays_revoked:
  assumes "revoke_model_from_project env p v db = (db0, Inr ())" "(\<lambda>a b. \<exists>g. g \<noteq> Some (p, v) \<and> admin_step g a b)\<^sup>*\<^sup>* db0 db'"
  shows "(\<forall>collate a b requested k vm. resolve_authorized_virtual_model collate a b (sd_cat db') requested p k = Inr (Some vm) \<longrightarrow> vm_id vm \<noteq> v) \<and>
     (\<forall>k vm. vm \<in> set (listed_models (sd_cat db') p k) \<longrightarrow> vm_id vm \<noteq> v)"
proof -
  have "(p, v) \<notin> set (ct_project_grants (sd_cat db0))" using assms(1) by (auto simp: revoke_model_from_project_def)
  with assms(2) have gone: "(p, v) \<notin> set (ct_project_grants (sd_cat db'))"
  proof (induction rule: rtranclp_induct)
    case (step a b)
    from step.hyps(2) obtain g where "g \<noteq> Some (p, v)" "admin_step g a b" by blast
    then show ?case using admin_step_grants [of g a b] step.IH step.prems by (cases g) auto
  qed
  then show ?thesis unfolding listed_models_mem using resolved_model_granted by blast
qed

text \<open>
  C22. The model list tells the truth: every name listed for a key is resolved to a model that is listed, and
  a request of any name is never resolved to a model that is not.
\<close>

theorem listed_models_are_the_served_ones:
  assumes "list_models answers db auth = Inr ms" "references_ok db"
  shows "(\<forall>x \<in> set ms. \<forall>collate b. \<exists>vm. resolve_authorized_virtual_model collate True b (sd_cat db) (fst x)
         (pj_id (au_project auth)) (ak_id (au_api_key auth)) = Inr (Some vm) \<and> (vm_name vm, vm_created_at vm div 1000000000) \<in> set ms) \<and>
     (\<forall>collate a b requested vm. resolve_authorized_virtual_model collate a b (sd_cat db) requested
         (pj_id (au_project auth)) (ak_id (au_api_key auth)) = Inr (Some vm) \<longrightarrow> (vm_name vm, vm_created_at vm div 1000000000) \<in> set ms)"
proof -
  let ?p = "pj_id (au_project auth)" and ?k = "ak_id (au_api_key auth)"
  let ?show = "\<lambda>vm. (vm_name vm, vm_created_at vm div 1000000000)" and ?listed = "listed_models (sd_cat db) ?p ?k"
  have "map ?show ?listed = ms" using assms(1) by (simp add: list_models_def split: if_splits)
  then have "set (map ?show ?listed) = set ms" by (rule arg_cong)
  then have ms: "set ms = ?show ` set ?listed" unfolding set_map by (rule sym)
  have listed: "?show vm \<in> set ms"
    if "resolve_authorized_virtual_model collate a b (sd_cat db) requested ?p ?k = Inr (Some vm)" for collate a b requested vm
  proof -
    have "vm \<in> set ?listed" using resolved_model_granted [OF that] by (simp only: listed_models_mem)
    then show ?thesis unfolding ms by (rule imageI)
  qed
  have served: "\<exists>vm. resolve_authorized_virtual_model collate True b (sd_cat db) (fst x) ?p ?k = Inr (Some vm) \<and> ?show vm \<in> set ms"
    if x: "x \<in> set ms" for x collate b
  proof -
    from x [unfolded ms] obtain vm where shown: "x = ?show vm" and listed_vm: "vm \<in> set ?listed" by (rule imageE)
    have vm: "vm \<in> set ?listed" "fst x = vm_name vm" by (rule listed_vm) (simp add: shown)
    then have mem: "vm \<in> set (ct_virtual_models (sd_cat db))" by (simp only: listed_models_mem)
    have "vm_pool_id ` set (ct_virtual_models (sd_cat db)) \<subseteq> mp_id ` set (ct_model_pools (sd_cat db))"
      using assms(2) unfolding references_ok_def parents_exist_def by (elim conjE)
    then have "vm_pool_id vm \<in> mp_id ` set (ct_model_pools (sd_cat db))" using imageI [OF mem] by (rule subsetD)
    then obtain mp where "vm_pool_id vm = mp_id mp" and in_pools: "mp \<in> set (ct_model_pools (sd_cat db))" by (rule imageE)
    then have mp: "mp \<in> set (ct_model_pools (sd_cat db))" "mp_id mp = vm_pool_id vm" by simp_all
    have "vm \<in> set (exact_models (sd_cat db) (fst x) ?p ?k)"
      unfolding exact_models_def granted_models_iff
      using vm(1) [unfolded listed_models_mem] vm(2) mp by (intro conjI bexI [of _ mp]) simp_all
    then obtain vm' where "first_of (exact_cmp collate (fst x)) (exact_models (sd_cat db) (fst x) ?p ?k) = Some vm'"
      by (metis empty_iff first_of_None list.set(1) not_None_eq)
    then have "resolve_authorized_virtual_model collate True b (sd_cat db) (fst x) ?p ?k = Inr (Some vm')"
      by (simp add: resolve_authorized_virtual_model_def)
    then show ?thesis using listed by (intro exI [of _ vm'] conjI) simp_all
  qed
  show ?thesis
  proof (intro conjI ballI allI impI)
    fix x collate b assume x: "x \<in> set ms"
    show "\<exists>vm. resolve_authorized_virtual_model collate True b (sd_cat db) (fst x) ?p ?k = Inr (Some vm) \<and> ?show vm \<in> set ms"
      by (rule served [OF x])
  next
    fix collate a b requested vm assume "resolve_authorized_virtual_model collate a b (sd_cat db) requested ?p ?k = Inr (Some vm)"
    then show "?show vm \<in> set ms" by (rule listed)
  qed
qed

section \<open>Setting a service up\<close>

lemma create_virtual_model_Inr:
  assumes "create_virtual_model env pool name db = (db1, Inr vm)"
  shows "db1 = update_cat (\<lambda>c. c\<lparr>ct_virtual_models := ct_virtual_models c @ [vm]\<rparr>) db" "vm_pool_id vm = pool" "vm_name vm = name" "vm_enabled vm"
    "pool \<in> mp_id ` set (ct_model_pools (sd_cat db))"
proof -
  let ?row = "\<lparr>vm_id = ke_uuid env ''model'', vm_pool_id = pool, vm_name = name, vm_enabled = True,
        vm_created_at = ke_now env, vm_updated_at = ke_now env\<rparr>"
  obtain u where ins: "insert_virtual_model (ke_ok env ''insert model'') ?row db = (db1, Inr u)"
    and read: "reread (ke_ok env ''select model'') vm_id (ke_uuid env ''model'') (ct_virtual_models (sd_cat db1)) = Inr vm"
    using assms by (auto simp: create_virtual_model_def try_then_Inr)
  then have fresh: "ke_uuid env ''model'' \<notin> vm_id ` set (ct_virtual_models (sd_cat db))"
    and pool: "pool \<in> mp_id ` set (ct_model_pools (sd_cat db))"
    and db1: "db1 = update_cat (\<lambda>c. c\<lparr>ct_virtual_models := ct_virtual_models c @ [?row]\<rparr>) db"
    by (auto simp: insert_virtual_model_def statement_def map_err_def split: if_splits)
  have "\<not> list_ex (\<lambda>r. vm_id r = ke_uuid env ''model'') (ct_virtual_models (sd_cat db))" using fresh by (auto simp: list_ex_iff image_iff)
  then have "find (\<lambda>r. vm_id r = ke_uuid env ''model'') (ct_virtual_models (sd_cat db1)) = Some ?row"
    unfolding db1 by (simp add: find_append_new)
  then have vm: "vm = ?row" using read by (simp add: reread_def split: if_splits)
  show "db1 = update_cat (\<lambda>c. c\<lparr>ct_virtual_models := ct_virtual_models c @ [vm]\<rparr>) db" "vm_pool_id vm = pool" "vm_name vm = name" "vm_enabled vm"
    "pool \<in> mp_id ` set (ct_model_pools (sd_cat db))"
    using db1 pool by (simp_all add: vm)
qed

lemma admin_create_api_key_Inr:
  assumes "admin_create_api_key env req db = (db1, Inr key)"
  shows "db1 = update_cat (\<lambda>c. c\<lparr>ct_api_keys := ct_api_keys c @ [admin_key_row env req (ar_key key)]\<rparr>) db"
    "ak_id (admin_key_row env req (ar_key key)) = ar_id key" "ar_id key \<notin> ak_id ` set (ct_api_keys (sd_cat db))"
    "ke_hash env (ar_key key) \<notin> ak_key_hash ` set (ct_api_keys (sd_cat db))"
    "aq_project_id req \<in> pj_id ` set (ct_projects (sd_cat db))"
  using assms by (auto simp: admin_create_api_key_def try_then_Inr insert_key_def admin_key_row_def Let_def split: if_splits)

lemma upsert_link_mem: "(pool, i, pr, w) \<in> set (upsert_link pool i pr w links)"
proof (cases "list_ex (\<lambda>(p, e, _). p = pool \<and> e = i) links")
  case True
  then obtain p0 w0 where x: "(pool, i, p0, w0) \<in> set links" by (auto simp: list_ex_iff)
  have "(pool, i, pr, w) \<in> (\<lambda>(p, e, u). if p = pool \<and> e = i then (p, e, pr, w) else (p, e, u)) ` set links"
    by (rule image_eqI [OF _ x]) simp
  then show ?thesis using True by (simp add: upsert_link_def)
qed (simp add: upsert_link_def)

lemma admin_key_authenticates:
  assumes "admin_create_api_key env req db = (db1, Inr key)" "header_str h ''authorization'' = Some (''Bearer '' @ ar_key key)"
  shows "\<exists>au. authenticate (ke_hash env) True True (sd_cat db1) h = Inr au \<and> au_api_key au = admin_key_row env req (ar_key key) \<and>
     pj_id (au_project au) = aq_project_id req"
proof -
  note created = admin_create_api_key_Inr [OF assms(1)]
  let ?row = "admin_key_row env req (ar_key key)"
  have "\<not> list_ex (\<lambda>k. ak_key_hash k = ke_hash env (ar_key key) \<and> ak_enabled k) (ct_api_keys (sd_cat db))"
    using created(4) by (auto simp: list_ex_iff image_iff)
  then have found: "find (\<lambda>k. ak_key_hash k = ke_hash env (ar_key key) \<and> ak_enabled k) (ct_api_keys (sd_cat db1)) = Some ?row"
    unfolding created(1) by (simp add: find_append_new admin_key_row_def)
  have row: "ak_project_id ?row = aq_project_id req" by (simp add: admin_key_row_def)
  have projects: "ct_projects (sd_cat db1) = ct_projects (sd_cat db)" by (simp add: created(1))
  obtain p where p: "find (\<lambda>p. pj_id p = aq_project_id req) (ct_projects (sd_cat db1)) = Some p"
    using created(5) unfolding projects by (cases "find (\<lambda>p. pj_id p = aq_project_id req) (ct_projects (sd_cat db))") (auto simp: find_None_iff)
  then have "pj_id p = aq_project_id req" by (auto simp: find_Some_iff)
  moreover have "authenticate (ke_hash env) True True (sd_cat db1) h = Inr \<lparr>au_project = p, au_api_key = ?row\<rparr>"
    using assms(2) found p unfolding row [symmetric] by (rule authenticate_bearer)
  ultimately show ?thesis by simp
qed




text \<open>Binding does not ask whose the endpoint is: the pool of one organization can get the endpoint and key of another.\<close>

lemma binding_crosses_organizations:
  assumes "bind_endpoint_to_pool env b db = (db', Inr ())" "keys_distinct db" "e \<in> set (ct_endpoints (sd_cat db))" "er_id e = bq_endpoint_id b"
    and "sd_account_org db (er_account_id e) \<noteq> sd_pool_org db (bq_pool_id b)"
  shows "\<not> tenants_ok db'"
proof
  assume ok: "tenants_ok db'"
  let ?p = "unwrap_or (bq_priority b) 1" and ?w = "unwrap_or (bq_weight b) 1"
  have db': "db' = update_cat (\<lambda>c. c\<lparr>ct_pool_endpoints := upsert_link (bq_pool_id b) (bq_endpoint_id b) ?p ?w (ct_pool_endpoints c)\<rparr>) db"
    using assms(1) by (simp add: bind_endpoint_to_pool_def)
  have "(bq_pool_id b, bq_endpoint_id b, ?p, ?w) \<in> set (ct_pool_endpoints (sd_cat db'))" by (simp add: db' upsert_link_mem)
  then obtain e' where e': "e' \<in> set (ct_endpoints (sd_cat db))" "er_id e' = bq_endpoint_id b"
    "sd_account_org db (er_account_id e') = sd_pool_org db (bq_pool_id b)"
    using ok unfolding tenants_ok_def links_within_def by (force simp: db')
  then have "e' = e" using assms(2-4) by (simp add: keys_distinct_def distinct_map inj_on_def)
  with e'(3) assms(5) show False by simp
qed

text \<open>A key restricted to one model is unrestricted once the model is deleted: its last grant goes with it.\<close>

lemma deleted_model_unrestricts_the_key:
  assumes "vm \<in> set (ct_virtual_models (sd_cat db))" "\<And>g. g \<in> set (ct_key_grants (sd_cat db)) \<Longrightarrow> fst g = k \<Longrightarrow> snd g = vm_id vm"
  shows "key_allows (sd_cat (delete_virtual_models (\<lambda>w. vm_id w = vm_id vm) db)) k v"
proof -
  define gone where "gone = vm_id ` {w \<in> set (ct_virtual_models (sd_cat db)). vm_id w = vm_id vm}"
  have "vm_id vm \<in> gone" using assms(1) unfolding gone_def by blast
  then have "g \<in> set (ct_key_grants (sd_cat db)) \<Longrightarrow> fst g = k \<Longrightarrow> snd g \<in> gone" for g using assms(2) by simp
  then have none: "\<not> list_ex (\<lambda>(g, w). g = k) (filter (\<lambda>(_, w). w \<notin> gone) (ct_key_grants (sd_cat db)))"
    by (auto simp: list_ex_iff)
  have "ct_key_grants (sd_cat (delete_virtual_models (\<lambda>w. vm_id w = vm_id vm) db)) = filter (\<lambda>(_, w). w \<notin> gone) (ct_key_grants (sd_cat db))"
    unfolding delete_virtual_models_def Let_def update_cat_simps gone_def by simp
  then show ?thesis unfolding key_allows_def using none by (simp only: simp_thms)
qed

section \<open>Witnesses\<close>

text \<open>An organization with a project, a pool, and an account with one endpoint.\<close>

definition demo_admin_account :: provider_account where
  "demo_admin_account = admin_account demo_key_env \<lparr>apr_name = ''acme'', apr_provider_type = ''openai'', apr_base_url = ''https://u'',
     apr_api_key = ''sk'', apr_org_id = None\<rparr>"

definition demo_admin_endpoint :: endpoint_row where
  "demo_admin_endpoint = admin_endpoint demo_key_env \<lparr>ce_account_id = ''provider'', ce_name = ''e'', ce_upstream_model_id = ''m'', ce_priority = None,
     ce_weight = None, ce_input_price_per_1m = None, ce_output_price_per_1m = None, ce_capability_score = None, ce_supports_tools = None,
     ce_context_length = None\<rparr>"

definition demo_admin_db :: saas_db where
  "demo_admin_db = demo_key_db\<lparr>sd_cat := demo_catalog\<lparr>ct_orgs := [\<lparr>og_id = ''o'', og_name = ''O'', og_description = None, og_created_at = 0, og_updated_at = 0\<rparr>],
     ct_accounts := [demo_admin_account], ct_endpoints := [demo_admin_endpoint]\<rparr>, sd_account_org := [''provider'' \<mapsto> ''o'']\<rparr>"

lemmas demo_admin_simps = demo_admin_db_def demo_admin_account_def demo_admin_endpoint_def admin_account_def admin_endpoint_def
  demo_key_db_def demo_key_env_def demo_catalog_simps

lemma demo_admin_references: "references_ok demo_admin_db"
  by (simp add: references_ok_def separation_defs demo_admin_simps ran_def)


theorem revoked_model_stays_revoked_witness:
  "\<forall>collate a b requested k. resolve_authorized_virtual_model collate a b
     (sd_cat (fst (revoke_model_from_project demo_key_env ''p'' ''v1'' demo_admin_db))) requested ''p'' k \<noteq> Inr (Some (demo_model ''v1'' ''auto''))"
proof -
  have "revoke_model_from_project demo_key_env ''p'' ''v1'' demo_admin_db =
      (fst (revoke_model_from_project demo_key_env ''p'' ''v1'' demo_admin_db), Inr ())"
    by (simp add: revoke_model_from_project_def statement_def demo_key_env_def)
  from revoked_model_stays_revoked [OF this rtranclp.rtrancl_refl] have "\<And>collate a b requested k vm. resolve_authorized_virtual_model collate a b
     (sd_cat (fst (revoke_model_from_project demo_key_env ''p'' ''v1'' demo_admin_db))) requested ''p'' k = Inr (Some vm) \<Longrightarrow> vm_id vm \<noteq> ''v1''"
    by blast
  moreover have "vm_id (demo_model ''v1'' ''auto'') = ''v1''" by (simp add: demo_model_def)
  ultimately show ?thesis by metis
qed

theorem listed_models_are_the_served_ones_witness:
  "\<exists>ms auth vm. list_models True demo_admin_db auth = Inr ms \<and> (''auto'', 0) \<in> set ms \<and>
     resolve_authorized_virtual_model byte_order True True (sd_cat demo_admin_db) ''auto'' ''p'' ''k'' = Inr (Some vm)"
proof -
  define auth where "auth = \<lparr>au_project = hd (ct_projects demo_catalog), au_api_key = hd (ct_api_keys demo_catalog)\<rparr>"
  have ids: "pj_id (au_project auth) = ''p''" "ak_id (au_api_key auth) = ''k''" by (simp_all add: auth_def demo_catalog_simps)
  obtain ms where ms: "list_models True demo_admin_db auth = Inr ms" by (simp add: list_models_def)
  have "demo_model ''v1'' ''auto'' \<in> set (listed_models (sd_cat demo_admin_db) ''p'' ''k'')"
    by (simp add: listed_models_def key_allows_def demo_admin_simps)
  then have "(vm_name (demo_model ''v1'' ''auto''), vm_created_at (demo_model ''v1'' ''auto'') div 1000000000) \<in> set ms"
    using ms unfolding list_models_def ids by (auto simp del: demo_model_def)
  then have auto: "(''auto'', 0) \<in> set ms" by (simp add: demo_model_def)
  with listed_models_are_the_served_ones [OF ms demo_admin_references, unfolded ids] obtain vm where
    "resolve_authorized_virtual_model byte_order True True (sd_cat demo_admin_db) ''auto'' ''p'' ''k'' = Inr (Some vm)"
    by (metis fst_conv)
  with ms auto show ?thesis by blast
qed


end
