(* ===== verification/Control_Plane.thy ===== *)
theory Control_Plane
  imports Providers Admin
begin

text \<open>
  The handlers that write the tables together with the routing tables in memory: which of them
  start a synchronisation when they succeed (\<open>sync\<close> of saas/mod.rs, and the calls in
  saas/providers.rs and api/admin.rs), and which do not. The result of the synchronisation is dropped.
\<close>

section \<open>The state and the steps\<close>

type_synonym plane = "saas_db \<times> sync_state"

definition resync :: "sync_env \<Rightarrow> saas_db \<Rightarrow> sync_state \<Rightarrow> sync_state" where
  "resync env db st = fst (sync_all_pools (env\<lparr>se_db := sd_cat db\<rparr>) st)"

text \<open>A handler synchronises as its last act, so only where it answers success.\<close>

definition resync_if :: "bool \<Rightarrow> sync_env \<Rightarrow> saas_db \<Rightarrow> sync_state \<Rightarrow> sync_state" where
  "resync_if ok env db st = (if ok then resync env db st else st)"

text \<open>Every statement of a synchronisation answers; the text order is the one of the database.\<close>

definition answers :: "(string \<Rightarrow> string \<Rightarrow> ordering) \<Rightarrow> sync_env \<Rightarrow> bool" where
  "answers collate env \<longleftrightarrow> se_pools_ok env \<and> (\<forall>p. se_rows_ok env p) \<and> (\<forall>p. se_vms_ok env p) \<and> se_collate env = collate"

text \<open>
  One handler on the tables and the routing tables, where the database answers. The first group
  synchronises, the second does not.
\<close>

inductive plane_step :: "(string \<Rightarrow> string \<Rightarrow> ordering) \<Rightarrow> plane \<Rightarrow> plane \<Rightarrow> bool" for collate where
  service: "service_step cx db ok db' \<Longrightarrow> answers collate env \<Longrightarrow> plane_step collate (db, st) (db', resync_if ok env db' st)"
| provider_update: "update_provider senv cx i upd db = (db', a1) \<Longrightarrow> answers collate env \<Longrightarrow>
    plane_step collate (db, st) (db', resync_if (\<not> isl a1) env db' st)"
| admin_provider: "admin_create_provider kenv r1 db = (db', a2) \<Longrightarrow> \<forall>s. ke_ok kenv s \<Longrightarrow> answers collate env \<Longrightarrow>
    plane_step collate (db, st) (db', resync_if (\<not> isl a2) env db' st)"
| admin_pool: "create_pool kenv r2 db = (db', a3) \<Longrightarrow> \<forall>s. ke_ok kenv s \<Longrightarrow> answers collate env \<Longrightarrow>
    plane_step collate (db, st) (db', resync_if (\<not> isl a3) env db' st)"
| admin_settings: "admin_update_pool kenv i r3 db = (db', a3) \<Longrightarrow> \<forall>s. ke_ok kenv s \<Longrightarrow> answers collate env \<Longrightarrow>
    plane_step collate (db, st) (db', resync_if (\<not> isl a3) env db' st)"
| admin_endpoint: "create_endpoint kenv r4 db = (db', a4) \<Longrightarrow> \<forall>s. ke_ok kenv s \<Longrightarrow> answers collate env \<Longrightarrow>
    plane_step collate (db, st) (db', resync_if (\<not> isl a4) env db' st)"
| admin_model: "create_virtual_model kenv p name db = (db', a5) \<Longrightarrow> \<forall>s. ke_ok kenv s \<Longrightarrow> answers collate env \<Longrightarrow>
    plane_step collate (db, st) (db', resync_if (\<not> isl a5) env db' st)"
| admin_bind: "bind_endpoint_to_pool kenv r6 db = (db', a1) \<Longrightarrow> answers collate env \<Longrightarrow>
    plane_step collate (db, st) (db', resync_if (\<not> isl a1) env db' st)"
| provider_create: "create_provider senv cx input db = (db', a6) \<Longrightarrow> plane_step collate (db, st) (db', st)"
| provider_delete: "delete_provider senv cx i db = (db', a1) \<Longrightarrow> plane_step collate (db, st) (db', st)"
| key: "key_step cx db ok h db' \<Longrightarrow> plane_step collate (db, st) (db', st)"
| admin_org: "create_org kenv name d db = (db', a7) \<Longrightarrow> plane_step collate (db, st) (db', st)"
| admin_project: "create_project kenv r8 db = (db', a8) \<Longrightarrow> plane_step collate (db, st) (db', st)"
| admin_grant: "grant_model_to_project kenv p v db = (db', a1) \<Longrightarrow> plane_step collate (db, st) (db', st)"
| admin_revoke: "revoke_model_from_project kenv p v db = (db', a1) \<Longrightarrow> plane_step collate (db, st) (db', st)"
| admin_key: "admin_create_api_key kenv r10 db = (db', a10) \<Longrightarrow> plane_step collate (db, st) (db', st)"
| project_quota: "update_project_quota kenv i q db = (db', a8) \<Longrightarrow> plane_step collate (db, st) (db', st)"
| key_quota: "update_api_key_quota kenv i q db = (db', a12) \<Longrightarrow> plane_step collate (db, st) (db', st)"

section \<open>The tables a database stands for\<close>

definition routed_pool :: "catalog \<Rightarrow> string \<Rightarrow> model_pool option" where
  "routed_pool c k = find (\<lambda>p. k \<in> set (pool_keys p (vm_records c (mp_id p)))) (rev (enabled_pools c))"

definition in_step :: "(string \<Rightarrow> string \<Rightarrow> ordering) \<Rightarrow> plane \<Rightarrow> bool" where
  "in_step collate s \<longleftrightarrow> (case s of (db, st) \<Rightarrow> \<forall>k. ss_pools st k = routed_pool (sd_cat db) k \<and>
     ss_pool_members st k = map_option (\<lambda>p. map member_of (pool_rows collate (sd_cat db) (mp_id p))) (routed_pool (sd_cat db) k))"

lemma resync_in_step:
  assumes "answers collate env"
  shows "in_step collate (db, resync env db st)"
proof -
  let ?env = "env\<lparr>se_db := sd_cat db\<rparr>"
  have ok: "snd (sync_loop ?env s ps) = Inr ()" for s ps
    using assms by (induction ps arbitrary: s) (simp_all add: answers_def)
  have "snd (sync_all_pools ?env st) = Inr ()" using assms ok by (simp add: sync_all_pools_def answers_def)
  moreover have "claiming ?env (enabled_pools (se_db ?env)) k = routed_pool (sd_cat db) k" for k
    using assms by (simp add: claiming_def routed_pool_def env_vms_def answers_def)
  moreover have "env_rows ?env p = pool_rows collate (sd_cat db) (mp_id p)" for p
    using assms by (simp add: env_rows_def answers_def)
  ultimately show ?thesis using synced_tables [of ?env st] by (simp add: in_step_def resync_def)
qed

text \<open>What a synchronisation reads: of the accounts only those an endpoint names.\<close>

definition same_routing :: "saas_db \<Rightarrow> saas_db \<Rightarrow> bool" where
  "same_routing db db' \<longleftrightarrow> ct_model_pools (sd_cat db') = ct_model_pools (sd_cat db) \<and>
     ct_virtual_models (sd_cat db') = ct_virtual_models (sd_cat db) \<and>
     ct_pool_endpoints (sd_cat db') = ct_pool_endpoints (sd_cat db) \<and> ct_endpoints (sd_cat db') = ct_endpoints (sd_cat db) \<and>
     (\<forall>e \<in> set (ct_endpoints (sd_cat db)). filter (\<lambda>a. pa_id a = er_account_id e) (ct_accounts (sd_cat db')) =
        filter (\<lambda>a. pa_id a = er_account_id e) (ct_accounts (sd_cat db)))"

lemma same_routing_refl [simp]: "same_routing db db"
  by (simp add: same_routing_def)

lemma joined_by_account:
  "joined_rows c p = concat (map (\<lambda>e. concat (map (\<lambda>(q, ep, pri, wt).
     if er_id e = ep \<and> q = p \<and> er_enabled e then map (sync_row_of e pri wt) (filter (\<lambda>a. pa_status a = ''active'')
       (filter (\<lambda>a. pa_id a = er_account_id e) (ct_accounts c))) else []) (ct_pool_endpoints c))) (ct_endpoints c))"
proof -
  have "concat (map (\<lambda>a. if B \<and> er_account_id e = pa_id a \<and> C \<and> D \<and> pa_status a = ''active'' then [f a] else []) as) =
      (if B \<and> C \<and> D then map f (filter (\<lambda>a. pa_status a = ''active'') (filter (\<lambda>a. pa_id a = er_account_id e) as)) else [])"
    for B C D and e :: endpoint_row and f :: "provider_account \<Rightarrow> sync_row" and as
    by (induction as) auto
  then show ?thesis unfolding joined_rows_def by simp
qed

lemma same_routing_in_step:
  assumes "in_step collate (db, st)" "same_routing db db'"
  shows "in_step collate (db', st)"
proof -
  note same = assms(2) [unfolded same_routing_def]
  have "joined_rows (sd_cat db') p = joined_rows (sd_cat db) p" for p
    unfolding joined_by_account using same by (intro arg_cong [where f = concat] map_cong) auto
  then have "pool_rows collate (sd_cat db') p = pool_rows collate (sd_cat db) p" for p by (simp add: pool_rows_def)
  moreover have "routed_pool (sd_cat db') = routed_pool (sd_cat db)"
    using same by (intro ext) (simp add: routed_pool_def enabled_pools_def vm_records_def)
  ultimately show ?thesis using assms(1) by (simp add: in_step_def)
qed

section \<open>A refused request leaves the tables alone\<close>

lemma service_error: "service_step cx db ok db' \<Longrightarrow> \<not> ok \<Longrightarrow> db' = db"
proof (induction rule: service_step.induct)
  case (create env cx input db db' r1)
  then obtain e where "create_model_service env cx input db = (db', Inl e)" by (cases r1) auto
  then show ?case unfolding create_model_service_def Let_def
    by (auto dest!: try_then_Inl [THEN iffD1] dest: in_transaction_Inl split: if_splits sum.splits)
next
  case (update env cx i upd db db' r2)
  then obtain e where "update_model_service env cx i upd db = (db', Inl e)" by (cases r2) auto
  then show ?case unfolding update_model_service_def Let_def
    by (auto dest!: try_then_Inl [THEN iffD1] dest: in_transaction_Inl split: if_splits sum.splits prod.splits)
next
  case (delete env cx i db db' r3)
  then obtain e where "delete_model_service env cx i db = (db', Inl e)" by (cases r3) auto
  then show ?case unfolding delete_model_service_def
    by (auto dest: in_transaction_Inl split: sum.splits prod.splits)
next
  case (add_endpoint env cx i payload db db' r4)
  then obtain e where "add_model_service_endpoint env cx i payload db = (db', Inl e)" by (cases r4) auto
  then show ?case unfolding add_model_service_endpoint_def Let_def
    by (auto dest!: try_then_Inl [THEN iffD1] dest: in_transaction_Inl split: if_splits sum.splits prod.splits)
next
  case (update_ep env cx i j eupd db db' r3)
  then obtain e where "update_model_service_endpoint env cx i j eupd db = (db', Inl e)" by (cases r3) auto
  then show ?case unfolding update_model_service_endpoint_def
    by (auto dest: in_transaction_Inl split: sum.splits)
next
  case (delete_ep env cx i j db db' r3)
  then obtain e where "delete_model_service_endpoint env cx i j db = (db', Inl e)" by (cases r3) auto
  then show ?case unfolding delete_model_service_endpoint_def
    by (auto dest: in_transaction_Inl split: sum.splits)
qed

lemma reread_found: "i \<in> key ` set rows \<Longrightarrow> reread True key i rows \<noteq> Inl e"
  by (auto simp: reread_def find_None_iff split: option.splits)

lemma insert_then_read:
  assumes "try_then st (\<lambda>_ db. (db, f db)) = (db', Inl e)" "\<And>e db1. st = (db1, Inl e) \<Longrightarrow> db1 = db"
    and "\<And>db1. st = (db1, Inr ()) \<Longrightarrow> f db1 \<noteq> Inl e"
  shows "db' = db"
  using try_then_Inl [THEN iffD1, OF assms(1)] assms(2,3) by auto

lemma insert_Inl:
  "insert_account b org a db = (db1, Inl e) \<Longrightarrow> db1 = db" "insert_pool b org mp db = (db1, Inl e) \<Longrightarrow> db1 = db"
  "insert_endpoint b ep db = (db1, Inl e) \<Longrightarrow> db1 = db" "insert_virtual_model b vm db = (db1, Inl e) \<Longrightarrow> db1 = db"
  "as_db_error (insert_virtual_model b vm db) = (db1, Inl e') \<Longrightarrow> db1 = db"
  by (auto simp: insert_account_def insert_pool_def insert_endpoint_def insert_virtual_model_def as_db_error_def statement_def
      apsnd_def map_prod_def split: if_splits)

lemma admin_errors:
  assumes "\<forall>s. ke_ok env s"
  shows "admin_create_provider env r1 db = (db', Inl e) \<Longrightarrow> db' = db" "create_pool env r2 db = (db', Inl e) \<Longrightarrow> db' = db"
    "admin_update_pool env i r3 db = (db', Inl e) \<Longrightarrow> db' = db" "create_endpoint env r4 db = (db', Inl e) \<Longrightarrow> db' = db"
    "create_virtual_model env p name db = (db', Inl e) \<Longrightarrow> db' = db" "bind_endpoint_to_pool env r6 db = (db', Inl e) \<Longrightarrow> db' = db"
proof -
  have ok: "ke_ok env s = True" for s using assms by simp
  show "db' = db" if "admin_create_provider env r1 db = (db', Inl e)"
    using that unfolding admin_create_provider_def
    by (auto split: sum.splits elim!: insert_then_read dest: insert_Inl simp: ok reread_found insert_account_def admin_account_def)
  show "db' = db" if "create_pool env r2 db = (db', Inl e)"
    using that unfolding create_pool_def
    by (auto split: sum.splits elim!: insert_then_read dest: insert_Inl simp: ok reread_found insert_pool_def admin_pool_def)
  show "db' = db" if "create_endpoint env r4 db = (db', Inl e)"
    using that unfolding create_endpoint_def
    by (auto elim!: insert_then_read dest: insert_Inl simp: ok reread_found insert_endpoint_def admin_endpoint_def)
  show "db' = db" if "create_virtual_model env p name db = (db', Inl e)"
    by (rule insert_then_read [OF that [unfolded create_virtual_model_def]], erule insert_Inl)
      (auto simp: ok reread_found insert_virtual_model_def)
  show "db' = db" if "bind_endpoint_to_pool env r6 db = (db', Inl e)"
    using that by (simp add: bind_endpoint_to_pool_def)
  show "db' = db" if "admin_update_pool env i r3 db = (db', Inl e)"
  proof -
    have "reread True mp_id i (ct_model_pools (sd_cat (update_pool i (pool_columns n r3 old) db))) \<noteq> Inl e"
      if "old \<in> set (ct_model_pools (sd_cat db))" "mp_id old = i" for n old
      by (rule reread_found) (use that in \<open>auto simp: update_pool_def image_update_where\<close>)
    with that show ?thesis unfolding admin_update_pool_def
      by (auto simp: ok find_Some_iff split: option.splits elim!: insert_then_read)
  qed
qed

section \<open>What the other handlers leave alone\<close>

definition same_routes :: "saas_db \<Rightarrow> saas_db \<Rightarrow> bool" where
  "same_routes db db' \<longleftrightarrow> ct_model_pools (sd_cat db') = ct_model_pools (sd_cat db) \<and>
     ct_virtual_models (sd_cat db') = ct_virtual_models (sd_cat db) \<and>
     ct_pool_endpoints (sd_cat db') = ct_pool_endpoints (sd_cat db) \<and> ct_endpoints (sd_cat db') = ct_endpoints (sd_cat db) \<and>
     ct_accounts (sd_cat db') = ct_accounts (sd_cat db)"

lemma same_routes_refl [simp]: "same_routes db db"
  by (simp add: same_routes_def)

lemma same_routes_routing: "same_routes db db' \<Longrightarrow> same_routing db db'"
  by (simp add: same_routes_def same_routing_def)

lemma same_routes_trans: "same_routes a b \<Longrightarrow> same_routes b c \<Longrightarrow> same_routes a c"
  by (simp add: same_routes_def)

lemma same_routes_try_then:
  assumes "same_routes db (fst m)" "\<And>x db1. same_routes db db1 \<Longrightarrow> same_routes db (fst (k x db1))"
  shows "same_routes db (fst (try_then m k))"
  using assms by (cases m; cases "snd m") (auto simp: try_then_def)

lemma same_routes_transaction:
  "same_routes db (fst (body db)) \<Longrightarrow> same_routes db (fst (in_transaction ok body db))"
  by (auto simp: in_transaction_def split: prod.splits sum.splits)

lemma same_routes_insert_grants: "same_routes db db1 \<Longrightarrow> same_routes db (fst (insert_grants env i vs db1))"
proof (induction vs arbitrary: db1)
  case (Cons v vs)
  show ?case unfolding insert_grants.simps
    by (rule same_routes_try_then) (use Cons in \<open>auto simp: fst_statement same_routes_def\<close>)
qed simp

lemma key_step_same: "key_step cx db ok h db' \<Longrightarrow> same_routes db db'"
proof (induction rule: key_step.induct)
  case (create_step env cx input db db' r)
  have "same_routes db (fst (create_api_key env cx input db))"
    unfolding create_api_key_def Let_def
    by (auto split: sum.splits intro!: same_routes_transaction same_routes_try_then same_routes_insert_grants
        simp: insert_key_def Let_def) (simp_all add: same_routes_def)
  then show ?case using create_step by simp
next
  case (update_step env cx i input db db' r')
  have "same_routes db (fst (update_api_key env cx i input db))"
    unfolding update_api_key_def
    by (auto split: sum.splits intro!: same_routes_transaction same_routes_try_then same_routes_insert_grants
        simp: update_key_row_def fst_statement) (simp_all add: same_routes_def update_keys_def clear_grants_def)
  then show ?case using update_step by simp
qed (auto simp: revoke_api_key_def delete_api_key_def same_routes_def update_keys_def clear_grants_def split: if_splits)

lemma admin_same:
  "create_org env name d db = (db', a7) \<Longrightarrow> same_routes db db'" "create_project env r8 db = (db', a8) \<Longrightarrow> same_routes db db'"
  "grant_model_to_project env p v db = (db', a1) \<Longrightarrow> same_routes db db'" "revoke_model_from_project env p v db = (db', a1) \<Longrightarrow> same_routes db db'"
  "admin_create_api_key env r10 db = (db', a10) \<Longrightarrow> same_routes db db'" "update_project_quota env i q db = (db', a8) \<Longrightarrow> same_routes db db'"
  "update_api_key_quota env i q db = (db', a12) \<Longrightarrow> same_routes db db'"
proof -
  show "same_routes db db'" if "create_org env name d db = (db', a7)"
    using that unfolding create_org_def by (auto dest!: statement_then_read simp: fst_statement same_routes_def)
  show "same_routes db db'" if "create_project env r8 db = (db', a8)"
    using that unfolding create_project_def by (auto dest!: statement_then_read simp: fst_statement same_routes_def)
  show "same_routes db db'" if "grant_model_to_project env p v db = (db', a1)"
    using that unfolding grant_model_to_project_def statement_def same_routes_def by (auto split: if_splits)
  show "same_routes db db'" if "revoke_model_from_project env p v db = (db', a1)"
    using that unfolding revoke_model_from_project_def statement_def same_routes_def by (auto split: if_splits)
  show "same_routes db db'" if "admin_create_api_key env r10 db = (db', a10)"
    using single_insert_states(3) [OF that] by (auto simp: insert_key_def Let_def same_routes_def)
  show "same_routes db db'" if "update_project_quota env i q db = (db', a8)"
    using update_project_quota_state [OF that] by (auto simp: same_routes_def)
  show "same_routes db db'" if "update_api_key_quota env i q db = (db', a12)"
    using update_api_key_quota_state [OF that] by (auto simp: same_routes_def)
qed

text \<open>An account is new when it is inserted, and has no endpoint when it is deleted.\<close>

definition accounts_exist :: "saas_db \<Rightarrow> bool" where
  "accounts_exist db \<longleftrightarrow> er_account_id ` set (ct_endpoints (sd_cat db)) \<subseteq> pa_id ` set (ct_accounts (sd_cat db))"

lemma provider_create_same:
  assumes "create_provider env cx input db = (db', a)" "accounts_exist db"
  shows "same_routing db db'"
proof -
  have "fst (insert_account b org acc db) = db \<or> same_routing db (fst (insert_account b org acc db))" for b org acc
    using assms(2) by (auto simp: insert_account_def fst_statement same_routing_def accounts_exist_def filter_empty_conv)
  moreover have "db' = db \<or> (\<exists>b org acc. db' = fst (insert_account b org acc db))"
    using assms(1) unfolding create_provider_def Let_def by (auto dest!: statement_then_read split: if_splits)
  ultimately show ?thesis by (metis same_routing_refl)
qed

lemma provider_delete_same: "delete_provider env cx i db = (db', a) \<Longrightarrow> same_routing db db'"
proof -
  have "same_routing db (delete_account i db)" if "account_endpoints db i = 0"
    using that by (auto simp: same_routing_def delete_account_def account_endpoints_def filter_empty_conv intro!: filter_cong)
  then show "delete_provider env cx i db = (db', a) \<Longrightarrow> same_routing db db'"
    by (auto simp: delete_provider_def in_transaction_def run_statement_def statement_def split: if_splits prod.splits sum.splits)
qed

section \<open>Every endpoint keeps its account\<close>

lemma accounts_try_then:
  assumes "accounts_exist (fst m)" "\<And>x db1. accounts_exist db1 \<Longrightarrow> accounts_exist (fst (k x db1))"
  shows "accounts_exist (fst (try_then m k))"
  using assms by (cases m; cases "snd m") (auto simp: try_then_def)

lemma accounts_transaction:
  "accounts_exist db \<Longrightarrow> (\<And>db1. accounts_exist db1 \<Longrightarrow> accounts_exist (fst (body db1))) \<Longrightarrow> accounts_exist (fst (in_transaction ok body db))"
  by (fastforce simp: in_transaction_def split: prod.splits sum.splits)

lemma accounts_statement: "accounts_exist db \<Longrightarrow> (b \<Longrightarrow> accounts_exist db') \<Longrightarrow> accounts_exist (fst (statement b db db'))"
  by (simp add: fst_statement)

lemma accounts_run: "accounts_exist db \<Longrightarrow> accounts_exist (f db) \<Longrightarrow> accounts_exist (fst (run_statement b f db))"
  by (simp add: run_statement_def accounts_statement)

lemma accounts_same_routes: "same_routes db db' \<Longrightarrow> accounts_exist db \<Longrightarrow> accounts_exist db'"
  by (simp add: same_routes_def accounts_exist_def)

lemma accounts_inserts:
  assumes "accounts_exist db"
  shows "accounts_exist (fst (insert_account b org a db))" "accounts_exist (fst (insert_endpoint b e db))"
    "accounts_exist (fst (insert_link b p i db))" "accounts_exist (fst (insert_pool b org mp db))"
    "accounts_exist (fst (insert_virtual_model b vm db))" "accounts_exist (fst (insert_project_grant b pr v db))"
    "accounts_exist (fst (rename_virtual_model b i name db))"
  using assms by (auto simp: accounts_exist_def insert_account_def insert_endpoint_def insert_link_def insert_pool_def
      insert_virtual_model_def insert_project_grant_def rename_virtual_model_def fst_statement)

lemma accounts_updates:
  assumes "accounts_exist db"
  shows "accounts_exist (update_pool i f db)" "accounts_exist (delete_virtual_models P db)" "accounts_exist (delete_links Q db)"
    "accounts_exist (delete_pool i db)" "accounts_exist (delete_endpoint i db)" "accounts_exist (delete_project_grants i db)"
    "accounts_exist (delete_account_if_unreferenced i db)"
    "(\<And>a. pa_id (g a) = pa_id a) \<Longrightarrow> accounts_exist (update_account i g db)"
    "(\<And>a. pa_id (g a) = pa_id a) \<Longrightarrow> accounts_exist (update_own_account org i g db)"
    "(\<And>e. er_account_id (h e) = er_account_id e) \<Longrightarrow> accounts_exist (update_endpoint i h db)"
    "account_endpoints db i = 0 \<Longrightarrow> accounts_exist (delete_account i db)"
proof -
  have unused: "accounts_exist (delete_account i db)" if "i \<notin> er_account_id ` set (ct_endpoints (sd_cat db))"
  proof -
    have "pa_id ` set (filter (\<lambda>a. pa_id a \<noteq> i) as) = pa_id ` set as - {i}" for as by auto
    then have "pa_id ` set (ct_accounts (sd_cat (delete_account i db))) = pa_id ` set (ct_accounts (sd_cat db)) - {i}"
      by (simp add: delete_account_def)
    moreover have "ct_endpoints (sd_cat (delete_account i db)) = ct_endpoints (sd_cat db)" by (simp add: delete_account_def)
    ultimately show ?thesis using assms that unfolding accounts_exist_def by (simp only: subset_Diff_insert Diff_empty simp_thms)
  qed
  show "accounts_exist (delete_account i db)" if "account_endpoints db i = 0"
    by (rule unused) (use that in \<open>auto simp: account_endpoints_def filter_empty_conv\<close>)
  show "accounts_exist (delete_account_if_unreferenced i db)"
    using assms unused by (auto simp: delete_account_if_unreferenced_def list_ex_iff)
  show "accounts_exist (update_account i g db)" if "\<And>a. pa_id (g a) = pa_id a"
    using assms that by (simp add: accounts_exist_def update_account_def image_update_where)
  show "accounts_exist (update_own_account org i g db)" if "\<And>a. pa_id (g a) = pa_id a"
    using assms that by (simp add: accounts_exist_def update_own_account_def image_update_where)
  show "accounts_exist (update_endpoint i h db)" if "\<And>e. er_account_id (h e) = er_account_id e"
    using assms that by (simp add: accounts_exist_def update_endpoint_def image_update_where)
qed (use assms in \<open>auto simp: accounts_exist_def update_pool_def delete_virtual_models_def delete_links_def delete_pool_def
    delete_endpoint_def delete_project_grants_def Let_def\<close>)

lemmas accounts_intros = accounts_try_then accounts_run accounts_inserts accounts_updates

lemma accounts_attach_endpoint: "accounts_exist db \<Longrightarrow> accounts_exist (fst (attach_endpoint env cx p name n ep db))"
  unfolding attach_endpoint_def Let_def endpoint_account_def
  by (auto intro!: accounts_intros split: option.splits)

lemma accounts_attach: "accounts_exist db \<Longrightarrow> accounts_exist (fst (attach_endpoints env cx p name n eps db))"
proof (induction eps arbitrary: n db)
  case (Cons ep eps)
  then show ?case by (auto intro!: accounts_try_then accounts_attach_endpoint)
qed simp

lemma accounts_delete_endpoints: "accounts_exist db \<Longrightarrow> accounts_exist (fst (delete_endpoints env eps db))"
proof (induction eps arbitrary: db)
  case (Cons x eps)
  then show ?case by (cases x) (auto intro!: accounts_intros)
qed simp

lemma service_accounts: "service_step cx db ok db' \<Longrightarrow> accounts_exist db \<Longrightarrow> accounts_exist db'"
proof (induction rule: service_step.induct)
  case (create env cx input db db' r1)
  have "accounts_exist (fst (create_model_service env cx input db))"
    unfolding create_model_service_def create_service_tx_def Let_def using create(2)
    by (auto split: sum.splits intro!: accounts_intros accounts_transaction accounts_attach)
  then show ?case using create by simp
next
  case (update env cx i upd db db' r2)
  have "accounts_exist (fst (update_model_service env cx i upd db))"
    unfolding update_model_service_def update_service_tx_def rename_service_def Let_def using update(2)
    by (auto split: sum.splits option.splits prod.splits intro!: accounts_intros accounts_transaction)
  then show ?case using update by simp
next
  case (delete env cx i db db' r3)
  have "accounts_exist (fst (delete_model_service env cx i db))"
    unfolding delete_model_service_def delete_service_tx_def Let_def using delete(2)
    by (auto split: sum.splits prod.splits intro!: accounts_intros accounts_transaction accounts_delete_endpoints)
  then show ?case using delete by simp
next
  case (add_endpoint env cx i payload db db' r4)
  have "accounts_exist (fst (add_model_service_endpoint env cx i payload db))"
    unfolding add_model_service_endpoint_def Let_def using add_endpoint(2)
    by (auto split: sum.splits prod.splits intro!: accounts_intros accounts_transaction accounts_attach)
  then show ?case using add_endpoint by simp
next
  case (update_ep env cx i j eupd db db' r3)
  have "accounts_exist (fst (update_model_service_endpoint env cx i j eupd db))"
    unfolding update_model_service_endpoint_def using update_ep(2)
    by (auto split: sum.splits intro!: accounts_intros accounts_transaction simp: new_account_columns_def new_endpoint_columns_def Let_def)
  then show ?case using update_ep by simp
next
  case (delete_ep env cx i j db db' r3)
  have "accounts_exist (fst (delete_model_service_endpoint env cx i j db))"
    unfolding delete_model_service_endpoint_def using delete_ep(2)
    by (auto split: sum.splits intro!: accounts_intros accounts_transaction)
  then show ?case using delete_ep by simp
qed

lemma provider_accounts:
  assumes "accounts_exist db"
  shows "accounts_exist (fst (create_provider env cx input db))" "accounts_exist (fst (update_provider env cx i upd db))"
    "accounts_exist (fst (delete_provider env cx i db))"
  unfolding create_provider_def update_provider_def delete_provider_def set_column_def Let_def using assms
  by (auto split: option.splits intro!: accounts_intros accounts_transaction)

lemma admin_accounts:
  assumes "accounts_exist db"
  shows "admin_create_provider kenv r1 db = (db', a2) \<Longrightarrow> accounts_exist db'" "create_pool kenv r2 db = (db', a3) \<Longrightarrow> accounts_exist db'"
    "admin_update_pool kenv i r3 db = (db', a3) \<Longrightarrow> accounts_exist db'" "create_endpoint kenv r4 db = (db', a4) \<Longrightarrow> accounts_exist db'"
    "create_virtual_model kenv p name db = (db', a5) \<Longrightarrow> accounts_exist db'" "bind_endpoint_to_pool kenv r6 db = (db', a1) \<Longrightarrow> accounts_exist db'"
proof -
  show "accounts_exist db'" if "admin_create_provider kenv r1 db = (db', a2)"
    using admin_create_provider_state [OF that] accounts_inserts [OF assms] assms by auto
  show "accounts_exist db'" if "create_pool kenv r2 db = (db', a3)"
    using create_pool_state [OF that] accounts_inserts [OF assms] assms by auto
  show "accounts_exist db'" if "admin_update_pool kenv i r3 db = (db', a3)"
    using admin_update_pool_state [OF that] accounts_updates [OF assms] assms by auto
  show "accounts_exist db'" if "create_endpoint kenv r4 db = (db', a4)"
    using single_insert_states(1) [OF that] accounts_inserts [OF assms] by auto
  show "accounts_exist db'" if "create_virtual_model kenv p name db = (db', a5)"
    using single_insert_states(2) [OF that] accounts_inserts [OF assms] by auto
  show "accounts_exist db'" if "bind_endpoint_to_pool kenv r6 db = (db', a1)"
  proof -
    have "ct_endpoints (sd_cat db') = ct_endpoints (sd_cat db) \<and> ct_accounts (sd_cat db') = ct_accounts (sd_cat db)"
      using that by (auto simp: bind_endpoint_to_pool_def statement_def split: if_splits)
    then show ?thesis using assms by (simp add: accounts_exist_def)
  qed
qed

section \<open>The routing tables follow the database\<close>

lemma resync_if_in_step:
  assumes "answers collate env" "in_step collate (db, st)" "\<not> ok \<Longrightarrow> db' = db"
  shows "in_step collate (db', resync_if ok env db' st)"
  using assms resync_in_step [OF assms(1)] by (cases ok) (simp_all add: resync_if_def)

lemma plane_step_keeps:
  assumes "plane_step collate s s'" "in_step collate s" "accounts_exist (fst s)"
  shows "in_step collate s' \<and> accounts_exist (fst s')"
  using assms
proof (induction rule: plane_step.induct)
  case (service cx db ok db' env st)
  then show ?case using resync_if_in_step service_error service_accounts by (metis fst_conv)
next
  case (provider_update senv cx i upd db db' a1 env st)
  have "\<not> \<not> isl a1 \<Longrightarrow> db' = db" using provider_update(1) in_transaction_Inl unfolding update_provider_def by (cases a1) auto
  then show ?case using provider_update provider_accounts(2) [of db senv cx i upd] resync_if_in_step by fastforce
next
  case (admin_provider kenv r1 db db' a2 env st)
  have "\<not> \<not> isl a2 \<Longrightarrow> db' = db" using admin_provider(1) admin_errors(1) [OF admin_provider(2)] by (cases a2) auto
  then show ?case using admin_provider admin_accounts(1) [of db] resync_if_in_step by fastforce
next
  case (admin_pool kenv r2 db db' a3 env st)
  have "\<not> \<not> isl a3 \<Longrightarrow> db' = db" using admin_pool(1) admin_errors(2) [OF admin_pool(2)] by (cases a3) auto
  then show ?case using admin_pool admin_accounts(2) [of db] resync_if_in_step by fastforce
next
  case (admin_settings kenv i r3 db db' a3 env st)
  have "\<not> \<not> isl a3 \<Longrightarrow> db' = db" using admin_settings(1) admin_errors(3) [OF admin_settings(2)] by (cases a3) auto
  then show ?case using admin_settings admin_accounts(3) [of db] resync_if_in_step by fastforce
next
  case (admin_endpoint kenv r4 db db' a4 env st)
  have "\<not> \<not> isl a4 \<Longrightarrow> db' = db" using admin_endpoint(1) admin_errors(4) [OF admin_endpoint(2)] by (cases a4) auto
  then show ?case using admin_endpoint admin_accounts(4) [of db] resync_if_in_step by fastforce
next
  case (admin_model kenv p name db db' a5 env st)
  have "\<not> \<not> isl a5 \<Longrightarrow> db' = db" using admin_model(1) admin_errors(5) [OF admin_model(2)] by (cases a5) auto
  then show ?case using admin_model admin_accounts(5) [of db] resync_if_in_step by fastforce
next
  case (admin_bind kenv r6 db db' a1 env st)
  have "\<not> \<not> isl a1 \<Longrightarrow> db' = db" using admin_bind(1) by (cases a1) (auto simp: bind_endpoint_to_pool_def)
  then show ?case using admin_bind admin_accounts(6) [of db] resync_if_in_step by fastforce
next
  case (provider_create senv cx input db db' a6 st)
  then show ?case using same_routing_in_step provider_create_same [of senv cx input db] provider_accounts(1) [of db senv cx input] by fastforce
next
  case (provider_delete senv cx i db db' a1 st)
  then show ?case using same_routing_in_step provider_delete_same [of senv cx i db] provider_accounts(3) [of db senv cx i] by fastforce
qed (use key_step_same admin_same same_routes_routing same_routing_in_step accounts_same_routes in \<open>metis fst_conv\<close>)+


text \<open>
  Where the read after the insert of a pool fails, the administrator is answered an error and nothing is
  synchronised, but the pool is in the database: a model service that uses it is not routed.
\<close>

definition demo_pool_request :: create_pool_request where
  "demo_pool_request = \<lparr>cp_name = ''new'', cp_strategy = ''cost_aware'', cp_org_id = None, cp_tool_trim_enabled = None,
     cp_tool_trim_dry_run = None, cp_max_tool_chars = None, cp_session_affinity_enabled = None, cp_session_affinity_ttl_secs = None\<rparr>"

lemma failed_read_leaves_a_pool_unrouted:
  "\<exists>db'. create_pool (demo_key_env\<lparr>ke_ok := (\<lambda>s. s \<noteq> ''select pool'')\<rparr>) demo_pool_request demo_admin_db = (db', Inl db_error) \<and>
     routed_pool (sd_cat db') ''new'' \<noteq> None \<and> routed_pool (sd_cat demo_admin_db) ''new'' = None"
  by (simp add: create_pool_def resolve_admin_org_id_def insert_pool_def statement_def try_then_def reread_def admin_pool_def
      demo_pool_request_def demo_admin_simps routed_pool_def enabled_pools_def pool_keys_def vm_records_def sort_by_def)

section \<open>Witnesses\<close>

definition demo_sync_env :: sync_env where
  "demo_sync_env = \<lparr>se_db = empty_catalog, se_now = 0, se_collate = byte_order, se_pools_ok = True, se_rows_ok = (\<lambda>_. True),
     se_vms_ok = (\<lambda>_. True)\<rparr>"

lemma demo_answers: "answers byte_order demo_sync_env"
  by (simp add: answers_def demo_sync_env_def)


end
